(* ===== verification/Go_Prelude.thy ===== *)
theory Go_Prelude
  imports Main "HOL-Library.Word" "HOL-Library.Sublist" "HOL-Library.Char_ord"
    "HOL-Library.List_Lexorder"
begin

text \<open>
  The prelude of the development: the model of Go's basic values that every component
  shares (bounded integers, instants and durations, fallible results), the lemma
  collections the components add to, the interface locales that several components
  implement, and generic facts on lists and maps.
\<close>

named_theorems go_defs \<open>definitions that model straight-line code and unfold in proofs\<close>
named_theorems go_bounds \<open>bounds of the model's functions\<close>

subsection \<open>Integers\<close>

text \<open>
  Go's \<open>int\<close> and \<open>int64\<close> are 64-bit two's complement. Where the code cannot
  overflow they are plain \<open>int\<close>; where an overflow matters the wrap-around is
  written out with \<open>wrap64\<close>. Division and remainder truncate towards zero.
\<close>

definition max_int64 :: int where
  "max_int64 = 2 ^ 63 - 1"

definition min_int64 :: int where
  "min_int64 = - (2 ^ 63)"

definition wrap64 :: "int \<Rightarrow> int" where
  "wrap64 x = (x + 2 ^ 63) mod 2 ^ 64 - 2 ^ 63"

definition clamp64 :: "int \<Rightarrow> int" where
  "clamp64 x = max min_int64 (min max_int64 x)"

definition go_div :: "int \<Rightarrow> int \<Rightarrow> int" where
  "go_div a b = sgn a * sgn b * (\<bar>a\<bar> div \<bar>b\<bar>)"

definition go_mod :: "int \<Rightarrow> int \<Rightarrow> int" where
  "go_mod a b = a - b * go_div a b"

lemma wrap64_id [simp]: "min_int64 \<le> x \<Longrightarrow> x \<le> max_int64 \<Longrightarrow> wrap64 x = x"
  by (simp add: wrap64_def min_int64_def max_int64_def)

lemma wrap64_range [go_bounds]: "min_int64 \<le> wrap64 x" "wrap64 x \<le> max_int64"
proof -
  have "0 \<le> (x + 9223372036854775808) mod 18446744073709551616"
    "(x + 9223372036854775808) mod 18446744073709551616 < (18446744073709551616 :: int)"
    by simp_all
  then show "min_int64 \<le> wrap64 x" "wrap64 x \<le> max_int64"
    by (simp_all add: wrap64_def min_int64_def max_int64_def)
qed

lemma clamp64_id [simp]: "min_int64 \<le> x \<Longrightarrow> x \<le> max_int64 \<Longrightarrow> clamp64 x = x"
  by (simp add: clamp64_def)

lemma go_div_nonneg: "0 \<le> a \<Longrightarrow> 0 < b \<Longrightarrow> go_div a b = a div b"
  by (cases "a = 0") (simp_all add: go_div_def)

lemma go_mod_nonneg: "0 \<le> a \<Longrightarrow> 0 < b \<Longrightarrow> go_mod a b = a mod b"
  by (simp add: go_mod_def go_div_nonneg minus_mult_div_eq_mod)

subsection \<open>Time\<close>

text \<open>
  An instant is the number of nanoseconds since the zero \<open>time.Time\<close> (1 January of
  year 1), so \<open>IsZero\<close> is a comparison with 0; a duration is a number of
  nanoseconds. \<open>Sub\<close> saturates at the ends of \<open>int64\<close>, as the library does.
\<close>

type_synonym instant = int
type_synonym duration = int

definition nanosecond :: duration where "nanosecond = 1"
definition millisecond :: duration where "millisecond = 1000000"
definition second :: duration where "second = 1000000000"
definition minute :: duration where "minute = 60000000000"
definition hour :: duration where "hour = 3600000000000"

lemmas duration_units = nanosecond_def millisecond_def second_def minute_def hour_def

definition time_sub :: "instant \<Rightarrow> instant \<Rightarrow> duration" where
  "time_sub a b = clamp64 (a - b)"

definition time_after :: "instant \<Rightarrow> instant \<Rightarrow> bool" where
  "time_after a b \<longleftrightarrow> b < a"

definition is_zero_time :: "instant \<Rightarrow> bool" where
  "is_zero_time t \<longleftrightarrow> t = 0"

lemma time_sub_less_iff:
  assumes "min_int64 < d" and "d \<le> max_int64"
  shows "time_sub a b < d \<longleftrightarrow> a - b < d"
  using assms by (auto simp: time_sub_def clamp64_def)

lemma time_sub_self [simp]: "time_sub t t = 0"
  by (simp add: time_sub_def clamp64_def min_int64_def max_int64_def)

subsection \<open>Defaults and bounds\<close>

text \<open>The two shapes nearly every configuration value goes through.\<close>

definition default_pos :: "int \<Rightarrow> int \<Rightarrow> int" where
  "default_pos v fallback = (if v \<le> 0 then fallback else v)"

definition at_most :: "int \<Rightarrow> int \<Rightarrow> int" where
  "at_most limit v = (if v > limit then limit else v)"

lemma default_pos_pos [simp, go_bounds]: "0 < fallback \<Longrightarrow> 0 < default_pos v fallback"
  by (simp add: default_pos_def)

lemma at_most_le [simp, go_bounds]: "at_most limit v \<le> limit"
  by (simp add: at_most_def)

lemma at_most_pos [simp, go_bounds]: "0 < limit \<Longrightarrow> 0 < v \<Longrightarrow> 0 < at_most limit v"
  by (simp add: at_most_def)

lemma default_pos_idem [simp]:
  "0 < fallback \<Longrightarrow> default_pos (default_pos v fallback) fallback' = default_pos v fallback"
  by (simp add: default_pos_def)

lemma at_most_idem [simp]: "at_most limit (at_most limit v) = at_most limit v"
  by (simp add: at_most_def)

subsection \<open>Invariants of step relations\<close>

text \<open>
  The contract between a component's step relation and an invariant of its state: what
  every step keeps holds in every state that is reachable from a state where it holds.
\<close>

locale step_invariant =
  fixes step :: "'s \<Rightarrow> 's \<Rightarrow> bool"
    and inv :: "'s \<Rightarrow> bool"
  assumes step_keeps: "inv s \<Longrightarrow> step s t \<Longrightarrow> inv t"
begin

lemma steps_keep: "step\<^sup>*\<^sup>* s t \<Longrightarrow> inv s \<Longrightarrow> inv t"
  by (induction rule: rtranclp_induct) (auto intro: step_keeps)

lemma next_of_reachable: "step\<^sup>*\<^sup>* s t \<Longrightarrow> inv s \<Longrightarrow> step t u \<Longrightarrow> inv u"
  by (blast intro: steps_keep step_keeps)

end

text \<open>
  A quantity that no step decreases: a clock, a generation counter, a version number.
\<close>

locale step_monotone =
  fixes step :: "'s \<Rightarrow> 's \<Rightarrow> bool"
    and measure_of :: "'s \<Rightarrow> 'a :: preorder"
  assumes step_grows: "step s t \<Longrightarrow> measure_of s \<le> measure_of t"
begin

lemma steps_grow: "step\<^sup>*\<^sup>* s t \<Longrightarrow> measure_of s \<le> measure_of t"
  by (induction rule: rtranclp_induct) (auto intro: order_trans step_grows)

end

subsection \<open>Sanitisers\<close>

text \<open>
  Several components pass untrusted strings through a function that either keeps an
  acceptable value or replaces it by a safe one. The contract: its results are
  acceptable, and an acceptable value is left alone. Then it is idempotent, and the
  values it can return are exactly the acceptable ones, so sanitising at both ends of a
  transport loses nothing.
\<close>

locale sanitizer =
  fixes clean :: "'a \<Rightarrow> 'a"
    and acceptable :: "'a \<Rightarrow> bool"
  assumes clean_acceptable: "acceptable (clean x)"
    and clean_id: "acceptable x \<Longrightarrow> clean x = x"
begin

lemma clean_idem: "clean (clean x) = clean x"
  by (simp add: clean_acceptable clean_id)

lemma range_clean: "range clean = Collect acceptable"
  using clean_acceptable clean_id by (auto simp: image_iff) metis

lemma clean_fixed_iff: "clean x = x \<longleftrightarrow> acceptable x"
  using clean_acceptable clean_id by metis

end

subsection \<open>Lists\<close>

text \<open>Association lists stand for Go maps where the order of iteration is explicit.\<close>

definition keep_last :: "('k \<times> 'v) list \<Rightarrow> 'k \<Rightarrow> 'v option" where
  "keep_last xs = map_of (rev xs)"

lemma keep_last_snoc [simp]: "keep_last (xs @ [(k, v)]) = (keep_last xs)(k \<mapsto> v)"
  by (auto simp: keep_last_def)

lemma keep_last_Nil [simp]: "keep_last [] = Map.empty"
  by (simp add: keep_last_def)

lemma dom_keep_last: "dom (keep_last xs) = fst ` set xs"
  by (simp add: keep_last_def dom_map_of_conv_image_fst)

lemma option_eqI: "(\<And>x. a = Some x \<longleftrightarrow> b = Some x) \<Longrightarrow> a = b"
  by (cases a; cases b) auto

lemma map_of_rev_distinct: "distinct (map fst xs) \<Longrightarrow> map_of (rev xs) = map_of xs"
proof (induction xs)
  case (Cons x xs)
  then have "map_of xs (fst x) = None"
    by (simp add: map_of_eq_None_iff)
  with Cons show ?case
    by (cases x) (auto simp: map_add_def fun_eq_iff split: option.split)
qed simp

end
