(* ===== verification/Backoff.thy ===== *)
theory Backoff
  imports Complex_Main Go_Prelude
begin

text \<open>
  Exponential backoff, as the retry loop of \<open>clientx/client.go\<close> and the consumer loop of
  \<open>contrib/stream/redis/consumer.go\<close> compute it. Go's \<open>float64\<close> operations are exact
  rational operations followed by IEEE rounding \<open>fl\<close>, a parameter; a conversion to a
  duration truncates. The interface \<open>backoff_policy\<close> is what a loop may rely on.
\<close>

subsection \<open>Floating point\<close>

definition trunc_rat :: "rat \<Rightarrow> int" where
  "trunc_rat x = (if 0 \<le> x then \<lfloor>x\<rfloor> else \<lceil>x\<rceil>)"

text \<open>What IEEE rounding to nearest guarantees: it is monotone and exact up to 2^53.\<close>

definition ieee_rounding :: "(rat \<Rightarrow> rat) \<Rightarrow> bool" where
  "ieee_rounding fl \<longleftrightarrow> mono fl \<and> (\<forall>n :: int. \<bar>n\<bar> \<le> 2 ^ 53 \<longrightarrow> fl (of_int n) = of_int n)"

lemma fl_int: "ieee_rounding fl \<Longrightarrow> \<bar>n\<bar> \<le> 2 ^ 53 \<Longrightarrow> fl (of_int n) = of_int n"
  by (simp add: ieee_rounding_def)

lemma fl_bounds:
  assumes fl: "ieee_rounding fl" and "\<bar>m\<bar> \<le> 2 ^ 53" "\<bar>n\<bar> \<le> 2 ^ 53"
    and "of_int m \<le> x" "x \<le> of_int n"
  shows "of_int m \<le> fl x \<and> fl x \<le> of_int n"
proof -
  have "mono fl" using fl by (simp add: ieee_rounding_def)
  then have "fl (of_int m) \<le> fl x" "fl x \<le> fl (of_int n)"
    using assms(4,5) by (auto dest: monoD)
  with fl_int [OF fl] assms(2,3) show ?thesis by simp
qed

lemma ieee_rounding_id: "ieee_rounding (\<lambda>x. x)"
  by (simp add: ieee_rounding_def mono_def)

lemma trunc_rat_bounds: "0 \<le> x \<Longrightarrow> x \<le> of_int n \<Longrightarrow> 0 \<le> trunc_rat x \<and> trunc_rat x \<le> n"
  by (simp add: trunc_rat_def) linarith

lemma trunc_rat_nonneg: "0 \<le> x \<Longrightarrow> 0 \<le> trunc_rat x"
  by (simp add: trunc_rat_def)

subsection \<open>The code\<close>

definition next_backoff :: "(rat \<Rightarrow> rat) \<Rightarrow> duration \<Rightarrow> duration \<Rightarrow> rat \<Rightarrow> duration" where
  "next_backoff fl current limit multiplier =
    (let nxt = trunc_rat (fl (fl (of_int current) * multiplier))
     in if nxt > limit then limit else nxt)"

text \<open>\<open>r\<close> is the value of \<open>rand.Float64()\<close>, in \<open>[0, 1)\<close>.\<close>

definition jitter_delta :: "(rat \<Rightarrow> rat) \<Rightarrow> rat \<Rightarrow> rat \<Rightarrow> rat" where
  "jitter_delta fl fraction r = fl (fl (fl (r * 2) - 1) * fraction)"

definition jitter_backoff :: "(rat \<Rightarrow> rat) \<Rightarrow> duration \<Rightarrow> rat \<Rightarrow> rat \<Rightarrow> duration" where
  "jitter_backoff fl d fraction r =
    (if d \<le> 0 \<or> fraction \<le> 0 then d
     else let result = trunc_rat (fl (fl (of_int d) * fl (1 + jitter_delta fl fraction r)))
          in if result < 0 then 0 else result)"

definition next_consumer_backoff :: "duration \<Rightarrow> duration \<Rightarrow> duration" where
  "next_consumer_backoff current maximum =
    (if current \<ge> maximum \<or> current > go_div maximum 2 then maximum else current * 2)"

definition jitter_consumer_backoff :: "(rat \<Rightarrow> rat) \<Rightarrow> duration \<Rightarrow> rat \<Rightarrow> rat \<Rightarrow> duration" where
  "jitter_consumer_backoff fl delay fraction r =
    (if delay \<le> 0 \<or> fraction \<le> 0 then delay
     else trunc_rat (fl (fl (of_int delay) * fl (1 + jitter_delta fl fraction r))))"

subsection \<open>The interface\<close>

locale backoff_policy =
  fixes step :: "duration \<Rightarrow> duration"
    and cap :: duration
  assumes step_nonneg: "0 \<le> d \<Longrightarrow> d \<le> cap \<Longrightarrow> 0 \<le> step d"
    and step_cap: "0 \<le> d \<Longrightarrow> d \<le> cap \<Longrightarrow> step d \<le> cap"
begin

lemma steps_range: "0 \<le> d \<Longrightarrow> d \<le> cap \<Longrightarrow> 0 \<le> (step ^^ n) d \<and> (step ^^ n) d \<le> cap"
  by (induction n) (auto intro: step_nonneg step_cap)

end

text \<open>A policy that never shortens the delay: the delays of an outage are a chain.\<close>

locale growing_backoff = backoff_policy +
  assumes step_grows: "0 \<le> d \<Longrightarrow> d \<le> cap \<Longrightarrow> d \<le> step d"
begin

lemma steps_grow: "0 \<le> d \<Longrightarrow> d \<le> cap \<Longrightarrow> m \<le> n \<Longrightarrow> (step ^^ m) d \<le> (step ^^ n) d"
proof (induction n)
  case (Suc n)
  then show ?case
    using steps_range [of d n] step_grows [of "(step ^^ n) d"] by (cases "m = Suc n") auto
qed simp

end

lemma next_backoff_le: "next_backoff fl d limit mult \<le> limit"
  by (simp add: next_backoff_def Let_def)

lemma next_backoff_nonneg:
  assumes "ieee_rounding fl" and "0 \<le> mult" and "0 \<le> d" and "0 \<le> limit"
  shows "0 \<le> next_backoff fl d limit mult"
proof -
  have mono: "mono fl" and zero: "fl 0 = 0"
    using assms(1) fl_int [OF assms(1), of 0] by (simp_all add: ieee_rounding_def)
  have "0 \<le> fl (of_int d)" using monoD [OF mono, of 0 "of_int d"] assms(3) zero by simp
  then have "0 \<le> fl (of_int d) * mult" using assms(2) by simp
  then have "0 \<le> fl (fl (of_int d) * mult)"
    using monoD [OF mono, of 0 "fl (of_int d) * mult"] zero by simp
  then show ?thesis
    using assms(4) trunc_rat_nonneg by (simp add: next_backoff_def Let_def)
qed

interpretation consumer_policy: growing_backoff "\<lambda>d. next_consumer_backoff d m" m for m
  by unfold_locales (auto simp: next_consumer_backoff_def go_div_def sgn_if)

text \<open>The jittered delay is not negative and at most twice the delay.\<close>

lemma jitter_factor:
  assumes fl: "ieee_rounding fl" and "0 \<le> r" "r \<le> 1" "0 \<le> f" "f \<le> 1"
  shows "0 \<le> fl (1 + jitter_delta fl f r) \<and> fl (1 + jitter_delta fl f r) \<le> 2"
proof -
  note B = fl_bounds [OF fl]
  have "0 \<le> fl (r * 2) \<and> fl (r * 2) \<le> 2"
    using assms B [of 0 2 "r * 2"] by simp
  then have "- 1 \<le> fl (fl (r * 2) - 1) \<and> fl (fl (r * 2) - 1) \<le> 1"
    using B [of "- 1" 1 "fl (r * 2) - 1"] by simp
  then have "\<bar>fl (fl (r * 2) - 1) * f\<bar> \<le> 1"
    using assms(4,5) by (auto simp: abs_mult intro!: mult_le_one)
  then have "- 1 \<le> jitter_delta fl f r \<and> jitter_delta fl f r \<le> 1"
    using B [of "- 1" 1 "fl (fl (r * 2) - 1) * f"] by (simp add: jitter_delta_def abs_le_iff)
  then show ?thesis
    using B [of 0 2 "1 + jitter_delta fl f r"] by simp
qed

lemma jitter_scaled:
  assumes fl: "ieee_rounding fl" and "0 \<le> r" "r \<le> 1" "0 \<le> f" "f \<le> 1" "0 \<le> d" "d \<le> 2 ^ 52"
  shows "0 \<le> trunc_rat (fl (fl (of_int d) * fl (1 + jitter_delta fl f r))) \<and>
    trunc_rat (fl (fl (of_int d) * fl (1 + jitter_delta fl f r))) \<le> 2 * d"
proof -
  note F = jitter_factor [OF assms(1-5)]
  have "fl (of_int d) = of_int d" using fl_int [OF fl, of d] assms(6,7) by simp
  moreover have "0 \<le> of_int d * fl (1 + jitter_delta fl f r)"
    using F assms(6) by simp
  moreover have "of_int d * fl (1 + jitter_delta fl f r) \<le> of_int (2 * d)"
    using F assms(6) mult_left_mono [of "fl (1 + jitter_delta fl f r)" 2 "of_int d"]
    by (simp add: mult.commute)
  ultimately have "0 \<le> fl (fl (of_int d) * fl (1 + jitter_delta fl f r)) \<and>
      fl (fl (of_int d) * fl (1 + jitter_delta fl f r)) \<le> of_int (2 * d)"
    using fl_bounds [OF fl, of 0 "2 * d" "of_int d * fl (1 + jitter_delta fl f r)"] assms(6,7)
    by simp
  then show ?thesis by (intro trunc_rat_bounds) auto
qed

lemma jitter_backoff_range:
  assumes "ieee_rounding fl" and "0 \<le> r" "r \<le> 1" "f \<le> 1" "0 \<le> d" "d \<le> 2 ^ 52"
  shows "0 \<le> jitter_backoff fl d f r \<and> jitter_backoff fl d f r \<le> 2 * d"
  using jitter_scaled [of fl r f d] assms by (auto simp: jitter_backoff_def Let_def)

lemma jitter_consumer_backoff_range:
  assumes "ieee_rounding fl" and "0 \<le> r" "r \<le> 1" "f \<le> 1" "0 \<le> d" "d \<le> 2 ^ 52"
  shows "0 \<le> jitter_consumer_backoff fl d f r \<and> jitter_consumer_backoff fl d f r \<le> 2 * d"
  using jitter_scaled [of fl r f d] assms by (auto simp: jitter_consumer_backoff_def)

end
