(* ===== verification/Go_Strings.thy ===== *)
theory Go_Strings
  imports Go_Prelude
begin

text \<open>
  The part of Go's \<open>strings\<close>, \<open>strconv\<close> and \<open>net\<close> packages the program uses. A
  Go string is its list of bytes (\<open>string\<close>, a list of 8-bit characters), so \<open>length\<close>
  is Go's \<open>len\<close>. White space is Unicode's, in UTF-8; case mapping is exact on ASCII and
  on the non-ASCII letters whose lower case (or case folding) is ASCII, and leaves the
  other non-ASCII letters alone.
\<close>

subsection \<open>Trimming\<close>

definition space_seqs :: "string list" where
  "space_seqs =
    [[CHR 0x09], [CHR 0x0A], [CHR 0x0B], [CHR 0x0C], [CHR 0x0D], [CHR 0x20],
     [CHR 0xC2, CHR 0x85], [CHR 0xC2, CHR 0xA0], [CHR 0xE1, CHR 0x9A, CHR 0x80],
     [CHR 0xE2, CHR 0x80, CHR 0x80], [CHR 0xE2, CHR 0x80, CHR 0x81],
     [CHR 0xE2, CHR 0x80, CHR 0x82], [CHR 0xE2, CHR 0x80, CHR 0x83],
     [CHR 0xE2, CHR 0x80, CHR 0x84], [CHR 0xE2, CHR 0x80, CHR 0x85],
     [CHR 0xE2, CHR 0x80, CHR 0x86], [CHR 0xE2, CHR 0x80, CHR 0x87],
     [CHR 0xE2, CHR 0x80, CHR 0x88], [CHR 0xE2, CHR 0x80, CHR 0x89],
     [CHR 0xE2, CHR 0x80, CHR 0x8A], [CHR 0xE2, CHR 0x80, CHR 0xA8],
     [CHR 0xE2, CHR 0x80, CHR 0xA9], [CHR 0xE2, CHR 0x80, CHR 0xAF],
     [CHR 0xE2, CHR 0x81, CHR 0x9F], [CHR 0xE3, CHR 0x80, CHR 0x80]]"

definition seq_at :: "string list \<Rightarrow> string \<Rightarrow> string option" where
  "seq_at ws s = find (\<lambda>w. w \<noteq> [] \<and> prefix w s) ws"

lemma seq_at_SomeD: "seq_at ws s = Some w \<Longrightarrow> w \<in> set ws \<and> w \<noteq> [] \<and> prefix w s"
  by (auto simp: seq_at_def find_Some_iff)

lemma seq_at_None_iff: "seq_at ws s = None \<longleftrightarrow> (\<forall>w\<in>set ws. w = [] \<or> \<not> prefix w s)"
  by (auto simp: seq_at_def find_None_iff)

function drop_seqs :: "string list \<Rightarrow> string \<Rightarrow> string" where
  "drop_seqs ws s =
    (case seq_at ws s of None \<Rightarrow> s | Some w \<Rightarrow> drop_seqs ws (drop (length w) s))"
  by pat_completeness auto
termination
  by (relation "measure (\<lambda>(ws, s). length s)")
    (auto dest!: seq_at_SomeD simp: prefix_def)

declare drop_seqs.simps [simp del]

definition trim_left :: "string \<Rightarrow> string" where
  "trim_left s = drop_seqs space_seqs s"

definition trim_right :: "string \<Rightarrow> string" where
  "trim_right s = rev (drop_seqs (map rev space_seqs) (rev s))"

definition trim_space :: "string \<Rightarrow> string" where
  "trim_space s = trim_right (trim_left s)"

lemma drop_seqs_None: "seq_at ws s = None \<Longrightarrow> drop_seqs ws s = s"
  by (simp add: drop_seqs.simps [of ws s])

lemma seq_at_drop_seqs: "seq_at ws (drop_seqs ws s) = None"
proof (induction ws s rule: drop_seqs.induct)
  case (1 ws s)
  then show ?case
    by (cases "seq_at ws s") (simp_all add: drop_seqs.simps [of ws s])
qed

lemma drop_seqs_suffix: "suffix (drop_seqs ws s) s"
proof (induction ws s rule: drop_seqs.induct)
  case (1 ws s)
  then show ?case
    by (cases "seq_at ws s")
      (auto simp: drop_seqs.simps [of ws s] intro: suffix_order.trans suffix_drop)
qed

lemma seq_at_prefix_None: "seq_at ws s = None \<Longrightarrow> prefix t s \<Longrightarrow> seq_at ws t = None"
  by (auto simp: seq_at_None_iff intro: prefix_order.trans)

lemma trim_right_prefix: "prefix (trim_right s) s"
  using drop_seqs_suffix [of "map rev space_seqs" "rev s"]
  by (simp add: trim_right_def suffix_to_prefix)

lemma trim_left_suffix: "suffix (trim_left s) s"
  by (simp add: trim_left_def drop_seqs_suffix)

definition trimmed :: "string \<Rightarrow> bool" where
  "trimmed s \<longleftrightarrow> seq_at space_seqs s = None \<and> seq_at (map rev space_seqs) (rev s) = None"

lemma trimmed_trim_space: "trimmed (trim_space s)"
proof -
  have "seq_at space_seqs (trim_left s) = None"
    by (simp add: trim_left_def seq_at_drop_seqs)
  then have "seq_at space_seqs (trim_space s) = None"
    unfolding trim_space_def by (rule seq_at_prefix_None) (rule trim_right_prefix)
  moreover have "seq_at (map rev space_seqs) (rev (trim_space s)) = None"
    by (simp add: trim_space_def trim_right_def seq_at_drop_seqs)
  ultimately show ?thesis by (simp add: trimmed_def)
qed

lemma trim_space_trimmed: "trimmed s \<Longrightarrow> trim_space s = s"
  by (simp add: trimmed_def trim_space_def trim_left_def trim_right_def drop_seqs_None)

interpretation trimming: sanitizer trim_space trimmed
  by unfold_locales (simp_all add: trimmed_trim_space trim_space_trimmed)

lemmas trim_space_idem [simp] = trimming.clean_idem

lemma trim_space_sublist: "sublist (trim_space s) s"
proof -
  obtain a where "s = a @ trim_left s" using trim_left_suffix [of s] by (auto simp: suffix_def)
  moreover obtain b where "trim_left s = trim_space s @ b"
    using trim_right_prefix [of "trim_left s"] by (auto simp: prefix_def trim_space_def)
  ultimately have "s = a @ trim_space s @ b" by simp
  then show ?thesis by (auto simp: sublist_def)
qed

lemma length_trim_space: "length (trim_space s) \<le> length s"
  using trim_space_sublist by (rule sublist_length_le)

lemma set_trim_space: "set (trim_space s) \<subseteq> set s"
  using trim_space_sublist by (rule set_mono_sublist)

lemma trim_space_Nil [simp]: "trim_space [] = []"
  using length_trim_space [of "[]"] by simp

text \<open>A string without any byte that starts or ends a white-space sequence is trimmed.\<close>

definition space_bytes :: "char list" where
  "space_bytes = concat space_seqs"

lemma trimmed_if_no_space_bytes:
  assumes "\<forall>c\<in>set s. c \<notin> set space_bytes"
  shows "trimmed s"
proof -
  have bytes: "set w \<subseteq> set space_bytes" if "w \<in> set space_seqs" for w
    using that unfolding space_bytes_def set_concat by blast
  have "w = []" if w: "w \<in> set space_seqs" and sub: "set w \<subseteq> set s" for w
  proof (rule ccontr)
    assume "w \<noteq> []"
    then have "hd w \<in> set w" by simp
    with bytes [OF w] sub assms show False by blast
  qed
  moreover have "set w \<subseteq> set s" if "prefix w s" for w
    using that by (rule set_mono_prefix)
  moreover have "set w \<subseteq> set s" if "prefix (rev w) (rev s)" for w
    using set_mono_prefix [OF that] by simp
  ultimately show ?thesis
    unfolding trimmed_def seq_at_None_iff set_map by blast
qed

subsection \<open>Searching, case, cutting\<close>

fun contains :: "string \<Rightarrow> string \<Rightarrow> bool" where
  "contains sub [] = (sub = [])"
| "contains sub (c # cs) = (prefix sub (c # cs) \<or> contains sub cs)"

lemma contains_iff_sublist: "contains sub s \<longleftrightarrow> sublist sub s"
  by (induction s) (auto simp: sublist_Cons_right)

lemma contains_char: "contains [c] s \<longleftrightarrow> c \<in> set s"
  by (induction s) auto

definition contains_any :: "string \<Rightarrow> string \<Rightarrow> bool" where
  "contains_any s cs \<longleftrightarrow> list_ex (\<lambda>c. c \<in> set cs) s"

lemma contains_any_iff: "contains_any s cs \<longleftrightarrow> set s \<inter> set cs \<noteq> {}"
  by (auto simp: contains_any_def list_ex_iff)

definition trim_prefix :: "string \<Rightarrow> string \<Rightarrow> string" where
  "trim_prefix p s = (if prefix p s then drop (length p) s else s)"

lemma trim_prefix_append [simp]: "trim_prefix p (p @ s) = s"
  by (simp add: trim_prefix_def)

definition trim_right_chars :: "string \<Rightarrow> string \<Rightarrow> string" where
  "trim_right_chars s cutset = rev (dropWhile (\<lambda>c. c \<in> set cutset) (rev s))"

definition trim_chars :: "string \<Rightarrow> string \<Rightarrow> string" where
  "trim_chars s cutset = trim_right_chars (dropWhile (\<lambda>c. c \<in> set cutset) s) cutset"

lemma trim_right_chars_prefix: "prefix (trim_right_chars s cs) s"
  using suffix_dropWhile [of "\<lambda>c. c \<in> set cs" "rev s"]
  by (simp add: trim_right_chars_def suffix_to_prefix)

lemma trim_right_chars_last:
  "trim_right_chars s cs \<noteq> [] \<Longrightarrow> last (trim_right_chars s cs) \<notin> set cs"
  using hd_dropWhile [of "\<lambda>c. c \<in> set cs" "rev s"]
  by (auto simp: trim_right_chars_def last_rev)

lemma trim_right_chars_id: "s = [] \<or> last s \<notin> set cs \<Longrightarrow> trim_right_chars s cs = s"
  by (cases s rule: rev_cases) (auto simp: trim_right_chars_def)

definition is_upper :: "char \<Rightarrow> bool" where
  "is_upper c \<longleftrightarrow> CHR ''A'' \<le> c \<and> c \<le> CHR ''Z''"

definition is_lower :: "char \<Rightarrow> bool" where
  "is_lower c \<longleftrightarrow> CHR ''a'' \<le> c \<and> c \<le> CHR ''z''"

definition is_digit :: "char \<Rightarrow> bool" where
  "is_digit c \<longleftrightarrow> CHR ''0'' \<le> c \<and> c \<le> CHR ''9''"

definition lower_char :: "char \<Rightarrow> char" where
  "lower_char c = (if is_upper c then char_of (of_char c + 32 :: nat) else c)"

definition upper_char :: "char \<Rightarrow> char" where
  "upper_char c = (if is_lower c then char_of (of_char c - 32 :: nat) else c)"

text \<open>The Kelvin sign and the dotted capital I are the only other letters with an ASCII lower case.\<close>

fun to_lower :: "string \<Rightarrow> string" where
  "to_lower [] = []"
| "to_lower (c # cs) =
    (if prefix [CHR 0xE2, CHR 0x84, CHR 0xAA] (c # cs) then CHR ''k'' # to_lower (drop 2 cs)
     else if prefix [CHR 0xC4, CHR 0xB0] (c # cs) then CHR ''i'' # to_lower (drop 1 cs)
     else lower_char c # to_lower cs)"

text \<open>The dotless i and the long s are the only other letters with an ASCII upper case.\<close>

fun to_upper :: "string \<Rightarrow> string" where
  "to_upper [] = []"
| "to_upper (c # cs) =
    (if prefix [CHR 0xC4, CHR 0xB1] (c # cs) then CHR ''I'' # to_upper (drop 1 cs)
     else if prefix [CHR 0xC5, CHR 0xBF] (c # cs) then CHR ''S'' # to_upper (drop 1 cs)
     else upper_char c # to_upper cs)"

text \<open>Case folding: the Kelvin sign folds to k and the long s to s.\<close>

fun fold_case :: "string \<Rightarrow> string" where
  "fold_case [] = []"
| "fold_case (c # cs) =
    (if prefix [CHR 0xE2, CHR 0x84, CHR 0xAA] (c # cs) then CHR ''k'' # fold_case (drop 2 cs)
     else if prefix [CHR 0xC5, CHR 0xBF] (c # cs) then CHR ''s'' # fold_case (drop 1 cs)
     else lower_char c # fold_case cs)"

definition equal_fold :: "string \<Rightarrow> string \<Rightarrow> bool" where
  "equal_fold s t \<longleftrightarrow> fold_case s = fold_case t"

lemma equal_fold_refl [simp]: "equal_fold s s"
  by (simp add: equal_fold_def)

subsection \<open>Splitting and joining\<close>

fun split_on :: "char \<Rightarrow> string \<Rightarrow> string list" where
  "split_on sep [] = [[]]"
| "split_on sep (c # cs) =
    (if c = sep then [] # split_on sep cs
     else (case split_on sep cs of [] \<Rightarrow> [[c]] | p # ps \<Rightarrow> (c # p) # ps))"

fun join :: "string \<Rightarrow> string list \<Rightarrow> string" where
  "join sep [] = []"
| "join sep [p] = p"
| "join sep (p # ps) = p @ sep @ join sep ps"

lemma split_on_neq_Nil [simp]: "split_on sep s \<noteq> []"
  by (induction s) (auto split: list.splits)

lemma join_Cons: "ps \<noteq> [] \<Longrightarrow> join sep (p # ps) = p @ sep @ join sep ps"
  by (cases ps) simp_all

lemma split_on_no_sep: "sep \<notin> set s \<Longrightarrow> split_on sep s = [s]"
  by (induction s) auto

lemma split_on_append: "sep \<notin> set p \<Longrightarrow> split_on sep (p @ sep # s) = p # split_on sep s"
  by (induction p) auto

lemma separated_eq_iff:
  "sep \<notin> set p \<Longrightarrow> sep \<notin> set q \<Longrightarrow> p @ sep # s = q @ sep # t \<longleftrightarrow> p = q \<and> s = t"
proof (induction p arbitrary: q)
  case Nil
  then show ?case by (cases q) auto
next
  case (Cons a p)
  then show ?case by (cases q) auto
qed

lemma split_on_join:
  "ps \<noteq> [] \<Longrightarrow> \<forall>p\<in>set ps. sep \<notin> set p \<Longrightarrow> split_on sep (join [sep] ps) = ps"
  by (induction ps rule: induct_list012) (auto simp: split_on_no_sep split_on_append)

lemma join_split_on: "join [sep] (split_on sep s) = s"
proof (induction s)
  case (Cons c cs)
  obtain p ps where "split_on sep cs = p # ps"
    by (cases "split_on sep cs") simp_all
  with Cons show ?case
    by (cases ps) simp_all
qed simp

lemma split_on_parts: "p \<in> set (split_on sep s) \<Longrightarrow> sep \<notin> set p"
  by (induction s arbitrary: p) (auto split: if_splits list.splits)

lemma split_on_parts_set: "p \<in> set (split_on sep s) \<Longrightarrow> set p \<subseteq> set s"
  by (induction s arbitrary: p) (fastforce split: if_splits list.splits)+

fun split_n :: "nat \<Rightarrow> char \<Rightarrow> string \<Rightarrow> string list" where
  "split_n 0 sep s = []"
| "split_n (Suc 0) sep s = [s]"
| "split_n (Suc n) sep [] = [[]]"
| "split_n (Suc n) sep (c # cs) =
    (if c = sep then [] # split_n n sep cs
     else (case split_n (Suc n) sep cs of [] \<Rightarrow> [[c]] | p # ps \<Rightarrow> (c # p) # ps))"

lemma length_split_n: "length (split_n n sep s) \<le> n"
  by (induction n sep s rule: split_n.induct) (auto split: list.splits)

text \<open>\<open>strings.Fields\<close>: the runs of bytes between white-space sequences.\<close>

fun take_word :: "string \<Rightarrow> string" where
  "take_word [] = []"
| "take_word (c # cs) = (if seq_at space_seqs (c # cs) = None then c # take_word cs else [])"

lemma length_take_word: "length (take_word s) \<le> length s"
  by (induction s) auto

function fields :: "string \<Rightarrow> string list" where
  "fields s =
    (let t = trim_left s; w = take_word t
     in if w = [] then [] else w # fields (drop (length w) t))"
  by pat_completeness auto
termination
proof (relation "measure length", goal_cases)
  case 1
  show ?case by simp
next
  case (2 s t w)
  have "length t \<le> length s"
    using suffix_length_le [OF trim_left_suffix [of s]] 2(1) by simp
  moreover have "0 < length w" "length w \<le> length t"
    using 2 by (simp_all add: length_take_word)
  ultimately have "length (drop (length w) t) < length s"
    by (simp only: length_drop)
  then show ?case by (simp only: in_measure)
qed

declare fields.simps [simp del]

end
