(* ===== verification/Go_Conv.thy ===== *)
theory Go_Conv
  imports Go_Strings
begin

text \<open>
  Decimal conversion (\<open>strconv\<close>) and host and port addresses (\<open>net\<close>), as the program uses
  them, with their round trips.
\<close>

subsection \<open>Decimal integers\<close>

definition digit_char :: "nat \<Rightarrow> char" where
  "digit_char d = char_of (48 + d)"

definition digit_val :: "char \<Rightarrow> nat" where
  "digit_val c = of_char c - 48"

fun nat_digits :: "nat \<Rightarrow> string" where
  "nat_digits n =
    (if n < 10 then [digit_char n] else nat_digits (n div 10) @ [digit_char (n mod 10)])"

declare nat_digits.simps [simp del]

definition format_int :: "int \<Rightarrow> string" where
  "format_int n = (if n < 0 then CHR ''-'' # nat_digits (nat (- n)) else nat_digits (nat n))"

text \<open>
  \<open>strconv.ParseInt(s, 10, 64)\<close>: the value and the error. A syntax error returns 0; an
  overflow returns the nearest bound, and is found before the rest of the text is read.
\<close>

datatype num_error = NumSyntax | NumRange

fun parse_digits :: "nat \<Rightarrow> string \<Rightarrow> nat \<times> num_error option" where
  "parse_digits acc [] = (acc, None)"
| "parse_digits acc (c # cs) =
    (if \<not> is_digit c then (0, Some NumSyntax)
     else let n = acc * 10 + digit_val c
          in if n > 2 ^ 64 - 1 then (2 ^ 64 - 1, Some NumRange) else parse_digits n cs)"

definition parse_uint :: "string \<Rightarrow> nat \<times> num_error option" where
  "parse_uint s = (if s = [] then (0, Some NumSyntax) else parse_digits 0 s)"

definition signed_range :: "bool \<Rightarrow> nat \<times> num_error option \<Rightarrow> int \<times> num_error option" where
  "signed_range neg r =
    (if snd r = Some NumSyntax then (0, Some NumSyntax)
     else let un = int (fst r)
          in if \<not> neg \<and> un \<ge> 2 ^ 63 then (2 ^ 63 - 1, Some NumRange)
             else if neg \<and> un > 2 ^ 63 then (- (2 ^ 63), Some NumRange)
             else (if neg then - un else un, None))"

definition parse_int :: "string \<Rightarrow> int \<times> num_error option" where
  "parse_int s =
    (case s of [] \<Rightarrow> (0, Some NumSyntax)
     | c # cs \<Rightarrow>
        if c = CHR ''-'' then signed_range True (parse_uint cs)
        else if c = CHR ''+'' then signed_range False (parse_uint cs)
        else signed_range False (parse_uint s))"

lemma parse_int_range: "- (2 ^ 63) \<le> fst (parse_int s) \<and> fst (parse_int s) \<le> 2 ^ 63 - 1"
proof -
  have "- (2 ^ 63) \<le> fst (signed_range neg r) \<and> fst (signed_range neg r) \<le> 2 ^ 63 - 1" for neg r
    by (auto simp: signed_range_def Let_def)
  then show ?thesis
    by (auto simp: parse_int_def split: list.splits)
qed

lemma digit_char_simps:
  assumes "d < 10"
  shows "is_digit (digit_char d)" and "digit_val (digit_char d) = d"
proof -
  from assms have "d \<in> {0, 1, 2, 3, 4, 5, 6, 7, 8, 9}" by auto
  then show "is_digit (digit_char d)" "digit_val (digit_char d) = d"
    by (auto simp: is_digit_def digit_char_def digit_val_def less_eq_char_def)
qed

lemma nat_digits_digits: "c \<in> set (nat_digits n) \<Longrightarrow> is_digit c"
  by (induction n rule: nat_digits.induct)
    (subst (asm) nat_digits.simps, auto split: if_splits simp: digit_char_simps)

lemma nat_digits_neq_Nil [simp]: "nat_digits n \<noteq> []"
  by (subst nat_digits.simps) simp

lemma is_digit_not_sign: "is_digit c \<Longrightarrow> c \<noteq> CHR ''-'' \<and> c \<noteq> CHR ''+'' \<and> c \<noteq> CHR '',''"
  by (auto simp: is_digit_def less_eq_char_def)

lemma parse_digits_append:
  "\<lbrakk>\<forall>c\<in>set xs. is_digit c; parse_digits acc xs = (m, None)\<rbrakk>
    \<Longrightarrow> parse_digits acc (xs @ ys) = parse_digits m ys"
  by (induction xs arbitrary: acc) (auto simp: Let_def split: if_splits)

lemma parse_digits_nat_digits: "n \<le> 2 ^ 64 - 1 \<Longrightarrow> parse_digits 0 (nat_digits n) = (n, None)"
proof (induction n rule: nat_digits.induct)
  case (1 n)
  show ?case
  proof (cases "n < 10")
    case True
    with "1.prems" show ?thesis
      by (subst nat_digits.simps) (simp add: digit_char_simps Let_def)
  next
    case False
    then have "parse_digits 0 (nat_digits (n div 10)) = (n div 10, None)"
      using 1 by simp
    then have "parse_digits 0 (nat_digits (n div 10) @ [digit_char (n mod 10)]) =
        parse_digits (n div 10) [digit_char (n mod 10)]"
      by (intro parse_digits_append) (auto simp: nat_digits_digits)
    with False "1.prems" show ?thesis
      by (subst nat_digits.simps) (simp add: digit_char_simps Let_def)
  qed
qed

lemma parse_int_format_int:
  assumes "min_int64 \<le> n" and "n \<le> max_int64"
  shows "parse_int (format_int n) = (n, None)"
proof (cases "n < 0")
  case True
  with assms have "parse_uint (nat_digits (nat (- n))) = (nat (- n), None)"
    by (simp add: parse_uint_def parse_digits_nat_digits min_int64_def)
  with True assms show ?thesis
    by (simp add: parse_int_def format_int_def signed_range_def min_int64_def)
next
  case False
  with assms have uint: "parse_uint (nat_digits (nat n)) = (nat n, None)"
    by (simp add: parse_uint_def parse_digits_nat_digits max_int64_def)
  obtain c cs where ds: "nat_digits (nat n) = c # cs"
    by (cases "nat_digits (nat n)") auto
  then have "is_digit c" by (metis list.set_intros(1) nat_digits_digits)
  then have "parse_int (nat_digits (nat n)) = signed_range False (parse_uint (nat_digits (nat n)))"
    by (simp add: parse_int_def ds is_digit_not_sign)
  with False assms uint show ?thesis
    by (simp add: format_int_def signed_range_def max_int64_def)
qed

lemma format_int_no_comma: "CHR '','' \<notin> set (format_int n)"
proof -
  have "CHR '','' \<notin> set (nat_digits m)" for m
    using is_digit_not_sign nat_digits_digits by blast
  then show ?thesis by (simp add: format_int_def)
qed

subsection \<open>Host and port\<close>

fun index_of :: "char \<Rightarrow> string \<Rightarrow> nat option" where
  "index_of c [] = None"
| "index_of c (x # xs) = (if x = c then Some 0 else map_option Suc (index_of c xs))"

fun last_index :: "char \<Rightarrow> string \<Rightarrow> nat option" where
  "last_index c [] = None"
| "last_index c (x # xs) =
    (case last_index c xs of Some i \<Rightarrow> Some (Suc i) | None \<Rightarrow> if x = c then Some 0 else None)"

datatype addr_error =
  MissingPort | TooManyColons | MissingBracket | UnexpectedOpen | UnexpectedClose

text \<open>\<open>net.SplitHostPort\<close>.\<close>

definition split_host_port :: "string \<Rightarrow> addr_error + (string \<times> string)" where
  "split_host_port hp =
    (case last_index (CHR '':'') hp of
       None \<Rightarrow> Inl MissingPort
     | Some i \<Rightarrow>
        let port = drop (Suc i) hp;
            finish = (\<lambda>host j k.
              if CHR ''['' \<in> set (drop j hp) then Inl UnexpectedOpen
              else if CHR '']'' \<in> set (drop k hp) then Inl UnexpectedClose
              else Inr (host, port))
        in if hd hp = CHR ''['' then
             (case index_of (CHR '']'') hp of
                None \<Rightarrow> Inl MissingBracket
              | Some e \<Rightarrow>
                 if Suc e = length hp then Inl MissingPort
                 else if Suc e = i then finish (take (e - 1) (drop 1 hp)) 1 (Suc e)
                 else if hp ! Suc e = CHR '':'' then Inl TooManyColons
                 else Inl MissingPort)
           else
             (let host = take i hp
              in if CHR '':'' \<in> set host then Inl TooManyColons else finish host 0 0))"

definition join_host_port :: "string \<Rightarrow> string \<Rightarrow> string" where
  "join_host_port host port =
    (if CHR '':'' \<in> set host then ''['' @ host @ '']:'' @ port else host @ '':'' @ port)"

lemma last_index_append:
  "c \<notin> set ys \<Longrightarrow> last_index c (xs @ c # ys) = Some (length xs)"
proof (induction xs)
  case Nil
  have "c \<notin> set ys \<Longrightarrow> last_index c ys = None"
    by (induction ys) auto
  with Nil show ?case by simp
qed simp

lemma index_of_append: "c \<notin> set xs \<Longrightarrow> index_of c (xs @ c # ys) = Some (length xs)"
  by (induction xs) auto

lemma split_join_host_port:
  assumes host: "CHR ''['' \<notin> set host" "CHR '']'' \<notin> set host"
    and port: "set port \<inter> set ''[]:'' = {}"
  shows "split_host_port (join_host_port host port) = Inr (host, port)"
proof (cases "CHR '':'' \<in> set host")
  case True
  let ?hp = "(CHR ''['' # host @ [CHR '']'']) @ CHR '':'' # port"
  have "last_index (CHR '':'') ?hp = Some (length host + 2)"
    using port by (subst last_index_append) auto
  moreover have "index_of (CHR '']'') (CHR ''['' # host @ CHR '']'' # CHR '':'' # port) =
      Some (Suc (length host))"
    using index_of_append [OF host(2)] by simp
  ultimately show ?thesis
    using True host port by (simp add: join_host_port_def split_host_port_def Let_def)
next
  case False
  have "hd (host @ CHR '':'' # port) \<noteq> CHR ''[''"
    using host(1) by (cases host) auto
  moreover have "last_index (CHR '':'') (host @ CHR '':'' # port) = Some (length host)"
    using port by (intro last_index_append) auto
  ultimately show ?thesis
    using False host port by (simp add: join_host_port_def split_host_port_def Let_def)
qed

end
