(* ===== verification/Go_Errors.thy ===== *)
theory Go_Errors
  imports Go_Conv
begin

text \<open>
  Error values. An error of the program is a tree: package-level values of
  \<open>errors.New\<close>, formatted errors that wrap another one, joins, and the program's own
  error types. \<open>errors.Is\<close> and \<open>errors.As\<close> walk the tree in pre-order. The texts
  shown to clients are kept as the UTF-8 bytes of the source.
\<close>

subsection \<open>Trees of errors\<close>

datatype grpc_code =
  GrpcOK | GrpcCanceled | GrpcUnknown | GrpcInvalidArgument | GrpcDeadlineExceeded
| GrpcNotFound | GrpcAlreadyExists | GrpcPermissionDenied | GrpcResourceExhausted
| GrpcFailedPrecondition | GrpcAborted | GrpcOutOfRange | GrpcUnimplemented | GrpcInternal
| GrpcUnavailable | GrpcDataLoss | GrpcUnauthenticated

datatype goerr =
  Sentinel string
| Errorf string
| Wrapf string goerr
| Joined "goerr list"
| AppErr int string "goerr option" bool
| AppErrNil
| ClientErr int string "goerr option"
| StatusErr grpc_code string
| HTTPStatusErr int string
| NetErr string

abbreviation ctx_canceled :: goerr where
  "ctx_canceled \<equiv> Sentinel ''context canceled''"

abbreviation ctx_deadline :: goerr where
  "ctx_deadline \<equiv> Sentinel ''context deadline exceeded''"

fun err_is :: "goerr \<Rightarrow> string \<Rightarrow> bool" where
  "err_is (Sentinel n) target = (n = target)"
| "err_is (Wrapf _ e) target = err_is e target"
| "err_is (Joined es) target = list_ex (\<lambda>e. err_is e target) es"
| "err_is (AppErr _ _ (Some e) _) target = err_is e target"
| "err_is (ClientErr _ _ (Some e)) target = err_is e target"
| "err_is _ target = False"

fun first_some :: "'a option list \<Rightarrow> 'a option" where
  "first_some [] = None"
| "first_some (None # xs) = first_some xs"
| "first_some (Some x # xs) = Some x"

text \<open>
  \<open>err_as sel e\<close> is the first node of the tree that the selector accepts, as
  \<open>errors.As\<close> finds the first error of the wanted type.
\<close>

fun err_as :: "(goerr \<Rightarrow> 'a option) \<Rightarrow> goerr \<Rightarrow> 'a option" where
  "err_as sel e =
    (case sel e of Some x \<Rightarrow> Some x
     | None \<Rightarrow>
        (case e of
           Wrapf _ c \<Rightarrow> err_as sel c
         | Joined es \<Rightarrow> first_some (map (err_as sel) es)
         | AppErr _ _ (Some c) _ \<Rightarrow> err_as sel c
         | ClientErr _ _ (Some c) \<Rightarrow> err_as sel c
         | _ \<Rightarrow> None))"

declare err_as.simps [simp del]

lemma err_as_hit: "sel e = Some x \<Longrightarrow> err_as sel e = Some x"
  by (simp add: err_as.simps)

lemma err_as_Wrapf: "sel (Wrapf m c) = None \<Longrightarrow> err_as sel (Wrapf m c) = err_as sel c"
  by (simp add: err_as.simps)

lemma err_as_leaf:
  "sel e = None \<Longrightarrow> (\<forall>m c. e \<noteq> Wrapf m c) \<Longrightarrow> (\<forall>es. e \<noteq> Joined es) \<Longrightarrow>
    (\<forall>a b c d. e \<noteq> AppErr a b (Some c) d) \<Longrightarrow> (\<forall>a b c. e \<noteq> ClientErr a b (Some c)) \<Longrightarrow>
    err_as sel e = None"
  by (auto simp: err_as.simps split: goerr.splits option.splits)

text \<open>\<open>errors.Join\<close> drops nil errors and returns nil when nothing is left.\<close>

definition err_join :: "goerr option list \<Rightarrow> goerr option" where
  "err_join es =
    (let kept = List.map_filter id es in if kept = [] then None else Some (Joined kept))"

lemma err_join_None_iff: "err_join es = None \<longleftrightarrow> (\<forall>e\<in>set es. e = None)"
  by (auto simp: err_join_def Let_def List.map_filter_def filter_empty_conv)

lemma err_join_is:
  "err_join es = Some e \<Longrightarrow> err_is e t \<longleftrightarrow> (\<exists>x. Some x \<in> set es \<and> err_is x t)"
  by (auto simp: err_join_def Let_def List.map_filter_def list_ex_iff split: if_splits) force+

subsection \<open>Texts shown to clients\<close>

definition msg_internal_error :: string where
  "msg_internal_error =
    [CHR 0xE6, CHR 0x9C, CHR 0x8D, CHR 0xE5, CHR 0x8A, CHR 0xA1, CHR 0xE5, CHR 0x86,
     CHR 0x85, CHR 0xE9, CHR 0x83, CHR 0xA8, CHR 0xE9, CHR 0x94, CHR 0x99, CHR 0xE8,
     CHR 0xAF, CHR 0xAF]"

definition msg_param_error :: string where
  "msg_param_error =
    [CHR 0xE5, CHR 0x8F, CHR 0x82, CHR 0xE6, CHR 0x95, CHR 0xB0, CHR 0xE9, CHR 0x94,
     CHR 0x99, CHR 0xE8, CHR 0xAF, CHR 0xAF]"

definition msg_not_logged_in :: string where
  "msg_not_logged_in =
    [CHR 0xE6, CHR 0x9C, CHR 0xAA, CHR 0xE7, CHR 0x99, CHR 0xBB, CHR 0xE5, CHR 0xBD,
     CHR 0x95]"

definition msg_token_invalid :: string where
  "msg_token_invalid =
    [CHR 0x54, CHR 0x6F, CHR 0x6B, CHR 0x65, CHR 0x6E, CHR 0x20, CHR 0xE6, CHR 0x97,
     CHR 0xA0, CHR 0xE6, CHR 0x95, CHR 0x88]"

definition msg_circuit_open :: string where
  "msg_circuit_open =
    [CHR 0xE6, CHR 0x9C, CHR 0x8D, CHR 0xE5, CHR 0x8A, CHR 0xA1, CHR 0xE7, CHR 0x86,
     CHR 0x94, CHR 0xE6, CHR 0x96, CHR 0xAD]"

definition msg_forbidden :: string where
  "msg_forbidden =
    [CHR 0xE6, CHR 0x97, CHR 0xA0, CHR 0xE6, CHR 0x9D, CHR 0x83, CHR 0xE6, CHR 0x93,
     CHR 0x8D, CHR 0xE4, CHR 0xBD, CHR 0x9C]"

definition msg_not_found :: string where
  "msg_not_found =
    [CHR 0xE8, CHR 0xB5, CHR 0x84, CHR 0xE6, CHR 0xBA, CHR 0x90, CHR 0xE4, CHR 0xB8,
     CHR 0x8D, CHR 0xE5, CHR 0xAD, CHR 0x98, CHR 0xE5, CHR 0x9C, CHR 0xA8]"

definition msg_conflict :: string where
  "msg_conflict =
    [CHR 0xE8, CHR 0xB5, CHR 0x84, CHR 0xE6, CHR 0xBA, CHR 0x90, CHR 0xE5, CHR 0x86,
     CHR 0xB2, CHR 0xE7, CHR 0xAA, CHR 0x81]"

definition msg_too_many :: string where
  "msg_too_many =
    [CHR 0xE8, CHR 0xAF, CHR 0xB7, CHR 0xE6, CHR 0xB1, CHR 0x82, CHR 0xE8, CHR 0xBF,
     CHR 0x87, CHR 0xE4, CHR 0xBA, CHR 0x8E, CHR 0xE9, CHR 0xA2, CHR 0x91, CHR 0xE7,
     CHR 0xB9, CHR 0x81]"

definition msg_unavailable :: string where
  "msg_unavailable =
    [CHR 0xE5, CHR 0xA4, CHR 0x96, CHR 0xE9, CHR 0x83, CHR 0xA8, CHR 0xE6, CHR 0x9C,
     CHR 0x8D, CHR 0xE5, CHR 0x8A, CHR 0xA1, CHR 0xE4, CHR 0xB8, CHR 0x8D, CHR 0xE5,
     CHR 0x8F, CHR 0xAF, CHR 0xE7, CHR 0x94, CHR 0xA8]"

definition msg_service_error :: string where
  "msg_service_error =
    [CHR 0xE6, CHR 0x9C, CHR 0x8D, CHR 0xE5, CHR 0x8A, CHR 0xA1, CHR 0xE9, CHR 0x94,
     CHR 0x99, CHR 0xE8, CHR 0xAF, CHR 0xAF]"

definition msg_too_many_clients :: string where
  "msg_too_many_clients =
    [CHR 0xE5, CHR 0xAE, CHR 0xA2, CHR 0xE6, CHR 0x88, CHR 0xB7, CHR 0xE7, CHR 0xAB,
     CHR 0xAF, CHR 0xE6, CHR 0x95, CHR 0xB0, CHR 0xE9, CHR 0x87, CHR 0x8F, CHR 0xE8,
     CHR 0xBF, CHR 0x87, CHR 0xE5, CHR 0xA4, CHR 0x9A]"

definition msg_body_too_large :: string where
  "msg_body_too_large =
    [CHR 0xE8, CHR 0xAF, CHR 0xB7, CHR 0xE6, CHR 0xB1, CHR 0x82, CHR 0xE4, CHR 0xBD,
     CHR 0x93, CHR 0xE8, CHR 0xBF, CHR 0x87, CHR 0xE5, CHR 0xA4, CHR 0xA7]"

definition msg_limiter_config :: string where
  "msg_limiter_config =
    [CHR 0xE9, CHR 0x99, CHR 0x90, CHR 0xE6, CHR 0xB5, CHR 0x81, CHR 0xE6, CHR 0x9C,
     CHR 0x8D, CHR 0xE5, CHR 0x8A, CHR 0xA1, CHR 0xE9, CHR 0x85, CHR 0x8D, CHR 0xE7,
     CHR 0xBD, CHR 0xAE, CHR 0xE9, CHR 0x94, CHR 0x99, CHR 0xE8, CHR 0xAF, CHR 0xAF]"

definition msg_limiter_down :: string where
  "msg_limiter_down =
    [CHR 0xE9, CHR 0x99, CHR 0x90, CHR 0xE6, CHR 0xB5, CHR 0x81, CHR 0xE6, CHR 0x9C,
     CHR 0x8D, CHR 0xE5, CHR 0x8A, CHR 0xA1, CHR 0xE4, CHR 0xB8, CHR 0x8D, CHR 0xE5,
     CHR 0x8F, CHR 0xAF, CHR 0xE7, CHR 0x94, CHR 0xA8]"

end
