(* ===== verification/Breaker.thy ===== *)
theory Breaker
  imports Go_Errors "HOL-Library.Multiset"
begin

text \<open>
  The client-side circuit breaker, \<open>clientx/breaker.go\<close>. The record is the struct; the
  clock reading each operation takes is an argument, and the error classifier
  \<open>shouldCount\<close> is a parameter. The gauge is the state that \<open>ObserveCircuitBreaker\<close> last
  published. The second half puts the breaker under concurrent callers: a step relation
  over the breaker and the calls that hold a permit.
\<close>

subsection \<open>The data\<close>

datatype breaker_state = BreakerClosed | BreakerOpen | BreakerHalfOpen

record breaker =
  br_state :: breaker_state
  br_failures :: int
  br_threshold :: int
  br_open_until :: instant
  br_cooldown :: duration
  br_probe :: bool
  br_generation :: "64 word"
  br_name :: string
  br_gauge :: string

record breaker_permit =
  pm_generation :: "64 word"
  pm_half_open :: bool

abbreviation err_circuit_open :: goerr where
  "err_circuit_open \<equiv> Sentinel ''circuit breaker open''"

abbreviation err_nil_operation :: goerr where
  "err_nil_operation \<equiv> Sentinel ''clientx: operation is nil''"

subsection \<open>Operations\<close>

definition default_should_count :: "goerr option \<Rightarrow> bool" where
  "default_should_count err =
    (case err of None \<Rightarrow> False
     | Some e \<Rightarrow> \<not> err_is e ''context canceled'' \<and> \<not> err_is e ''context deadline exceeded'')"

definition new_breaker :: "string \<Rightarrow> int \<Rightarrow> duration \<Rightarrow> breaker" where
  "new_breaker name failure_threshold cooldown =
    \<lparr>br_state = BreakerClosed, br_failures = 0,
     br_threshold = default_pos failure_threshold 5, br_open_until = 0,
     br_cooldown = default_pos cooldown (30 * second), br_probe = False,
     br_generation = 0, br_name = name, br_gauge = ''closed''\<rparr>"

definition current_state :: "instant \<Rightarrow> breaker \<Rightarrow> breaker" where
  "current_state now b =
    (if br_state b = BreakerOpen \<and> \<not> time_after (br_open_until b) now
     then b\<lparr>br_state := BreakerHalfOpen\<rparr> else b)"

definition breaker_before :: "instant \<Rightarrow> breaker \<Rightarrow> (goerr + breaker_permit) \<times> breaker" where
  "breaker_before now b =
    (let b = current_state now b
     in if br_state b = BreakerOpen then (Inl err_circuit_open, b)
        else if br_state b = BreakerHalfOpen then
          (if br_probe b then (Inl err_circuit_open, b)
           else (Inr \<lparr>pm_generation = br_generation b, pm_half_open = True\<rparr>,
                 b\<lparr>br_probe := True\<rparr>))
        else (Inr \<lparr>pm_generation = br_generation b, pm_half_open = False\<rparr>, b))"

definition breaker_after ::
  "(goerr \<Rightarrow> bool) \<Rightarrow> instant \<Rightarrow> breaker_permit \<Rightarrow> goerr option \<Rightarrow> breaker \<Rightarrow> breaker" where
  "breaker_after should_count now permit err b =
    (if pm_generation permit \<noteq> br_generation b then b
     else if pm_half_open permit \<and> br_state b = BreakerHalfOpen then
       (let b = b\<lparr>br_probe := False\<rparr>
        in case err of
             None \<Rightarrow> b\<lparr>br_failures := 0, br_state := BreakerClosed,
                       br_generation := br_generation b + 1, br_gauge := ''closed''\<rparr>
           | Some _ \<Rightarrow> b\<lparr>br_state := BreakerOpen, br_open_until := now + br_cooldown b,
                         br_generation := br_generation b + 1, br_gauge := ''open''\<rparr>)
     else if br_state b \<noteq> BreakerClosed then b
     else
       (case err of
          None \<Rightarrow> b\<lparr>br_failures := 0, br_state := BreakerClosed\<rparr>
        | Some e \<Rightarrow>
            if \<not> should_count e then b
            else
              (let b = b\<lparr>br_failures := br_failures b + 1\<rparr>
               in if br_failures b \<ge> br_threshold b
                  then b\<lparr>br_state := BreakerOpen, br_open_until := now + br_cooldown b,
                         br_generation := br_generation b + 1, br_gauge := ''open''\<rparr>
                  else b)))"

text \<open>\<open>State\<close> returns the state it may just have moved to half-open.\<close>

definition breaker_get_state :: "instant \<Rightarrow> breaker \<Rightarrow> breaker_state \<times> breaker" where
  "breaker_get_state now b = (br_state (current_state now b), current_state now b)"

text \<open>
  \<open>Do\<close>: a nil operation and a finished context are refused before the breaker is asked.
  The operation may also panic; the panic passes through \<open>Do\<close> without running \<open>after\<close>.
\<close>

datatype 'a call_outcome = Returned 'a | Panicked

definition breaker_do ::
  "(goerr \<Rightarrow> bool) \<Rightarrow> goerr option \<Rightarrow> (unit \<Rightarrow> goerr option call_outcome) option \<Rightarrow>
   instant \<Rightarrow> instant \<Rightarrow> breaker \<Rightarrow> goerr option call_outcome \<times> breaker" where
  "breaker_do should_count ctx_err fn now_before now_after b =
    (case fn of
       None \<Rightarrow> (Returned (Some err_nil_operation), b)
     | Some f \<Rightarrow>
        (case ctx_err of
           Some e \<Rightarrow> (Returned (Some e), b)
         | None \<Rightarrow>
            (case breaker_before now_before b of
               (Inl e, b) \<Rightarrow> (Returned (Some e), b)
             | (Inr permit, b) \<Rightarrow>
                (case f () of
                   Panicked \<Rightarrow> (Panicked, b)
                 | Returned err \<Rightarrow>
                    (Returned err, breaker_after should_count now_after permit err b)))))"

subsection \<open>Sequential behaviour\<close>

lemmas breaker_op_defs =
  current_state_def breaker_before_def breaker_after_def Let_def

lemma current_state_frame [simp]:
  "br_threshold (current_state now b) = br_threshold b"
  "br_cooldown (current_state now b) = br_cooldown b"
  "br_generation (current_state now b) = br_generation b"
  "br_failures (current_state now b) = br_failures b"
  "br_probe (current_state now b) = br_probe b"
  "br_open_until (current_state now b) = br_open_until b"
  "br_gauge (current_state now b) = br_gauge b"
  by (simp_all add: current_state_def)

lemma before_closed:
  "br_state b = BreakerClosed \<Longrightarrow>
    breaker_before now b = (Inr \<lparr>pm_generation = br_generation b, pm_half_open = False\<rparr>, b)"
  by (simp add: breaker_op_defs)

lemma before_open_early:
  "br_state b = BreakerOpen \<Longrightarrow> now < br_open_until b \<Longrightarrow>
    breaker_before now b = (Inl err_circuit_open, b)"
  by (simp add: breaker_op_defs time_after_def)

lemma before_open_late:
  "br_state b = BreakerOpen \<Longrightarrow> br_open_until b \<le> now \<Longrightarrow> \<not> br_probe b \<Longrightarrow>
    breaker_before now b =
      (Inr \<lparr>pm_generation = br_generation b, pm_half_open = True\<rparr>,
       b\<lparr>br_state := BreakerHalfOpen, br_probe := True\<rparr>)"
  by (simp add: breaker_op_defs time_after_def)

lemma before_half_open_busy:
  "br_state b = BreakerHalfOpen \<Longrightarrow> br_probe b \<Longrightarrow>
    breaker_before now b = (Inl err_circuit_open, b)"
  by (simp add: breaker_op_defs)

text \<open>Calls one after the other, each with its instant and its result.\<close>

fun breaker_calls ::
  "(goerr \<Rightarrow> bool) \<Rightarrow> (instant \<times> goerr option) list \<Rightarrow> breaker \<Rightarrow> breaker" where
  "breaker_calls sc [] b = b"
| "breaker_calls sc ((now, err) # cs) b =
    breaker_calls sc cs (snd (breaker_do sc None (Some (\<lambda>_. Returned err)) now now b))"

lemma breaker_do_closed:
  "br_state b = BreakerClosed \<Longrightarrow>
    snd (breaker_do sc None (Some (\<lambda>_. Returned err)) now now b) =
      breaker_after sc now \<lparr>pm_generation = br_generation b, pm_half_open = False\<rparr> err b"
  by (simp add: breaker_do_def before_closed)

lemma after_counted_below:
  "br_state b = BreakerClosed \<Longrightarrow> sc e \<Longrightarrow> br_failures b + 1 < br_threshold b \<Longrightarrow>
    breaker_after sc now \<lparr>pm_generation = br_generation b, pm_half_open = False\<rparr> (Some e) b =
      b\<lparr>br_failures := br_failures b + 1\<rparr>"
  by (simp add: breaker_after_def Let_def)

lemma after_counted_reaches:
  "br_state b = BreakerClosed \<Longrightarrow> sc e \<Longrightarrow> br_threshold b \<le> br_failures b + 1 \<Longrightarrow>
    breaker_after sc now \<lparr>pm_generation = br_generation b, pm_half_open = False\<rparr> (Some e) b =
      b\<lparr>br_failures := br_failures b + 1, br_state := BreakerOpen,
        br_open_until := now + br_cooldown b, br_generation := br_generation b + 1,
        br_gauge := ''open''\<rparr>"
  by (simp add: breaker_after_def Let_def)

lemma counted_failures_below:
  assumes "br_state b = BreakerClosed" and "\<forall>(t, r)\<in>set cs. \<exists>e. r = Some e \<and> sc e"
    and "br_failures b + int (length cs) < br_threshold b"
  shows "breaker_calls sc cs b = b\<lparr>br_failures := br_failures b + int (length cs)\<rparr>"
  using assms
proof (induction cs arbitrary: b)
  case (Cons c cs)
  obtain t e where c: "c = (t, Some e)" "sc e" using Cons.prems(2) by (cases c) auto
  with Cons.prems have "breaker_calls sc (c # cs) b =
      breaker_calls sc cs (b\<lparr>br_failures := br_failures b + 1\<rparr>)"
    by (simp add: breaker_do_closed after_counted_below)
  also have "\<dots> = b\<lparr>br_failures := br_failures b + 1 + int (length cs)\<rparr>"
    using Cons.prems by (subst Cons.IH) (auto simp: add.assoc)
  finally show ?case by (simp add: add.assoc)
qed simp

lemma breaker_calls_append: "breaker_calls sc (xs @ ys) b = breaker_calls sc ys (breaker_calls sc xs b)"
  by (induction sc xs b rule: breaker_calls.induct) simp_all

text \<open>
  A closed breaker without recorded failures opens exactly at the threshold: after
  any shorter run of counted failures it is still closed, and the counted failure that
  completes the threshold opens it until that instant plus the cooldown, publishes the
  new gauge and starts a new generation.
\<close>

theorem breaker_opens_at_threshold:
  assumes "br_state b = BreakerClosed" and "br_failures b = 0"
    and "\<forall>(t, r)\<in>set cs. \<exists>e. r = Some e \<and> sc e" and "sc e"
    and "int (length cs) + 1 = br_threshold b"
  shows "br_state (breaker_calls sc cs b) = BreakerClosed \<and>
    breaker_calls sc (cs @ [(t, Some e)]) b =
      b\<lparr>br_failures := br_threshold b, br_state := BreakerOpen,
        br_open_until := t + br_cooldown b, br_generation := br_generation b + 1,
        br_gauge := ''open''\<rparr>"
proof -
  have below: "breaker_calls sc cs b = b\<lparr>br_failures := int (length cs)\<rparr>"
    using assms by (subst counted_failures_below) auto
  then show ?thesis
    using assms after_counted_reaches [of "b\<lparr>br_failures := int (length cs)\<rparr>" sc e t]
    by (simp add: breaker_calls_append breaker_do_closed)
qed

theorem breaker_opens_at_threshold_witness:
  "br_state (breaker_calls (\<lambda>_. True)
     (replicate 4 (7, Some err_nil_operation) @ [(9, Some err_nil_operation)])
     (new_breaker ''db'' 0 0)) = BreakerOpen"
proof -
  let ?cs = "replicate 4 (7 :: instant, Some err_nil_operation)"
  have "\<forall>(t, r)\<in>set ?cs. \<exists>e. r = Some e \<and> (\<lambda>_. True) e" by simp
  then show ?thesis
    using breaker_opens_at_threshold [of "new_breaker ''db'' 0 0" ?cs "\<lambda>_. True"
        err_nil_operation 9]
    by (simp add: new_breaker_def default_pos_def)
qed

subsection \<open>Concurrent callers\<close>

text \<open>
  The state of the system: the breaker, the permits of the calls in flight, and a ghost
  count of the generations started, which tells when the 64-bit generation has wrapped.
  A step is one atomic operation: a call is admitted or rejected, the state is read, a
  call returns, or the operation of a call panics and its permit is lost.
\<close>

record breaker_sys =
  sys_breaker :: breaker
  sys_out :: "breaker_permit multiset"
  sys_bumps :: nat

definition bumped :: "breaker \<Rightarrow> breaker \<Rightarrow> nat" where
  "bumped b b' = (if br_generation b' = br_generation b then 0 else 1)"

inductive breaker_step :: "(goerr \<Rightarrow> bool) \<Rightarrow> breaker_sys \<Rightarrow> breaker_sys \<Rightarrow> bool"
  for sc :: "goerr \<Rightarrow> bool" where
  admit: "breaker_before now (sys_breaker s) = (Inr p, b) \<Longrightarrow>
    breaker_step sc s (s\<lparr>sys_breaker := b, sys_out := add_mset p (sys_out s)\<rparr>)"
| reject: "breaker_before now (sys_breaker s) = (Inl e, b) \<Longrightarrow>
    breaker_step sc s (s\<lparr>sys_breaker := b\<rparr>)"
| read: "breaker_get_state now (sys_breaker s) = (st, b) \<Longrightarrow>
    breaker_step sc s (s\<lparr>sys_breaker := b\<rparr>)"
| finish: "p \<in># sys_out s \<Longrightarrow> breaker_after sc now p err (sys_breaker s) = b \<Longrightarrow>
    breaker_step sc s
      (s\<lparr>sys_breaker := b, sys_out := sys_out s - {#p#},
        sys_bumps := sys_bumps s + bumped (sys_breaker s) b\<rparr>)"
| panic: "p \<in># sys_out s \<Longrightarrow> breaker_step sc s (s\<lparr>sys_out := sys_out s - {#p#}\<rparr>)"

definition sys_init :: "breaker \<Rightarrow> breaker_sys" where
  "sys_init b = \<lparr>sys_breaker = b, sys_out = {#}, sys_bumps = 0\<rparr>"

text \<open>The permits of the current generation, and the probes among them.\<close>

definition current_permits :: "breaker_sys \<Rightarrow> breaker_permit multiset" where
  "current_permits s =
    filter_mset (\<lambda>p. pm_generation p = br_generation (sys_breaker s)) (sys_out s)"

definition probes :: "breaker_sys \<Rightarrow> breaker_permit multiset" where
  "probes s = filter_mset pm_half_open (current_permits s)"

definition breaker_core :: "breaker_sys \<Rightarrow> bool" where
  "breaker_core s \<longleftrightarrow>
    (let b = sys_breaker s in
      unat (br_generation b) = sys_bumps s \<and>
      (\<forall>p\<in>#sys_out s. unat (pm_generation p) \<le> sys_bumps s) \<and>
      0 < br_threshold b \<and> 0 \<le> br_failures b \<and>
      (br_state b = BreakerClosed \<longrightarrow> br_failures b < br_threshold b) \<and>
      (br_gauge b = ''closed'' \<longleftrightarrow> br_state b = BreakerClosed) \<and>
      (br_probe b \<longrightarrow> br_state b = BreakerHalfOpen) \<and>
      size (probes s) \<le> (if br_probe b then 1 else 0) \<and>
      (br_state b \<noteq> BreakerClosed \<longrightarrow> (\<forall>p\<in>#current_permits s. pm_half_open p)))"

definition breaker_inv :: "breaker_sys \<Rightarrow> bool" where
  "breaker_inv s \<longleftrightarrow> (sys_bumps s < 2 ^ 64 \<longrightarrow> breaker_core s)"

lemma before_InrD:
  "breaker_before now b = (Inr p, b') \<Longrightarrow>
    p = \<lparr>pm_generation = br_generation b, pm_half_open = (br_state b \<noteq> BreakerClosed)\<rparr> \<and>
    (if br_state b = BreakerClosed then b' = b
     else \<not> br_probe b \<and> b' = b\<lparr>br_state := BreakerHalfOpen, br_probe := True\<rparr>)"
  by (cases "br_state b") (auto simp: breaker_op_defs split: if_splits)

lemma before_InlD:
  "breaker_before now b = (Inl e, b') \<Longrightarrow>
    br_state b \<noteq> BreakerClosed \<and> e = err_circuit_open \<and>
    (b' = b \<or> b' = b\<lparr>br_state := BreakerHalfOpen\<rparr>)"
  by (cases "br_state b") (auto simp: breaker_op_defs split: if_splits)

lemma get_stateD:
  "breaker_get_state now b = (st, b') \<Longrightarrow>
    b' = b \<or> br_state b \<noteq> BreakerClosed \<and> b' = b\<lparr>br_state := BreakerHalfOpen\<rparr>"
  by (auto simp: breaker_get_state_def current_state_def split: if_splits)

text \<open>A returning call changes nothing, counts in the closed state, or starts a generation.\<close>

lemma breaker_after_cases:
  obtains (same) "breaker_after sc now p err b = b"
  | (count) f where "br_state b = BreakerClosed" "f = 0 \<or> f = br_failures b + 1 \<and> f < br_threshold b"
      "breaker_after sc now p err b = b\<lparr>br_failures := f\<rparr>"
  | (opened) f where "br_state b = BreakerClosed" "f = br_failures b + 1"
      "breaker_after sc now p err b = b\<lparr>br_failures := f, br_state := BreakerOpen,
        br_open_until := now + br_cooldown b, br_generation := br_generation b + 1,
        br_gauge := ''open''\<rparr>"
  | (closed) "br_state b = BreakerHalfOpen" "breaker_after sc now p err b =
      b\<lparr>br_probe := False, br_failures := 0, br_state := BreakerClosed,
        br_generation := br_generation b + 1, br_gauge := ''closed''\<rparr>"
  | (reopened) "br_state b = BreakerHalfOpen" "breaker_after sc now p err b =
      b\<lparr>br_probe := False, br_state := BreakerOpen, br_open_until := now + br_cooldown b,
        br_generation := br_generation b + 1, br_gauge := ''open''\<rparr>"
proof -
  consider "pm_generation p \<noteq> br_generation b"
    | "pm_generation p = br_generation b" "pm_half_open p \<and> br_state b = BreakerHalfOpen"
    | "pm_generation p = br_generation b" "\<not> (pm_half_open p \<and> br_state b = BreakerHalfOpen)"
        "br_state b \<noteq> BreakerClosed"
    | "pm_generation p = br_generation b" "br_state b = BreakerClosed"
    by blast
  then show thesis
  proof cases
    case 2
    then show thesis using that(4,5)
      by (cases err) (simp_all add: breaker_after_def Let_def)
  next
    case 4
    then have noop: "b\<lparr>br_failures := f, br_state := BreakerClosed\<rparr> = b\<lparr>br_failures := f\<rparr>" for f
      by (cases b) simp
    show thesis
    proof (cases err)
      case None
      with 4 noop show thesis using that(2) [of 0] by (simp add: breaker_after_def)
    next
      case (Some e)
      with 4 show thesis using that(1) that(2,3) [of "br_failures b + 1"]
        by (cases "sc e"; cases "br_threshold b \<le> br_failures b + 1")
          (simp_all add: breaker_after_def Let_def)
    qed
  next
    case 1
    then have "breaker_after sc now p err b = b" by (simp add: breaker_after_def)
    then show thesis by (rule that(1))
  next
    case 3
    then have "breaker_after sc now p err b = b" by (auto simp: breaker_after_def)
    then show thesis by (rule that(1))
  qed
qed

text \<open>What the core says, as rules: to show it, and to use it.\<close>

lemma breaker_coreI:
  assumes "unat (br_generation b) = n" "\<And>p. p \<in># m \<Longrightarrow> unat (pm_generation p) \<le> n"
    and "0 < br_threshold b" "0 \<le> br_failures b"
    and "br_state b = BreakerClosed \<Longrightarrow> br_failures b < br_threshold b"
    and "br_gauge b = ''closed'' \<longleftrightarrow> br_state b = BreakerClosed"
    and "br_probe b \<Longrightarrow> br_state b = BreakerHalfOpen"
    and "size (filter_mset pm_half_open
      (filter_mset (\<lambda>p. pm_generation p = br_generation b) m)) \<le> (if br_probe b then 1 else 0)"
    and "\<And>p. p \<in># m \<Longrightarrow> pm_generation p = br_generation b \<Longrightarrow>
      br_state b \<noteq> BreakerClosed \<Longrightarrow> pm_half_open p"
  shows "breaker_core \<lparr>sys_breaker = b, sys_out = m, sys_bumps = n\<rparr>"
  using assms by (auto simp: breaker_core_def probes_def current_permits_def Let_def)

lemma breaker_coreD:
  assumes "breaker_core \<lparr>sys_breaker = b, sys_out = m, sys_bumps = n\<rparr>"
  shows "unat (br_generation b) = n" "\<And>p. p \<in># m \<Longrightarrow> unat (pm_generation p) \<le> n"
    and "0 < br_threshold b" "0 \<le> br_failures b"
    and "br_state b = BreakerClosed \<Longrightarrow> br_failures b < br_threshold b"
    and "br_gauge b = ''closed'' \<longleftrightarrow> br_state b = BreakerClosed"
    and "br_probe b \<Longrightarrow> br_state b = BreakerHalfOpen"
    and "size (filter_mset pm_half_open
      (filter_mset (\<lambda>p. pm_generation p = br_generation b) m)) \<le> (if br_probe b then 1 else 0)"
    and "\<And>p. p \<in># m \<Longrightarrow> pm_generation p = br_generation b \<Longrightarrow>
      br_state b \<noteq> BreakerClosed \<Longrightarrow> pm_half_open p"
  using assms by (auto simp: breaker_core_def probes_def current_permits_def Let_def)

text \<open>Forgetting a permit keeps the core.\<close>

lemma breaker_core_drop:
  assumes core: "breaker_core \<lparr>sys_breaker = b, sys_out = m, sys_bumps = n\<rparr>"
  shows "breaker_core \<lparr>sys_breaker = b, sys_out = m - {#p#}, sys_bumps = n\<rparr>"
proof (rule breaker_coreI)
  have "size (filter_mset pm_half_open (filter_mset (\<lambda>p. pm_generation p = br_generation b) (m - {#p#})))
      \<le> size (filter_mset pm_half_open (filter_mset (\<lambda>p. pm_generation p = br_generation b) m))"
    by (intro size_mset_mono multiset_filter_mono) simp
  with breaker_coreD(8) [OF core]
  show "size (filter_mset pm_half_open (filter_mset (\<lambda>p. pm_generation p = br_generation b) (m - {#p#})))
      \<le> (if br_probe b then 1 else 0)"
    by (rule order_trans [rotated])
qed (use breaker_coreD(1-7,9) [OF core] in \<open>auto dest: in_diffD\<close>)

text \<open>A new generation, of a breaker without a probe, starts with no permit of its own.\<close>

lemma breaker_core_bump:
  assumes core: "breaker_core \<lparr>sys_breaker = b, sys_out = m, sys_bumps = n\<rparr>"
    and small: "Suc n < 2 ^ 64" and gen: "br_generation b' = br_generation b + 1"
    and "0 < br_threshold b'" "0 \<le> br_failures b'" "\<not> br_probe b'"
    and "br_state b' = BreakerClosed \<Longrightarrow> br_failures b' < br_threshold b'"
    and "br_gauge b' = ''closed'' \<longleftrightarrow> br_state b' = BreakerClosed"
  shows "breaker_core \<lparr>sys_breaker = b', sys_out = m, sys_bumps = Suc n\<rparr>"
proof (rule breaker_coreI)
  show unat': "unat (br_generation b') = Suc n"
    using breaker_coreD(1) [OF core] small by (simp add: gen unat_add_lem [THEN iffD1])
  have older: "pm_generation p \<noteq> br_generation b'" if "p \<in># m" for p
    using breaker_coreD(2) [OF core that] unat' by auto
  then have "p \<notin># filter_mset (\<lambda>p. pm_generation p = br_generation b') m" for p
    by auto
  then have none: "filter_mset (\<lambda>p. pm_generation p = br_generation b') m = {#}"
    by (meson multiset_nonemptyE)
  show "size (filter_mset pm_half_open
      (filter_mset (\<lambda>p. pm_generation p = br_generation b') m)) \<le> (if br_probe b' then 1 else 0)"
    unfolding none by simp
  show "pm_half_open p" if "p \<in># m" "pm_generation p = br_generation b'" for p
    using older [OF that(1)] that(2) by simp
qed (use assms breaker_coreD(2) [OF core] in \<open>auto intro: le_SucI\<close>)

lemma breaker_core_half_open:
  assumes core: "breaker_core \<lparr>sys_breaker = b, sys_out = m, sys_bumps = n\<rparr>"
    and "br_state b \<noteq> BreakerClosed"
  shows "breaker_core \<lparr>sys_breaker = b\<lparr>br_state := BreakerHalfOpen\<rparr>, sys_out = m, sys_bumps = n\<rparr>"
  using assms(2) breaker_coreD [OF core] by (intro breaker_coreI) auto

lemma breaker_core_admit:
  assumes core: "breaker_core \<lparr>sys_breaker = b, sys_out = m, sys_bumps = n\<rparr>"
    and adm: "breaker_before now b = (Inr p, b')"
  shows "breaker_core \<lparr>sys_breaker = b', sys_out = add_mset p m, sys_bumps = n\<rparr>"
  using before_InrD [OF adm] breaker_coreD [OF core]
  by (intro breaker_coreI) (auto split: if_splits)

lemma breaker_core_finish:
  assumes core: "breaker_core \<lparr>sys_breaker = b, sys_out = m, sys_bumps = n\<rparr>"
    and b': "b' = breaker_after sc now p err b"
    and small: "n + bumped b b' < 2 ^ 64"
  shows "breaker_core \<lparr>sys_breaker = b', sys_out = m - {#p#}, sys_bumps = n + bumped b b'\<rparr>"
proof -
  note D = breaker_coreD [OF breaker_core_drop [OF core, of p]]
  have gen: "br_generation b + 1 \<noteq> br_generation b" by simp
  show ?thesis
  proof (cases rule: breaker_after_cases [of sc now p err b])
    case same
    with breaker_core_drop [OF core] show ?thesis by (simp add: bumped_def b')
  next
    case (count f)
    have "breaker_core \<lparr>sys_breaker = b\<lparr>br_failures := f\<rparr>, sys_out = m - {#p#}, sys_bumps = n\<rparr>"
      using count(1,2) D by (intro breaker_coreI) auto
    with count show ?thesis by (simp add: bumped_def b')
  next
    case (opened f)
    with small gen have "bumped b b' = 1" "Suc n < 2 ^ 64" by (simp_all add: bumped_def b')
    then show ?thesis
      using D opened by (simp add: b') (rule breaker_core_bump [OF breaker_core_drop [OF core]]; auto)
  next
    case closed
    with small gen have "bumped b b' = 1" "Suc n < 2 ^ 64" by (simp_all add: bumped_def b')
    then show ?thesis
      using D closed by (simp add: b') (rule breaker_core_bump [OF breaker_core_drop [OF core]]; auto)
  next
    case reopened
    with small gen have "bumped b b' = 1" "Suc n < 2 ^ 64" by (simp_all add: bumped_def b')
    then show ?thesis
      using D reopened by (simp add: b') (rule breaker_core_bump [OF breaker_core_drop [OF core]]; auto)
  qed
qed

lemma breaker_step_bumps: "breaker_step sc s t \<Longrightarrow> sys_bumps s \<le> sys_bumps t"
  by (induction rule: breaker_step.induct) auto

interpretation breaker_generations: step_monotone "breaker_step sc" sys_bumps for sc
  by unfold_locales (rule breaker_step_bumps)

lemma breaker_step_core:
  assumes "breaker_step sc s t" and "breaker_core s" and "sys_bumps t < 2 ^ 64"
  shows "breaker_core t"
  using assms
proof (induction rule: breaker_step.induct)
  case (admit now s p b)
  then show ?case by (cases s) (auto intro: breaker_core_admit)
next
  case (reject now s e b)
  then show ?case
    using before_InlD [OF reject.hyps] by (cases s) (auto intro: breaker_core_half_open)
next
  case (read now s st b)
  then show ?case
    using get_stateD [OF read.hyps] by (cases s) (auto intro: breaker_core_half_open)
next
  case (finish p s now err b)
  then show ?case by (cases s) (auto intro!: breaker_core_finish)
next
  case (panic p s)
  then show ?case by (cases s) (auto intro: breaker_core_drop)
qed

interpretation breaker_safe: step_invariant "breaker_step sc" breaker_inv for sc
  by unfold_locales
    (auto simp: breaker_inv_def intro: breaker_step_core dest: breaker_step_bumps)

lemma breaker_inv_init:
  "breaker_inv (sys_init (new_breaker name threshold cooldown))"
  by (simp add: breaker_inv_def sys_init_def breaker_core_def probes_def current_permits_def
      new_breaker_def)

definition breaker_reachable ::
  "(goerr \<Rightarrow> bool) \<Rightarrow> string \<Rightarrow> int \<Rightarrow> duration \<Rightarrow> breaker_sys \<Rightarrow> bool" where
  "breaker_reachable sc name threshold cooldown s \<longleftrightarrow>
    (breaker_step sc)\<^sup>*\<^sup>* (sys_init (new_breaker name threshold cooldown)) s"

lemma reachable_core:
  "breaker_reachable sc name threshold cooldown s \<Longrightarrow> sys_bumps s < 2 ^ 64 \<Longrightarrow> breaker_core s"
  using breaker_safe.steps_keep breaker_inv_init
  by (auto simp: breaker_reachable_def breaker_inv_def)

lemma filter_mset_all: "\<forall>x\<in>#M. P x \<Longrightarrow> filter_mset P M = M"
  using filter_mset_cong [OF refl, of M P "\<lambda>_. True"] by simp

lemma core_single_probe:
  assumes core: "breaker_core s"
  shows "size (probes s) \<le> 1"
    and "br_state (sys_breaker s) \<noteq> BreakerClosed \<Longrightarrow> current_permits s = probes s"
    and "size (probes s) \<le> (if br_probe (sys_breaker s) then 1 else 0)"
proof -
  show flag: "size (probes s) \<le> (if br_probe (sys_breaker s) then 1 else 0)"
    using core by (simp add: breaker_core_def Let_def)
  then show "size (probes s) \<le> 1" by (simp split: if_splits)
  show "current_permits s = probes s" if "br_state (sys_breaker s) \<noteq> BreakerClosed"
    using core that by (simp add: breaker_core_def Let_def probes_def filter_mset_all)
qed

lemma size_le_1_member:
  assumes "x \<in># M" and "size M \<le> 1"
  shows "M = {#x#}"
proof -
  obtain N where "M = add_mset x N" using assms(1) by (blast dest: multi_member_split)
  with assms(2) show ?thesis by simp
qed

text \<open>A state from which no probe can ever be admitted again.\<close>

definition probe_lost :: "breaker_sys \<Rightarrow> bool" where
  "probe_lost s \<longleftrightarrow>
    br_state (sys_breaker s) = BreakerHalfOpen \<and> br_probe (sys_breaker s) \<and>
    (\<forall>p\<in>#sys_out s. pm_generation p \<noteq> br_generation (sys_breaker s))"

lemma probe_lost_step: "breaker_step sc s t \<Longrightarrow> probe_lost s \<Longrightarrow> probe_lost t"
proof (induction rule: breaker_step.induct)
  case (admit now s p b)
  then show ?case by (auto simp: probe_lost_def dest!: before_InrD)
next
  case (reject now s e b)
  then show ?case by (auto simp: probe_lost_def dest!: before_InlD)
next
  case (read now s st b)
  then show ?case by (auto simp: probe_lost_def dest!: get_stateD)
next
  case (finish p s now err b)
  then have "b = sys_breaker s" by (auto simp: probe_lost_def breaker_after_def)
  with finish show ?case by (auto simp: probe_lost_def dest: in_diffD)
next
  case (panic p s)
  then show ?case by (auto simp: probe_lost_def dest: in_diffD)
qed

interpretation lost_probe: step_invariant "breaker_step sc" probe_lost for sc
  by unfold_locales (rule probe_lost_step)

subsection \<open>Properties\<close>

text \<open>
  C1. However the calls interleave, panics and late returns included, at most one probe of
  the current generation is in flight; while the breaker is not closed, every call in
  flight that can still change its state is that probe. (Fewer than 2^64 generations: the
  counter is 64 bits wide and may wrap.)
\<close>

theorem breaker_single_probe:
  assumes "breaker_reachable sc name threshold cooldown s" and "sys_bumps s < 2 ^ 64"
  shows "size (probes s) \<le> 1 \<and>
    (br_state (sys_breaker s) \<noteq> BreakerClosed \<longrightarrow> current_permits s = probes s)"
  using core_single_probe [OF reachable_core [OF assms]] by simp

text \<open>A run that ends half-open with the probe in flight, for the witnesses.\<close>

definition demo_breaker :: breaker where
  "demo_breaker = new_breaker ''db'' 1 5"

definition demo_permit :: "bool \<Rightarrow> breaker_permit" where
  "demo_permit probe = \<lparr>pm_generation = (if probe then 1 else 0), pm_half_open = probe\<rparr>"

definition demo_open :: breaker_sys where
  "demo_open =
    \<lparr>sys_breaker = demo_breaker\<lparr>br_failures := 1, br_state := BreakerOpen,
        br_open_until := 15, br_generation := 1, br_gauge := ''open''\<rparr>,
     sys_out = {#}, sys_bumps = 1\<rparr>"

definition demo_half_open :: breaker_sys where
  "demo_half_open =
    demo_open\<lparr>sys_breaker := (sys_breaker demo_open)
        \<lparr>br_state := BreakerHalfOpen, br_probe := True\<rparr>,
      sys_out := {#demo_permit True#}\<rparr>"

lemmas demo_defs =
  demo_open_def demo_half_open_def demo_permit_def demo_breaker_def new_breaker_def

lemma demo_facts:
  "sys_bumps demo_open < 2 ^ 64" "sys_bumps demo_half_open < 2 ^ 64"
  "br_state (sys_breaker demo_open) = BreakerOpen"
  "br_state (sys_breaker demo_half_open) = BreakerHalfOpen"
  "br_open_until (sys_breaker demo_open) = 15"
  "demo_permit True \<in># probes demo_half_open"
  by (simp_all add: demo_defs probes_def current_permits_def)

lemma demo_open_reachable: "breaker_reachable (\<lambda>_. True) ''db'' 1 5 demo_open"
proof -
  let ?step = "breaker_step (\<lambda>_. True)" and ?s0 = "sys_init demo_breaker"
  let ?s1 = "?s0\<lparr>sys_out := {#demo_permit False#}\<rparr>"
  have "?step ?s0 ?s1"
    using breaker_step.admit [of 9 ?s0 "demo_permit False" demo_breaker]
    by (simp add: sys_init_def breaker_before_def current_state_def demo_defs)
  moreover have "?step ?s1 demo_open"
    using breaker_step.finish [of "demo_permit False" ?s1 "\<lambda>_. True" 10
        "Some err_nil_operation" "sys_breaker demo_open"]
    by (simp add: sys_init_def breaker_after_def demo_defs default_pos_def bumped_def)
  ultimately show ?thesis
    unfolding breaker_reachable_def demo_breaker_def [symmetric]
    by (meson rtranclp.rtrancl_refl rtranclp.rtrancl_into_rtrancl)
qed

lemma demo_half_open_reachable:
  "breaker_reachable (\<lambda>_. True) ''db'' 1 5 demo_half_open"
proof -
  have "breaker_step (\<lambda>_. True) demo_open demo_half_open"
    using breaker_step.admit [of 20 demo_open "demo_permit True" "sys_breaker demo_half_open"]
    by (simp add: breaker_before_def current_state_def time_after_def demo_defs)
  with demo_open_reachable show ?thesis
    unfolding breaker_reachable_def by (rule rtranclp.rtrancl_into_rtrancl)
qed

theorem breaker_single_probe_witness: "size (probes demo_half_open) \<le> 1"
  using breaker_single_probe [OF demo_half_open_reachable demo_facts(2)] by simp

text \<open>
  A panic in the probe disables the breaker for good: \<open>Do\<close> runs \<open>after\<close> only when the
  operation returns, so when the operation of the probe panics, every later call of any
  caller, at any later time, is refused with \<open>ErrCircuitOpen\<close> and leaves the breaker as it
  is.
\<close>

theorem breaker_stuck_after_probe_panic:
  assumes "breaker_reachable sc name threshold cooldown s" and "sys_bumps s < 2 ^ 64"
    and "p \<in># probes s" and "br_state (sys_breaker s) = BreakerHalfOpen"
    and "(breaker_step sc)\<^sup>*\<^sup>* (s\<lparr>sys_out := sys_out s - {#p#}\<rparr>) u"
  shows "breaker_before now (sys_breaker u) = (Inl err_circuit_open, sys_breaker u)"
proof -
  let ?s' = "s\<lparr>sys_out := sys_out s - {#p#}\<rparr>"
  have core: "breaker_core s" using assms(1,2) by (rule reachable_core)
  have current: "current_permits s = probes s"
    using core assms(4) by (simp add: core_single_probe(2))
  have probe: "probes s = {#p#}"
    using assms(3) core_single_probe(1) [OF core] by (rule size_le_1_member)
  have flag: "br_probe (sys_breaker s)"
    using core_single_probe(3) [OF core] probe by (simp split: if_splits)
  have p: "p \<in># sys_out s" "pm_generation p = br_generation (sys_breaker s)"
    using assms(3) by (simp_all add: probes_def current_permits_def)
  then obtain N where N: "sys_out s = add_mset p N" by (blast dest: multi_member_split)
  then have "filter_mset (\<lambda>q. pm_generation q = br_generation (sys_breaker s)) N = {#}"
    using current probe p(2) by (simp add: current_permits_def)
  then have "pm_generation q \<noteq> br_generation (sys_breaker s)" if "q \<in># sys_out s - {#p#}" for q
    using that N by (metis (mono_tags) add_mset_remove_trivial empty_iff filter_mset_eq_conv
        set_mset_empty in_diffD set_mset_filter mem_Collect_eq)
  then have "probe_lost ?s'"
    using flag assms(4) by (simp add: probe_lost_def)
  with assms(5) have "probe_lost u" by (rule lost_probe.steps_keep)
  then show ?thesis
    by (simp add: probe_lost_def before_half_open_busy)
qed

theorem breaker_stuck_after_probe_panic_witness:
  "breaker_before 1000000
     (sys_breaker (demo_half_open\<lparr>sys_out := sys_out demo_half_open - {#demo_permit True#}\<rparr>)) =
   (Inl err_circuit_open, sys_breaker demo_half_open)"
  using breaker_stuck_after_probe_panic [OF demo_half_open_reachable demo_facts(2,6,4)
      rtranclp.rtrancl_refl, of 1000000]
  by simp

text \<open>
  An open breaker refuses every call before its deadline, unchanged; the first call at
  or after the deadline is admitted as the probe, and until the probe returns every other
  call is refused, at any time.
\<close>

theorem breaker_open_window:
  assumes "breaker_reachable sc name threshold cooldown s" and "sys_bumps s < 2 ^ 64"
    and "br_state (sys_breaker s) = BreakerOpen"
  shows "(now < br_open_until (sys_breaker s) \<longrightarrow>
      breaker_before now (sys_breaker s) = (Inl err_circuit_open, sys_breaker s)) \<and>
    (br_open_until (sys_breaker s) \<le> now \<longrightarrow>
      (\<exists>p b. breaker_before now (sys_breaker s) = (Inr p, b) \<and> pm_half_open p \<and>
        (\<forall>later. breaker_before later b = (Inl err_circuit_open, b))))"
proof -
  have "\<not> br_probe (sys_breaker s)"
    using reachable_core [OF assms(1,2)] assms(3) by (auto simp: breaker_core_def Let_def)
  then show ?thesis
    using assms(3) by (auto simp: before_open_early before_open_late before_half_open_busy)
qed

theorem breaker_open_window_witness:
  "breaker_before 14 (sys_breaker demo_open) = (Inl err_circuit_open, sys_breaker demo_open) \<and>
   (\<exists>p b. breaker_before 15 (sys_breaker demo_open) = (Inr p, b) \<and> pm_half_open p)"
  using breaker_open_window [OF demo_open_reachable demo_facts(1,3), of 14]
    breaker_open_window [OF demo_open_reachable demo_facts(1,3), of 15]
  by (auto simp: demo_facts)

lemma breaker_steps_close:
  assumes "p \<in># sys_out s" and "pm_generation p = br_generation (sys_breaker s)" and "pm_half_open p"
    and "br_state (sys_breaker s) = BreakerHalfOpen"
  shows "\<exists>t. breaker_step sc s t \<and> br_state (sys_breaker t) = BreakerClosed"
proof -
  have "br_state (breaker_after sc 0 p None (sys_breaker s)) = BreakerClosed"
    using assms by (simp add: breaker_after_def Let_def)
  then show ?thesis using breaker_step.finish [OF assms(1) refl, of sc 0 None] by fastforce
qed

lemma breaker_steps_probe:
  assumes "br_state (sys_breaker s) \<noteq> BreakerClosed" and "\<not> br_probe (sys_breaker s)"
  shows "\<exists>t p. breaker_step sc s t \<and> p \<in># sys_out t \<and> pm_generation p = br_generation (sys_breaker t) \<and>
    pm_half_open p \<and> br_state (sys_breaker t) = BreakerHalfOpen"
proof -
  let ?b = "sys_breaker s" and ?p = "\<lparr>pm_generation = br_generation (sys_breaker s), pm_half_open = True\<rparr>"
  let ?t = "s\<lparr>sys_breaker := ?b\<lparr>br_state := BreakerHalfOpen, br_probe := True\<rparr>, sys_out := add_mset ?p (sys_out s)\<rparr>"
  have "breaker_before (br_open_until ?b) ?b = (Inr ?p, ?b\<lparr>br_state := BreakerHalfOpen, br_probe := True\<rparr>)"
    using assms by (cases "br_state ?b") (auto simp: breaker_op_defs time_after_def)
  from breaker_step.admit [OF this] have "breaker_step sc s ?t" .
  then show ?thesis by (intro exI [of _ ?t] exI [of _ ?p]) simp
qed

text \<open>
  C37. A breaker whose probe has not been lost to a panic always recovers: from every state the calls can
  reach, there is a continuation of at most two steps, the admission of a probe and its successful
  return, after which calls pass again.
\<close>

theorem breaker_recovers:
  assumes "breaker_reachable sc name threshold cooldown s" and "sys_bumps s < 2 ^ 64" and "\<not> probe_lost s"
  shows "\<exists>t. (breaker_step sc)\<^sup>*\<^sup>* s t \<and> br_state (sys_breaker t) = BreakerClosed \<and>
    (\<forall>now. \<exists>p. breaker_before now (sys_breaker t) = (Inr p, sys_breaker t))"
proof -
  have core: "breaker_core s" using assms(1,2) by (rule reachable_core)
  have "\<exists>t. (breaker_step sc)\<^sup>*\<^sup>* s t \<and> br_state (sys_breaker t) = BreakerClosed"
  proof (cases "br_state (sys_breaker s) = BreakerClosed")
    case False
    show ?thesis
    proof (cases "br_probe (sys_breaker s)")
      case True
      then have half: "br_state (sys_breaker s) = BreakerHalfOpen"
        using core by (auto simp: breaker_core_def Let_def)
      then obtain p where p: "p \<in># current_permits s"
        using assms(3) True by (auto simp: probe_lost_def current_permits_def)
      moreover have "pm_half_open p"
        using core p half by (auto simp: breaker_core_def Let_def)
      ultimately show ?thesis
        using breaker_steps_close [of p s sc] half by (auto simp: current_permits_def)
    next
      case False': False
      from breaker_steps_probe [OF False False'] show ?thesis
        by (metis breaker_steps_close rtranclp.rtrancl_into_rtrancl rtranclp.rtrancl_refl)
    qed
  qed auto
  then show ?thesis by (metis before_closed)
qed

theorem breaker_recovers_witness:
  "\<exists>t. (breaker_step (\<lambda>_. True))\<^sup>*\<^sup>* demo_half_open t \<and> br_state (sys_breaker t) = BreakerClosed"
proof -
  have "\<not> probe_lost demo_half_open" by (simp add: probe_lost_def demo_defs)
  from breaker_recovers [OF demo_half_open_reachable demo_facts(2) this] show ?thesis by blast
qed

text \<open>
  C38. The fields of a breaker stay consistent: whatever calls interleave, the threshold is positive, a
  closed breaker has recorded fewer failures than it, the published gauge says closed exactly when the
  breaker is closed, and the probe flag is only set in the half-open state.
\<close>

theorem breaker_well_formed:
  assumes "breaker_reachable sc name threshold cooldown s" and "sys_bumps s < 2 ^ 64" and "b = sys_breaker s"
  shows "0 < br_threshold b \<and> 0 \<le> br_failures b \<and>
    (br_state b = BreakerClosed \<longrightarrow> br_failures b < br_threshold b) \<and>
    (br_gauge b = ''closed'' \<longleftrightarrow> br_state b = BreakerClosed) \<and> (br_probe b \<longrightarrow> br_state b = BreakerHalfOpen)"
  using reachable_core [OF assms(1,2)] assms(3) by (simp add: breaker_core_def Let_def)

theorem breaker_well_formed_witness: "br_gauge (sys_breaker demo_half_open) \<noteq> ''closed''"
  using breaker_well_formed [OF demo_half_open_reachable demo_facts(2) refl] demo_facts(4) by simp

end
