(* ===== verification/App_Errors.thy ===== *)
theory App_Errors
  imports Go_Errors
begin

text \<open>
  Application errors and their transports: the response envelope and its codes
  (\<open>resp/\<close>), the transport-neutral error type (\<open>apperr/error.go\<close>), the client side of
  gRPC (\<open>clientx/grpc.go\<close> and the error type of \<open>clientx/client.go\<close>), and the middleware
  that turns panics into responses (\<open>mid/error.go\<close>). gRPC's \<open>status.Code\<close> is a parameter.
\<close>

subsection \<open>The response envelope\<close>

record 'd envelope =
  env_code :: int
  env_msg :: string
  env_data :: "'d option"

record 'd reply =
  rep_status :: int
  rep_body :: "'d envelope"

record 'd page_data =
  pd_list :: "'d"
  pd_total :: int
  pd_page_size :: int
  pd_current_page :: int

definition code_ok :: int where "code_ok = 200"
definition code_invalid_param :: int where "code_invalid_param = 40001"
definition code_unauthorized :: int where "code_unauthorized = 40101"
definition code_token_invalid :: int where "code_token_invalid = 40103"
definition code_forbidden :: int where "code_forbidden = 40301"
definition code_not_found :: int where "code_not_found = 40401"
definition code_conflict :: int where "code_conflict = 40901"
definition code_too_many_reqs :: int where "code_too_many_reqs = 42901"
definition code_internal :: int where "code_internal = 50000"
definition code_service_down :: int where "code_service_down = 50002"

lemmas resp_codes = code_ok_def code_invalid_param_def code_unauthorized_def
  code_token_invalid_def code_forbidden_def code_not_found_def code_conflict_def
  code_too_many_reqs_def code_internal_def code_service_down_def

definition resp_ok :: "'d list \<Rightarrow> 'd reply" where
  "resp_ok data =
    \<lparr>rep_status = 200, rep_body = \<lparr>env_code = 200, env_msg = ''OK'',
      env_data = (case data of [] \<Rightarrow> None | d # _ \<Rightarrow> Some d)\<rparr>\<rparr>"

definition resp_fail :: "int \<Rightarrow> string \<Rightarrow> 'd reply" where
  "resp_fail code msg =
    \<lparr>rep_status = 200, rep_body = \<lparr>env_code = code, env_msg = msg, env_data = None\<rparr>\<rparr>"

definition fail_status :: "int \<Rightarrow> int \<Rightarrow> string \<Rightarrow> 'd reply" where
  "fail_status status code msg =
    \<lparr>rep_status = status, rep_body = \<lparr>env_code = code, env_msg = msg, env_data = None\<rparr>\<rparr>"

definition http_status_for_code :: "int \<Rightarrow> int" where
  "http_status_for_code code =
    (let family = go_div code 100
     in if family = 400 then 400 else if family = 401 then 401 else if family = 403 then 403
        else if family = 404 then 404 else if family = 409 then 409
        else if family = 429 then 429 else if family = 500 then 500 else 400)"

definition resp_page :: "'d \<Rightarrow> int \<Rightarrow> int \<Rightarrow> int \<Rightarrow> 'd page_data reply" where
  "resp_page xs n page page_size =
    (let page = (if page \<le> 0 then 1 else page)
     in \<lparr>rep_status = 200, rep_body = \<lparr>env_code = 200, env_msg = ''OK'',
          env_data = Some \<lparr>pd_list = xs, pd_total = n, pd_page_size = page_size,
            pd_current_page = page\<rparr>\<rparr>\<rparr>)"

definition resp_error :: "goerr \<Rightarrow> 'd reply" where
  "resp_error err = fail_status 400 code_invalid_param msg_param_error"

subsection \<open>apperr\<close>

definition app_select :: "goerr \<Rightarrow> (int \<times> string \<times> bool) option option" where
  "app_select e =
    (case e of AppErr code msg cause retryable \<Rightarrow> Some (Some (code, msg, retryable))
     | AppErrNil \<Rightarrow> Some None
     | _ \<Rightarrow> None)"

text \<open>The first \<open>*Error\<close> of the tree; \<open>None\<close> also for a typed nil pointer.\<close>

definition as_app :: "goerr option \<Rightarrow> (int \<times> string \<times> bool) option" where
  "as_app err =
    (case err of None \<Rightarrow> None
     | Some e \<Rightarrow> (case err_as app_select e of Some (Some a) \<Rightarrow> Some a | _ \<Rightarrow> None))"

definition with_retryable :: "bool \<Rightarrow> goerr \<Rightarrow> goerr" where
  "with_retryable retryable e =
    (case e of AppErr code msg cause _ \<Rightarrow> AppErr code msg cause retryable | _ \<Rightarrow> e)"

definition code_of :: "goerr option \<Rightarrow> int" where
  "code_of err = (case as_app err of Some (code, _) \<Rightarrow> code | None \<Rightarrow> 0)"

definition public_message :: "goerr option \<Rightarrow> string" where
  "public_message err =
    (case as_app err of
       Some (_, msg, _) \<Rightarrow> if msg \<noteq> [] then msg else msg_internal_error
     | None \<Rightarrow> msg_internal_error)"

definition app_retryable :: "goerr option \<Rightarrow> bool" where
  "app_retryable err = (case as_app err of Some (_, _, r) \<Rightarrow> r | None \<Rightarrow> False)"

definition http_status :: "goerr option \<Rightarrow> int" where
  "http_status err = (if code_of err \<noteq> 0 then http_status_for_code (code_of err) else 500)"

definition grpc_code_for :: "int \<Rightarrow> grpc_code" where
  "grpc_code_for code =
    (let family = go_div code 100
     in if family = 400 then GrpcInvalidArgument else if family = 401 then GrpcUnauthenticated
        else if family = 403 then GrpcPermissionDenied else if family = 404 then GrpcNotFound
        else if family = 409 then GrpcAborted else if family = 429 then GrpcResourceExhausted
        else if family = 500 then GrpcInternal else GrpcUnknown)"

definition grpc_status :: "goerr option \<Rightarrow> goerr option" where
  "grpc_status err =
    (if err = None then None
     else if code_of err = 0 then Some (StatusErr GrpcInternal msg_internal_error)
     else Some (StatusErr (grpc_code_for (code_of err)) (public_message err)))"

subsection \<open>clientx: errors of outbound calls\<close>

definition client_select :: "goerr \<Rightarrow> int option" where
  "client_select e = (case e of ClientErr code _ _ \<Rightarrow> Some code | _ \<Rightarrow> None)"

definition client_code_of :: "goerr option \<Rightarrow> int" where
  "client_code_of err =
    (case err of None \<Rightarrow> 0
     | Some e \<Rightarrow> (case err_as client_select e of Some code \<Rightarrow> code | None \<Rightarrow> 0))"

definition is_retryable :: "(goerr \<Rightarrow> grpc_code) \<Rightarrow> goerr option \<Rightarrow> bool" where
  "is_retryable status_code err =
    (case err of
       None \<Rightarrow> False
     | Some e \<Rightarrow>
        if err_is e ''context canceled'' then False
        else if err_is e ''context deadline exceeded'' then True
        else if err_is e ''circuit breaker open'' then False
        else if code_of err \<noteq> 0 then app_retryable err
        else status_code e \<in> {GrpcUnavailable, GrpcDeadlineExceeded, GrpcResourceExhausted})"

definition map_grpc_error :: "(goerr \<Rightarrow> grpc_code) \<Rightarrow> goerr option \<Rightarrow> goerr option" where
  "map_grpc_error status_code err =
    (case err of
       None \<Rightarrow> None
     | Some e \<Rightarrow>
        if err_is e ''circuit breaker open''
        then Some (ClientErr code_service_down msg_circuit_open err)
        else (case status_code e of
            GrpcOK \<Rightarrow> None
          | GrpcInvalidArgument \<Rightarrow> Some (ClientErr code_invalid_param msg_param_error err)
          | GrpcUnauthenticated \<Rightarrow> Some (ClientErr code_unauthorized msg_not_logged_in err)
          | GrpcPermissionDenied \<Rightarrow> Some (ClientErr code_forbidden msg_forbidden err)
          | GrpcNotFound \<Rightarrow> Some (ClientErr code_not_found msg_not_found err)
          | GrpcAlreadyExists \<Rightarrow> Some (ClientErr code_conflict msg_conflict err)
          | GrpcAborted \<Rightarrow> Some (ClientErr code_conflict msg_conflict err)
          | GrpcResourceExhausted \<Rightarrow> Some (ClientErr code_too_many_reqs msg_too_many err)
          | GrpcUnavailable \<Rightarrow> Some (ClientErr code_service_down msg_unavailable err)
          | GrpcDeadlineExceeded \<Rightarrow> Some (ClientErr code_service_down msg_unavailable err)
          | _ \<Rightarrow> Some (ClientErr code_internal msg_service_error err)))"

subsection \<open>Lemmas\<close>

lemma as_app_AppErr [simp]: "as_app (Some (AppErr c m cause r)) = Some (c, m, r)"
  by (simp add: as_app_def err_as_hit [of app_select _ "Some (c, m, r)"] app_select_def)

lemma as_app_Wrapf [simp]: "as_app (Some (Wrapf t e)) = as_app (Some e)"
  by (simp add: as_app_def err_as_Wrapf app_select_def)

lemma client_code_of_ClientErr [simp]: "client_code_of (Some (ClientErr c m cause)) = c"
  by (simp add: client_code_of_def err_as_hit [of client_select _ c] client_select_def)

lemma err_is_StatusErr [simp]: "\<not> err_is (StatusErr c m) t"
  by simp

definition standard_families :: "int set" where
  "standard_families = {400, 401, 403, 404, 409, 429, 500}"

lemma http_status_for_code_standard:
  "go_div code 100 \<in> standard_families \<Longrightarrow> http_status_for_code code = go_div code 100"
  by (auto simp: standard_families_def http_status_for_code_def)

lemma http_status_for_code_other:
  "go_div code 100 \<notin> standard_families \<Longrightarrow>
    http_status_for_code code = 400 \<and> grpc_code_for code = GrpcUnknown"
  by (auto simp: standard_families_def http_status_for_code_def grpc_code_for_def)

lemma http_status_for_code_codes [simp]:
  "http_status_for_code code_invalid_param = 400" "http_status_for_code code_unauthorized = 401"
  "http_status_for_code code_forbidden = 403" "http_status_for_code code_not_found = 404"
  "http_status_for_code code_conflict = 409" "http_status_for_code code_too_many_reqs = 429"
  "http_status_for_code code_internal = 500" "http_status_for_code code_service_down = 500"
  by (simp_all add: http_status_for_code_def resp_codes go_div_def)

subsection \<open>Panics as responses\<close>

text \<open>
  What a handler may panic with: \<open>*AppError\<close>, another error (of which \<open>*apperr.Error\<close> has
  a case of its own), a string, or anything else.
\<close>

datatype panic_value =
  PanicAppError int string
| PanicError goerr
| PanicString string
| PanicOther

text \<open>
  \<open>fmt.Sscanf(s, "%d", &code)\<close>: white space (but no newline), an optional sign and the
  longest run of digits; \<open>None\<close> when nothing is stored.
\<close>

definition scan_int :: "string \<Rightarrow> int option" where
  "scan_int s =
    (let lead = take (length s - length (trim_left s)) s; t = trim_left s;
         (sign, u) = (case t of [] \<Rightarrow> ([], [])
           | c # cs \<Rightarrow> if c = CHR ''+'' \<or> c = CHR ''-'' then ([c], cs) else ([], t));
         ds = takeWhile is_digit u
     in if CHR 0x0A \<in> set lead \<or> ds = [] then None
        else (case parse_int (sign @ ds) of (n, None) \<Rightarrow> Some n | _ \<Rightarrow> None))"

definition error_handler_reply :: "panic_value \<Rightarrow> 'd reply" where
  "error_handler_reply v =
    (case v of
       PanicAppError code msg \<Rightarrow> fail_status (http_status_for_code code) code msg
     | PanicError e \<Rightarrow>
         if app_select e \<noteq> None
         then fail_status (http_status (Some e)) (code_of (Some e)) (public_message (Some e))
         else fail_status 500 code_internal msg_internal_error
     | PanicString s \<Rightarrow>
         if prefix ''CustomError#'' s then
           (case split_n 3 (CHR ''#'') s of
              [_, code_text, msg] \<Rightarrow>
                (let code = (case scan_int code_text of Some n \<Rightarrow> n | None \<Rightarrow> 50000)
                 in fail_status (http_status_for_code code) code msg)
            | _ \<Rightarrow> fail_status 500 code_internal msg_internal_error)
         else fail_status 500 code_internal msg_internal_error
     | PanicOther \<Rightarrow> fail_status 500 code_internal msg_internal_error)"

text \<open>
  The middleware: a handler that returns leaves its own response; one that panics leaves
  the response of the panic and aborts the chain.
\<close>

datatype ('r, 'v) handler_result = HandlerDone 'r | HandlerPanic 'v

definition error_handler ::
  "('d reply, panic_value) handler_result \<Rightarrow> 'd reply \<times> bool" where
  "error_handler h =
    (case h of HandlerDone r \<Rightarrow> (r, False) | HandlerPanic v \<Rightarrow> (error_handler_reply v, True))"

definition recovery_reply :: "'d reply" where
  "recovery_reply = fail_status 500 code_internal msg_internal_error"

definition recovery :: "('d reply, 'v) handler_result \<Rightarrow> 'd reply \<times> bool" where
  "recovery h = (case h of HandlerDone r \<Rightarrow> (r, False) | HandlerPanic v \<Rightarrow> (recovery_reply, True))"

subsection \<open>Properties\<close>

text \<open>
  An application error that crosses a gRPC hop keeps its HTTP status exactly when its
  code is in a standard family: the status the server would answer itself is the status the
  caller answers after mapping the received error. For the other codes the server answers
  400 but the caller 500.
\<close>

theorem grpc_hop_http_status:
  assumes "code \<noteq> 0" and "\<And>c m. status_code (StatusErr c m) = c"
  shows "http_status_for_code (client_code_of (map_grpc_error status_code
      (grpc_status (Some (AppErr code msg cause r))))) =
    (if go_div code 100 \<in> standard_families then http_status (Some (AppErr code msg cause r))
     else 500)"
proof -
  have hop: "grpc_status (Some (AppErr code msg cause r)) =
      Some (StatusErr (grpc_code_for code) (if msg \<noteq> [] then msg else msg_internal_error))"
    using assms(1) by (simp add: grpc_status_def code_of_def public_message_def)
  have local_status: "http_status (Some (AppErr code msg cause r)) = http_status_for_code code"
    using assms(1) by (simp add: http_status_def code_of_def)
  show ?thesis
  proof (cases "go_div code 100 \<in> standard_families")
    case True
    then have "go_div code 100 = 400 \<or> go_div code 100 = 401 \<or> go_div code 100 = 403 \<or>
        go_div code 100 = 404 \<or> go_div code 100 = 409 \<or> go_div code 100 = 429 \<or>
        go_div code 100 = 500"
      by (simp add: standard_families_def)
    then show ?thesis
      using True by (elim disjE)
        (simp_all add: hop local_status map_grpc_error_def assms(2) grpc_code_for_def
          http_status_for_code_standard)
  next
    case False
    then show ?thesis
      by (simp add: hop map_grpc_error_def assms(2) http_status_for_code_other)
  qed
qed

definition demo_status_code :: "goerr \<Rightarrow> grpc_code" where
  "demo_status_code e = (case e of StatusErr c _ \<Rightarrow> c | _ \<Rightarrow> GrpcUnknown)"

theorem grpc_hop_http_status_witness:
  "http_status_for_code (client_code_of (map_grpc_error demo_status_code
      (grpc_status (Some (AppErr 40905 ''dup'' None False))))) = 409 \<and>
   http_status_for_code (client_code_of (map_grpc_error demo_status_code
      (grpc_status (Some (AppErr 10001 ''biz'' None False))))) = 500 \<and>
   http_status (Some (AppErr 10001 ''biz'' None False)) = 400"
  using grpc_hop_http_status [of 40905 demo_status_code "''dup''" None False]
    grpc_hop_http_status [of 10001 demo_status_code "''biz''" None False]
  by (simp add: demo_status_code_def standard_families_def http_status_def code_of_def
      http_status_for_code_def go_div_def)

lemma as_app_wraps [simp]: "as_app (Some (foldr Wrapf texts e)) = as_app (Some e)"
  by (induction texts) simp_all

text \<open>
  The errors of a tree in the order in which \<open>errors.As\<close> looks at them: an error, then what it
  unwraps to.
\<close>

fun err_nodes :: "goerr \<Rightarrow> goerr list" where
  "err_nodes (Wrapf m c) = Wrapf m c # err_nodes c"
| "err_nodes (Joined es) = Joined es # concat (map err_nodes es)"
| "err_nodes (AppErr code msg (Some c) r) = AppErr code msg (Some c) r # err_nodes c"
| "err_nodes (ClientErr code msg (Some c)) = ClientErr code msg (Some c) # err_nodes c"
| "err_nodes e = [e]"

lemma first_some_append: "first_some (xs @ ys) = (case first_some xs of None \<Rightarrow> first_some ys | Some x \<Rightarrow> Some x)"
  by (induction xs rule: first_some.induct) auto

lemma first_some_concat: "first_some (concat xss) = first_some (map first_some xss)"
  by (induction xss) (auto simp: first_some_append split: option.split)

lemma first_some_Cons: "first_some (x # xs) = (case x of None \<Rightarrow> first_some xs | Some y \<Rightarrow> Some y)"
  by (cases x) simp_all

lemma err_as_nodes: "err_as sel e = first_some (map sel (err_nodes e))"
proof (induction e rule: err_nodes.induct)
  case (2 es)
  then have [simp]: "map (err_as sel) es = map (\<lambda>e. first_some (map sel (err_nodes e))) es"
    by simp
  then show ?case
    by (simp add: err_as.simps [of sel "Joined es"] first_some_Cons map_concat first_some_concat comp_def
        split: option.split)
qed (subst err_as.simps, simp add: first_some_Cons split: option.split)+

definition is_app :: "goerr \<Rightarrow> bool" where
  "is_app e \<longleftrightarrow> app_select e \<noteq> None"

lemma as_app_nodes:
  "as_app (Some e) =
    (case find is_app (err_nodes e) of Some (AppErr code msg cause r) \<Rightarrow> Some (code, msg, r) | _ \<Rightarrow> None)"
proof -
  have "first_some (map app_select es) = Option.bind (find is_app es) app_select" for es
    by (induction es) (auto simp: is_app_def first_some_Cons split: option.split)
  then show ?thesis
    by (auto simp: as_app_def err_as_nodes app_select_def split: option.split goerr.split)
qed

text \<open>What an application code and message look like to a client.\<close>

definition public_text :: "string \<Rightarrow> string" where
  "public_text msg = (if msg = [] then msg_internal_error else msg)"

definition public_status :: "int \<Rightarrow> string \<Rightarrow> goerr" where
  "public_status code msg =
    (if code = 0 then StatusErr GrpcInternal msg_internal_error else StatusErr (grpc_code_for code) (public_text msg))"

definition internal_reply :: "'d reply" where
  "internal_reply = fail_status 500 code_internal msg_internal_error"

lemma split_two: "split_n 2 sep s = [t, u] \<Longrightarrow> s = t @ sep # u"
proof (induction s arbitrary: t)
  case (Cons c s)
  then show ?case
    by (auto simp: numeral_2_eq_2 split: if_splits list.splits)
qed (simp add: numeral_2_eq_2)

text \<open>
  C31. No internal detail reaches a client. Of an error tree of any shape (wrapped and joined errors,
  gRPC and HTTP statuses, errors of outbound calls) the gRPC status, the HTTP status and the public
  message show the code and the message of the first application error in it, and nothing of what is
  around it or of its cause; a tree without one, also when it holds a gRPC status, gives the fixed
  internal error. A panic is answered with code and message of the application error it panicked
  with, and otherwise, for a string in the legacy format, with the two parts of it that are meant for
  clients; every other value, an application error wrapped in another one included, gives the fixed
  internal error.
\<close>

theorem transports_hide_causes:
  "(case find is_app (err_nodes e) of
      Some (AppErr code msg cause retryable) \<Rightarrow>
        grpc_status (Some e) = Some (public_status code msg) \<and>
        http_status (Some e) = (if code = 0 then 500 else http_status_for_code code) \<and>
        public_message (Some e) = public_text msg
    | _ \<Rightarrow> grpc_status (Some e) = Some (StatusErr GrpcInternal msg_internal_error) \<and>
        http_status (Some e) = 500 \<and> public_message (Some e) = msg_internal_error) \<and>
   (let r = (error_handler_reply v :: 'd reply) in case v of
      PanicAppError code msg \<Rightarrow> r = fail_status (http_status_for_code code) code msg
    | PanicError (AppErr code msg cause retryable) \<Rightarrow>
        r = fail_status (if code = 0 then 500 else http_status_for_code code) code (public_text msg)
    | PanicError AppErrNil \<Rightarrow> r = fail_status 500 0 msg_internal_error
    | PanicString s \<Rightarrow> r = internal_reply \<or>
        (\<exists>num msg code. s = ''CustomError#'' @ num @ ''#'' @ msg \<and>
          code = (case scan_int num of Some n \<Rightarrow> n | None \<Rightarrow> 50000) \<and>
          r = fail_status (http_status_for_code code) code msg)
    | _ \<Rightarrow> r = internal_reply)"
proof (rule conjI, goal_cases)
  case 1
  show ?case
    by (auto simp: grpc_status_def http_status_def code_of_def public_message_def as_app_nodes
        public_status_def public_text_def split: option.split goerr.split)
next
  case 2
  show ?case
  proof (cases v)
    case (PanicString s)
    show ?thesis
    proof (cases "prefix ''CustomError#'' s")
      case True
      then obtain u where s: "s = ''CustomError#'' @ u"
        by (auto simp: prefix_def)
      have parts: "split_n 3 (CHR ''#'') s = ''CustomError'' # split_n 2 (CHR ''#'') u"
        by (simp add: s numeral_3_eq_3 numeral_2_eq_2)
      show ?thesis
      proof (cases "\<exists>num msg. split_n 2 (CHR ''#'') u = [num, msg]")
        case True
        then obtain num msg where u: "split_n 2 (CHR ''#'') u = [num, msg]" by blast
        then have "s = ''CustomError#'' @ num @ ''#'' @ msg"
          using split_two [OF u] s by simp
        moreover have "(error_handler_reply v :: 'd reply) =
            (let code = (case scan_int num of Some n \<Rightarrow> n | None \<Rightarrow> 50000)
             in fail_status (http_status_for_code code) code msg)"
          using \<open>prefix ''CustomError#'' s\<close> by (simp add: error_handler_reply_def PanicString parts u Let_def)
        ultimately show ?thesis
          unfolding PanicString by (simp only: panic_value.simps Let_def) blast
      next
        case False
        then have "(error_handler_reply v :: 'd reply) = internal_reply"
          using \<open>prefix ''CustomError#'' s\<close>
          by (auto simp: error_handler_reply_def PanicString parts internal_reply_def split: list.split)
        then show ?thesis by (simp add: PanicString Let_def)
      qed
    qed (simp add: PanicString error_handler_reply_def internal_reply_def Let_def)
  next
    case (PanicError e)
    have "as_app (Some AppErrNil) = None"
      by (simp add: as_app_nodes is_app_def app_select_def)
    with PanicError show ?thesis
      by (cases e) (simp_all add: Let_def error_handler_reply_def app_select_def internal_reply_def http_status_def
          code_of_def public_message_def public_text_def)
  qed (simp_all add: error_handler_reply_def internal_reply_def Let_def)
qed

end
