(* ===== verification/Retry.thy ===== *)
theory Retry
  imports Backoff Breaker App_Errors
begin

text \<open>
  The retry loop of \<open>clientx/client.go\<close>. The operation, the context, the random source and
  the timer act on a world \<open>'w\<close>: the operation and the sleep return the new world, and the
  context's error is read from it. \<open>retry_do\<close> is \<open>Do\<close>, \<open>normalize_retry\<close> is
  \<open>normalizeRetryConfig\<close>.
\<close>

subsection \<open>Configuration\<close>

record 'w retry_config =
  rc_max_attempts :: int
  rc_budget :: duration
  rc_initial :: duration
  rc_max :: duration
  rc_multiplier :: rat
  rc_retryable :: "(goerr \<Rightarrow> bool) option"
  rc_sleep :: "('w \<Rightarrow> duration \<Rightarrow> goerr option \<times> 'w) option"
  rc_jitter :: rat
  rc_disable_jitter :: bool

text \<open>
  What the loop uses of its surroundings: \<open>ctx.Err()\<close>, \<open>context.WithTimeout\<close>, the random
  source, \<open>IsRetryable\<close> and \<open>sleepContext\<close>.
\<close>

record 'w retry_env =
  re_ctx_err :: "'w \<Rightarrow> goerr option"
  re_with_timeout :: "duration \<Rightarrow> 'w \<Rightarrow> 'w"
  re_rand :: "'w \<Rightarrow> rat \<times> 'w"
  re_retryable :: "goerr \<Rightarrow> bool"
  re_sleep :: "'w \<Rightarrow> duration \<Rightarrow> goerr option \<times> 'w"

definition normalize_retry :: "'w retry_env \<Rightarrow> 'w retry_config \<Rightarrow> 'w retry_config" where
  "normalize_retry env cfg =
    (let attempts = at_most 5 (default_pos (rc_max_attempts cfg) 3);
         initial = at_most minute (default_pos (rc_initial cfg) (100 * millisecond));
         mx = at_most (5 * minute) (default_pos (rc_max cfg) second);
         mx = (if mx < initial then initial else mx);
         mult = (if rc_multiplier cfg \<le> 0 then 2 else rc_multiplier cfg);
         mult = (if mult > 10 then 10 else mult);
         jit = (if rc_disable_jitter cfg then 0
                else if rc_jitter cfg \<le> 0 then 1 / 5 else rc_jitter cfg);
         jit = (if jit > 1 then 1 else jit);
         budget = (if rc_budget cfg < 0 then 0 else rc_budget cfg)
     in cfg\<lparr>rc_max_attempts := attempts, rc_budget := budget, rc_initial := initial, rc_max := mx,
          rc_multiplier := mult,
          rc_retryable := Some (case rc_retryable cfg of Some f \<Rightarrow> f | None \<Rightarrow> re_retryable env),
          rc_sleep := Some (case rc_sleep cfg of Some f \<Rightarrow> f | None \<Rightarrow> re_sleep env),
          rc_jitter := jit\<rparr>)"

definition retry_ok :: "'w retry_config \<Rightarrow> bool" where
  "retry_ok cfg \<longleftrightarrow>
    1 \<le> rc_max_attempts cfg \<and> rc_max_attempts cfg \<le> 5 \<and> 0 \<le> rc_budget cfg \<and>
    0 < rc_initial cfg \<and> rc_initial cfg \<le> minute \<and>
    rc_initial cfg \<le> rc_max cfg \<and> rc_max cfg \<le> 5 * minute \<and>
    0 < rc_multiplier cfg \<and> rc_multiplier cfg \<le> 10 \<and>
    rc_retryable cfg \<noteq> None \<and> rc_sleep cfg \<noteq> None \<and>
    0 \<le> rc_jitter cfg \<and> rc_jitter cfg \<le> 1 \<and> (rc_disable_jitter cfg \<longrightarrow> rc_jitter cfg = 0) \<and>
    (\<not> rc_disable_jitter cfg \<longrightarrow> 0 < rc_jitter cfg)"

lemma retry_ok_normalize: "retry_ok (normalize_retry env cfg)"
  by (simp add: retry_ok_def normalize_retry_def Let_def default_pos_def at_most_def
      duration_units split: option.splits)

lemma normalize_retry_id: "retry_ok cfg \<Longrightarrow> normalize_retry env cfg = cfg"
  by (cases cfg) (auto simp: retry_ok_def normalize_retry_def Let_def default_pos_def at_most_def
      duration_units)

interpretation retry_normal: sanitizer "normalize_retry env" retry_ok for env
  by unfold_locales (rule retry_ok_normalize, rule normalize_retry_id)

subsection \<open>The loop\<close>

function retry_loop ::
  "(rat \<Rightarrow> rat) \<Rightarrow> 'w retry_env \<Rightarrow> 'w retry_config \<Rightarrow> ('w \<Rightarrow> goerr option \<times> 'w) \<Rightarrow>
   int \<Rightarrow> duration \<Rightarrow> goerr option \<Rightarrow> 'w \<Rightarrow> goerr option \<times> 'w" where
  "retry_loop fl env cfg fn attempt backoff prev w =
    (if attempt > rc_max_attempts cfg then (prev, w)
     else
       (case re_ctx_err env w of
          Some e \<Rightarrow> (Some e, w)
        | None \<Rightarrow>
           (case fn w of
              (None, w) \<Rightarrow> (None, w)
            | (Some err, w) \<Rightarrow>
               (if attempt = rc_max_attempts cfg \<or> \<not> the (rc_retryable cfg) err
                then (Some err, w)
                else
                  (case re_rand env w of
                     (r, w) \<Rightarrow>
                      (case the (rc_sleep cfg) w (jitter_backoff fl backoff (rc_jitter cfg) r) of
                         (Some e, w) \<Rightarrow> (Some e, w)
                       | (None, w) \<Rightarrow>
                          retry_loop fl env cfg fn (attempt + 1)
                            (next_backoff fl backoff (rc_max cfg) (rc_multiplier cfg))
                            (Some err) w))))))"
  by pat_completeness auto
termination
  by (relation "measure (\<lambda>(fl, env, cfg, fn, attempt, backoff, last, w).
      nat (rc_max_attempts cfg + 1 - attempt))") auto

declare retry_loop.simps [simp del]

definition retry_do ::
  "(rat \<Rightarrow> rat) \<Rightarrow> 'w retry_env \<Rightarrow> 'w retry_config \<Rightarrow> ('w \<Rightarrow> goerr option \<times> 'w) option \<Rightarrow>
   'w \<Rightarrow> goerr option \<times> 'w" where
  "retry_do fl env cfg fn w =
    (case fn of
       None \<Rightarrow> (Some err_nil_operation, w)
     | Some f \<Rightarrow>
        (let cfg = normalize_retry env cfg;
             w = (if rc_budget cfg > 0 then re_with_timeout env (rc_budget cfg) w else w)
         in retry_loop fl env cfg f 1 (rc_initial cfg) None w))"

subsection \<open>Runs of the operation\<close>

text \<open>
  The loop does nothing to the world but run the operation and wait: it runs the operation a
  bounded number of times, it succeeds exactly when the last run did, and a failing call
  leaves what failing runs leave.
\<close>

lemma retry_loop_trace:
  fixes T :: "'w \<Rightarrow> 'x list"
  assumes "\<And>w. \<exists>x. Q x \<and> T (snd (fn w)) = T w @ [x]" and "\<And>w. T (snd (re_rand env w)) = T w"
    and "\<And>w d. T (snd (the (rc_sleep cfg) w d)) = T w"
  shows "\<exists>xs. list_all Q xs \<and> length xs \<le> nat (rc_max_attempts cfg + 1 - attempt) \<and>
    T (snd (retry_loop fl env cfg fn attempt backoff prev w)) = T w @ xs"
proof (induction "nat (rc_max_attempts cfg + 1 - attempt)" arbitrary: attempt backoff prev w)
  case 0
  then show ?case by (simp add: retry_loop.simps)
next
  case (Suc n)
  let ?m = "rc_max_attempts cfg"
  let ?goal = "\<lambda>us. \<exists>xs. list_all Q xs \<and> length xs \<le> nat (?m + 1 - attempt) \<and> us = T w @ xs"
  obtain out w1 where f: "fn w = (out, w1)" by (cases "fn w")
  obtain r w2 where rnd: "re_rand env w1 = (r, w2)" by (cases "re_rand env w1")
  obtain e w3 where sl: "the (rc_sleep cfg) w2 (jitter_backoff fl backoff (rc_jitter cfg) r) = (e, w3)"
    by fastforce
  obtain x where x: "Q x" "T w1 = T w @ [x]" using assms(1) [of w] f by auto
  have w3: "T w3 = T w @ [x]"
    using x(2) assms(2) [of w1] assms(3) [of w2] rnd sl by (metis snd_conv)
  let ?rest = "\<lambda>err. retry_loop fl env cfg fn (attempt + 1)
    (next_backoff fl backoff (rc_max cfg) (rc_multiplier cfg)) (Some err) w3"
  have n: "n = nat (?m + 1 - (attempt + 1))" using Suc.hyps(2) by simp
  have once: "?goal (T w @ [x])"
    using Suc.hyps(2) x(1) by (intro exI [of _ "[x]"]) simp
  have rest: "?goal (T (snd (?rest err)))" for err
  proof -
    obtain xs where "list_all Q xs" "length xs \<le> n" "T (snd (?rest err)) = T w3 @ xs"
      using Suc.hyps(1) [OF n, of _ "Some err" w3] n by auto
    then show ?thesis using x(1) w3 Suc.hyps(2) by (intro exI [of _ "x # xs"]) simp
  qed
  have here: "?goal (T w)" by (intro exI [of _ "[]"]) simp
  have "retry_loop fl env cfg fn attempt backoff prev w \<in>
      {(prev, w), (None, w1)} \<union> {(Some err, z) | err z. z \<in> {w, w1, w3}} \<union> {?rest err | err. True}"
    by (subst retry_loop.simps) (auto simp: f rnd sl split: option.splits)
  then show ?case
    using x(2) w3 once here rest by auto
qed

lemma retry_loop_last:
  "retry_loop fl env cfg fn attempt backoff prev w = (None, w') \<Longrightarrow>
    prev = None \<and> attempt > rc_max_attempts cfg \<or> (\<exists>v. fn v = (None, w'))"
proof (induction fl env cfg fn attempt backoff prev w rule: retry_loop.induct)
  case (1 fl env cfg fn attempt backoff prev w)
  show ?case
  proof (cases "attempt > rc_max_attempts cfg \<or> re_ctx_err env w \<noteq> None \<or> fst (fn w) = None")
    case True
    then show ?thesis
      using "1.prems" by (subst (asm) retry_loop.simps) (auto split: if_splits option.splits prod.splits)
  next
    case False
    then obtain err w1 where f: "fn w = (Some err, w1)" by (metis option.exhaust prod.collapse)
    from "1.prems" False show ?thesis
      by (subst (asm) retry_loop.simps) (use "1.IH" f in \<open>auto split: if_splits option.splits prod.splits\<close>)
  qed
qed

lemma retry_loop_failed:
  assumes "\<And>w e w'. fn w = (Some e, w') \<Longrightarrow> R w' = R w" and "\<And>w. R (snd (re_rand env w)) = R w"
    and "\<And>w d. R (snd (the (rc_sleep cfg) w d)) = R w"
  shows "retry_loop fl env cfg fn attempt backoff prev w = (Some e, w') \<Longrightarrow> R w' = R w"
  using assms
proof (induction fl env cfg fn attempt backoff prev w rule: retry_loop.induct)
  case (1 fl env cfg fn attempt backoff prev w)
  obtain out w1 where f: "fn w = (out, w1)" by (cases "fn w")
  obtain r w2 where rnd: "re_rand env w1 = (r, w2)" by (cases "re_rand env w1")
  obtain s w3 where sl: "the (rc_sleep cfg) w2 (jitter_backoff fl backoff (rc_jitter cfg) r) = (s, w3)"
    by fastforce
  have keeps: "R w1 = R w" "R w3 = R w" if "out = Some err" for err
    using that "1.prems"(2) [of w err w1] "1.prems"(3) [of w1] "1.prems"(4) [of w2] f rnd sl by (metis snd_conv)+
  show ?case
  proof (cases "attempt > rc_max_attempts cfg \<or> re_ctx_err env w \<noteq> None \<or> out = None")
    case True
    then show ?thesis
      using "1.prems"(1) f by (subst (asm) retry_loop.simps) (auto split: if_splits option.splits)
  next
    case False
    then obtain err where err: "out = Some err" by auto
    let ?rest = "retry_loop fl env cfg fn (attempt + 1)
      (next_backoff fl backoff (rc_max cfg) (rc_multiplier cfg)) (Some err) w3"
    from "1.prems"(1) have "(Some e, w') \<in> {(Some err, w1)} \<or> (Some e, w') \<in> {(s, w3)} \<or>
        (\<not> (attempt = rc_max_attempts cfg \<or> \<not> the (rc_retryable cfg) err) \<and> s = None \<and> ?rest = (Some e, w'))"
      using False f rnd sl err by (subst (asm) retry_loop.simps) (auto split: if_splits option.splits)
    moreover have "R w' = R w3"
      if "\<not> (attempt = rc_max_attempts cfg \<or> \<not> the (rc_retryable cfg) err)" "s = None" "?rest = (Some e, w')"
      by (rule "1.IH" [OF _ _ f [symmetric] err _ rnd [symmetric] sl [symmetric]]) (use that False "1.prems" in auto)
    ultimately show ?thesis using keeps [OF err] by auto
  qed
qed

subsection \<open>Attempts and delays\<close>

text \<open>
  What the loop can do to the world, counted: \<open>calls\<close> counts the runs of the operation and
  \<open>slept\<close> adds up the delays that were asked for.
\<close>

definition retry_meter ::
  "'w retry_env \<Rightarrow> 'w retry_config \<Rightarrow> ('w \<Rightarrow> goerr option \<times> 'w) \<Rightarrow>
   ('w \<Rightarrow> int) \<Rightarrow> ('w \<Rightarrow> duration) \<Rightarrow> bool" where
  "retry_meter env cfg fn calls slept \<longleftrightarrow>
    (\<forall>w. calls (snd (fn w)) = calls w + 1 \<and> slept (snd (fn w)) = slept w) \<and>
    (\<forall>w. calls (snd (re_rand env w)) = calls w \<and> slept (snd (re_rand env w)) = slept w) \<and>
    (\<forall>w. 0 \<le> fst (re_rand env w) \<and> fst (re_rand env w) < 1) \<and>
    (\<forall>w d. calls (snd (the (rc_sleep cfg) w d)) = calls w \<and>
      slept (snd (the (rc_sleep cfg) w d)) = slept w + d)"

lemma retry_loop_meter:
  assumes fl: "ieee_rounding fl" and ok: "retry_ok cfg" and meter: "retry_meter env cfg fn calls slept"
    and "1 \<le> attempt" "attempt \<le> rc_max_attempts cfg + 1" "0 \<le> backoff" "backoff \<le> rc_max cfg"
  shows "calls w \<le> calls (snd (retry_loop fl env cfg fn attempt backoff prev w)) \<and>
    calls (snd (retry_loop fl env cfg fn attempt backoff prev w))
      \<le> calls w + (rc_max_attempts cfg + 1 - attempt) \<and>
    slept w \<le> slept (snd (retry_loop fl env cfg fn attempt backoff prev w)) \<and>
    slept (snd (retry_loop fl env cfg fn attempt backoff prev w))
      \<le> slept w + 2 * rc_max cfg * max 0 (rc_max_attempts cfg - attempt)"
  using assms(4-)
proof (induction "nat (rc_max_attempts cfg + 1 - attempt)" arbitrary: attempt backoff prev w)
  case 0
  then show ?case by (simp add: retry_loop.simps)
next
  case (Suc n)
  let ?m = "rc_max_attempts cfg" and ?c = "rc_max cfg"
  have le: "attempt \<le> ?m" using Suc.hyps(2) by simp
  have cap: "0 \<le> ?c" "?c \<le> 2 ^ 52" "0 \<le> rc_multiplier cfg"
    using ok by (auto simp: retry_ok_def duration_units)
  obtain out w1 where f: "fn w = (out, w1)" by (cases "fn w")
  obtain r w2 where rnd: "re_rand env w1 = (r, w2)" by (cases "re_rand env w1")
  let ?d = "jitter_backoff fl backoff (rc_jitter cfg) r"
  obtain e w3 where sl: "the (rc_sleep cfg) w2 ?d = (e, w3)"
    by (cases "the (rc_sleep cfg) w2 ?d")
  have "0 \<le> r \<and> r \<le> 1" using meter rnd by (metis fst_conv less_imp_le retry_meter_def)
  then have d: "0 \<le> ?d" "?d \<le> 2 * ?c"
    using jitter_backoff_range [OF fl, of r "rc_jitter cfg" backoff] Suc.prems cap ok
    by (auto simp: retry_ok_def)
  have w: "calls w1 = calls w + 1" "slept w1 = slept w" "calls w3 = calls w + 1"
      "slept w3 = slept w + ?d"
    using meter f rnd sl unfolding retry_meter_def by (metis snd_conv)+
  let ?nb = "next_backoff fl backoff ?c (rc_multiplier cfg)"
  have nb: "0 \<le> ?nb" "?nb \<le> ?c"
    using next_backoff_nonneg [OF fl cap(3) Suc.prems(3) cap(1)] next_backoff_le by auto
  have n: "n = nat (?m + 1 - (attempt + 1))" using Suc.hyps(2) by simp
  have unfold: "retry_loop fl env cfg fn attempt backoff prev w =
     (case re_ctx_err env w of Some e \<Rightarrow> (Some e, w)
      | None \<Rightarrow> (case out of None \<Rightarrow> (None, w1)
        | Some err \<Rightarrow> if attempt = ?m \<or> \<not> the (rc_retryable cfg) err then (Some err, w1)
           else (case e of Some e \<Rightarrow> (Some e, w3)
             | None \<Rightarrow> retry_loop fl env cfg fn (attempt + 1) ?nb (Some err) w3)))"
    using le by (subst retry_loop.simps) (simp add: f rnd sl split: option.splits)
  let ?rest = "\<lambda>err. retry_loop fl env cfg fn (attempt + 1) ?nb (Some err) w3"
  have pos: "0 \<le> 2 * ?c * max 0 (?m - attempt)" using cap by simp
  have rest: "calls w \<le> calls (snd (?rest err)) \<and>
      calls (snd (?rest err)) \<le> calls w + (?m + 1 - attempt) \<and>
      slept w \<le> slept (snd (?rest err)) \<and>
      slept (snd (?rest err)) \<le> slept w + 2 * ?c * max 0 (?m - attempt)"
    and once: "slept w3 \<le> slept w + 2 * ?c * max 0 (?m - attempt)"
    if "attempt \<noteq> ?m" for err
  proof -
    have "2 * ?c + 2 * ?c * max 0 (?m - (attempt + 1)) = 2 * ?c * max 0 (?m - attempt)"
      using le that by (simp add: algebra_simps max_def)
    moreover have "0 \<le> 2 * ?c * max 0 (?m - (attempt + 1))" using cap by simp
    moreover note Suc.hyps(1) [where attempt = "attempt + 1" and backoff = "?nb"
        and prev = "Some err" and w = w3, OF n]
    ultimately show "calls w \<le> calls (snd (?rest err)) \<and>
      calls (snd (?rest err)) \<le> calls w + (?m + 1 - attempt) \<and>
      slept w \<le> slept (snd (?rest err)) \<and>
      slept (snd (?rest err)) \<le> slept w + 2 * ?c * max 0 (?m - attempt)"
      and "slept w3 \<le> slept w + 2 * ?c * max 0 (?m - attempt)"
      using Suc.prems nb w d le that by auto
  qed
  show ?case
    using rest once w d le pos by (simp add: unfold split: option.splits)
qed

text \<open>
  C40. A retried call is bounded whatever the configuration says: the operation runs at most
  as often as the normalised configuration allows, never more than five times, and the
  delays asked for add up to at most twice the largest backoff for every attempt but the
  last, never more than forty minutes.
\<close>

theorem retry_bounded:
  assumes fl: "ieee_rounding fl"
    and meter: "retry_meter env (normalize_retry env cfg) f calls slept"
    and timeout: "\<And>w d. calls (re_with_timeout env d w) = calls w \<and>
      slept (re_with_timeout env d w) = slept w"
  shows "(let c = normalize_retry env cfg; fin = snd (retry_do fl env cfg (Some f) w)
    in calls fin \<le> calls w + rc_max_attempts c \<and> calls fin \<le> calls w + 5 \<and>
       slept fin \<le> slept w + 2 * rc_max c * (rc_max_attempts c - 1) \<and>
       slept fin \<le> slept w + 40 * minute)"
proof -
  let ?c = "normalize_retry env cfg"
  have ok: "retry_ok ?c" by (rule retry_normal.clean_acceptable)
  then have r: "0 \<le> rc_max_attempts ?c - 1" "rc_max_attempts ?c - 1 \<le> 4" "0 \<le> rc_max ?c"
      "rc_max ?c \<le> 5 * minute" "0 \<le> rc_initial ?c" "rc_initial ?c \<le> rc_max ?c"
    by (auto simp: retry_ok_def duration_units)
  then have "rc_max ?c * (rc_max_attempts ?c - 1) \<le> 5 * minute * 4"
    by (intro mult_mono) (auto simp: duration_units)
  moreover let ?w = "if rc_budget ?c > 0 then re_with_timeout env (rc_budget ?c) w else w"
  have "calls ?w = calls w" "slept ?w = slept w" using timeout by auto
  moreover have "retry_do fl env cfg (Some f) w = retry_loop fl env ?c f 1 (rc_initial ?c) None ?w"
    by (simp add: retry_do_def Let_def)
  moreover note retry_loop_meter [OF fl ok meter, where attempt = 1 and backoff = "rc_initial ?c"
      and prev = None and w = ?w]
  ultimately show ?thesis
    using r by (simp add: mult.assoc Let_def)
qed

text \<open>A world that counts the calls and the delays; the operation fails every time.\<close>

definition demo_retry_env :: "(int \<times> duration) retry_env" where
  "demo_retry_env =
    \<lparr>re_ctx_err = \<lambda>w. None, re_with_timeout = \<lambda>d w. w, re_rand = \<lambda>w. (1 / 2, w),
     re_retryable = \<lambda>e. True, re_sleep = \<lambda>w d. (None, (fst w, snd w + d))\<rparr>"

definition demo_retry_config :: "int \<Rightarrow> (int \<times> duration) retry_config" where
  "demo_retry_config n =
    \<lparr>rc_max_attempts = n, rc_budget = 0, rc_initial = 0, rc_max = 0, rc_multiplier = 0,
     rc_retryable = None, rc_sleep = None, rc_jitter = 0, rc_disable_jitter = False\<rparr>"

definition demo_failing :: "int \<times> duration \<Rightarrow> goerr option \<times> (int \<times> duration)" where
  "demo_failing w = (Some (NetErr ''refused''), (fst w + 1, snd w))"

lemmas demo_retry_defs = demo_retry_env_def demo_retry_config_def demo_failing_def

theorem retry_bounded_witness:
  "snd (snd (retry_do (\<lambda>x. x) demo_retry_env (demo_retry_config 9) (Some demo_failing) (0, 0)))
    \<le> 40 * minute \<and>
   fst (snd (retry_do (\<lambda>x. x) demo_retry_env (demo_retry_config 9) (Some demo_failing) (0, 0))) \<le> 5"
  using retry_bounded [OF ieee_rounding_id, of demo_retry_env "demo_retry_config 9" demo_failing
      fst snd "(0, 0)"]
  by (simp add: retry_meter_def demo_retry_defs normalize_retry_def Let_def)

subsection \<open>Which attempt decides\<close>

text \<open>
  The specification of a retried call without cancellation: walk the results in order; the
  first success, the first error that is not retryable, or the last permitted result is the
  result of the whole call.
\<close>

fun retry_spec ::
  "(goerr \<Rightarrow> bool) \<Rightarrow> (int \<Rightarrow> goerr option) \<Rightarrow> int \<Rightarrow> nat \<Rightarrow> goerr option \<times> int" where
  "retry_spec retryable outcome k 0 = (None, k)"
| "retry_spec retryable outcome k (Suc n) =
    (case outcome k of
       None \<Rightarrow> (None, k + 1)
     | Some e \<Rightarrow> if n = 0 \<or> \<not> retryable e then (Some e, k + 1)
                 else retry_spec retryable outcome (k + 1) n)"

definition retry_undisturbed ::
  "'w retry_env \<Rightarrow> 'w retry_config \<Rightarrow> ('w \<Rightarrow> goerr option \<times> 'w) \<Rightarrow> ('w \<Rightarrow> int) \<Rightarrow>
   (int \<Rightarrow> goerr option) \<Rightarrow> bool" where
  "retry_undisturbed env cfg fn calls outcome \<longleftrightarrow>
    (\<forall>w. re_ctx_err env w = None) \<and>
    (\<forall>w. fst (fn w) = outcome (calls w) \<and> calls (snd (fn w)) = calls w + 1) \<and>
    (\<forall>w. calls (snd (re_rand env w)) = calls w) \<and>
    (\<forall>w d. calls (re_with_timeout env d w) = calls w) \<and>
    (\<forall>w d. fst (the (rc_sleep cfg) w d) = None \<and> calls (snd (the (rc_sleep cfg) w d)) = calls w)"

lemma retry_loop_spec:
  assumes "retry_undisturbed env cfg fn calls outcome" and "attempt \<le> rc_max_attempts cfg"
  shows "fst (retry_loop fl env cfg fn attempt backoff prev w) =
      fst (retry_spec (the (rc_retryable cfg)) outcome (calls w)
        (nat (rc_max_attempts cfg + 1 - attempt))) \<and>
    calls (snd (retry_loop fl env cfg fn attempt backoff prev w)) =
      snd (retry_spec (the (rc_retryable cfg)) outcome (calls w)
        (nat (rc_max_attempts cfg + 1 - attempt)))"
  using assms(2)
proof (induction "nat (rc_max_attempts cfg - attempt)" arbitrary: attempt backoff prev w)
  case 0
  then have "nat (rc_max_attempts cfg + 1 - attempt) = Suc 0" "attempt = rc_max_attempts cfg" by auto
  with assms(1) show ?case
    by (subst (1 2) retry_loop.simps)
      (auto simp: retry_undisturbed_def prod_eq_iff split: option.splits prod.splits; force)
next
  case (Suc n)
  then have k: "nat (rc_max_attempts cfg + 1 - attempt) = Suc (Suc n)" "attempt \<noteq> rc_max_attempts cfg"
      "attempt \<le> rc_max_attempts cfg" "nat (rc_max_attempts cfg + 1 - (attempt + 1)) = Suc n"
    by auto
  obtain out w1 where f: "fn w = (out, w1)" by (cases "fn w")
  obtain r w2 where rnd: "re_rand env w1 = (r, w2)" by (cases "re_rand env w1")
  obtain e w3 where sl: "the (rc_sleep cfg) w2 (jitter_backoff fl backoff (rc_jitter cfg) r) = (e, w3)"
    by (cases "the (rc_sleep cfg) w2 (jitter_backoff fl backoff (rc_jitter cfg) r)")
  have U: "re_ctx_err env w = None" "out = outcome (calls w)" "calls w1 = calls w + 1"
      "calls w2 = calls w1" "e = None" "calls w3 = calls w2"
    using assms(1) f rnd sl unfolding retry_undisturbed_def by (metis fst_conv snd_conv)+
  note IH = Suc.hyps(1) [where attempt = "attempt + 1" and w = w3]
  show ?case
    using IH Suc.hyps(2) Suc.prems k U
    by (subst (1 2) retry_loop.simps) (simp add: f rnd sl split: option.splits)
qed

text \<open>
  C13. \<open>Do\<close> is equivalent to the specification when neither the context nor the sleep
  fails: it returns the result of the first attempt that succeeds, fails for good or is the
  last permitted one, and it makes exactly the attempts up to that one.
\<close>

theorem retry_do_spec:
  assumes "retry_undisturbed env (normalize_retry env cfg) f calls outcome"
  shows "(let c = normalize_retry env cfg; r = retry_do fl env cfg (Some f) w
    in (fst r, calls (snd r)) =
       retry_spec (the (rc_retryable c)) outcome (calls w) (nat (rc_max_attempts c)))"
proof -
  have "1 \<le> rc_max_attempts (normalize_retry env cfg)"
    using retry_normal.clean_acceptable [of env cfg] by (simp add: retry_ok_def)
  then show ?thesis
    using retry_loop_spec [OF assms, of 1] assms
    by (simp add: retry_do_def Let_def retry_undisturbed_def prod_eq_iff)
qed

definition demo_flaky :: "int \<times> duration \<Rightarrow> goerr option \<times> (int \<times> duration)" where
  "demo_flaky w = (if fst w < 2 then Some (NetErr ''refused'') else None, (fst w + 1, snd w))"

theorem retry_do_spec_witness:
  "fst (retry_do (\<lambda>x. x) demo_retry_env (demo_retry_config 0) (Some demo_flaky) (0, 0)) = None \<and>
   fst (snd (retry_do (\<lambda>x. x) demo_retry_env (demo_retry_config 0) (Some demo_flaky) (0, 0))) = 3"
  using retry_do_spec [of demo_retry_env "demo_retry_config 0" demo_flaky fst
      "\<lambda>k. if k < 2 then Some (NetErr ''refused'') else None" "\<lambda>x. x" "(0, 0)"]
  by (simp add: retry_undisturbed_def demo_retry_defs demo_flaky_def normalize_retry_def Let_def
      default_pos_def at_most_def eval_nat_numeral)

end
