(* ===== verification/Registry_Service.thy ===== *)
theory Registry_Service
  imports Go_Errors "HOL-Library.AList"
begin

text \<open>
  The data model of service discovery, \<open>registry/registry.go\<close>: service instances and their
  validation, filters, the keys of instances in a key-value backend, the backend table and
  the defaults of the configuration. A Go map is an association list with distinct keys,
  \<open>None\<close> when it is nil. The text of a formatted error is its format string, without the
  arguments. JSON decoding is a parameter.
\<close>

subsection \<open>Services\<close>

type_synonym go_meta = "(string \<times> string) list option"

record service =
  svc_name :: string
  svc_version :: string
  svc_instance :: string
  svc_addr :: string
  svc_grpc_addr :: string
  svc_meta :: go_meta
  svc_register_at :: instant

definition meta_get :: "go_meta \<Rightarrow> string \<Rightarrow> string" where
  "meta_get m k = (case m of None \<Rightarrow> [] | Some xs \<Rightarrow> (case map_of xs k of None \<Rightarrow> [] | Some v \<Rightarrow> v))"

definition meta_entries :: "go_meta \<Rightarrow> (string \<times> string) list" where
  "meta_entries m = (case m of None \<Rightarrow> [] | Some xs \<Rightarrow> xs)"

datatype event_type = EventPut | EventDelete

record event =
  ev_type :: event_type
  ev_service :: service

definition crlf_nul :: string where
  "crlf_nul = [CHR 0x0D, CHR 0x0A, CHR 0x00]"

subsection \<open>Filters\<close>

type_synonym service_filter = "(service \<Rightarrow> bool) option"

definition version_filter :: "string \<Rightarrow> service_filter" where
  "version_filter version =
    (let version = trim_space version
     in if version = [] then None
        else Some (\<lambda>svc.
          let got = trim_space (svc_version svc);
              got = (if got = [] \<and> svc_meta svc \<noteq> None
                     then trim_space (meta_get (svc_meta svc) ''version'') else got)
          in got = version))"

definition metadata_filter :: "go_meta \<Rightarrow> service_filter" where
  "metadata_filter metadata =
    (if meta_entries metadata = [] then None
     else Some (\<lambda>svc. list_all (\<lambda>(key, value).
       \<not> (svc_meta svc = None \<or> meta_get (svc_meta svc) key \<noteq> value)) (meta_entries metadata)))"

definition and_filters :: "service_filter list \<Rightarrow> service_filter" where
  "and_filters filters =
    (let active = List.map_filter id filters
     in if active = [] then None else Some (\<lambda>svc. list_all (\<lambda>f. f svc) active))"

definition filter_services :: "service list \<Rightarrow> service_filter \<Rightarrow> service list" where
  "filter_services services flt =
    (case flt of None \<Rightarrow> services | Some f \<Rightarrow> filter f services)"

definition accepts :: "service_filter \<Rightarrow> service \<Rightarrow> bool" where
  "accepts flt svc = (case flt of None \<Rightarrow> True | Some f \<Rightarrow> f svc)"

lemma filter_services_accepts: "filter_services ss flt = filter (accepts flt) ss"
  by (cases flt) (simp_all add: filter_services_def accepts_def cong: filter_cong)

lemma accepts_and_filters: "accepts (and_filters fs) svc \<longleftrightarrow> (\<forall>f\<in>set fs. accepts f svc)"
proof -
  have "f svc" if "list_all (\<lambda>f. f svc) (List.map_filter id fs)" "Some f \<in> set fs" for f
    using that by (force simp: List.map_filter_def list_all_iff)
  moreover have "list_all (\<lambda>f. f svc) (List.map_filter id fs)" if "\<forall>f\<in>set fs. accepts f svc"
    using that by (force simp: List.map_filter_def list_all_iff accepts_def)
  moreover have "\<forall>f\<in>set fs. f = None" if "List.map_filter id fs = []"
    using that by (auto simp: List.map_filter_def filter_empty_conv)
  ultimately show ?thesis
    by (auto simp: and_filters_def Let_def accepts_def split: option.splits)
qed

subsection \<open>Validation\<close>

definition validate_service_name :: "string \<Rightarrow> goerr option" where
  "validate_service_name name =
    (if name = [] \<or> length name > 128 \<or> contains ''/'' name \<or> contains_any name crlf_nul
     then Some (Errorf ''registry: invalid service name %q'') else None)"

definition quoted :: "char \<Rightarrow> string" where
  "quoted c = [CHR 0x27, c, CHR 0x27]"

definition addr_error_text :: "addr_error \<Rightarrow> string" where
  "addr_error_text e =
    (case e of MissingPort \<Rightarrow> ''missing port in address''
     | TooManyColons \<Rightarrow> ''too many colons in address''
     | MissingBracket \<Rightarrow> ''missing '' @ quoted (CHR '']'') @ '' in address''
     | UnexpectedOpen \<Rightarrow> ''unexpected '' @ quoted (CHR ''['') @ '' in address''
     | UnexpectedClose \<Rightarrow> ''unexpected '' @ quoted (CHR '']'') @ '' in address'')"

definition validate_service_addr :: "string \<Rightarrow> string \<Rightarrow> goerr option" where
  "validate_service_addr addr field =
    (if addr = [] \<or> length addr > 256 \<or> contains_any addr crlf_nul
     then Some (Errorf (''registry: invalid '' @ field @ '' %q''))
     else (case split_host_port addr of
         Inl e \<Rightarrow> Some (Wrapf (''registry: parse '' @ field @ '' %q: %w'') (NetErr (addr_error_text e)))
       | Inr (host, port) \<Rightarrow>
           if port = [] then Some (Errorf (''registry: '' @ field @ '' %q has no port''))
           else (case parse_int port of
               (n, err) \<Rightarrow> if err \<noteq> None \<or> n < 1 \<or> n > 65535
                 then Some (Errorf (''registry: invalid '' @ field @ '' port %q'')) else None)))"

definition validate_service :: "service \<Rightarrow> goerr option" where
  "validate_service svc =
    (case validate_service_name (svc_name svc) of
       Some e \<Rightarrow> Some e
     | None \<Rightarrow>
       if length (svc_version svc) > 128 \<or> contains_any (svc_version svc) crlf_nul
       then Some (Errorf ''registry: invalid service version %q'')
       else if svc_instance svc = [] \<or> length (svc_instance svc) > 256 \<or>
          contains ''/'' (svc_instance svc) \<or> contains_any (svc_instance svc) crlf_nul
       then Some (Errorf ''registry: invalid instance ID %q'')
       else (case validate_service_addr (svc_addr svc) ''addr'' of
           Some e \<Rightarrow> Some e
         | None \<Rightarrow>
           (case (if svc_grpc_addr svc \<noteq> []
                  then validate_service_addr (svc_grpc_addr svc) ''grpc addr'' else None) of
              Some e \<Rightarrow> Some e
            | None \<Rightarrow>
              if length (meta_entries (svc_meta svc)) > 128
              then Some (Errorf ''registry: too many service metadata entries'')
              else if list_ex (\<lambda>(key, value). key = [] \<or> length key > 128 \<or>
                  length value > 1024 \<or> contains_any (key @ value) crlf_nul)
                  (meta_entries (svc_meta svc))
              then Some (Errorf ''registry: invalid service metadata'')
              else None)))"

subsection \<open>Keys\<close>

definition service_key :: "string \<Rightarrow> string \<Rightarrow> string \<Rightarrow> string" where
  "service_key pfx name instance_id = pfx @ name @ ''/'' @ instance_id"

definition service_prefix_key :: "string \<Rightarrow> string \<Rightarrow> string" where
  "service_prefix_key pfx name = pfx @ name @ ''/''"

definition service_instance_from_key :: "string \<Rightarrow> string \<Rightarrow> string option" where
  "service_instance_from_key pfx key =
    (if pfx = [] \<or> \<not> prefix pfx key then None
     else (let instance_id = trim_prefix pfx key
           in if instance_id = [] \<or> contains ''/'' instance_id \<or>
                contains_any instance_id crlf_nul \<or> length instance_id > 256
              then None else Some instance_id))"

definition unmarshal_service ::
  "(string \<Rightarrow> goerr option \<times> service) \<Rightarrow> string \<Rightarrow> goerr option \<times> service" where
  "unmarshal_service json data =
    (case json data of
       (err, svc) \<Rightarrow>
         (err, if err = None \<and> trim_space (svc_version svc) = [] \<and> svc_meta svc \<noteq> None
               then svc\<lparr>svc_version := trim_space (meta_get (svc_meta svc) ''version'')\<rparr>
               else svc))"

subsection \<open>Lists of instances\<close>

definition map_services :: "(string \<rightharpoonup> service) \<Rightarrow> string list \<Rightarrow> service list" where
  "map_services by_id ids = map (\<lambda>i. the (by_id i)) (sort ids)"

text \<open>The map of the code by its last write per identifier; \<open>remdups\<close> lists its keys.\<close>

definition normalize_services :: "service list \<Rightarrow> service list" where
  "normalize_services services =
    map_services (keep_last (map (\<lambda>s. (svc_instance s, s)) services))
      (remdups (map svc_instance services))"

definition normal_services :: "service list \<Rightarrow> bool" where
  "normal_services ss \<longleftrightarrow> sorted (map svc_instance ss) \<and> distinct (map svc_instance ss)"

lemma keep_last_services:
  assumes "i \<in> set (map svc_instance ss)"
  shows "\<exists>s\<in>set ss. keep_last (map (\<lambda>s. (svc_instance s, s)) ss) i = Some s \<and> svc_instance s = i"
proof -
  let ?m = "keep_last (map (\<lambda>s. (svc_instance s, s)) ss)"
  have "i \<in> dom ?m" using assms by (auto simp: dom_keep_last image_image)
  then obtain s where s: "?m i = Some s" by blast
  then have "(i, s) \<in> set (map (\<lambda>s. (svc_instance s, s)) ss)"
    by (auto simp: keep_last_def dest!: map_of_SomeD)
  with s show ?thesis by auto
qed

lemma map_instance_normalize:
  "map svc_instance (normalize_services ss) = sort (remdups (map svc_instance ss))"
proof -
  have "svc_instance (the (keep_last (map (\<lambda>s. (svc_instance s, s)) ss) i)) = i"
    if "i \<in> set (sort (remdups (map svc_instance ss)))" for i
    using keep_last_services [of i ss] that by auto
  then show ?thesis
    by (auto simp: normalize_services_def map_services_def intro: map_idI)
qed

lemma normal_normalize: "normal_services (normalize_services ss)"
  by (simp add: normal_services_def map_instance_normalize)

lemma set_normalize: "set (normalize_services ss) \<subseteq> set ss"
  using keep_last_services by (fastforce simp: normalize_services_def map_services_def)

lemma normalize_Nil_iff: "normalize_services ss = [] \<longleftrightarrow> ss = []"
  by (simp add: normalize_services_def map_services_def)
    (metis map_is_Nil_conv remdups_eq_nil_iff set_empty set_sort)

lemma normalize_normal:
  assumes "normal_services ss"
  shows "normalize_services ss = ss"
proof -
  have ids: "sort (remdups (map svc_instance ss)) = map svc_instance ss"
    using assms by (simp add: normal_services_def distinct_remdups_id sorted_sort_id)
  have "keep_last (map (\<lambda>s. (svc_instance s, s)) ss) (svc_instance s) = Some s" if "s \<in> set ss" for s
  proof -
    have "distinct (map fst (rev (map (\<lambda>s. (svc_instance s, s)) ss)))"
      using assms by (simp add: normal_services_def rev_map comp_def flip: rev_map)
    then show ?thesis using that by (auto simp: keep_last_def intro!: map_of_is_SomeI)
  qed
  then show ?thesis
    by (simp add: normalize_services_def map_services_def ids map_idI)
qed

interpretation normal_list: sanitizer normalize_services normal_services
  by unfold_locales (rule normal_normalize, rule normalize_normal)


subsection \<open>Configuration\<close>

record tls_config =
  tls_enable :: bool
  tls_ca_file :: string
  tls_cert_file :: string
  tls_key_file :: string
  tls_server_name :: string

record registry_config =
  rg_type :: string
  rg_endpoints :: "string list"
  rg_address :: string
  rg_token :: string
  rg_username :: string
  rg_password :: string
  rg_prefix :: string
  rg_ttl :: int
  rg_dial_timeout :: int
  rg_check_type :: string
  rg_check_path :: string
  rg_check_tls :: bool
  rg_deregister_after :: int
  rg_tls :: tls_config

definition consul_check_type :: "registry_config \<Rightarrow> goerr + string" where
  "consul_check_type c =
    (let check_type = to_lower (trim_space (rg_check_type c))
     in if check_type = [] then Inr ''ttl''
        else if check_type \<noteq> ''ttl'' \<and> check_type \<noteq> ''http''
        then Inl (Errorf ''registry: unsupported consul check type %q (expected ttl or http)'')
        else Inr check_type)"

definition registry_type :: "registry_config \<Rightarrow> string" where
  "registry_type c =
    (let value = to_lower (trim_space (rg_type c)) in if value \<noteq> [] then value else ''etcd'')"

definition registry_prefix :: "registry_config \<Rightarrow> string" where
  "registry_prefix c =
    (let value = trim_space (rg_prefix c)
     in if value \<noteq> [] then
          (if length value > 256 \<or> contains_any value crlf_nul \<or> contains ''..'' value
           then ''/mofang/services/''
           else trim_right_chars value ''/'' @ ''/'')
        else ''/mofang/services/'')"

definition registry_ttl :: "registry_config \<Rightarrow> int" where
  "registry_ttl c = (if rg_ttl c > 0 then rg_ttl c else 30)"

definition registry_dial_timeout :: "registry_config \<Rightarrow> duration" where
  "registry_dial_timeout c =
    (if rg_dial_timeout c > 0 then wrap64 (rg_dial_timeout c * second) else 5 * second)"

definition registry_check_path :: "registry_config \<Rightarrow> string" where
  "registry_check_path c =
    (if rg_check_path c = [] then ''/ready''
     else if prefix ''/'' (rg_check_path c) then rg_check_path c
     else ''/'' @ rg_check_path c)"

definition registry_deregister_after :: "registry_config \<Rightarrow> duration" where
  "registry_deregister_after c =
    (if rg_deregister_after c > 0 then wrap64 (rg_deregister_after c * second) else 5 * minute)"

subsection \<open>Backends\<close>

text \<open>The table of factories, newest entry first; \<open>'f\<close> is the type of a factory.\<close>

definition backend_char :: "char \<Rightarrow> bool" where
  "backend_char c \<longleftrightarrow> is_lower c \<or> is_digit c \<or> c = CHR ''_'' \<or> c = CHR ''-''"

definition normalize_backend_name :: "string \<Rightarrow> string" where
  "normalize_backend_name name =
    (let name = to_lower (trim_space name)
     in if name = [] then [] else if list_all backend_char name then name else [])"

definition register_backend ::
  "string \<Rightarrow> 'f option \<Rightarrow> (string \<times> 'f) list \<Rightarrow> goerr option \<times> (string \<times> 'f) list" where
  "register_backend name factory factories =
    (let name = normalize_backend_name name
     in if name = []
        then (Some (Errorf ''registry: backend name must contain only letters, digits, _ or -''),
              factories)
        else (case factory of
            None \<Rightarrow> (Some (Errorf ''registry: backend %q factory is nil''), factories)
          | Some f \<Rightarrow> (None, AList.update name f factories)))"

definition backend_names :: "(string \<times> 'f) list \<Rightarrow> string list" where
  "backend_names factories = sort (map fst factories)"

definition registry_new ::
  "(string \<times> (registry_config \<Rightarrow> goerr + 'r)) list \<Rightarrow> registry_config \<Rightarrow> goerr + 'r" where
  "registry_new factories cfg =
    (case map_of factories (registry_type cfg) of
       None \<Rightarrow> Inl (Errorf ''registry: unsupported type %q (register a backend with registry.RegisterBackend)'')
     | Some factory \<Rightarrow> factory cfg)"

definition install_adapter ::
  "string \<times> 'f option \<Rightarrow> (string \<times> 'f) list \<Rightarrow> goerr option \<times> (string \<times> 'f) list" where
  "install_adapter a factories = register_backend (fst a) (snd a) factories"

definition backend_name_ok :: "string \<Rightarrow> bool" where
  "backend_name_ok s \<longleftrightarrow> list_all backend_char s"

lemma backend_char_plain:
  assumes "backend_char c"
  shows "\<not> is_upper c" "c \<noteq> CHR 0xE2" "c \<noteq> CHR 0xC4" "c \<notin> set space_bytes"
proof -
  have r: "(of_char c :: nat) \<in> {97..122} \<union> {48..57} \<union> {95, 45}"
    using assms by (auto simp: backend_char_def is_lower_def is_digit_def less_eq_char_def)
  then show "\<not> is_upper c" "c \<noteq> CHR 0xE2" "c \<noteq> CHR 0xC4"
    by (auto simp: is_upper_def less_eq_char_def)
  have "(of_char w :: nat) \<notin> {97..122} \<union> {48..57} \<union> {95, 45}" if "w \<in> set space_bytes" for w
    using that by (auto simp: space_bytes_def space_seqs_def)
  with r show "c \<notin> set space_bytes" by blast
qed

lemma to_lower_id:
  "\<forall>c\<in>set s. \<not> is_upper c \<and> c \<noteq> CHR 0xE2 \<and> c \<noteq> CHR 0xC4 \<Longrightarrow> to_lower s = s"
  by (induction s) (auto simp: lower_char_def)

interpretation backend_name: sanitizer normalize_backend_name backend_name_ok
proof
  fix s
  show "backend_name_ok (normalize_backend_name s)"
    by (simp add: backend_name_ok_def normalize_backend_name_def Let_def)
  assume "backend_name_ok s"
  then have "\<forall>c\<in>set s. backend_char c" by (simp add: backend_name_ok_def list_all_iff)
  then show "normalize_backend_name s = s"
    using backend_char_plain
    by (auto simp: normalize_backend_name_def Let_def list_all_iff trim_space_trimmed
        trimmed_if_no_space_bytes to_lower_id)
qed

subsection \<open>Properties\<close>

lemma valid_service_parts:
  assumes "validate_service svc = None"
  shows "CHR ''/'' \<notin> set (svc_name svc)" "CHR ''/'' \<notin> set (svc_instance svc)"
    "svc_name svc \<noteq> []" "svc_instance svc \<noteq> []" "length (svc_instance svc) \<le> 256"
    "\<not> contains_any (svc_instance svc) crlf_nul"
  using assms
  by (auto simp: validate_service_def validate_service_name_def contains_char
      split: option.splits if_splits)

lemma instance_from_key_iff:
  assumes "pfx \<noteq> []"
  shows "service_instance_from_key pfx key = Some i \<longleftrightarrow>
    key = pfx @ i \<and> i \<noteq> [] \<and> CHR ''/'' \<notin> set i \<and> \<not> contains_any i crlf_nul \<and> length i \<le> 256"
  using assms
  by (auto simp: service_instance_from_key_def Let_def contains_char trim_prefix_def prefix_def)

text \<open>
  The keys of a key-value backend are a faithful encoding of service instances: the key
  written for a valid instance parses back to its identifier under the prefix of its own
  service, whatever the configured prefix; under the prefix of any other service name it is
  no instance at all; and two valid instances share a key only when they have the same name
  and identifier.
\<close>

theorem service_key_roundtrip:
  assumes "validate_service a = None" and "validate_service b = None"
  shows "service_instance_from_key (service_prefix_key pfx (svc_name a))
      (service_key pfx (svc_name a) (svc_instance a)) = Some (svc_instance a) \<and>
    (svc_name b \<noteq> svc_name a \<longrightarrow>
      service_instance_from_key (service_prefix_key pfx (svc_name b))
        (service_key pfx (svc_name a) (svc_instance a)) = None) \<and>
    (service_key pfx (svc_name a) (svc_instance a) = service_key pfx (svc_name b) (svc_instance b)
      \<longrightarrow> svc_name a = svc_name b \<and> svc_instance a = svc_instance b)"
proof -
  note A = valid_service_parts [OF assms(1)] and B = valid_service_parts [OF assms(2)]
  have "service_instance_from_key (service_prefix_key pfx (svc_name b))
      (service_key pfx (svc_name a) (svc_instance a)) = None" if "svc_name b \<noteq> svc_name a"
  proof (rule ccontr)
    assume "\<not> ?thesis"
    then obtain i where "service_instance_from_key (service_prefix_key pfx (svc_name b))
        (service_key pfx (svc_name a) (svc_instance a)) = Some i" by auto
    then have "service_key pfx (svc_name a) (svc_instance a) = service_prefix_key pfx (svc_name b) @ i"
      by (subst (asm) instance_from_key_iff) (auto simp: service_prefix_key_def)
    with that A(1) B(1) show False
      by (simp add: service_key_def service_prefix_key_def separated_eq_iff)
  qed
  moreover have "service_instance_from_key (service_prefix_key pfx (svc_name a))
      (service_key pfx (svc_name a) (svc_instance a)) = Some (svc_instance a)"
    using A by (subst instance_from_key_iff) (auto simp: service_prefix_key_def service_key_def)
  ultimately show ?thesis
    using A(1) B(1) by (simp add: service_key_def separated_eq_iff)
qed

definition demo_service :: "string \<Rightarrow> string \<Rightarrow> service" where
  "demo_service name i =
    \<lparr>svc_name = name, svc_version = ''v1'', svc_instance = i, svc_addr = ''10.0.1.5:7801'',
     svc_grpc_addr = [], svc_meta = Some [(''zone'', ''a'')], svc_register_at = 5\<rparr>"

lemma demo_service_valid:
  "validate_service (demo_service ''mf-user'' ''u1'') = None"
  "validate_service (demo_service ''mf'' ''u1'') = None"
  by (simp_all add: demo_service_def validate_service_def validate_service_name_def
      validate_service_addr_def contains_char contains_any_iff crlf_nul_def meta_entries_def
      split_host_port_def parse_int_def signed_range_def parse_uint_def is_digit_def
      less_eq_char_def digit_val_def)

theorem service_key_roundtrip_witness:
  "service_instance_from_key ''/svc/mf-user/'' ''/svc/mf-user/u1'' = Some ''u1'' \<and>
   service_instance_from_key ''/svc/mf/'' ''/svc/mf-user/u1'' = None"
  using service_key_roundtrip [OF demo_service_valid, of "''/svc/''"]
  by (simp add: demo_service_def service_key_def service_prefix_key_def)

text \<open>
  Backend names are case- and space-insensitive, and \<open>New\<close> finds what was registered:
  after a successful \<open>RegisterBackend\<close>, a configuration whose type names the backend in any
  spelling is built by exactly that factory, the latest one wins, and every other type
  behaves as before.
\<close>

theorem registered_backend_is_used:
  assumes "register_backend name (Some f) factories = (None, factories')"
    and "normalize_backend_name (rg_type cfg) = normalize_backend_name name"
  shows "registry_new factories' cfg = f cfg \<and>
    (\<forall>other. registry_type other \<noteq> registry_type cfg \<longrightarrow>
      registry_new factories' other = registry_new factories other) \<and>
    (distinct (map fst factories) \<longrightarrow> distinct (map fst factories') \<and>
      set (backend_names factories') = insert (registry_type cfg) (set (backend_names factories)))"
proof -
  have name: "normalize_backend_name name \<noteq> []"
      and f': "factories' = AList.update (normalize_backend_name name) f factories"
    using assms(1) by (auto simp: register_backend_def Let_def split: if_splits)
  then have "registry_type cfg = normalize_backend_name name"
    using assms(2) by (auto simp: registry_type_def normalize_backend_name_def Let_def split: if_splits)
  then show ?thesis
    by (auto simp: f' registry_new_def update_conv distinct_update backend_names_def
        dom_update dest: fun_cong split: option.splits)
qed

definition demo_registry_config :: "string \<Rightarrow> registry_config" where
  "demo_registry_config type =
    \<lparr>rg_type = type, rg_endpoints = [], rg_address = [], rg_token = [], rg_username = [],
     rg_password = [], rg_prefix = [], rg_ttl = 0, rg_dial_timeout = 0, rg_check_type = [],
     rg_check_path = [], rg_check_tls = False, rg_deregister_after = 0,
     rg_tls = \<lparr>tls_enable = False, tls_ca_file = [], tls_cert_file = [], tls_key_file = [],
       tls_server_name = []\<rparr>\<rparr>"

lemma demo_backend_names:
  "normalize_backend_name '' ETCD'' = ''etcd''" "normalize_backend_name ''Etcd'' = ''etcd''"
  by code_simp+

theorem registered_backend_is_used_witness:
  "registry_new (snd (register_backend '' ETCD'' (Some (\<lambda>cfg. Inr (7 :: int))) []))
     (demo_registry_config ''Etcd'') = Inr 7"
  using registered_backend_is_used [of "'' ETCD''" "\<lambda>cfg. Inr (7 :: int)" "[]"
      "[(''etcd'', \<lambda>cfg. Inr 7)]" "demo_registry_config ''Etcd''"]
  by (simp add: register_backend_def demo_backend_names demo_registry_config_def)

end
