(* ===== verification/Registry_Watch.thy ===== *)
theory Registry_Watch
  imports Registry_Service
begin

text \<open>
  Watching a service, \<open>WatchUpstreamsWithOptions\<close> of \<open>registry/registry.go\<close>: the
  last-known-good state with its grace period, the start of a watch and the loop that
  reconciles every wake-up with an authoritative discovery. A wake-up carries the clock
  reading, the result of the discovery it makes and whether the consumer took the snapshot
  (or the context ended first).
\<close>

subsection \<open>The last-known-good state\<close>

record upstream_snapshot =
  us_services :: "service list"
  us_stale :: bool
  us_stale_since :: instant

record upstream_state =
  up_last_good :: "service list"
  up_stale_since :: instant

definition upstream_snapshot_of ::
  "service list \<Rightarrow> instant \<Rightarrow> duration \<Rightarrow> upstream_state \<Rightarrow>
   (upstream_snapshot \<times> duration) \<times> upstream_state" where
  "upstream_snapshot_of services now grace s =
    (let services = normalize_services services
     in if length services > 0
        then ((\<lparr>us_services = services, us_stale = False, us_stale_since = 0\<rparr>, 0),
              s\<lparr>up_last_good := services, up_stale_since := 0\<rparr>)
        else
          (let s = (if is_zero_time (up_stale_since s) then s\<lparr>up_stale_since := now\<rparr> else s);
               snapshot = \<lparr>us_services = [], us_stale = True, us_stale_since = up_stale_since s\<rparr>;
               remaining = wrap64 (grace - time_sub now (up_stale_since s))
           in if length (up_last_good s) > 0 \<and> remaining > 0
              then ((snapshot\<lparr>us_services := up_last_good s\<rparr>, remaining), s)
              else ((snapshot, 0), s)))"

subsection \<open>Options and start\<close>

record watch_options =
  wo_stale_grace :: duration
  wo_resync :: duration
  wo_filter :: service_filter
  wo_initial_timeout :: duration

definition no_watch_options :: watch_options where
  "no_watch_options =
    \<lparr>wo_stale_grace = 0, wo_resync = 0, wo_filter = None, wo_initial_timeout = 0\<rparr>"

definition stale_grace :: "watch_options \<Rightarrow> duration" where
  "stale_grace o' = default_pos (wo_stale_grace o') (30 * second)"

definition initial_timeout :: "watch_options \<Rightarrow> duration" where
  "initial_timeout o' = default_pos (wo_initial_timeout o') (5 * second)"

text \<open>
  The state of the watching goroutine: the upstream state, the snapshot last sent, the
  instant at which the stale timer fires, the interval of the resync ticker, and the
  snapshots sent so far, newest first. \<open>None\<close> in place of the state is a goroutine that
  has ended and closed the channel.
\<close>

record watch_state =
  ws_up :: upstream_state
  ws_last_sent :: upstream_snapshot
  ws_stale_at :: "instant option"
  ws_sent :: "upstream_snapshot list"

definition stale_timer :: "instant \<Rightarrow> duration \<Rightarrow> instant option" where
  "stale_timer now after = (if after > 0 then Some (now + after) else None)"

definition watch_loop_start ::
  "watch_options \<Rightarrow> service list \<Rightarrow> instant \<Rightarrow> bool \<Rightarrow> watch_state option" where
  "watch_loop_start opts services now delivered =
    (let services = filter_services services (wo_filter opts);
         up = \<lparr>up_last_good = normalize_services services, up_stale_since = 0\<rparr>
     in case upstream_snapshot_of services now (stale_grace opts) up of
          ((initial, expires_in), up) \<Rightarrow>
            if \<not> delivered then None
            else Some \<lparr>ws_up = up, ws_last_sent = initial,
              ws_stale_at = stale_timer now expires_in, ws_sent = [initial]\<rparr>)"

text \<open>
  The start. The results of \<open>Watch\<close> and \<open>Discover\<close> are \<open>None\<close> when the call is still
  running after the given time, otherwise the time it took and its outcome.
\<close>

definition watch_upstreams ::
  "bool \<Rightarrow> string \<Rightarrow> watch_options \<Rightarrow> (duration \<times> (goerr + unit)) option \<Rightarrow>
   (duration \<times> (goerr + service list)) option \<Rightarrow> instant \<Rightarrow> bool \<Rightarrow>
   goerr + watch_state option" where
  "watch_upstreams has_registry name opts watch discover now delivered =
    (let limit = initial_timeout opts
     in if \<not> has_registry then Inl (Errorf ''registry: registry is nil'')
        else (case validate_service_name (trim_space name) of
            Some e \<Rightarrow> Inl e
          | None \<Rightarrow>
            (case watch of
               None \<Rightarrow> Inl (Errorf ''registry: initial watch timeout after %s'')
             | Some (t, w) \<Rightarrow>
                if \<not> t < limit then Inl (Errorf ''registry: initial watch timeout after %s'')
                else (case w of Inl e \<Rightarrow> Inl e
                  | Inr _ \<Rightarrow>
                    (case discover of
                       None \<Rightarrow> Inl (Errorf ''registry: initial discovery timeout after %s'')
                     | Some (t, d) \<Rightarrow>
                        if \<not> t < limit
                        then Inl (Errorf ''registry: initial discovery timeout after %s'')
                        else (case d of Inl e \<Rightarrow> Inl e
                          | Inr services \<Rightarrow>
                             Inr (watch_loop_start opts services now delivered)))))))"

subsection \<open>The loop\<close>

text \<open>The closure \<open>publish\<close>: its result is \<open>None\<close> when it returned false.\<close>

definition watch_publish ::
  "watch_options \<Rightarrow> goerr + service list \<Rightarrow> instant \<Rightarrow> bool \<Rightarrow> watch_state \<Rightarrow> watch_state option" where
  "watch_publish opts discovered now delivered ws =
    (let services = (case discovered of Inl e \<Rightarrow> [] | Inr ss \<Rightarrow> ss);
         services = filter_services services (wo_filter opts)
     in case upstream_snapshot_of services now (stale_grace opts) (ws_up ws) of
          ((snapshot, next_expiry), up) \<Rightarrow>
            (let ws = ws\<lparr>ws_up := up, ws_stale_at := stale_timer now next_expiry\<rparr>
             in if snapshot = ws_last_sent ws then Some ws
                else if \<not> delivered then None
                else Some (ws\<lparr>ws_last_sent := snapshot, ws_sent := snapshot # ws_sent ws\<rparr>)))"

text \<open>
  The wake-ups of the \<open>select\<close>: the context ends, an event arrives (with the state of the
  channel after draining it; an already closed channel ends the watch), the resync ticker
  fires, or the stale timer fires.
\<close>

datatype wakeup = WakeDone | WakeClosed | WakeEvent bool | WakeResync | WakeStale

definition watch_wake ::
  "watch_options \<Rightarrow> wakeup \<Rightarrow> goerr + service list \<Rightarrow> instant \<Rightarrow> bool \<Rightarrow> watch_state \<Rightarrow>
   watch_state option" where
  "watch_wake opts w discovered now delivered ws =
    (case w of
       WakeDone \<Rightarrow> None
     | WakeClosed \<Rightarrow> None
     | WakeEvent still_open \<Rightarrow>
         (case watch_publish opts discovered now delivered ws of
            None \<Rightarrow> None | Some ws \<Rightarrow> if \<not> still_open then None else Some ws)
     | WakeResync \<Rightarrow> watch_publish opts discovered now delivered ws
     | WakeStale \<Rightarrow> watch_publish opts discovered now delivered (ws\<lparr>ws_stale_at := None\<rparr>))"

text \<open>
  \<open>drainEvents\<close> on the events buffered in the channel: \<open>None\<close> in the list is the end of a
  closed channel; the default case of the \<open>select\<close> is the empty list.
\<close>

fun drain_events :: "event option list \<Rightarrow> bool" where
  "drain_events [] = True"
| "drain_events (None # es) = False"
| "drain_events (Some e # es) = drain_events es"

lemma drain_events_iff: "drain_events es \<longleftrightarrow> None \<notin> set es"
  by (induction es rule: drain_events.induct) auto

subsection \<open>Runs of the loop\<close>

inductive watch_step ::
  "watch_options \<Rightarrow> instant \<times> watch_state \<Rightarrow> instant \<times> watch_state \<Rightarrow> bool"
  for opts :: watch_options where
  "\<lbrakk>now \<le> now'; watch_wake opts w discovered now' delivered ws = Some ws';
    w = WakeStale \<longrightarrow> (\<exists>t. ws_stale_at ws = Some t \<and> t \<le> now')\<rbrakk>
   \<Longrightarrow> watch_step opts (now, ws) (now', ws')"

inductive_cases watch_stepE: "watch_step opts (now, ws) (now', ws')"

definition watch_reachable ::
  "watch_options \<Rightarrow> instant \<Rightarrow> watch_state \<Rightarrow> bool" where
  "watch_reachable opts now ws \<longleftrightarrow>
    (\<exists>services start delivered ws0. 0 < start \<and>
      watch_loop_start opts services start delivered = Some ws0 \<and>
      (watch_step opts)\<^sup>*\<^sup>* (start, ws0) (now, ws))"

definition grace_ok :: "watch_options \<Rightarrow> bool" where
  "grace_ok opts \<longleftrightarrow> wo_stale_grace opts \<le> max_int64"

lemma stale_grace_bounds:
  "grace_ok opts \<Longrightarrow> 0 < stale_grace opts \<and> stale_grace opts \<le> max_int64"
  by (auto simp: grace_ok_def stale_grace_def default_pos_def duration_units max_int64_def)

definition snapshot_ok :: "watch_options \<Rightarrow> upstream_snapshot \<Rightarrow> bool" where
  "snapshot_ok opts sn \<longleftrightarrow>
    normal_services (us_services sn) \<and> (\<forall>s\<in>set (us_services sn). accepts (wo_filter opts) s) \<and>
    (us_services sn = [] \<longrightarrow> us_stale sn)"

text \<open>What a snapshot says of the state it was taken from, and what both promise.\<close>

definition state_ok :: "watch_options \<Rightarrow> instant \<Rightarrow> upstream_state \<Rightarrow> bool" where
  "state_ok opts now up \<longleftrightarrow>
    normal_services (up_last_good up) \<and>
    (\<forall>s\<in>set (up_last_good up). accepts (wo_filter opts) s) \<and>
    0 \<le> up_stale_since up \<and> up_stale_since up \<le> now"

definition snapshot_of_state :: "upstream_state \<Rightarrow> upstream_snapshot \<Rightarrow> bool" where
  "snapshot_of_state up sn \<longleftrightarrow>
    us_stale_since sn = up_stale_since up \<and> us_stale sn = (up_stale_since up \<noteq> 0) \<and>
    us_services sn \<in> {[], up_last_good up}"

definition watch_base :: "watch_options \<Rightarrow> instant \<Rightarrow> watch_state \<Rightarrow> bool" where
  "watch_base opts now ws \<longleftrightarrow>
    0 < now \<and> state_ok opts now (ws_up ws) \<and> snapshot_of_state (ws_up ws) (ws_last_sent ws) \<and>
    ws_sent ws \<noteq> [] \<and> hd (ws_sent ws) = ws_last_sent ws \<and>
    (\<forall>sn\<in>set (ws_sent ws). snapshot_ok opts sn) \<and> distinct_adj (ws_sent ws)"

definition timer_ok :: "watch_options \<Rightarrow> watch_state \<Rightarrow> bool" where
  "timer_ok opts ws \<longleftrightarrow>
    ws_stale_at ws =
      (if us_stale (ws_last_sent ws) \<and> us_services (ws_last_sent ws) \<noteq> []
       then Some (us_stale_since (ws_last_sent ws) + stale_grace opts) else None)"

definition watch_ok :: "watch_options \<Rightarrow> instant \<times> watch_state \<Rightarrow> bool" where
  "watch_ok opts p \<longleftrightarrow> watch_base opts (fst p) (snd p) \<and> timer_ok opts (snd p)"

lemma snapshot_of_nonempty:
  "services \<noteq> [] \<Longrightarrow> upstream_snapshot_of services now grace up =
    ((\<lparr>us_services = normalize_services services, us_stale = False, us_stale_since = 0\<rparr>, 0),
     up\<lparr>up_last_good := normalize_services services, up_stale_since := 0\<rparr>)"
  by (simp add: upstream_snapshot_of_def normalize_Nil_iff Let_def)

definition stale_from :: "instant \<Rightarrow> upstream_state \<Rightarrow> instant" where
  "stale_from now up = (if up_stale_since up = 0 then now else up_stale_since up)"

lemma snapshot_of_empty:
  assumes "0 < grace" "grace \<le> max_int64" "0 < now" "0 \<le> up_stale_since up" "up_stale_since up \<le> now"
  shows "upstream_snapshot_of [] now grace up =
    (let since = stale_from now up;
         live = up_last_good up \<noteq> [] \<and> now < since + grace
     in ((\<lparr>us_services = (if live then up_last_good up else []), us_stale = True,
           us_stale_since = since\<rparr>, if live then since + grace - now else 0),
         up\<lparr>up_stale_since := since\<rparr>))"
proof -
  let ?since = "stale_from now up"
  have since: "0 < ?since" "?since \<le> now" using assms by (auto simp: stale_from_def)
  then have sub: "0 \<le> time_sub now ?since" "time_sub now ?since \<le> max_int64"
      "time_sub now ?since = (if now - ?since \<le> max_int64 then now - ?since else max_int64)"
    by (auto simp: time_sub_def clamp64_def max_int64_def min_int64_def)
  then have "wrap64 (grace - time_sub now ?since) = grace - time_sub now ?since"
    using assms(1,2) by (intro wrap64_id) (auto simp: max_int64_def min_int64_def)
  then show ?thesis
    using assms(1,2) sub normalize_Nil_iff [of "[]"]
    by (auto simp: upstream_snapshot_of_def Let_def is_zero_time_def stale_from_def
        split: if_splits)
qed

text \<open>What one snapshot makes of a state, in both cases.\<close>

lemma snapshot_of_ok:
  assumes up: "state_ok opts now up" and "0 < now" and "grace_ok opts"
    and found: "\<forall>s\<in>set services. accepts (wo_filter opts) s"
    and sn: "upstream_snapshot_of services now (stale_grace opts) up = ((sn, after), up')"
  shows "state_ok opts now up'" and "snapshot_of_state up' sn" and "snapshot_ok opts sn"
    and "stale_timer now after =
      (if us_stale sn \<and> us_services sn \<noteq> [] then Some (us_stale_since sn + stale_grace opts) else None)"
    and "services = [] \<Longrightarrow> us_services sn =
      (if now < stale_from now up + stale_grace opts then up_last_good up else [])"
proof -
  note g = stale_grace_bounds [OF assms(3)]
  have "state_ok opts now up' \<and> snapshot_of_state up' sn \<and> snapshot_ok opts sn \<and>
    stale_timer now after =
      (if us_stale sn \<and> us_services sn \<noteq> [] then Some (us_stale_since sn + stale_grace opts) else None) \<and>
    (services = [] \<longrightarrow> us_services sn =
      (if now < stale_from now up + stale_grace opts then up_last_good up else []))"
  proof (cases "services = []")
    case True
    have "normal_services []" by (simp add: normal_services_def)
    then show ?thesis
      using sn True up assms(2) g snapshot_of_empty [of "stale_grace opts" now up]
      by (auto simp: Let_def state_ok_def snapshot_of_state_def snapshot_ok_def stale_timer_def
          stale_from_def split: if_splits)
  next
    case False
    have "\<forall>s\<in>set (normalize_services services). accepts (wo_filter opts) s"
      using found set_normalize [of services] by blast
    then show ?thesis
      using sn False snapshot_of_nonempty [OF False] normal_normalize assms(2)
      by (auto simp: state_ok_def snapshot_of_state_def snapshot_ok_def stale_timer_def
          normalize_Nil_iff)
  qed
  then show "state_ok opts now up'" and "snapshot_of_state up' sn" and "snapshot_ok opts sn"
    and "stale_timer now after =
      (if us_stale sn \<and> us_services sn \<noteq> [] then Some (us_stale_since sn + stale_grace opts) else None)"
    and "services = [] \<Longrightarrow> us_services sn =
      (if now < stale_from now up + stale_grace opts then up_last_good up else [])"
    by blast+
qed

lemma watch_base_later: "watch_base opts now ws \<Longrightarrow> now \<le> now' \<Longrightarrow> watch_base opts now' ws"
  by (auto simp: watch_base_def state_ok_def)

lemma filter_services_accepted: "\<forall>s\<in>set (filter_services ss flt). accepts flt s"
  by (simp add: filter_services_accepts)

lemma watch_publish_ok:
  assumes base: "watch_base opts now ws" and g: "grace_ok opts"
    and pub: "watch_publish opts discovered now delivered ws = Some ws'"
  shows "watch_ok opts (now, ws')"
proof -
  let ?found = "filter_services (case discovered of Inl e \<Rightarrow> [] | Inr ss \<Rightarrow> ss) (wo_filter opts)"
  obtain sn after up' where sn:
    "upstream_snapshot_of ?found now (stale_grace opts) (ws_up ws) = ((sn, after), up')"
    by (metis surj_pair)
  have up: "state_ok opts now (ws_up ws)" "0 < now" using base by (auto simp: watch_base_def)
  note S = snapshot_of_ok [OF up g filter_services_accepted sn]
  show ?thesis
    using pub S(1-4) base
    by (cases "ws_sent ws")
      (auto simp: watch_publish_def sn Let_def watch_ok_def watch_base_def timer_ok_def
        distinct_adj_Cons split: if_splits)
qed

lemma watch_base_timer [simp]: "watch_base opts now (ws\<lparr>ws_stale_at := x\<rparr>) = watch_base opts now ws"
  by (simp add: watch_base_def)

lemma watch_wake_ok:
  assumes "watch_ok opts (now, ws)" and "grace_ok opts" and "now \<le> now'"
    and "watch_wake opts w discovered now' delivered ws = Some ws'"
  shows "watch_ok opts (now', ws')"
proof -
  have base: "watch_base opts now' ws"
    using assms(1,3) watch_base_later by (auto simp: watch_ok_def)
  then have "watch_base opts now' (ws\<lparr>ws_stale_at := None\<rparr>)" by simp
  then show ?thesis
    using assms(4) watch_publish_ok [OF base assms(2)]
      watch_publish_ok [of opts now' "ws\<lparr>ws_stale_at := None\<rparr>", OF _ assms(2)]
    by (auto simp: watch_wake_def split: wakeup.splits option.splits if_splits)
qed

lemma watch_publish_delivered: "\<exists>ws'. watch_publish opts discovered now True ws = Some ws'"
  by (simp add: watch_publish_def Let_def split: prod.splits)

interpretation watch_loop: step_invariant "watch_step opts" "\<lambda>p. grace_ok opts \<and> watch_ok opts p" for opts
  by unfold_locales (auto elim!: watch_step.cases intro: watch_wake_ok)

interpretation watch_clock: step_monotone "watch_step opts" fst for opts
  by unfold_locales (auto elim: watch_step.cases)

lemma watch_start_ok:
  assumes "grace_ok opts" and "0 < start"
    and "watch_loop_start opts services start delivered = Some ws"
  shows "watch_ok opts (start, ws)"
proof -
  let ?found = "filter_services services (wo_filter opts)"
  let ?up = "\<lparr>up_last_good = normalize_services ?found, up_stale_since = 0\<rparr>"
  obtain sn after up' where sn:
    "upstream_snapshot_of ?found start (stale_grace opts) ?up = ((sn, after), up')"
    by (metis surj_pair)
  have "\<forall>s\<in>set (normalize_services ?found). accepts (wo_filter opts) s"
    using filter_services_accepted set_normalize by blast
  then have "state_ok opts start ?up"
    using normal_normalize assms(2) by (simp add: state_ok_def)
  note S = snapshot_of_ok [OF this assms(2,1) filter_services_accepted sn]
  show ?thesis
    using assms(2,3) S(1-4)
    by (auto simp: watch_loop_start_def Let_def sn watch_ok_def watch_base_def timer_ok_def
        split: if_splits)
qed

lemma reachable_watch_ok:
  assumes "watch_reachable opts now ws" and "grace_ok opts"
  shows "watch_ok opts (now, ws)"
  using assms watch_loop.steps_keep watch_start_ok
  unfolding watch_reachable_def by metis

subsection \<open>Properties\<close>

text \<open>
  C4. Instances a registry no longer confirms stay routable only for the grace period. In
  every reachable state of a watch, if the snapshot last sent is stale and still has
  services, the stale timer is pending for exactly the start of the outage plus the grace
  period; and whenever the next discovery fails or finds nothing, the snapshot the consumer
  holds afterwards has the last known good instances before that instant and none from it
  on.
\<close>

theorem stale_services_expire:
  assumes "watch_reachable opts now ws" and "grace_ok opts" and "now \<le> later"
    and "filter_services (case discovered of Inl e \<Rightarrow> [] | Inr ss \<Rightarrow> ss) (wo_filter opts) = []"
    and "watch_publish opts discovered later delivered ws = Some ws'"
  shows "(us_stale (ws_last_sent ws) \<and> us_services (ws_last_sent ws) \<noteq> [] \<longrightarrow>
      ws_stale_at ws = Some (us_stale_since (ws_last_sent ws) + stale_grace opts)) \<and>
    us_stale (ws_last_sent ws') \<and>
    us_services (ws_last_sent ws') =
      (if later < stale_from later (ws_up ws) + stale_grace opts
       then up_last_good (ws_up ws) else [])"
proof -
  have ok: "watch_ok opts (now, ws)" using assms(1,2) by (rule reachable_watch_ok)
  then have base: "watch_base opts later ws"
    using assms(3) watch_base_later by (auto simp: watch_ok_def)
  then have up: "state_ok opts later (ws_up ws)" "0 < later" by (auto simp: watch_base_def)
  obtain sn after up' where sn:
    "upstream_snapshot_of [] later (stale_grace opts) (ws_up ws) = ((sn, after), up')"
    by (metis surj_pair)
  have "us_stale sn"
    using sn up stale_grace_bounds [OF assms(2)]
      snapshot_of_empty [of "stale_grace opts" later "ws_up ws"]
    by (auto simp: state_ok_def Let_def)
  moreover have "us_services sn =
      (if later < stale_from later (ws_up ws) + stale_grace opts
       then up_last_good (ws_up ws) else [])"
    using snapshot_of_ok(5) [OF up assms(2) _ sn] by simp
  moreover have "ws_last_sent ws' = sn"
    using assms(4,5) sn by (auto simp: watch_publish_def Let_def split: if_splits)
  ultimately show ?thesis
    using ok by (simp add: watch_ok_def timer_ok_def)
qed

definition demo_watch_options :: watch_options where
  "demo_watch_options =
    \<lparr>wo_stale_grace = 10, wo_resync = 0, wo_filter = None, wo_initial_timeout = 0\<rparr>"

definition demo_watch_state :: watch_state where
  "demo_watch_state =
    (let good = \<lparr>us_services = [demo_service ''mf-user'' ''u1''], us_stale = False, us_stale_since = 0\<rparr>
     in \<lparr>ws_up = \<lparr>up_last_good = [demo_service ''mf-user'' ''u1''], up_stale_since = 0\<rparr>,
         ws_last_sent = good, ws_stale_at = None, ws_sent = [good]\<rparr>)"

lemma demo_watch_reachable: "watch_reachable demo_watch_options 5 demo_watch_state"
proof -
  have "watch_loop_start demo_watch_options [demo_service ''mf-user'' ''u1''] 5 True =
      Some demo_watch_state"
    using normalize_normal [of "[demo_service ''mf-user'' ''u1'']"]
    by (simp add: watch_loop_start_def demo_watch_options_def filter_services_def Let_def
        upstream_snapshot_of_def stale_timer_def demo_watch_state_def normal_services_def)
  moreover have "(0 :: instant) < 5" by simp
  ultimately show ?thesis unfolding watch_reachable_def by blast
qed

lemma demo_grace: "grace_ok demo_watch_options" "stale_grace demo_watch_options = 10"
  by (simp_all add: grace_ok_def demo_watch_options_def max_int64_def stale_grace_def default_pos_def)

lemma demo_watch_facts:
  "filter_services [] (wo_filter demo_watch_options) = []"
  "up_stale_since (ws_up demo_watch_state) = 0"
  "up_last_good (ws_up demo_watch_state) = [demo_service ''mf-user'' ''u1'']"
  by (simp_all add: filter_services_def demo_watch_options_def demo_watch_state_def Let_def)

definition demo_watch_outage :: "watch_state option" where
  "demo_watch_outage = watch_publish demo_watch_options (Inl (NetErr ''down'')) 7 True demo_watch_state"

theorem stale_services_expire_witness:
  "\<exists>ws'. demo_watch_outage = Some ws' \<and> us_stale (ws_last_sent ws') \<and>
    us_services (ws_last_sent ws') = [demo_service ''mf-user'' ''u1'']"
proof -
  obtain ws' where ws': "demo_watch_outage = Some ws'"
    using watch_publish_delivered [of demo_watch_options "Inl (NetErr ''down'')" 7 demo_watch_state]
    by (auto simp: demo_watch_outage_def)
  show ?thesis
    using stale_services_expire [OF demo_watch_reachable demo_grace(1), of 7 "Inl (NetErr ''down'')"
        True ws'] ws'
    by (simp add: demo_watch_outage_def demo_grace stale_from_def demo_watch_facts)
qed

text \<open>
  Whatever the registry reports and whenever the watch wakes up, every snapshot it has
  sent holds only instances that the filter accepts, at most one per identifier and sorted
  by it, is marked stale if it is empty, and differs from the snapshot sent before it.
\<close>

theorem watch_sends_eligible_changes:
  assumes "watch_reachable opts now ws" and "grace_ok opts"
  shows "hd (ws_sent ws) = ws_last_sent ws \<and> distinct_adj (ws_sent ws) \<and>
    (\<forall>sn\<in>set (ws_sent ws).
      (\<forall>s\<in>set (us_services sn). accepts (wo_filter opts) s) \<and>
      normal_services (us_services sn) \<and> (us_services sn = [] \<longrightarrow> us_stale sn))"
  using reachable_watch_ok [OF assms] by (simp add: watch_ok_def watch_base_def snapshot_ok_def)

theorem watch_sends_eligible_changes_witness:
  "distinct_adj (ws_sent demo_watch_state) \<and>
   hd (ws_sent demo_watch_state) = ws_last_sent demo_watch_state"
  using watch_sends_eligible_changes [OF demo_watch_reachable demo_grace(1)] by simp

end
