(* ===== verification/Resolver.thy ===== *)
theory Resolver
  imports Registry_Watch
begin

text \<open>
  The client-side resolver, \<open>registry/resolver.go\<close>: the cache of instances it keeps from
  the snapshots of a watch, and the selection of one of them. The counter is 64 bits wide,
  as in the code, and is converted to a signed integer; an index out of range is a panic.
\<close>

datatype balance_policy = RoundRobin | RandomChoice

record resolver_config =
  rs_has_registry :: bool
  rs_service :: string
  rs_policy :: balance_policy
  rs_version :: string
  rs_metadata :: go_meta
  rs_filter :: service_filter
  rs_stale_grace :: duration
  rs_resync :: duration
  rs_initial_timeout :: duration

record resolver =
  rv_services :: "service list"
  rv_policy :: balance_policy
  rv_next :: "64 word"

definition resolver_watch_options :: "resolver_config \<Rightarrow> watch_options" where
  "resolver_watch_options cfg =
    \<lparr>wo_stale_grace = rs_stale_grace cfg, wo_resync = rs_resync cfg,
     wo_filter = and_filters [version_filter (rs_version cfg), metadata_filter (rs_metadata cfg),
       rs_filter cfg],
     wo_initial_timeout = rs_initial_timeout cfg\<rparr>"

text \<open>\<open>NewResolver\<close>; the arguments after the configuration are those of the watch.\<close>

definition new_resolver ::
  "resolver_config \<Rightarrow> (duration \<times> (goerr + unit)) option \<Rightarrow>
   (duration \<times> (goerr + service list)) option \<Rightarrow> instant \<Rightarrow> bool \<Rightarrow>
   goerr + (resolver \<times> watch_state option)" where
  "new_resolver cfg watch discover now delivered =
    (if \<not> rs_has_registry cfg then Inl (Errorf ''registry: resolver registry is nil'')
     else if trim_space (rs_service cfg) = []
     then Inl (Errorf ''registry: resolver service is required'')
     else (case watch_upstreams True (rs_service cfg) (resolver_watch_options cfg) watch discover
             now delivered of
         Inl e \<Rightarrow> Inl (Wrapf ''resolver watch %s: %w'' e)
       | Inr ws \<Rightarrow>
           Inr (\<lparr>rv_services = [], rv_policy = rs_policy cfg, rv_next = 0\<rparr>, ws)))"

definition resolver_update :: "upstream_snapshot \<Rightarrow> resolver \<Rightarrow> resolver" where
  "resolver_update sn r = r\<lparr>rv_services := us_services sn\<rparr>"

datatype resolve_result = Resolved service | ResolveError goerr | ResolvePanic

text \<open>
  \<open>Resolve\<close>; \<open>r\<close> of \<open>None\<close> is a nil resolver, and \<open>pick\<close> is what \<open>rand.IntN\<close> returns.
\<close>

definition resolve :: "nat \<Rightarrow> resolver option \<Rightarrow> resolve_result \<times> resolver option" where
  "resolve pick r =
    (case r of
       None \<Rightarrow> (ResolveError (Errorf ''registry: resolver is nil''), None)
     | Some r \<Rightarrow>
        if rv_services r = []
        then (ResolveError (Errorf ''registry: no healthy instances''), Some r)
        else
          (let n = int (length (rv_services r));
               (idx, r) = (if rv_policy r = RandomChoice then (int pick, r)
                 else (go_mod (sint (rv_next r)) n, r\<lparr>rv_next := rv_next r + 1\<rparr>))
           in if 0 \<le> idx \<and> idx < n then (Resolved (rv_services r ! nat idx), Some r)
              else (ResolvePanic, Some r)))"

definition resolver_snapshot :: "resolver option \<Rightarrow> service list" where
  "resolver_snapshot r = (case r of None \<Rightarrow> [] | Some r \<Rightarrow> rv_services r)"

text \<open>Calls one after the other.\<close>

fun resolve_many :: "nat \<Rightarrow> resolver \<Rightarrow> resolve_result list" where
  "resolve_many 0 r = []"
| "resolve_many (Suc k) r =
    (case resolve 0 (Some r) of (out, r') \<Rightarrow> out # resolve_many k (the r'))"

subsection \<open>Round robin\<close>

lemma uint_half: "unat (w :: 64 word) < 2 ^ 63 \<Longrightarrow> uint w < 2 ^ 63"
  unfolding uint_nat by (simp del: of_nat_unat)

lemma signed_uint_half: "uint (w :: 64 word) < 2 ^ 63 \<Longrightarrow> signed_take_bit 63 (uint w) = uint w"
  by (rule signed_take_bit_int_eq_self) (rule order_trans [of _ 0], simp, simp, simp)

lemma sint_small: "unat (w :: 64 word) < 2 ^ 63 \<Longrightarrow> sint w = int (unat w)"
  using signed_uint_half [OF uint_half [of w]] by (simp add: sint_uint)

text \<open>One call: the position it reads, and the counter it leaves.\<close>

lemma resolve_round_robin:
  assumes "rv_services r \<noteq> []" and "rv_policy r = RoundRobin" and "unat (rv_next r) < 2 ^ 63"
  shows "resolve pick (Some r) =
    (Resolved (rv_services r ! (unat (rv_next r) mod length (rv_services r))),
     Some (r\<lparr>rv_next := rv_next r + 1\<rparr>))"
proof -
  have "go_mod (sint (rv_next r)) (int (length (rv_services r))) =
      int (unat (rv_next r) mod length (rv_services r))"
    using assms(1,3) by (simp add: sint_small go_mod_nonneg zmod_int)
  then show ?thesis
    using assms(1,2) by (simp add: resolve_def Let_def)
qed

lemma unat_Suc_small: "unat (w :: 64 word) + 1 < 2 ^ 64 \<Longrightarrow> unat (w + 1) = unat w + 1"
  by (simp add: unat_word_ariths)

lemma resolve_many_round_robin:
  assumes "rv_services r \<noteq> []" and "rv_policy r = RoundRobin" and "unat (rv_next r) + k \<le> 2 ^ 63"
  shows "resolve_many k r =
    map (\<lambda>i. Resolved (rv_services r ! ((unat (rv_next r) + i) mod length (rv_services r)))) [0..<k]"
  using assms
proof (induction k arbitrary: r)
  case (Suc k)
  let ?r' = "r\<lparr>rv_next := rv_next r + 1\<rparr>"
  have next': "unat (rv_next r + 1) = unat (rv_next r) + 1"
    using Suc.prems(3) by (intro unat_Suc_small) simp
  have "resolve_many k ?r' =
    map (\<lambda>i. Resolved (rv_services r ! ((unat (rv_next r) + 1 + i) mod length (rv_services r)))) [0..<k]"
    using Suc.IH [of ?r'] Suc.prems next' by simp
  then show ?case
    using Suc.prems
    by (simp add: resolve_round_robin map_upt_Suc del: upt_Suc)
qed simp

lemma bij_shift_mod:
  assumes "0 < n"
  shows "bij_betw (\<lambda>i. (c + i) mod n) {0..<n :: nat} {0..<n}"
proof -
  have "inj_on (\<lambda>i. (c + i) mod n) {0..<n}"
  proof (rule linorder_inj_onI')
    fix i j
    assume "i \<in> {0..<n}" "j \<in> {0..<n}" "i < j"
    then have "\<not> n dvd (c + j) - (c + i)" by (auto dest: dvd_imp_le)
    then show "(c + i) mod n \<noteq> (c + j) mod n"
      using mod_eq_dvd_iff_nat [of "c + i" "c + j" n] \<open>i < j\<close> by auto
  qed
  then show ?thesis
    using assms by (simp add: bij_betw_def) (rule endo_inj_surj, auto)
qed

text \<open>
  C33. Round robin is fair: over any number of consecutive calls without a change of the
  cache, the instance at every call is the next one in the order of the cache, cyclically,
  and every block of as many calls as there are instances returns each instance exactly
  once. (As long as the 64-bit counter is below 2^63.)
\<close>

theorem round_robin_fair:
  assumes "rv_services r \<noteq> []" and "rv_policy r = RoundRobin"
    and "distinct (rv_services r)" and "unat (rv_next r) + length (rv_services r) \<le> 2 ^ 63"
  shows "resolve pick (Some r) =
      (Resolved (rv_services r ! (unat (rv_next r) mod length (rv_services r))),
       Some (r\<lparr>rv_next := rv_next r + 1\<rparr>)) \<and>
    distinct (resolve_many (length (rv_services r)) r) \<and>
    set (resolve_many (length (rv_services r)) r) = Resolved ` set (rv_services r)"
proof -
  let ?n = "length (rv_services r)" and ?at = "\<lambda>i. (unat (rv_next r) + i) mod length (rv_services r)"
  have n: "0 < ?n" using assms(1) by simp
  note bij = bij_shift_mod [OF n, of "unat (rv_next r)"]
  have many: "resolve_many ?n r = map (\<lambda>i. Resolved (rv_services r ! i)) (map ?at [0..<?n])"
    using resolve_many_round_robin [OF assms(1,2,4)] by simp
  have at: "set (map ?at [0..<?n]) = {0..<?n}" "distinct (map ?at [0..<?n])"
    using bij by (auto simp: bij_betw_def distinct_map)
  have "inj_on (\<lambda>i. Resolved (rv_services r ! i)) {0..<?n}"
    using assms(3) by (auto intro!: inj_onI simp: nth_eq_iff_index_eq)
  then have "distinct (resolve_many ?n r)"
    unfolding many using at by (subst distinct_map) simp
  moreover have "set (resolve_many ?n r) = Resolved ` set (rv_services r)"
    unfolding many set_map [of "\<lambda>i. Resolved (rv_services r ! i)"] at(1)
    by (force simp: set_conv_nth)
  moreover have "unat (rv_next r) < 2 ^ 63" using assms(4) n by linarith
  ultimately show ?thesis
    using resolve_round_robin [OF assms(1,2)] by simp
qed

definition demo_resolver :: "64 word \<Rightarrow> nat \<Rightarrow> resolver" where
  "demo_resolver k n =
    \<lparr>rv_services = map (\<lambda>i. demo_service ''mf'' (replicate (Suc i) (CHR ''u''))) [0..<n],
     rv_policy = RoundRobin, rv_next = k\<rparr>"

lemma demo_resolver_facts:
  "rv_services (demo_resolver k 3) =
    [demo_service ''mf'' ''u'', demo_service ''mf'' ''uu'', demo_service ''mf'' ''uuu'']"
  "rv_policy (demo_resolver k n) = RoundRobin" "rv_next (demo_resolver k n) = k"
  "distinct [demo_service ''mf'' ''u'', demo_service ''mf'' ''uu'', demo_service ''mf'' ''uuu'']"
  by (simp_all add: demo_resolver_def upt_rec demo_service_def numeral_2_eq_2)

theorem round_robin_fair_witness:
  "fst (resolve 0 (Some (demo_resolver 4 3))) = Resolved (demo_service ''mf'' ''uu'') \<and>
   distinct (resolve_many 3 (demo_resolver 4 3))"
proof -
  let ?r = "demo_resolver 4 3"
  have n: "length (rv_services ?r) = 3" and ne: "rv_services ?r \<noteq> []"
    by (simp_all add: demo_resolver_facts(1))
  have d: "distinct (rv_services ?r)" by (simp only: demo_resolver_facts(1,4))
  have bound: "unat (rv_next ?r) + 3 \<le> 2 ^ 63" and pos: "unat (rv_next ?r) mod 3 = 1"
    by (simp_all add: demo_resolver_facts(3))
  have "rv_services ?r ! 1 = demo_service ''mf'' ''uu''" by (simp add: demo_resolver_facts(1))
  then show ?thesis
    using round_robin_fair [OF ne demo_resolver_facts(2) d, unfolded n, OF bound, of 0] pos
    by (simp only: fst_conv)
qed

text \<open>
  The counter is converted with \<open>int(r.next.Add(1)-1)\<close>, so once it has reached 2^63 the
  index is not positive: \<open>Resolve\<close> panics at every call whose counter, as a signed number,
  is not a multiple of the number of instances.
\<close>

theorem resolve_panics_past_half:
  assumes "rv_services r \<noteq> []" and "rv_policy r = RoundRobin" and "sint (rv_next r) < 0"
  shows "fst (resolve pick (Some r)) = ResolvePanic \<longleftrightarrow>
    \<not> int (length (rv_services r)) dvd sint (rv_next r)"
proof -
  let ?n = "int (length (rv_services r))" and ?m = "- sint (rv_next r)"
  have n: "0 < ?n" using assms(1) by simp
  have "go_div (sint (rv_next r)) ?n = - (?m div ?n)"
    using assms(3) n by (simp add: go_div_def)
  then have idx: "go_mod (sint (rv_next r)) ?n = - (?m mod ?n)"
    by (simp add: go_mod_def minus_mult_div_eq_mod [symmetric])
  have "?m mod ?n = 0 \<longleftrightarrow> ?n dvd sint (rv_next r)"
    by (simp add: dvd_eq_mod_eq_0 [symmetric])
  moreover have "?m mod ?n = 0 \<or> 0 < ?m mod ?n"
    using pos_mod_sign [OF n, of ?m] by linarith
  ultimately show ?thesis
    using assms(1,2) n by (auto simp: resolve_def Let_def idx)
qed

theorem resolve_panics_past_half_witness:
  "fst (resolve 0 (Some (demo_resolver (2 ^ 63) 3))) = ResolvePanic"
proof -
  have s: "sint (2 ^ 63 :: 64 word) = - (2 ^ 63)" by simp
  then show ?thesis
    using resolve_panics_past_half [of "demo_resolver (2 ^ 63) 3" 0]
    by (simp add: demo_resolver_facts)
qed

end
