(* ===== verification/Components.thy ===== *)
theory Components
  imports Go_Errors
begin

text \<open>
  Background components, \<open>boot/components.go\<close> and the component part of \<open>boot/app.go\<close>: the
  stable topological sort of \<open>orderComponents\<close>, and starting and stopping. A component
  carries what its \<open>Start\<close> and \<open>Stop\<close> will do; the calls made are kept as a trace.
\<close>

subsection \<open>The data\<close>

text \<open>
  A call of \<open>Start\<close> or \<open>Stop\<close> in its goroutine: it returns in time, panics in time, or is
  still running when the context of the call ends.
\<close>

datatype run_outcome = RunReturn "goerr option" | RunPanic | RunTimeout goerr

record component =
  co_name :: string
  co_deps :: "string list option"
  co_ready :: bool
  co_start :: run_outcome
  co_stop :: run_outcome

subsection \<open>The topological sort\<close>

text \<open>
  \<open>visit\<close> of the code, with the colours of the names (0, 1 and 2 in the code: new, on the path, finished) and the
  components ordered so far. The recursion is bounded by fuel; \<open>order_components\<close> gives it
  one more than the number of components, which is enough (\<open>visit_fuel\<close> below).
\<close>

datatype order_error =
  DependencyCycle "string list"
| UnknownDependency string string
| OutOfFuel

datatype colour = White | Gray | Black

type_synonym visit_state = "(string \<Rightarrow> colour) \<times> component list"

definition dependency_names :: "component \<Rightarrow> string list" where
  "dependency_names c =
    (case co_deps c of None \<Rightarrow> [] | Some ds \<Rightarrow> filter (\<lambda>d. d \<noteq> []) (map trim_space ds))"

function visit ::
  "nat \<Rightarrow> (string \<rightharpoonup> component) \<Rightarrow> component \<Rightarrow> string list \<Rightarrow> visit_state \<Rightarrow> order_error + visit_state"
and visit_deps ::
  "nat \<Rightarrow> (string \<rightharpoonup> component) \<Rightarrow> string \<Rightarrow> string list \<Rightarrow> string list \<Rightarrow> visit_state \<Rightarrow>
   order_error + visit_state" where
  "visit 0 by_name c path s = Inl OutOfFuel"
| "visit (Suc n) by_name c path (state, ordered) =
    (if state (co_name c) = Gray then Inl (DependencyCycle (path @ [co_name c]))
     else if state (co_name c) = Black then Inr (state, ordered)
     else
       (case visit_deps n by_name (co_name c) (dependency_names c) (path @ [co_name c])
               (state(co_name c := Gray), ordered) of
          Inl e \<Rightarrow> Inl e
        | Inr (state, ordered) \<Rightarrow> Inr (state(co_name c := Black), ordered @ [c])))"
| "visit_deps n by_name name [] path s = Inr s"
| "visit_deps n by_name name (d # ds) path s =
    (case by_name d of
       None \<Rightarrow> Inl (UnknownDependency name d)
     | Some dependency \<Rightarrow>
        (case visit n by_name dependency path s of
           Inl e \<Rightarrow> Inl e
         | Inr s \<Rightarrow> visit_deps n by_name name ds path s))"
  by pat_completeness auto
termination
  by (relation "inv_image (less_than <*lex*> less_than)
      (\<lambda>x. case x of Inl (n, _) \<Rightarrow> (n, 0) | Inr (n, _, _, ds, _) \<Rightarrow> (n, Suc (length ds)))") auto

fun visit_all ::
  "nat \<Rightarrow> (string \<rightharpoonup> component) \<Rightarrow> component list \<Rightarrow> visit_state \<Rightarrow> order_error + visit_state" where
  "visit_all n by_name [] s = Inr s"
| "visit_all n by_name (c # cs) s =
    (case visit n by_name c [] s of Inl e \<Rightarrow> Inl e | Inr s \<Rightarrow> visit_all n by_name cs s)"

definition components_by_name :: "component list \<Rightarrow> string \<rightharpoonup> component" where
  "components_by_name components = keep_last (map (\<lambda>c. (co_name c, c)) components)"

definition order_components :: "component list \<Rightarrow> order_error + component list" where
  "order_components components =
    (case visit_all (Suc (length components)) (components_by_name components) components
            (\<lambda>_. White, []) of
       Inl e \<Rightarrow> Inl e | Inr (state, ordered) \<Rightarrow> Inr ordered)"

subsection \<open>Correctness of the sort\<close>

fun deps_first :: "string set \<Rightarrow> component list \<Rightarrow> bool" where
  "deps_first seen [] = True"
| "deps_first seen (c # cs) =
    (set (dependency_names c) \<subseteq> seen \<and> deps_first (insert (co_name c) seen) cs)"

lemma deps_first_snoc:
  "deps_first seen (cs @ [c]) \<longleftrightarrow>
    deps_first seen cs \<and> set (dependency_names c) \<subseteq> seen \<union> co_name ` set cs"
  by (induction cs arbitrary: seen) auto

text \<open>The edges of the dependency graph.\<close>

definition depends :: "(string \<rightharpoonup> component) \<Rightarrow> (string \<times> string) set" where
  "depends by_name = {(a, d). \<exists>c. by_name a = Some c \<and> d \<in> set (dependency_names c)}"

definition names_ok :: "(string \<rightharpoonup> component) \<Rightarrow> bool" where
  "names_ok by_name \<longleftrightarrow> finite (dom by_name) \<and> (\<forall>n c. by_name n = Some c \<longrightarrow> co_name c = n)"

definition visited_ok :: "(string \<rightharpoonup> component) \<Rightarrow> visit_state \<Rightarrow> bool" where
  "visited_ok by_name s \<longleftrightarrow>
    (case s of (state, ordered) \<Rightarrow>
      (\<forall>n. state n = Black \<longleftrightarrow> n \<in> co_name ` set ordered) \<and>
      distinct (map co_name ordered) \<and> deps_first {} ordered \<and>
      (\<forall>c\<in>set ordered. by_name (co_name c) = Some c))"

definition visit_extends :: "visit_state \<Rightarrow> visit_state \<Rightarrow> bool" where
  "visit_extends s t \<longleftrightarrow>
    (\<forall>n. fst t n = Gray \<longleftrightarrow> fst s n = Gray) \<and> (\<forall>n. fst s n = Black \<longrightarrow> fst t n = Black)"

lemma visit_extends_refl [simp]: "visit_extends s s"
  by (simp add: visit_extends_def)

lemma visit_extends_trans: "visit_extends s t \<Longrightarrow> visit_extends t u \<Longrightarrow> visit_extends s u"
  by (auto simp: visit_extends_def)

lemma visited_ok_mark:
  "visited_ok by_name (state, ordered) \<Longrightarrow> state a \<noteq> Black \<Longrightarrow>
    visited_ok by_name (state(a := Gray), ordered)"
  by (force simp: visited_ok_def)

lemma visit_correct:
  "names_ok by_name \<Longrightarrow> by_name (co_name c) = Some c \<Longrightarrow> visited_ok by_name s \<Longrightarrow>
    visit n by_name c path s = Inr t \<Longrightarrow>
    visited_ok by_name t \<and> visit_extends s t \<and> fst t (co_name c) = Black"
  "names_ok by_name \<Longrightarrow> visited_ok by_name s \<Longrightarrow>
    visit_deps n by_name name ds path s = Inr t \<Longrightarrow>
    visited_ok by_name t \<and> visit_extends s t \<and> (\<forall>d\<in>set ds. fst t d = Black)"
proof (induction n by_name c path s and n by_name name ds path s arbitrary: t and t
    rule: visit_visit_deps.induct)
  case (2 n by_name c path state ordered)
  let ?m = "co_name c" and ?s1 = "(state(co_name c := Gray), ordered)"
  show ?case
  proof (cases "state ?m = Black")
    case True
    then have "t = (state, ordered)" using "2.prems"(4) by simp
    then show ?thesis using True "2.prems"(3) by simp
  next
    case False
    with "2.prems"(4) have new: "state ?m \<noteq> Gray" "state ?m \<noteq> Black"
      by (auto split: if_splits)
    obtain s2 o2 where deps: "visit_deps n by_name ?m (dependency_names c) (path @ [?m]) ?s1 =
        Inr (s2, o2)" and t: "t = (s2(?m := Black), o2 @ [c])"
      using "2.prems"(4) new by (auto split: sum.splits prod.splits)
    have "visited_ok by_name ?s1" using "2.prems"(3) new(2) by (rule visited_ok_mark)
    from "2.IH" [OF new(1,2) "2.prems"(1) this deps]
    have ok: "visited_ok by_name (s2, o2)" and ext: "visit_extends ?s1 (s2, o2)"
      and settled: "\<forall>d\<in>set (dependency_names c). s2 d = Black" by auto
    have gray: "s2 ?m = Gray" using ext by (auto simp: visit_extends_def)
    have black: "\<forall>n. s2 n = Black \<longleftrightarrow> n \<in> co_name ` set o2" using ok by (simp add: visited_ok_def)
    have "?m \<notin> co_name ` set o2" using gray black by (metis colour.distinct(5))
    moreover have "set (dependency_names c) \<subseteq> co_name ` set o2" using settled black by blast
    ultimately have "visited_ok by_name t"
      using ok black "2.prems"(2) by (simp add: visited_ok_def t deps_first_snoc)
    moreover have "visit_extends (state, ordered) t"
      using ext new gray by (auto simp: visit_extends_def t)
    ultimately show ?thesis by (simp add: t)
  qed
next
  case (4 n by_name name d ds path s)
  from "4.prems"(3) obtain dep s1 where dep: "by_name d = Some dep"
    and v: "visit n by_name dep path s = Inr s1" and rest: "visit_deps n by_name name ds path s1 = Inr t"
    by (auto split: option.splits sum.splits)
  have "co_name dep = d" using "4.prems"(1) dep by (auto simp: names_ok_def)
  then have a: "visited_ok by_name s1 \<and> visit_extends s s1 \<and> fst s1 d = Black"
    using "4.IH"(1) [OF dep "4.prems"(1) _ "4.prems"(2) v] dep by simp
  then have "visited_ok by_name t \<and> visit_extends s1 t \<and> (\<forall>d\<in>set ds. fst t d = Black)"
    using "4.IH"(2) [OF dep v "4.prems"(1) _ rest] by blast
  with a show ?case
    by (auto intro: visit_extends_trans simp: visit_extends_def)
qed (auto simp: visited_ok_def)

text \<open>Fuel: every nested visit marks a new name.\<close>

definition unmarked :: "(string \<rightharpoonup> component) \<Rightarrow> visit_state \<Rightarrow> nat" where
  "unmarked by_name s = card {d \<in> dom by_name. fst s d = White}"

lemma unmarked_extends:
  assumes "names_ok by_name" "visited_ok by_name s" "visit_extends s t"
  shows "unmarked by_name t \<le> unmarked by_name s"
proof -
  have "fst s d = White" if "fst t d = White" for d
  proof -
    have "fst s d \<noteq> Gray" "fst s d \<noteq> Black"
      using assms(3) that unfolding visit_extends_def by (metis colour.distinct)+
    then show ?thesis by (cases "fst s d") auto
  qed
  then show ?thesis
    using assms(1) by (auto simp: unmarked_def names_ok_def intro!: card_mono)
qed

lemma unmarked_mark:
  assumes "names_ok by_name" "a \<in> dom by_name" "state a = White"
  shows "unmarked by_name (state(a := Gray), o1) < unmarked by_name (state, o2)"
proof -
  have "{d \<in> dom by_name. (state(a := Gray)) d = White} = {d \<in> dom by_name. state d = White} - {a}"
    by auto
  then show ?thesis
    using assms unfolding unmarked_def names_ok_def by (simp only: fst_conv) (rule card_Diff1_less, auto)
qed

lemma visit_fuel:
  "names_ok by_name \<Longrightarrow> by_name (co_name c) = Some c \<Longrightarrow> visited_ok by_name s \<Longrightarrow>
    unmarked by_name s < n \<Longrightarrow> visit n by_name c path s \<noteq> Inl OutOfFuel"
  "names_ok by_name \<Longrightarrow> visited_ok by_name s \<Longrightarrow> unmarked by_name s < n \<Longrightarrow>
    visit_deps n by_name name ds path s \<noteq> Inl OutOfFuel"
proof (induction n by_name c path s and n by_name name ds path s rule: visit_visit_deps.induct)
  case (2 n by_name c path state ordered)
  let ?m = "co_name c" and ?s1 = "(state(co_name c := Gray), ordered)"
  show ?case
  proof (cases "state ?m = White")
    case True
    then have ok: "visited_ok by_name ?s1" using "2.prems"(3) by (intro visited_ok_mark) auto
    have "unmarked by_name ?s1 < unmarked by_name (state, ordered)"
      using "2.prems"(1,2) True by (intro unmarked_mark) auto
    then have "unmarked by_name ?s1 < n" using "2.prems"(4) by linarith
    from "2.IH" [OF _ _ "2.prems"(1) ok this] True show ?thesis
      by (auto split: sum.splits)
  next
    case False
    then show ?thesis by (cases "state ?m") auto
  qed
next
  case (4 n by_name name d ds path s)
  show ?case
  proof (cases "by_name d")
    case (Some dep)
    then have named: "by_name (co_name dep) = Some dep"
      using "4.prems"(1) by (auto simp: names_ok_def)
    note first = "4.IH"(1) [OF Some "4.prems"(1) named "4.prems"(2,3)]
    show ?thesis
    proof (cases "visit n by_name dep path s")
      case (Inr s1)
      then have "visited_ok by_name s1" "visit_extends s s1"
        using visit_correct(1) [OF "4.prems"(1) named "4.prems"(2)] by auto
      then show ?thesis
        using "4.IH"(2) [OF Some Inr "4.prems"(1)] unmarked_extends "4.prems" Some Inr
        by (fastforce dest: le_less_trans)
    qed (use first Some in auto)
  qed simp
qed auto

text \<open>An error names a real defect of the graph.\<close>

definition graph_defect :: "(string \<rightharpoonup> component) \<Rightarrow> order_error \<Rightarrow> bool" where
  "graph_defect by_name e =
    (case e of DependencyCycle p \<Rightarrow> \<not> acyclic (depends by_name)
     | UnknownDependency a d \<Rightarrow> (a, d) \<in> depends by_name \<and> by_name d = None
     | OutOfFuel \<Rightarrow> True)"

definition gray_reach :: "(string \<rightharpoonup> component) \<Rightarrow> visit_state \<Rightarrow> string \<Rightarrow> bool" where
  "gray_reach by_name s n \<longleftrightarrow> (\<forall>g. fst s g = Gray \<longrightarrow> (g, n) \<in> (depends by_name)\<^sup>*)"

lemma visit_defect:
  "names_ok by_name \<Longrightarrow> by_name (co_name c) = Some c \<Longrightarrow> visited_ok by_name s \<Longrightarrow>
    (\<forall>g. fst s g = Gray \<longrightarrow> (g, co_name c) \<in> (depends by_name)\<^sup>+) \<Longrightarrow>
    visit n by_name c path s = Inl e \<Longrightarrow> graph_defect by_name e"
  "names_ok by_name \<Longrightarrow> visited_ok by_name s \<Longrightarrow> gray_reach by_name s name \<Longrightarrow>
    (\<forall>d\<in>set ds. (name, d) \<in> depends by_name) \<Longrightarrow>
    visit_deps n by_name name ds path s = Inl e \<Longrightarrow> graph_defect by_name e"
proof (induction n by_name c path s and n by_name name ds path s arbitrary: e and e
    rule: visit_visit_deps.induct)
  case (2 n by_name c path state ordered)
  let ?m = "co_name c" and ?s1 = "(state(co_name c := Gray), ordered)"
  consider "state ?m = Gray" | "state ?m = White" | "state ?m = Black"
    by (cases "state ?m") auto
  then show ?case
  proof cases
    case 1
    then have "(?m, ?m) \<in> (depends by_name)\<^sup>+" using "2.prems"(4) by simp
    then show ?thesis using "2.prems"(5) 1 by (auto simp: graph_defect_def acyclic_def)
  next
    case 2
    then have ok: "visited_ok by_name ?s1" using "2.prems"(3) by (intro visited_ok_mark) auto
    have gray: "gray_reach by_name ?s1 ?m"
      using "2.prems"(4) by (auto simp: gray_reach_def trancl_into_rtrancl)
    have "\<forall>d\<in>set (dependency_names c). (?m, d) \<in> depends by_name"
      using "2.prems"(2) by (auto simp: depends_def)
    then show ?thesis
      using "2.IH" [OF _ _ "2.prems"(1) ok gray] 2 "2.prems"(5) by (auto split: sum.splits)
  next
    case 3
    then show ?thesis using "2.prems"(5) by simp
  qed
next
  case (4 n by_name name d ds path s)
  show ?case
  proof (cases "by_name d")
    case None
    then show ?thesis using "4.prems" by (auto simp: graph_defect_def)
  next
    case (Some dep)
    then have named: "by_name (co_name dep) = Some dep" "co_name dep = d"
      using "4.prems"(1) by (auto simp: names_ok_def)
    have reach: "\<forall>g. fst s g = Gray \<longrightarrow> (g, co_name dep) \<in> (depends by_name)\<^sup>+"
      using "4.prems"(3,4) named(2) by (auto simp: gray_reach_def intro: rtrancl_into_trancl1)
    note first = "4.IH"(1) [OF Some "4.prems"(1) named(1) "4.prems"(2) reach]
    show ?thesis
    proof (cases "visit n by_name dep path s")
      case (Inr s1)
      then have v: "visited_ok by_name s1" "visit_extends s s1"
        using visit_correct(1) [OF "4.prems"(1) named(1) "4.prems"(2)] by auto
      then have "gray_reach by_name s1 name"
        using "4.prems"(3) by (auto simp: gray_reach_def visit_extends_def)
      then show ?thesis
        using "4.IH"(2) [OF Some Inr "4.prems"(1) v(1)] "4.prems" Some Inr by auto
    qed (use first Some "4.prems" in auto)
  qed
qed (auto simp: graph_defect_def)

subsection \<open>The whole sort\<close>

lemma deps_first_split:
  "deps_first seen cs \<Longrightarrow> c \<in> set cs \<Longrightarrow> d \<in> set (dependency_names c) \<Longrightarrow>
    d \<in> seen \<or> (\<exists>xs ys. cs = xs @ c # ys \<and> d \<in> co_name ` set xs)"
proof (induction cs arbitrary: seen)
  case (Cons a cs)
  show ?case
  proof (cases "c = a")
    case True
    then show ?thesis using Cons.prems by auto
  next
    case False
    then have "d \<in> insert (co_name a) seen \<or> (\<exists>xs ys. cs = xs @ c # ys \<and> d \<in> co_name ` set xs)"
      using Cons.IH [of "insert (co_name a) seen"] Cons.prems by auto
    moreover obtain xs ys where "cs = xs @ c # ys"
      using False Cons.prems(2) by (auto dest: split_list)
    ultimately show ?thesis
      by (metis append_Cons image_insert insertE insertI1 insert_iff list.set(2))
  qed
qed simp

definition rank_in :: "component list \<Rightarrow> string \<Rightarrow> nat" where
  "rank_in cs n = length (takeWhile (\<lambda>c. co_name c \<noteq> n) cs)"

lemma rank_in_at: "n \<notin> co_name ` set xs \<Longrightarrow> co_name c = n \<Longrightarrow> rank_in (xs @ c # ys) n = length xs"
proof -
  assume "n \<notin> co_name ` set xs" "co_name c = n"
  then have "takeWhile (\<lambda>c. co_name c \<noteq> n) (xs @ c # ys) = xs"
    by (subst takeWhile_append2) (metis image_eqI, simp)
  then show ?thesis by (simp add: rank_in_def)
qed

lemma rank_in_before: "n \<in> co_name ` set xs \<Longrightarrow> rank_in (xs @ ys) n < length xs"
proof (induction xs)
  case (Cons x xs)
  then show ?case by (cases "co_name x = n") (auto simp: rank_in_def)
qed simp

lemma components_by_name:
  assumes "distinct (map co_name cs)"
  shows "names_ok (components_by_name cs)" "dom (components_by_name cs) = co_name ` set cs"
    "c \<in> set cs \<Longrightarrow> components_by_name cs (co_name c) = Some c"
proof -
  show d: "dom (components_by_name cs) = co_name ` set cs"
    by (simp add: components_by_name_def dom_keep_last image_image)
  show at: "components_by_name cs (co_name c) = Some c" if "c \<in> set cs" for c
    using assms that
    by (auto simp: components_by_name_def keep_last_def rev_map [symmetric] comp_def
        intro!: map_of_is_SomeI)
  then show "names_ok (components_by_name cs)"
    using d by (auto simp: names_ok_def) (metis domI image_iff option.inject)
qed

lemma visit_all_cases:
  assumes "names_ok by_name" and "\<forall>c\<in>set cs. by_name (co_name c) = Some c"
    and "visited_ok by_name s" and "\<forall>g. fst s g \<noteq> Gray" and "unmarked by_name s < n"
  shows "case visit_all n by_name cs s of
      Inl e \<Rightarrow> e \<noteq> OutOfFuel \<and> graph_defect by_name e
    | Inr t \<Rightarrow> visited_ok by_name t \<and> visit_extends s t \<and> (\<forall>c\<in>set cs. fst t (co_name c) = Black)"
  using assms(2-)
proof (induction cs arbitrary: s)
  case (Cons c cs)
  have c: "by_name (co_name c) = Some c" using Cons.prems(1) by simp
  show ?case
  proof (cases "visit n by_name c [] s")
    case (Inl e)
    then show ?thesis
      using visit_fuel(1) [OF assms(1) c Cons.prems(2,4)]
        visit_defect(1) [OF assms(1) c Cons.prems(2) _ Inl] Cons.prems(3) by auto
  next
    case (Inr s1)
    then have v: "visited_ok by_name s1" "visit_extends s s1" "fst s1 (co_name c) = Black"
      using visit_correct(1) [OF assms(1) c Cons.prems(2) Inr] by auto
    then have "\<forall>g. fst s1 g \<noteq> Gray" "unmarked by_name s1 < n"
      using Cons.prems unmarked_extends [OF assms(1) Cons.prems(2) v(2)]
      by (auto simp: visit_extends_def)
    then show ?thesis
      using Cons.IH [OF _ v(1)] Cons.prems(1) v Inr
      by (auto split: sum.splits intro: visit_extends_trans simp: visit_extends_def)
  qed
qed simp

definition graph_sound :: "component list \<Rightarrow> bool" where
  "graph_sound cs \<longleftrightarrow>
    (\<forall>c\<in>set cs. set (dependency_names c) \<subseteq> co_name ` set cs) \<and>
    acyclic (depends (components_by_name cs))"

lemma deps_first_sound:
  assumes "distinct (map co_name out)" "deps_first {} out" "set out = set cs"
    and "distinct (map co_name cs)"
  shows "graph_sound cs"
proof -
  have known: "\<exists>xs ys. out = xs @ c # ys \<and> d \<in> co_name ` set xs"
    if "c \<in> set cs" "d \<in> set (dependency_names c)" for c d
    using deps_first_split [OF assms(2)] that assms(3) by auto
  have "rank_in out d < rank_in out a" if edge: "(a, d) \<in> depends (components_by_name cs)" for a d
  proof -
    obtain c where at: "components_by_name cs a = Some c" and d: "d \<in> set (dependency_names c)"
      using edge by (auto simp: depends_def)
    then have "a \<in> co_name ` set cs"
      using components_by_name(2) [OF assms(4)] by blast
    then obtain c' where c': "c' \<in> set cs" "co_name c' = a" by auto
    then have c: "c \<in> set cs" "co_name c = a" "d \<in> set (dependency_names c)"
      using at d components_by_name(3) [OF assms(4) c'(1)] by auto
    then obtain xs ys where xs: "out = xs @ c # ys" "d \<in> co_name ` set xs" using known by blast
    then have "a \<notin> co_name ` set xs" using assms(1) c(2) by auto
    then show ?thesis using xs rank_in_at [of a xs c ys] rank_in_before [of d xs "c # ys"] c(2) by simp
  qed
  then have "depends (components_by_name cs) \<subseteq> (measure (rank_in out))\<inverse>" by auto
  then have "acyclic (depends (components_by_name cs))"
    by (meson acyclic_converse acyclic_subset wf_acyclic wf_measure)
  moreover have "set (dependency_names c) \<subseteq> co_name ` set cs" if "c \<in> set cs" for c
    using known [OF that] assms(3) by (fastforce simp: subset_iff)
  ultimately show ?thesis by (simp add: graph_sound_def)
qed

lemma order_components_cases:
  assumes "distinct (map co_name cs)"
  shows "case order_components cs of
      Inl e \<Rightarrow> e \<noteq> OutOfFuel \<and> graph_defect (components_by_name cs) e
    | Inr out \<Rightarrow> distinct (map co_name out) \<and> set out = set cs \<and> deps_first {} out"
proof -
  let ?m = "components_by_name cs"
  note M = components_by_name [OF assms]
  have "unmarked ?m (\<lambda>_. White, []) = card (co_name ` set cs)"
    using M(2) by (simp add: unmarked_def)
  then have fuel: "unmarked ?m (\<lambda>_. White, []) < Suc (length cs)"
    by (simp add: le_imp_less_Suc card_image_le [THEN order_trans, OF _ card_length])
  have start: "visited_ok ?m (\<lambda>_. White, [])" by (simp add: visited_ok_def)
  have "\<forall>c\<in>set cs. ?m (co_name c) = Some c" using M(3) by blast
  note all = visit_all_cases [OF M(1) this start _ fuel]
  show ?thesis
  proof (cases "visit_all (Suc (length cs)) ?m cs (\<lambda>_. White, [])")
    case (Inl e)
    then show ?thesis using all by (simp add: order_components_def)
  next
    case (Inr t)
    then obtain st out where t: "t = (st, out)" by (cases t)
    have ok: "visited_ok ?m (st, out)" "\<forall>c\<in>set cs. st (co_name c) = Black"
      using all Inr t by auto
    then have sub: "co_name ` set cs \<subseteq> co_name ` set out" "\<forall>c\<in>set out. ?m (co_name c) = Some c"
      by (auto simp: visited_ok_def)
    have "c \<in> set cs" if "c \<in> set out" for c
    proof -
      have at: "?m (co_name c) = Some c" using sub(2) that by blast
      then have "co_name c \<in> co_name ` set cs" unfolding M(2) [symmetric] by (rule domI)
      then obtain c' where c': "c' \<in> set cs" "co_name c' = co_name c" by auto
      have "?m (co_name c') = Some c'" using c'(1) by (rule M(3))
      then have "c' = c" unfolding c'(2) at by simp
      then show ?thesis using c'(1) by simp
    qed
    moreover have "c \<in> set out" if "c \<in> set cs" for c
    proof -
      have "co_name c \<in> co_name ` set out" using sub(1) \<open>c \<in> set cs\<close> by blast
      then obtain c' where c': "c' \<in> set out" "co_name c' = co_name c" by auto
      have "?m (co_name c') = Some c'" using sub(2) c'(1) by blast
      then have "c' = c" unfolding c'(2) M(3) [OF \<open>c \<in> set cs\<close>] by simp
      then show ?thesis using c'(1) by simp
    qed
    ultimately have "set out = set cs" by blast
    then show ?thesis
      using ok(1) Inr t by (simp add: order_components_def visited_ok_def)
  qed
qed

subsection \<open>Starting and stopping\<close>

text \<open>
  \<open>runComponentStart\<close> and \<open>runComponentStop\<close>: a panic and a timeout become errors.
\<close>

definition run_component_start :: "component \<Rightarrow> goerr option" where
  "run_component_start c =
    (case co_start c of RunReturn e \<Rightarrow> e | RunPanic \<Rightarrow> Some (Errorf ''panic: %v'')
     | RunTimeout e \<Rightarrow> Some (Wrapf ''start timeout after %s: %w'' e))"

definition run_component_stop :: "component \<Rightarrow> goerr option" where
  "run_component_stop c =
    (case co_stop c of RunReturn e \<Rightarrow> e | RunPanic \<Rightarrow> Some (Errorf ''panic: %v'')
     | RunTimeout e \<Rightarrow> Some (Wrapf ''stop timeout: %w'' e))"

datatype component_call = StartCall string | StopCall string

text \<open>The component part of \<open>App\<close>; the trace is newest last.\<close>

record component_app =
  ca_components :: "component list"
  ca_started :: "component list"
  ca_checks :: "string list"
  ca_stopped :: bool
  ca_trace :: "component_call list"

text \<open>\<open>AddComponent\<close>; \<open>None\<close> is a nil component.\<close>

definition add_component :: "component option \<Rightarrow> component_app \<Rightarrow> goerr option \<times> component_app" where
  "add_component c app =
    (case c of
       None \<Rightarrow> (Some (Sentinel ''boot: component is nil''), app)
     | Some c \<Rightarrow>
        if trim_space (co_name c) = []
        then (Some (Sentinel ''boot: component name is required''), app)
        else if list_ex (\<lambda>e. co_name e = co_name c) (ca_components app)
        then (Some (Errorf ''boot: component %q already registered''), app)
        else
          (let check = ''component:'' @ trim_space (co_name c)
           in if co_ready c \<and> check \<in> set (ca_checks app)
              then (Some (Errorf ''boot: readiness check %q already registered''), app)
              else (None, app\<lparr>ca_components := ca_components app @ [c],
                ca_checks := (if co_ready c then ca_checks app @ [check] else ca_checks app)\<rparr>)))"

text \<open>The loop of \<open>startComponents\<close>: the first failure, or the components started.\<close>

fun start_loop ::
  "component list \<Rightarrow> component list \<Rightarrow> component_call list \<Rightarrow>
   (component \<times> goerr) option \<times> component list \<times> component_call list" where
  "start_loop [] started tr = (None, started, tr)"
| "start_loop (c # cs) started tr =
    (case run_component_start c of
       Some e \<Rightarrow> (Some (c, e), started, tr @ [StartCall (co_name c)])
     | None \<Rightarrow> start_loop cs (started @ [c]) (tr @ [StartCall (co_name c)]))"

definition start_components :: "component_app \<Rightarrow> goerr option \<times> component_app" where
  "start_components app =
    (if ca_components app = [] then (None, app)
     else (case order_components (ca_components app) of
         Inl _ \<Rightarrow> (Some (Errorf ''boot: component dependency''), app)
       | Inr ordered \<Rightarrow>
           (case start_loop ordered [] (ca_trace app) of
              (Some (c, e), started, tr) \<Rightarrow>
                (Some (Wrapf ''%s: %w'' e),
                 app\<lparr>ca_trace := tr @ map (\<lambda>c. StopCall (co_name c)) (rev started)\<rparr>)
            | (None, started, tr) \<Rightarrow>
                (None, app\<lparr>ca_started := started, ca_trace := tr\<rparr>))))"

text \<open>\<open>stopComponents\<close>, which runs once.\<close>

definition stop_components :: "component_app \<Rightarrow> goerr option \<times> component_app" where
  "stop_components app =
    (if ca_stopped app then (None, app)
     else
       (err_join (map (\<lambda>c. map_option (Wrapf ''%s: %w'') (run_component_stop c)) (rev (ca_started app))),
        app\<lparr>ca_stopped := True,
          ca_trace := ca_trace app @ map (\<lambda>c. StopCall (co_name c)) (rev (ca_started app))\<rparr>))"

lemma start_loop_all:
  "\<forall>c\<in>set cs. run_component_start c = None \<Longrightarrow>
    start_loop cs started tr = (None, started @ cs, tr @ map (\<lambda>c. StartCall (co_name c)) cs)"
  by (induction cs arbitrary: started tr) simp_all

lemma start_loop_fails:
  "\<forall>c\<in>set xs. run_component_start c = None \<Longrightarrow> run_component_start c = Some e \<Longrightarrow>
    start_loop (xs @ c # ys) started tr =
      (Some (c, e), started @ xs, tr @ map (\<lambda>c. StartCall (co_name c)) (xs @ [c]))"
  by (induction xs arbitrary: started tr) simp_all

lemma dependency_free_order:
  assumes "distinct (map co_name cs)" and "\<forall>c\<in>set cs. dependency_names c = []"
  shows "order_components cs = Inr cs"
proof -
  have "visit_all (Suc n) m ds (st, out) =
      Inr (\<lambda>x. if x \<in> co_name ` set ds then Black else st x, out @ ds)"
    if "distinct (map co_name ds)" "\<forall>c\<in>set ds. dependency_names c = []"
      "\<forall>c\<in>set ds. st (co_name c) = White"
    for n m ds st out
    using that
  proof (induction ds arbitrary: st out)
    case (Cons d ds)
    have first: "visit (Suc n) m d [] (st, out) = Inr (st(co_name d := Black), out @ [d])"
      using Cons.prems by simp
    have "co_name c \<noteq> co_name d" if "c \<in> set ds" for c
      using Cons.prems(1) that by (metis distinct.simps(2) image_eqI list.set_map list.simps(9))
    then have "\<forall>c\<in>set ds. (st(co_name d := Black)) (co_name c) = White"
      using Cons.prems by simp
    then have "visit_all (Suc n) m ds (st(co_name d := Black), out @ [d]) =
        Inr (\<lambda>x. if x \<in> co_name ` set ds then Black else (st(co_name d := Black)) x, (out @ [d]) @ ds)"
      using Cons.prems by (intro Cons.IH) simp_all
    moreover have "(\<lambda>x. if x \<in> co_name ` set ds then Black else (st(co_name d := Black)) x) =
        (\<lambda>x. if x \<in> co_name ` set (d # ds) then Black else st x)"
      by auto
    ultimately show ?case using first by simp
  qed simp
  then show ?thesis using assms by (simp add: order_components_def)
qed

subsection \<open>Properties\<close>

text \<open>
  C19. The sort succeeds exactly on sound dependency graphs: for components with distinct
  names it returns an order if and only if every dependency names a component and the
  dependencies have no cycle. The order has every component exactly once, each after all
  the components it depends on; an error points at a real cycle or at a real unknown name;
  and components without dependencies keep their order of registration.
\<close>

theorem order_components_correct:
  assumes "distinct (map co_name cs)"
  shows "(case order_components cs of
      Inl e \<Rightarrow> \<not> graph_sound cs \<and> e \<noteq> OutOfFuel \<and> graph_defect (components_by_name cs) e
    | Inr out \<Rightarrow> graph_sound cs \<and> set out = set cs \<and> distinct (map co_name out) \<and>
        deps_first {} out) \<and>
    ((\<forall>c\<in>set cs. dependency_names c = []) \<longrightarrow> order_components cs = Inr cs)"
proof (cases "order_components cs")
  case (Inl e)
  then have e: "e \<noteq> OutOfFuel" "graph_defect (components_by_name cs) e"
    using order_components_cases [OF assms] by simp_all
  have "\<not> graph_sound cs"
  proof (cases e)
    case (DependencyCycle path)
    then show ?thesis using e(2) by (simp add: graph_defect_def graph_sound_def)
  next
    case (UnknownDependency a d)
    then have edge: "(a, d) \<in> depends (components_by_name cs)"
        and none: "components_by_name cs d = None"
      using e(2) by (simp_all add: graph_defect_def)
    then have "d \<notin> co_name ` set cs"
      using components_by_name(2) [OF assms] by (metis domIff)
    moreover obtain c where "components_by_name cs a = Some c" "d \<in> set (dependency_names c)"
      using edge by (auto simp: depends_def)
    moreover then have "c \<in> set cs"
      by (auto simp: components_by_name_def keep_last_def dest!: map_of_SomeD)
    ultimately show ?thesis by (auto simp: graph_sound_def)
  next
    case OutOfFuel
    then show ?thesis using e(1) by simp
  qed
  then show ?thesis using Inl e dependency_free_order [OF assms] by auto
next
  case (Inr out)
  then have "distinct (map co_name out) \<and> set out = set cs \<and> deps_first {} out"
    using order_components_cases [OF assms] by simp
  then show ?thesis
    using Inr deps_first_sound [of out cs] assms dependency_free_order [OF assms] by auto
qed

definition demo_component :: "string \<Rightarrow> string list \<Rightarrow> run_outcome \<Rightarrow> component" where
  "demo_component name deps start =
    \<lparr>co_name = name, co_deps = Some deps, co_ready = False, co_start = start,
     co_stop = RunReturn None\<rparr>"

theorem order_components_correct_witness:
  "case order_components [demo_component ''api'' ['' db''] (RunReturn None),
      demo_component ''db'' [] (RunReturn None)] of
    Inl e \<Rightarrow> e \<noteq> OutOfFuel | Inr out \<Rightarrow> deps_first {} out"
proof -
  let ?cs = "[demo_component ''api'' ['' db''] (RunReturn None), demo_component ''db'' [] (RunReturn None)]"
  have "distinct (map co_name ?cs)" by (simp add: demo_component_def)
  from order_components_correct [OF this] show ?thesis
    by (auto split: sum.splits)
qed

definition start_calls :: "component_call list \<Rightarrow> string list" where
  "start_calls tr = List.map_filter (\<lambda>c. case c of StartCall n \<Rightarrow> Some n | StopCall _ \<Rightarrow> None) tr"

definition stop_calls :: "component_call list \<Rightarrow> string list" where
  "stop_calls tr = List.map_filter (\<lambda>c. case c of StopCall n \<Rightarrow> Some n | StartCall _ \<Rightarrow> None) tr"

lemma calls_simps [simp]:
  "start_calls (xs @ ys) = start_calls xs @ start_calls ys"
  "stop_calls (xs @ ys) = stop_calls xs @ stop_calls ys"
  "start_calls (map (\<lambda>c. StartCall (co_name c)) cs) = map co_name cs"
  "stop_calls (map (\<lambda>c. StopCall (co_name c)) cs) = map co_name cs"
  "start_calls (map (\<lambda>c. StopCall (co_name c)) cs) = []"
  "stop_calls (map (\<lambda>c. StartCall (co_name c)) cs) = []"
  "start_calls [] = []" "stop_calls [] = []"
  "start_calls (StartCall n # xs) = n # start_calls xs" "stop_calls (StartCall n # xs) = stop_calls xs"
  "start_calls (StopCall n # xs) = start_calls xs" "stop_calls (StopCall n # xs) = n # stop_calls xs"
  by (simp_all add: start_calls_def stop_calls_def List.map_filter_def comp_def)

lemma start_components_cases:
  assumes "distinct (map co_name (ca_components app))" and "ca_components app \<noteq> []"
  shows "(\<exists>e. start_components app = (Some e, app)) \<or>
    (\<exists>xs c e ys. set (xs @ c # ys) = set (ca_components app) \<and>
      distinct (map co_name (xs @ c # ys)) \<and> deps_first {} (xs @ c # ys) \<and>
      start_components app = (Some (Wrapf ''%s: %w'' e), app\<lparr>ca_trace := ca_trace app @
        map (\<lambda>c. StartCall (co_name c)) (xs @ [c]) @ map (\<lambda>c. StopCall (co_name c)) (rev xs)\<rparr>)) \<or>
    (\<exists>out. set out = set (ca_components app) \<and> distinct (map co_name out) \<and> deps_first {} out \<and>
      start_components app = (None, app\<lparr>ca_started := out,
        ca_trace := ca_trace app @ map (\<lambda>c. StartCall (co_name c)) out\<rparr>))"
proof (cases "order_components (ca_components app)")
  case (Inl e)
  then show ?thesis using assms(2) by (simp add: start_components_def)
next
  case (Inr out)
  then have out: "set out = set (ca_components app)" "distinct (map co_name out)" "deps_first {} out"
    using order_components_cases [OF assms(1)] by simp_all
  show ?thesis
  proof (cases "\<forall>c\<in>set out. run_component_start c = None")
    case True
    then show ?thesis
      using out Inr assms(2) start_loop_all [OF True] by (auto simp: start_components_def)
  next
    case False
    then have "\<exists>c\<in>set out. run_component_start c \<noteq> None" by blast
    then obtain xs c ys where split: "out = xs @ c # ys" "run_component_start c \<noteq> None"
        "\<forall>x\<in>set xs. run_component_start x = None"
      by (auto dest!: split_list_first_prop)
    then obtain e where "run_component_start c = Some e" by auto
    then show ?thesis
      using out Inr assms(2) split start_loop_fails [OF split(3), of c e ys "[]" "ca_trace app"]
      by (intro disjI2 disjI1 exI [of _ xs] exI [of _ c] exI [of _ e] exI [of _ ys])
        (simp add: start_components_def)
  qed
qed

lemma deps_first_append:
  "deps_first seen (xs @ ys) \<longleftrightarrow> deps_first seen xs \<and> deps_first (seen \<union> co_name ` set xs) ys"
  by (induction xs arbitrary: seen) auto

lemma deps_first_calls:
  assumes "deps_first {} out" and "distinct (map co_name out)" and "c \<in> set out"
    and "map co_name out = us @ co_name c # vs" and "d \<in> set (dependency_names c)"
  shows "d \<in> set us"
proof -
  obtain xs c' ys where out: "out = xs @ c' # ys" "us = map co_name xs" "co_name c' = co_name c"
    using assms(4) by (auto simp: map_eq_append_conv map_eq_Cons_conv)
  have "c' = c"
    using assms(2,3) out(1,3) by (auto simp: distinct_map inj_on_def)
  then show ?thesis
    using assms(1,5) out by (auto simp: deps_first_append)
qed

text \<open>Of a start that failed at some component, the calls up to it follow the dependencies.\<close>

lemma started_part_deps:
  assumes "distinct (map co_name cs)" and "set (xs @ c # ys) = set cs"
    and "distinct (map co_name (xs @ c # ys))" and "deps_first {} (xs @ c # ys)"
  shows "\<forall>c'\<in>set cs. \<forall>d\<in>set (dependency_names c'). \<forall>us vs.
    map co_name (xs @ [c]) = us @ co_name c' # vs \<longrightarrow> d \<in> set us"
proof -
  let ?p = "xs @ [c]"
  have p: "deps_first {} ?p" "distinct (map co_name ?p)"
    using assms(3,4) by (auto simp: deps_first_append)
  have "c' \<in> set ?p" if "c' \<in> set cs" "map co_name ?p = us @ co_name c' # vs" for c' us vs
  proof -
    have "co_name c' \<in> co_name ` set ?p"
      using that(2) by (metis in_set_conv_decomp list.set_map)
    then obtain c'' where c'': "c'' \<in> set ?p" "co_name c'' = co_name c'" by (metis imageE)
    moreover have "c'' \<in> set cs" using c''(1) assms(2) by auto
    ultimately show ?thesis
      using assms(1) that(1) by (metis distinct_map inj_onD)
  qed
  then show ?thesis
    using deps_first_calls [OF p] by blast
qed

text \<open>
  C20. Components start after everything they depend on and are stopped exactly once, in the
  reverse order: whether all of them start or one fails (by an error, a panic or a
  timeout), the components that did start are stopped exactly once each, last started
  first, also when \<open>stopComponents\<close> runs again; and when the start succeeds every
  registered component was started exactly once.
\<close>

theorem components_start_stop:
  assumes "distinct (map co_name (ca_components app))" and "ca_trace app = []"
    and "ca_started app = []" and "\<not> ca_stopped app"
    and "start_components app = (err, app1)" and "app2 = snd (stop_components app1)"
  shows "(let calls = start_calls (ca_trace app2);
        running = (if err = None then calls else butlast calls)
    in stop_calls (ca_trace app2) = rev running \<and> distinct calls \<and>
       (err = None \<longrightarrow> set calls = co_name ` set (ca_components app)) \<and>
       stop_components app2 = (None, app2) \<and>
       (\<forall>c\<in>set (ca_components app). \<forall>d\<in>set (dependency_names c). \<forall>us vs.
          calls = us @ co_name c # vs \<longrightarrow> d \<in> set us))"
proof (cases "ca_components app = []")
  case True
  then show ?thesis using assms by (simp add: start_components_def stop_components_def Let_def)
next
  case False
  from start_components_cases [OF assms(1) False] show ?thesis
  proof (elim disjE exE conjE)
    fix e
    assume "start_components app = (Some e, app)"
    then show ?thesis using assms by (simp add: stop_components_def Let_def)
  next
    fix xs c e ys
    assume a: "set (xs @ c # ys) = set (ca_components app)" "distinct (map co_name (xs @ c # ys))"
      "deps_first {} (xs @ c # ys)"
      "start_components app = (Some (Wrapf ''%s: %w'' e), app\<lparr>ca_trace := ca_trace app @
        map (\<lambda>c. StartCall (co_name c)) (xs @ [c]) @ map (\<lambda>c. StopCall (co_name c)) (rev xs)\<rparr>)"
    let ?p = "xs @ [c]"
    have p: "distinct (map co_name ?p)"
      using a(2) by auto
    note started_part_deps [OF assms(1) a(1,2,3)]
    moreover have "err = Some (Wrapf ''%s: %w'' e)"
        and app1: "app1 = app\<lparr>ca_trace := map (\<lambda>c. StartCall (co_name c)) ?p @
          map (\<lambda>c. StopCall (co_name c)) (rev xs)\<rparr>"
      using assms(2,5) a(4) by auto
    moreover have "ca_trace app2 = ca_trace app1" "ca_stopped app2"
      using assms(3,4,6) by (simp_all add: stop_components_def app1)
    ultimately show ?thesis
      using p by (simp add: stop_components_def Let_def rev_map)
  next
    fix out
    assume a: "set out = set (ca_components app)" "distinct (map co_name out)" "deps_first {} out"
      "start_components app = (None, app\<lparr>ca_started := out,
        ca_trace := ca_trace app @ map (\<lambda>c. StartCall (co_name c)) out\<rparr>)"
    then have "\<forall>c'\<in>set (ca_components app). \<forall>d\<in>set (dependency_names c'). \<forall>us vs.
        map co_name out = us @ co_name c' # vs \<longrightarrow> d \<in> set us"
      using deps_first_calls [OF a(3,2)] by blast
    moreover have "err = None"
        and app1: "app1 = app\<lparr>ca_started := out, ca_trace := map (\<lambda>c. StartCall (co_name c)) out\<rparr>"
      using assms(2,5) a(4) by auto
    moreover have "ca_trace app2 = ca_trace app1 @ map (\<lambda>c. StopCall (co_name c)) (rev out)"
        "ca_stopped app2"
      using assms(4,6) by (simp_all add: stop_components_def app1)
    ultimately show ?thesis
      using a(1,2) by (simp add: stop_components_def Let_def rev_map)
  qed
qed

definition demo_component_app :: component_app where
  "demo_component_app =
    \<lparr>ca_components = [demo_component ''api'' [''db''] RunPanic, demo_component ''db'' [] (RunReturn None)],
     ca_started = [], ca_checks = [], ca_stopped = False, ca_trace = []\<rparr>"

lemma demo_component_start:
  "start_components demo_component_app =
    (Some (Wrapf ''%s: %w'' (Errorf ''panic: %v'')), demo_component_app\<lparr>ca_trace :=
      [StartCall ''db'', StartCall ''api'', StopCall ''db'']\<rparr>)"
  by code_simp

theorem components_start_stop_witness:
  "stop_calls (ca_trace (snd (stop_components (snd (start_components demo_component_app))))) = [''db'']"
proof -
  have "distinct (map co_name (ca_components demo_component_app))" "ca_trace demo_component_app = []"
      "ca_started demo_component_app = []" "\<not> ca_stopped demo_component_app"
    by (simp_all add: demo_component_app_def demo_component_def)
  from components_start_stop [OF this demo_component_start refl] show ?thesis
    by (simp add: Let_def demo_component_start)
      (simp add: stop_components_def demo_component_app_def start_calls_def List.map_filter_def)
qed

subsection \<open>The sort ends\<close>

lemma visit_more_fuel:
  "visit n by_name c path s \<noteq> Inl OutOfFuel \<Longrightarrow> n \<le> m \<Longrightarrow> visit m by_name c path s = visit n by_name c path s"
  "visit_deps n by_name name ds path s \<noteq> Inl OutOfFuel \<Longrightarrow> n \<le> m \<Longrightarrow>
    visit_deps m by_name name ds path s = visit_deps n by_name name ds path s"
proof (induction n by_name c path s and n by_name name ds path s arbitrary: m and m rule: visit_visit_deps.induct)
  case (2 n by_name c path state ordered)
  obtain m' where m: "m = Suc m'" "n \<le> m'" using "2.prems"(2) by (cases m) auto
  show ?case
  proof (cases "state (co_name c) = White")
    case True
    let ?inner = "\<lambda>n. visit_deps n by_name (co_name c) (dependency_names c) (path @ [co_name c]) (state(co_name c := Gray), ordered)"
    have "?inner n \<noteq> Inl OutOfFuel" using "2.prems"(1) True by auto
    then have "?inner m' = ?inner n" by (intro "2.IH" m(2)) (simp_all add: True)
    then show ?thesis using True m(1) by simp
  next
    case False
    then show ?thesis using m(1) by (cases "state (co_name c)") auto
  qed
next
  case (4 n by_name name d ds path s)
  show ?case
  proof (cases "by_name d")
    case (Some dep)
    have first: "visit m by_name dep path s = visit n by_name dep path s"
      using "4.prems" Some by (intro "4.IH"(1) [OF Some]) auto
    show ?thesis
    proof (cases "visit n by_name dep path s")
      case (Inr s1)
      then have "visit_deps m by_name name ds path s1 = visit_deps n by_name name ds path s1"
        using "4.prems" Some by (intro "4.IH"(2) [OF Some Inr]) simp_all
      then show ?thesis by (simp add: Some first Inr)
    qed (use Some first in simp)
  qed simp
qed auto


lemma visit_all_more_fuel:
  "visit_all n by_name cs s \<noteq> Inl OutOfFuel \<Longrightarrow> n \<le> m \<Longrightarrow> visit_all m by_name cs s = visit_all n by_name cs s"
proof (induction cs arbitrary: s)
  case (Cons c cs)
  then have "visit m by_name c [] s = visit n by_name c [] s" by (intro visit_more_fuel) auto
  with Cons show ?case by (cases "visit n by_name c [] s") auto
qed simp

text \<open>
  The sort is given a depth of one more than the number of components; it is enough, cyclic
  components included, and more depth does not change what the sort returns.
\<close>

lemma order_components_any_depth:
  assumes "distinct (map co_name cs)" and "length cs < n"
  shows "order_components cs \<noteq> Inl OutOfFuel \<and> order_components cs =
    (case visit_all n (components_by_name cs) cs (\<lambda>_. White, []) of
       Inl e \<Rightarrow> Inl e | Inr (state, ordered) \<Rightarrow> Inr ordered)"
proof -
  have enough: "order_components cs \<noteq> Inl OutOfFuel"
    using order_components_cases [OF assms(1)] by (auto split: sum.splits)
  then have "visit_all (Suc (length cs)) (components_by_name cs) cs (\<lambda>_. White, []) \<noteq> Inl OutOfFuel"
    by (auto simp: order_components_def)
  from visit_all_more_fuel [OF this, of n] assms(2) enough show ?thesis
    by (simp add: order_components_def Suc_leI)
qed

end
