(* ===== verification/Config.thy ===== *)
theory Config
  imports Complex_Main Registry_Service
begin

text \<open>
  The service configuration, \<open>boot/config.go\<close> and \<open>boot/security.go\<close>: the configuration
  records, the environment overrides, the validation and the transport policy, and the
  configuration part of \<open>New\<close> (\<open>boot/app.go\<close>). Reading and decoding a file, the merge of
  the remote layers, Unicode classification and the parsers of \<open>net\<close> and \<open>net/url\<close> are
  parameters.
\<close>

subsection \<open>Libraries\<close>

record url =
  u_scheme :: string
  u_host :: string
  u_has_user :: bool
  u_raw_query :: string
  u_fragment :: string

record ('ip, 'net) net_lib =
  nl_parse_ip :: "string \<Rightarrow> 'ip option"
  nl_loopback :: "'ip \<Rightarrow> bool"
  nl_parse_cidr :: "string \<Rightarrow> 'net option"
  nl_contains :: "'net \<Rightarrow> 'ip \<Rightarrow> bool"
  nl_parse_url :: "string \<Rightarrow> url option"

text \<open>
  The environment: the value of a variable (empty when unset), the code points of a string,
  and for a letter or a digit the encoding of its upper case.
\<close>

record env_lib =
  el_getenv :: "string \<Rightarrow> string"
  el_runes :: "string \<Rightarrow> nat list"
  el_upper :: "nat \<Rightarrow> string option"

text \<open>Checks in the order of the code: the first that applies gives the error.\<close>

definition check_guards :: "(bool \<times> string) list \<Rightarrow> goerr option" where
  "check_guards gs = map_option (\<lambda>g. Errorf (snd g)) (find fst gs)"

lemma check_guards_simps [simp]:
  "check_guards [] = None"
  "check_guards ((b, m) # gs) = (if b then Some (Errorf m) else check_guards gs)"
  by (simp_all add: check_guards_def)

lemma check_guards_None_iff: "check_guards gs = None \<longleftrightarrow> (\<forall>g\<in>set gs. \<not> fst g)"
  by (auto simp: check_guards_def find_None_iff)

subsection \<open>The records\<close>

record server_config =
  sv_name :: string
  sv_version :: string
  sv_addr :: string
  sv_advertise_addr :: string
  sv_mode :: string
  sv_read_header_timeout :: int
  sv_read_timeout :: int
  sv_write_timeout :: int
  sv_idle_timeout :: int
  sv_shutdown_timeout :: int
  sv_max_header_bytes :: int
  sv_max_body_bytes :: int
  sv_trusted_proxies :: "string list"

record security_config = sc_require_tls :: bool

record log_file_config =
  lf_path :: string
  lf_max_size :: int
  lf_max_age :: int
  lf_max_backups :: int
  lf_compress :: bool

record log_config =
  lg_output :: string
  lg_file :: log_file_config

record boot_tls =
  bt_enable :: bool
  bt_ca_file :: string
  bt_cert_file :: string
  bt_key_file :: string
  bt_server_name :: string
  bt_require_client_cert :: bool

record database_config =
  dbc_dsn :: string
  dbc_max_idle :: int
  dbc_max_open :: int
  dbc_max_lifetime :: int
  dbc_max_idle_time :: int
  dbc_slow_threshold :: int
  dbc_ping_on_open :: "bool option"
  dbc_prepare_stmt :: "bool option"

record redis_config =
  rd_addr :: string
  rd_username :: string
  rd_password :: string
  rd_db :: int
  rd_tls :: boot_tls

record grpc_config =
  gc_enable :: bool
  gc_addr :: string
  gc_advertise_addr :: string
  gc_shutdown_timeout :: int
  gc_max_recv :: int
  gc_max_send :: int
  gc_request_timeout :: int
  gc_max_concurrent :: int
  gc_tls :: boot_tls

text \<open>The registry section: the fields of the registry's own configuration and those of boot.\<close>

record boot_registry_config = registry_config +
  rg_enable :: bool
  rg_config_key :: string
  rg_config_node :: string
  rg_config_format :: string

record jwt_config =
  jc_secret :: string
  jc_expires :: int
  jc_refresh :: int
  jc_issuer :: string
  jc_subject :: string
  jc_audience :: "string list"
  jc_header_uid :: string
  jc_trust_header_uid :: bool
  jc_trusted_header_cidrs :: string
  jc_allow_query_token :: bool

record cors_config =
  cc_enable :: bool
  cc_mode :: string
  cc_whitelist :: "string list"

record access_limit_config =
  ac_enable :: bool
  ac_total :: int
  ac_duration :: int
  ac_backend :: string
  ac_key_prefix :: string

record notify_config =
  nc_ws_url :: string
  nc_token :: string
  nc_timeout :: int
  nc_max_payload :: int

text \<open>A \<open>float64\<close>: a finite value, an infinity with its sign, or NaN.\<close>

datatype go_float = Finite rat | Infinite bool | NotANumber

record telemetry_config =
  tc_enabled :: bool
  tc_service_name :: string
  tc_service_version :: string
  tc_environment :: string
  tc_endpoint :: string
  tc_insecure :: bool
  tc_sample_ratio :: go_float
  tc_sample_ratio_set :: bool

record pprof_tls =
  pt_enable :: bool
  pt_ca_file :: string
  pt_cert_file :: string
  pt_key_file :: string
  pt_require_client_cert :: bool

record pprof_config =
  pp_enabled :: bool
  pp_prefix :: string
  pp_addr :: string
  pp_auth_token :: string
  pp_allowed_cidrs :: string
  pp_tls :: pprof_tls

record boot_config =
  cf_server :: server_config
  cf_security :: security_config
  cf_log :: log_config
  cf_database :: "(string \<times> database_config) list"
  cf_redis :: redis_config
  cf_grpc :: grpc_config
  cf_registry :: boot_registry_config
  cf_jwt :: jwt_config
  cf_cors :: cors_config
  cf_access_limit :: access_limit_config
  cf_notify :: notify_config
  cf_telemetry :: telemetry_config
  cf_pprof :: pprof_config

subsection \<open>Secrets and the environment\<close>

definition release_mode :: "string \<Rightarrow> bool" where
  "release_mode mode \<longleftrightarrow> mode = ''release'' \<or> mode = ''production''"

definition validate_inline_secrets :: "boot_config \<Rightarrow> goerr option" where
  "validate_inline_secrets c =
    (if sv_mode (cf_server c) \<noteq> ''release'' \<and> sv_mode (cf_server c) \<noteq> ''production'' then None
     else check_guards
       [(list_ex (\<lambda>(name, db). dbc_dsn db \<noteq> []) (cf_database c),
          ''database.%s.dsn must use an environment variable in release mode''),
        (rd_password (cf_redis c) \<noteq> [] \<or> jc_secret (cf_jwt c) \<noteq> [] \<or>
           rg_token (cf_registry c) \<noteq> [] \<or> rg_password (cf_registry c) \<noteq> [] \<or>
           nc_token (cf_notify c) \<noteq> [] \<or> pp_auth_token (cf_pprof c) \<noteq> [],
          ''passwords, JWT secrets, and tokens must use environment variables in release mode'')])"

text \<open>\<open>envName\<close> on the code points of the name.\<close>

fun env_name_loop :: "(nat \<Rightarrow> string option) \<Rightarrow> nat list \<Rightarrow> bool \<Rightarrow> string" where
  "env_name_loop up [] last_underscore = []"
| "env_name_loop up (r # rs) last_underscore =
    (case up r of
       Some u \<Rightarrow> u @ env_name_loop up rs False
     | None \<Rightarrow> if \<not> last_underscore then CHR ''_'' # env_name_loop up rs True
               else env_name_loop up rs last_underscore)"

definition env_name :: "env_lib \<Rightarrow> string \<Rightarrow> string" where
  "env_name env name = trim_chars (env_name_loop (el_upper env) (el_runes env name) False) ''_''"

definition parse_bool :: "string \<Rightarrow> bool option" where
  "parse_bool s =
    (if s \<in> {''1'', ''t'', ''T'', ''TRUE'', ''true'', ''True''} then Some True
     else if s \<in> {''0'', ''f'', ''F'', ''FALSE'', ''false'', ''False''} then Some False
     else None)"

definition env_or :: "env_lib \<Rightarrow> string \<Rightarrow> string \<Rightarrow> string" where
  "env_or env key v = (if el_getenv env key \<noteq> [] then el_getenv env key else v)"

definition apply_env_overrides :: "env_lib \<Rightarrow> boot_config \<Rightarrow> boot_config" where
  "apply_env_overrides env cfg =
    (let o' = env_or env;
         server = (cf_server cfg)\<lparr>sv_addr := o' ''SERVER_ADDR'' (sv_addr (cf_server cfg)),
           sv_advertise_addr := o' ''SERVER_ADVERTISE_ADDR'' (sv_advertise_addr (cf_server cfg))\<rparr>;
         grpc = (cf_grpc cfg)\<lparr>gc_addr := o' ''GRPC_ADDR'' (gc_addr (cf_grpc cfg)),
           gc_advertise_addr := o' ''GRPC_ADVERTISE_ADDR'' (gc_advertise_addr (cf_grpc cfg))\<rparr>;
         dbs = map (\<lambda>(name, db). (name, db\<lparr>dbc_dsn :=
           o' (''DATABASE_'' @ env_name env name @ ''_DSN'') (o' ''DATABASE_DSN'' (dbc_dsn db))\<rparr>))
           (cf_database cfg);
         redis = (cf_redis cfg)\<lparr>rd_addr := o' ''REDIS_ADDR'' (rd_addr (cf_redis cfg)),
           rd_username := o' ''REDIS_USERNAME'' (rd_username (cf_redis cfg)),
           rd_password := o' ''REDIS_PASSWORD'' (rd_password (cf_redis cfg))\<rparr>;
         registry = (cf_registry cfg)\<lparr>
           rg_config_node := o' ''REMOTE_NODE'' (rg_config_node (cf_registry cfg)),
           rg_token := o' ''REGISTRY_TOKEN'' (rg_token (cf_registry cfg)),
           rg_username := o' ''REGISTRY_USERNAME'' (rg_username (cf_registry cfg)),
           rg_password := o' ''REGISTRY_PASSWORD'' (rg_password (cf_registry cfg))\<rparr>;
         jwt = (cf_jwt cfg)\<lparr>jc_secret := o' ''JWT_SECRET'' (jc_secret (cf_jwt cfg))\<rparr>;
         notify = (cf_notify cfg)\<lparr>nc_ws_url := o' ''NOTIFY_WS_URL'' (nc_ws_url (cf_notify cfg)),
           nc_token := o' ''NOTIFY_TOKEN'' (nc_token (cf_notify cfg))\<rparr>;
         pprof = (cf_pprof cfg)\<lparr>pp_auth_token := o' ''PPROF_TOKEN'' (pp_auth_token (cf_pprof cfg))\<rparr>;
         value = trim_space (el_getenv env ''REQUIRE_TLS'');
         require = (case parse_bool value of
             Some b \<Rightarrow> if value \<noteq> [] then b else sc_require_tls (cf_security cfg)
           | None \<Rightarrow> sc_require_tls (cf_security cfg))
     in cfg\<lparr>cf_server := server, cf_grpc := grpc, cf_database := dbs, cf_redis := redis,
          cf_registry := registry, cf_jwt := jwt, cf_notify := notify, cf_pprof := pprof,
          cf_security := \<lparr>sc_require_tls = require\<rparr>\<rparr>)"

definition load_base_config :: "env_lib \<Rightarrow> goerr + boot_config \<Rightarrow> goerr + boot_config" where
  "load_base_config env file =
    (case file of Inl e \<Rightarrow> Inl e
     | Inr cfg \<Rightarrow>
        (case validate_inline_secrets cfg of
           Some e \<Rightarrow> Inl e | None \<Rightarrow> Inr (apply_env_overrides env cfg)))"

subsection \<open>Transport policy\<close>

definition registry_transport :: "boot_config \<Rightarrow> bool" where
  "registry_transport c \<longleftrightarrow>
    rg_endpoints (cf_registry c) \<noteq> [] \<or> trim_space (rg_address (cf_registry c)) \<noteq> []"

definition registry_used :: "boot_config \<Rightarrow> bool" where
  "registry_used c \<longleftrightarrow>
    registry_transport c \<and>
    (rg_enable (cf_registry c) \<or> trim_space (rg_config_key (cf_registry c)) \<noteq> [])"

definition validate_tls_requirements :: "('ip, 'net) net_lib \<Rightarrow> boot_config \<Rightarrow> goerr option" where
  "validate_tls_requirements lib c =
    (let grpc_tls = gc_tls (cf_grpc c) in
     case check_guards
       [(bt_enable grpc_tls \<and> (bt_cert_file grpc_tls = [] \<or> bt_key_file grpc_tls = []),
          ''grpc.tls certFile and keyFile are required when enabled''),
        (bt_enable grpc_tls \<and> bt_require_client_cert grpc_tls \<and> bt_ca_file grpc_tls = [],
          ''grpc.tls caFile is required when requireClientCert is enabled'')] of
       Some e \<Rightarrow> Some e
     | None \<Rightarrow>
        if \<not> sc_require_tls (cf_security c) then None
        else check_guards
          [(rd_addr (cf_redis c) \<noteq> [] \<and> \<not> bt_enable (rd_tls (cf_redis c)),
             ''security.requireTLS requires redis.tls.enable''),
           (registry_used c \<and> \<not> tls_enable (rg_tls (cf_registry c)),
             ''security.requireTLS requires registry.tls.enable''),
           (gc_enable (cf_grpc c) \<and> \<not> bt_enable grpc_tls,
             ''security.requireTLS requires grpc.tls.enable''),
           (pp_enabled (cf_pprof c) \<and> \<not> pt_enable (pp_tls (cf_pprof c)),
             ''security.requireTLS requires diagnostics.pprof.tls.enable''),
           (trim_space (nc_ws_url (cf_notify c)) \<noteq> [] \<and>
              (case nl_parse_url lib (trim_space (nc_ws_url (cf_notify c))) of
                 None \<Rightarrow> True | Some u \<Rightarrow> u_scheme u \<noteq> ''https''),
             ''security.requireTLS requires notify.wsUrl to use https'')])"

text \<open>\<open>warnPlaintextTransports\<close>: the components it warns about.\<close>

definition warn_plaintext_transports :: "boot_config \<Rightarrow> string list" where
  "warn_plaintext_transports c =
    (if sc_require_tls (cf_security c) then []
     else if \<not> release_mode (to_lower (trim_space (sv_mode (cf_server c)))) then []
     else
       (if rd_addr (cf_redis c) \<noteq> [] \<and> \<not> bt_enable (rd_tls (cf_redis c)) then [''redis''] else []) @
       (if registry_used c \<and> \<not> tls_enable (rg_tls (cf_registry c)) then [''registry''] else []) @
       (if gc_enable (cf_grpc c) \<and> \<not> bt_enable (gc_tls (cf_grpc c)) then [''grpc''] else []) @
       (if trim_space (nc_ws_url (cf_notify c)) \<noteq> [] \<and>
           \<not> prefix ''https://'' (to_lower (trim_space (nc_ws_url (cf_notify c))))
        then [''notify''] else []) @
       (if pp_enabled (cf_pprof c) \<and> trim_space (pp_addr (cf_pprof c)) \<noteq> [] \<and>
           \<not> pt_enable (pp_tls (cf_pprof c)) then [''pprof''] else []))"

subsection \<open>Validation\<close>

definition cidrs_ok :: "('ip, 'net) net_lib \<Rightarrow> string \<Rightarrow> bool" where
  "cidrs_ok lib text \<longleftrightarrow>
    list_all (\<lambda>cidr. nl_parse_cidr lib (trim_space cidr) \<noteq> None) (split_on (CHR '','') text)"

definition pprof_exposed :: "('ip, 'net) net_lib \<Rightarrow> string \<Rightarrow> bool" where
  "pprof_exposed lib listen =
    (let addr = trim_space listen;
         host = (case split_host_port addr of Inl e \<Rightarrow> addr | Inr (host, port) \<Rightarrow> host)
     in host = [] \<or>
        (\<not> equal_fold host ''localhost'' \<and>
          (case nl_parse_ip lib host of None \<Rightarrow> True | Some ip \<Rightarrow> \<not> nl_loopback lib ip)))"

definition validate_config_identity :: "boot_config \<Rightarrow> goerr option" where
  "validate_config_identity c =
    (let mode = trim_space (sv_mode (cf_server c)); name = sv_name (cf_server c) in
     check_guards
      [(mode \<noteq> sv_mode (cf_server c) \<or> mode \<notin> {[], ''debug'', ''release'', ''production''},
         ''server.mode must be debug, release, or production''),
       (trim_space name = [], ''server.name is required''),
       (length name > 128 \<or> contains ''/'' name \<or> contains_any name crlf_nul,
         ''server.name is invalid''),
       (length (sv_version (cf_server c)) > 128 \<or> contains_any (sv_version (cf_server c)) crlf_nul,
         ''server.version is invalid''),
       (trim_space (sv_addr (cf_server c)) = [], ''server.addr is required''),
       (list_ex (\<lambda>(n, db). trim_space (dbc_dsn db) = []) (cf_database c),
         ''database.%s.dsn is required''),
       (gc_enable (cf_grpc c) \<and> trim_space (gc_addr (cf_grpc c)) = [],
         ''grpc.addr is required when grpc is enabled'')])"

definition validate_config_registry :: "boot_registry_config \<Rightarrow> goerr option" where
  "validate_config_registry r =
    check_guards
      [(rg_enable r \<and> rg_endpoints r = [] \<and> rg_address r = [],
         ''registry endpoint is required when registry is enabled''),
       (rg_ttl r < 0 \<or> rg_dial_timeout r < 0 \<or> rg_deregister_after r < 0,
         ''registry timeout values cannot be negative''),
       (rg_ttl r > 24 * 60 * 60 \<or> rg_dial_timeout r > 5 * 60 \<or>
          rg_deregister_after r > 30 * 24 * 60 * 60,
         ''registry timeout values exceed safe bounds''),
       (length (rg_prefix r) > 256 \<or> contains_any (rg_prefix r) crlf_nul \<or>
          contains ''..'' (rg_prefix r), ''registry.prefix is invalid''),
       (length (rg_config_key r) > 256 \<or> contains_any (rg_config_key r) crlf_nul \<or>
          contains ''..'' (rg_config_key r), ''registry.configKey is invalid''),
       (rg_config_node r \<noteq> [] \<and> (length (rg_config_node r) > 128 \<or>
          contains_any (rg_config_node r) (CHR ''/'' # crlf_nul)), ''registry.configNode is invalid'')]"

definition validate_config_outbound :: "('ip, 'net) net_lib \<Rightarrow> boot_config \<Rightarrow> goerr option" where
  "validate_config_outbound lib c =
    (let n = cf_notify c in
     check_guards
      [(trim_space (nc_ws_url n) \<noteq> [] \<and>
          (case nl_parse_url lib (trim_space (nc_ws_url n)) of
             None \<Rightarrow> True
           | Some u \<Rightarrow> (u_scheme u \<noteq> ''http'' \<and> u_scheme u \<noteq> ''https'') \<or> u_host u = [] \<or>
               u_has_user u \<or> u_raw_query u \<noteq> [] \<or> u_fragment u \<noteq> []), ''notify.wsUrl is invalid''),
       (nc_timeout n < 0 \<or> nc_timeout n > 5 * 60,
         ''notify.timeout must be between 0 and 300 seconds''),
       (nc_max_payload n < 0 \<or> nc_max_payload n > 16777216,
         ''notify.maxPayloadBytes must be between 0 and 16777216''),
       (case tc_sample_ratio (cf_telemetry c) of Finite r \<Rightarrow> r < 0 \<or> r > 1 | _ \<Rightarrow> True,
         ''telemetry.sampleRatio must be between 0 and 1'')])"

definition validate_config_pprof :: "('ip, 'net) net_lib \<Rightarrow> string \<Rightarrow> pprof_config \<Rightarrow> goerr option" where
  "validate_config_pprof lib mode p =
    (let strict = (pp_enabled p \<and> release_mode mode); t = pp_tls p in
     check_guards
      [(strict \<and> pp_auth_token p = [] \<and> trim_space (pp_allowed_cidrs p) = [] \<and>
          pprof_exposed lib (pp_addr p),
         ''diagnostics.pprof requires authToken or allowedCidrs when exposed beyond loopback''),
       (strict \<and> trim_space (pp_allowed_cidrs p) \<noteq> [] \<and> \<not> cidrs_ok lib (pp_allowed_cidrs p),
         ''diagnostics.pprof.allowedCidrs contains invalid CIDR''),
       (pt_enable t \<and> \<not> pp_enabled p, ''diagnostics.pprof.tls requires diagnostics.pprof.enabled''),
       (pt_enable t \<and> trim_space (pp_addr p) = [],
         ''diagnostics.pprof.tls requires a dedicated addr''),
       (pt_enable t \<and> (pt_cert_file t = [] \<or> pt_key_file t = []),
         ''diagnostics.pprof.tls certFile and keyFile are required''),
       (pt_enable t \<and> pt_require_client_cert t \<and> pt_ca_file t = [],
         ''diagnostics.pprof.tls caFile is required when requireClientCert is enabled'')])"

definition validate_config_limits :: "boot_config \<Rightarrow> goerr option" where
  "validate_config_limits c =
    (let s = cf_server c; g = cf_grpc c in
     check_guards
      [(sv_max_body_bytes s < 0 \<or> sv_max_body_bytes s > 268435456,
         ''server.maxBodyBytes must be between 0 and 268435456''),
       (sv_max_header_bytes s < 0 \<or> sv_max_header_bytes s > 16777216,
         ''server.maxHeaderBytes must be between 0 and 16777216''),
       (sv_read_header_timeout s < 0 \<or> sv_read_timeout s < 0 \<or> sv_write_timeout s < 0 \<or>
          sv_idle_timeout s < 0 \<or> sv_shutdown_timeout s < 0,
         ''server timeout values cannot be negative''),
       (gc_max_recv g < 0 \<or> gc_max_send g < 0 \<or> gc_max_recv g > 67108864 \<or> gc_max_send g > 67108864,
         ''grpc message sizes must be between 0 and 67108864''),
       (gc_request_timeout g < 0 \<or> gc_request_timeout g > 5 * 60,
         ''grpc.requestTimeout must be between 0 and 300 seconds''),
       (gc_max_concurrent g < 0 \<or> gc_max_concurrent g > 1000000,
         ''grpc.maxConcurrent must be between 0 and 1000000'')])"

definition validate_config_access :: "('ip, 'net) net_lib \<Rightarrow> string \<Rightarrow> boot_config \<Rightarrow> goerr option" where
  "validate_config_access lib mode c =
    (let a = cf_access_limit c; j = cf_jwt c; strict = release_mode mode in
     check_guards
      [(ac_total a < 0 \<or> ac_duration a < 0 \<or> ac_total a > 10000000 \<or> ac_duration a > 24 * 60 * 60,
         ''accessLimit values exceed safe bounds''),
       (list_ex (\<lambda>(n, db). dbc_max_idle db < 0 \<or> dbc_max_open db < 0 \<or> dbc_max_lifetime db < 0 \<or>
          dbc_max_idle_time db < 0 \<or> dbc_slow_threshold db < 0) (cf_database c),
         ''database.%s pool values cannot be negative''),
       (list_ex (\<lambda>(n, db). dbc_max_open db > 10000 \<or> dbc_max_idle db > 10000 \<or>
          dbc_max_lifetime db > 7 * 24 * 60 * 60 \<or> dbc_max_idle_time db > 7 * 24 * 60 * 60 \<or>
          dbc_slow_threshold db > 24 * 60 * 60 * 1000) (cf_database c),
         ''database.%s pool values exceed safe bounds''),
       (strict \<and> cc_enable (cf_cors c) \<and> equal_fold (trim_space (cc_mode (cf_cors c))) ''allow-all'',
         ''cors allow-all is not permitted in release mode; use whitelist''),
       (strict \<and> trim_space (jc_trusted_header_cidrs j) = [] \<and> jc_header_uid j \<noteq> [] \<and>
          jc_trust_header_uid j,
         ''jwt.trustedHeaderCidrs is required when header identity trust is enabled in release mode''),
       (strict \<and> jc_trust_header_uid j \<and> jc_trusted_header_cidrs j \<noteq> [] \<and>
          \<not> cidrs_ok lib (jc_trusted_header_cidrs j),
         ''jwt.trustedHeaderCidrs contains invalid CIDR''),
       (strict \<and> jc_secret j \<noteq> [] \<and> length (jc_secret j) < 32,
         ''jwt.secret must be at least 32 bytes in release mode''),
       (strict \<and> jc_secret j \<noteq> [] \<and> (jc_issuer j = [] \<or> jc_audience j = []),
         ''jwt issuer and audience are required in release mode'')])"

definition validate_config :: "('ip, 'net) net_lib \<Rightarrow> boot_config option \<Rightarrow> goerr option" where
  "validate_config lib cfg =
    (case cfg of
       None \<Rightarrow> Some (Errorf ''config is nil'')
     | Some c \<Rightarrow>
        (let mode = trim_space (sv_mode (cf_server c)) in
         first_some
           [validate_config_identity c, validate_config_registry (cf_registry c),
            validate_config_outbound lib c, validate_config_pprof lib mode (cf_pprof c),
            validate_config_limits c, validate_tls_requirements lib c,
            validate_config_access lib mode c]))"

lemma first_some_None_iff: "first_some xs = None \<longleftrightarrow> (\<forall>x\<in>set xs. x = None)"
  by (induction xs rule: first_some.induct) auto

subsection \<open>The configuration part of New\<close>

text \<open>
  \<open>fetch\<close> is the merge of the remote layers; it contacts the registry. The result also says
  whether it was called.
\<close>

definition new_config ::
  "('ip, 'net) net_lib \<Rightarrow> env_lib \<Rightarrow> (boot_config \<Rightarrow> goerr + boot_config) \<Rightarrow>
   goerr + boot_config \<Rightarrow> (goerr + boot_config) \<times> bool" where
  "new_config lib env fetch file =
    (case load_base_config env file of
       Inl e \<Rightarrow> (Inl e, False)
     | Inr cfg \<Rightarrow>
        (case validate_tls_requirements lib cfg of
           Some e \<Rightarrow> (Inl (Wrapf ''validate config: %w'' e), False)
         | None \<Rightarrow>
            (let r = cf_registry cfg;
                 contact = (rg_config_key r \<noteq> [] \<and> (rg_endpoints r \<noteq> [] \<or> rg_address r \<noteq> []))
             in case (if contact
                      then (case fetch cfg of
                          Inl e \<Rightarrow> Inl (Wrapf ''remote config: %w'' e)
                        | Inr cfg \<Rightarrow> Inr (apply_env_overrides env cfg))
                      else Inr cfg) of
                  Inl e \<Rightarrow> (Inl e, contact)
                | Inr cfg \<Rightarrow>
                   (case validate_inline_secrets cfg of
                      Some e \<Rightarrow> (Inl e, contact)
                    | None \<Rightarrow>
                       (case validate_config lib (Some cfg) of
                          Some e \<Rightarrow> (Inl (Wrapf ''validate config: %w'' e), contact)
                        | None \<Rightarrow> (Inr cfg, contact))))))"

subsection \<open>Properties\<close>

lemma validate_config_parts:
  "validate_config lib (Some c) = None \<longleftrightarrow>
    validate_config_identity c = None \<and> validate_config_registry (cf_registry c) = None \<and>
    validate_config_outbound lib c = None \<and>
    validate_config_pprof lib (trim_space (sv_mode (cf_server c))) (cf_pprof c) = None \<and>
    validate_config_limits c = None \<and> validate_tls_requirements lib c = None \<and>
    validate_config_access lib (trim_space (sv_mode (cf_server c))) c = None"
  by (simp add: validate_config_def Let_def first_some_None_iff)

text \<open>
  The strict transport policy leaves nothing to warn about: a configuration that passes
  validation with \<open>requireTLS\<close> would raise none of the plaintext warnings of release mode
  if the policy were switched off, so both routines agree on what a plaintext transport is.
  (An https URL with a host, as the parser returns it, starts with \<open>https://\<close> in any case.)
\<close>

theorem tls_policy_covers_warnings:
  assumes "validate_config lib (Some c) = None" and "sc_require_tls (cf_security c)"
    and "\<And>s u. nl_parse_url lib s = Some u \<Longrightarrow> u_scheme u = ''https'' \<Longrightarrow> u_host u \<noteq> [] \<Longrightarrow>
      prefix ''https://'' (to_lower s)"
  shows "warn_plaintext_transports (c\<lparr>cf_security := \<lparr>sc_require_tls = False\<rparr>\<rparr>) = []"
proof -
  let ?ws = "trim_space (nc_ws_url (cf_notify c))"
  have tls: "validate_tls_requirements lib c = None" and out: "validate_config_outbound lib c = None"
    using assms(1) by (simp_all add: validate_config_parts)
  have "prefix ''https://'' (to_lower ?ws)" if ws: "?ws \<noteq> []"
  proof -
    obtain u where u: "nl_parse_url lib ?ws = Some u" "u_host u \<noteq> []"
      using out ws
      by (cases "nl_parse_url lib ?ws") (auto simp: validate_config_outbound_def Let_def split: if_splits)
    moreover have "u_scheme u = ''https''"
      using tls assms(2) ws u(1)
      by (auto simp: validate_tls_requirements_def Let_def split: if_splits)
    ultimately show ?thesis using assms(3) by blast
  qed
  moreover have "rd_addr (cf_redis c) \<noteq> [] \<longrightarrow> bt_enable (rd_tls (cf_redis c))"
      "registry_used c \<longrightarrow> tls_enable (rg_tls (cf_registry c))"
      "gc_enable (cf_grpc c) \<longrightarrow> bt_enable (gc_tls (cf_grpc c))"
      "pp_enabled (cf_pprof c) \<longrightarrow> pt_enable (pp_tls (cf_pprof c))"
    using tls assms(2) by (auto simp: validate_tls_requirements_def Let_def split: if_splits)
  moreover have "registry_used (c\<lparr>cf_security := x\<rparr>) = registry_used c" for x
    by (simp add: registry_used_def registry_transport_def)
  ultimately show ?thesis
    by (auto simp: warn_plaintext_transports_def)
qed

text \<open>A minimal configuration for the witnesses.\<close>

definition no_tls :: boot_tls where
  "no_tls = \<lparr>bt_enable = False, bt_ca_file = [], bt_cert_file = [], bt_key_file = [],
    bt_server_name = [], bt_require_client_cert = False\<rparr>"

definition demo_boot_registry :: "string \<Rightarrow> string list \<Rightarrow> boot_registry_config" where
  "demo_boot_registry key endpoints =
    \<lparr>rg_type = [], rg_endpoints = endpoints, rg_address = [], rg_token = [], rg_username = [],
     rg_password = [], rg_prefix = [], rg_ttl = 0, rg_dial_timeout = 0, rg_check_type = [],
     rg_check_path = [], rg_check_tls = False, rg_deregister_after = 0,
     rg_tls = \<lparr>tls_enable = False, tls_ca_file = [], tls_cert_file = [], tls_key_file = [],
       tls_server_name = []\<rparr>,
     rg_enable = False, rg_config_key = key, rg_config_node = [], rg_config_format = []\<rparr>"

definition demo_database :: "string \<Rightarrow> database_config" where
  "demo_database dsn = \<lparr>dbc_dsn = dsn, dbc_max_idle = 0, dbc_max_open = 0, dbc_max_lifetime = 0,
    dbc_max_idle_time = 0, dbc_slow_threshold = 0, dbc_ping_on_open = None, dbc_prepare_stmt = None\<rparr>"

definition demo_config ::
  "string \<Rightarrow> bool \<Rightarrow> boot_registry_config \<Rightarrow> (string \<times> database_config) list \<Rightarrow> boot_config" where
  "demo_config mode require registry dbs =
    \<lparr>cf_server = \<lparr>sv_name = ''svc'', sv_version = [], sv_addr = '':8080'', sv_advertise_addr = [],
       sv_mode = mode, sv_read_header_timeout = 0, sv_read_timeout = 0, sv_write_timeout = 0,
       sv_idle_timeout = 0, sv_shutdown_timeout = 0, sv_max_header_bytes = 0,
       sv_max_body_bytes = 0, sv_trusted_proxies = []\<rparr>,
     cf_security = \<lparr>sc_require_tls = require\<rparr>,
     cf_log = \<lparr>lg_output = [], lg_file = \<lparr>lf_path = [], lf_max_size = 0, lf_max_age = 0,
       lf_max_backups = 0, lf_compress = False\<rparr>\<rparr>,
     cf_database = dbs,
     cf_redis = \<lparr>rd_addr = [], rd_username = [], rd_password = [], rd_db = 0, rd_tls = no_tls\<rparr>,
     cf_grpc = \<lparr>gc_enable = False, gc_addr = [], gc_advertise_addr = [], gc_shutdown_timeout = 0,
       gc_max_recv = 0, gc_max_send = 0, gc_request_timeout = 0, gc_max_concurrent = 0,
       gc_tls = no_tls\<rparr>,
     cf_registry = registry,
     cf_jwt = \<lparr>jc_secret = [], jc_expires = 0, jc_refresh = 0, jc_issuer = [], jc_subject = [],
       jc_audience = [], jc_header_uid = [], jc_trust_header_uid = False,
       jc_trusted_header_cidrs = [], jc_allow_query_token = False\<rparr>,
     cf_cors = \<lparr>cc_enable = False, cc_mode = [], cc_whitelist = []\<rparr>,
     cf_access_limit = \<lparr>ac_enable = False, ac_total = 0, ac_duration = 0, ac_backend = [],
       ac_key_prefix = []\<rparr>,
     cf_notify = \<lparr>nc_ws_url = [], nc_token = [], nc_timeout = 0, nc_max_payload = 0\<rparr>,
     cf_telemetry = \<lparr>tc_enabled = False, tc_service_name = [], tc_service_version = [],
       tc_environment = [], tc_endpoint = [], tc_insecure = False, tc_sample_ratio = Finite 0,
       tc_sample_ratio_set = False\<rparr>,
     cf_pprof = \<lparr>pp_enabled = False, pp_prefix = [], pp_addr = [], pp_auth_token = [],
       pp_allowed_cidrs = [], pp_tls = \<lparr>pt_enable = False, pt_ca_file = [], pt_cert_file = [],
         pt_key_file = [], pt_require_client_cert = False\<rparr>\<rparr>\<rparr>"

definition demo_net :: "(nat, nat) net_lib" where
  "demo_net = \<lparr>nl_parse_ip = \<lambda>s. None, nl_loopback = \<lambda>i. False, nl_parse_cidr = \<lambda>s. None,
    nl_contains = \<lambda>n i. False, nl_parse_url = \<lambda>s. None\<rparr>"

definition demo_env :: "string \<Rightarrow> string \<Rightarrow> env_lib" where
  "demo_env key v = \<lparr>el_getenv = (\<lambda>k. if k = key then v else []), el_runes = (\<lambda>s. []),
    el_upper = (\<lambda>r. None)\<rparr>"

lemma demo_trims [simp]:
  "trim_space ''svc'' = ''svc''" "trim_space '':8080'' = '':8080''" "trim_space ''release'' = ''release''"
  "trim_space ''debug'' = ''debug''"
  by (rule trim_space_trimmed, rule trimmed_if_no_space_bytes,
      simp add: space_bytes_def space_seqs_def)+

lemmas demo_config_defs =
  demo_config_def demo_boot_registry_def no_tls_def demo_database_def demo_net_def

lemma demo_config_valid: "validate_config demo_net (Some (demo_config ''debug'' True (demo_boot_registry [] []) [])) = None"
  by (simp add: validate_config_parts validate_config_identity_def validate_config_registry_def
      validate_config_outbound_def validate_config_pprof_def validate_config_limits_def
      validate_tls_requirements_def validate_config_access_def demo_config_defs contains_char
      contains_any_iff crlf_nul_def release_mode_def registry_used_def registry_transport_def Let_def)

theorem tls_policy_covers_warnings_witness:
  "warn_plaintext_transports
    ((demo_config ''debug'' True (demo_boot_registry [] []) [])\<lparr>cf_security := \<lparr>sc_require_tls = False\<rparr>\<rparr>) = []"
  by (rule tls_policy_covers_warnings [OF demo_config_valid])
    (simp_all add: demo_config_def demo_net_def)

text \<open>
  C21. What \<open>New\<close> accepts is valid, and the registry is contacted only under the local policy:
  when \<open>New\<close> gets past the configuration, that configuration passes the whole validation
  and carries no inline secret; when it contacts the registry for remote configuration, the
  local configuration passed the transport policy first, so with \<open>requireTLS\<close> and a
  configuration key that is not blank the connection uses TLS.
\<close>

theorem new_config_validated:
  assumes "new_config lib env fetch file = (result, contacted)"
  shows "(case result of Inl e \<Rightarrow> True
      | Inr cfg \<Rightarrow> validate_config lib (Some cfg) = None \<and> validate_inline_secrets cfg = None) \<and>
    (contacted \<longrightarrow> (\<exists>cfg. load_base_config env file = Inr cfg \<and>
      validate_tls_requirements lib cfg = None \<and>
      (sc_require_tls (cf_security cfg) \<and> trim_space (rg_config_key (cf_registry cfg)) \<noteq> [] \<and>
         (rg_endpoints (cf_registry cfg) \<noteq> [] \<or> trim_space (rg_address (cf_registry cfg)) \<noteq> []) \<longrightarrow>
       tls_enable (rg_tls (cf_registry cfg)))))"
proof -
  have tls: "tls_enable (rg_tls (cf_registry cfg))"
    if "validate_tls_requirements lib cfg = None" "sc_require_tls (cf_security cfg)"
      "trim_space (rg_config_key (cf_registry cfg)) \<noteq> []"
      "rg_endpoints (cf_registry cfg) \<noteq> [] \<or> trim_space (rg_address (cf_registry cfg)) \<noteq> []" for cfg
    using that
    by (auto simp: validate_tls_requirements_def registry_used_def registry_transport_def Let_def
        split: if_splits)
  show ?thesis
    using assms tls
    by (auto simp: new_config_def Let_def split: sum.splits option.splits if_splits)
qed

theorem new_config_validated_witness:
  "case fst (new_config demo_net (demo_env [] []) Inr
      (Inr (demo_config ''debug'' True (demo_boot_registry [] []) []))) of
    Inl e \<Rightarrow> True | Inr cfg \<Rightarrow> validate_config demo_net (Some cfg) = None"
  using new_config_validated [OF surjective_pairing, of demo_net "demo_env [] []" Inr
      "Inr (demo_config ''debug'' True (demo_boot_registry [] []) [])"]
  by (auto split: sum.splits)

text \<open>
  In release mode \<open>New\<close> refuses the secrets it asks to pass by environment variables: it
  repeats the check for inline secrets after the overrides have put the environment's
  values into the configuration. A service without remote configuration that has a
  database, or a JWT secret, a Redis password, a registry token or password, a notify token
  or a pprof token in the environment, never gets past its configuration.
\<close>

theorem release_env_secrets_refused:
  assumes "release_mode (sv_mode (cf_server cfg))" and "rg_config_key (cf_registry cfg) = []"
    and "cf_database cfg \<noteq> [] \<or> (\<exists>key \<in> {''JWT_SECRET'', ''REDIS_PASSWORD'', ''REGISTRY_TOKEN'',
      ''REGISTRY_PASSWORD'', ''NOTIFY_TOKEN'', ''PPROF_TOKEN''}. el_getenv env key \<noteq> [])"
  shows "\<exists>e. fst (new_config lib env fetch (Inr cfg)) = Inl e"
proof -
  let ?cfg = "apply_env_overrides env cfg"
  have same: "sv_mode (cf_server ?cfg) = sv_mode (cf_server cfg)"
      "rg_config_key (cf_registry ?cfg) = []"
      "map fst (cf_database ?cfg) = map fst (cf_database cfg)"
    using assms(2) by (simp_all add: apply_env_overrides_def Let_def comp_def split_beta)
  have "validate_inline_secrets ?cfg \<noteq> None \<or> validate_config lib (Some ?cfg) \<noteq> None"
  proof (cases "cf_database cfg = []")
    case True
    then obtain key where "key \<in> {''JWT_SECRET'', ''REDIS_PASSWORD'', ''REGISTRY_TOKEN'',
        ''REGISTRY_PASSWORD'', ''NOTIFY_TOKEN'', ''PPROF_TOKEN''}" "el_getenv env key \<noteq> []"
      using assms(3) by blast
    then have "rd_password (cf_redis ?cfg) \<noteq> [] \<or> jc_secret (cf_jwt ?cfg) \<noteq> [] \<or>
        rg_token (cf_registry ?cfg) \<noteq> [] \<or> rg_password (cf_registry ?cfg) \<noteq> [] \<or>
        nc_token (cf_notify ?cfg) \<noteq> [] \<or> pp_auth_token (cf_pprof ?cfg) \<noteq> []"
      by (auto simp: apply_env_overrides_def Let_def env_or_def)
    then show ?thesis
      using assms(1) by (auto simp: validate_inline_secrets_def same release_mode_def)
  next
    case False
    then obtain n db where db: "(n, db) \<in> set (cf_database ?cfg)"
      using same(3) by (cases "cf_database ?cfg") auto
    show ?thesis
    proof (cases "dbc_dsn db = []")
      case True
      then have "list_ex (\<lambda>(n, db). trim_space (dbc_dsn db) = []) (cf_database ?cfg)"
        using db by (force simp: list_ex_iff)
      then have "validate_config_identity ?cfg \<noteq> None"
        unfolding validate_config_identity_def Let_def check_guards_None_iff by simp
      then show ?thesis by (simp add: validate_config_parts)
    next
      case False
      then have "list_ex (\<lambda>(name, db). dbc_dsn db \<noteq> []) (cf_database ?cfg)"
        using db by (force simp: list_ex_iff)
      then have "validate_inline_secrets ?cfg \<noteq> None"
        using assms(1) same(1) by (auto simp: validate_inline_secrets_def release_mode_def)
      then show ?thesis by simp
    qed
  qed
  then show ?thesis
    using same(2)
    by (auto simp: new_config_def load_base_config_def Let_def split: option.splits)
qed

theorem release_env_secrets_refused_witness:
  "\<exists>e. fst (new_config demo_net (demo_env ''DATABASE_DSN'' ''postgres://db'') Inr
      (Inr (demo_config ''release'' False (demo_boot_registry [] []) [(''main'', demo_database [])]))) = Inl e"
  by (rule release_env_secrets_refused) (simp_all add: demo_config_defs release_mode_def)

text \<open>
  A blank configuration key slips past the transport policy: the policy trims the key,
  \<open>New\<close> compares it with the empty string. With \<open>requireTLS\<close> and a registry endpoint without
  TLS, a key made of white space makes \<open>New\<close> contact the registry whenever the same
  configuration without a key passes the policy.
\<close>

theorem blank_config_key_skips_policy:
  assumes "load_base_config env file = Inr cfg" and "sc_require_tls (cf_security cfg)"
    and "\<not> tls_enable (rg_tls (cf_registry cfg))" and "rg_endpoints (cf_registry cfg) \<noteq> []"
    and "rg_config_key (cf_registry cfg) \<noteq> []" and "trim_space (rg_config_key (cf_registry cfg)) = []"
    and "validate_tls_requirements lib
      (cfg\<lparr>cf_registry := (cf_registry cfg)\<lparr>rg_config_key := []\<rparr>\<rparr>) = None"
  shows "snd (new_config lib env fetch file)"
proof -
  have "registry_used (cfg\<lparr>cf_registry := (cf_registry cfg)\<lparr>rg_config_key := []\<rparr>\<rparr>) = registry_used cfg"
    using assms(6) by (simp add: registry_used_def registry_transport_def)
  then have "validate_tls_requirements lib cfg = None"
    using assms(7)
    by (simp add: validate_tls_requirements_def Let_def cong: option.case_cong if_cong
        del: check_guards_simps)
  then show ?thesis
    using assms(1,4,5)
    by (auto simp: new_config_def Let_def split: sum.splits option.splits)
qed

lemma demo_env_nothing: "load_base_config (demo_env [] []) (Inr (demo_config ''debug'' True (demo_boot_registry '' '' [''e:1'']) [])) =
    Inr (demo_config ''debug'' True (demo_boot_registry '' '' [''e:1'']) [])"
  by (simp add: load_base_config_def validate_inline_secrets_def apply_env_overrides_def env_or_def
      demo_env_def demo_config_defs Let_def parse_bool_def)

theorem blank_config_key_skips_policy_witness:
  "snd (new_config demo_net (demo_env [] []) Inr
     (Inr (demo_config ''debug'' True (demo_boot_registry '' '' [''e:1'']) [])))"
proof (rule blank_config_key_skips_policy [OF demo_env_nothing])
  show "trim_space (rg_config_key (cf_registry (demo_config ''debug'' True
      (demo_boot_registry '' '' [''e:1'']) []))) = []"
    by (simp add: demo_config_defs) code_simp
qed (simp_all add: demo_config_defs validate_tls_requirements_def Let_def registry_used_def)

end
