(* ===== verification/Remote_Config.thy ===== *)
theory Remote_Config
  imports Config Breaker
begin

text \<open>
  Remote configuration: the keys, the layers and their merge (\<open>boot/remote.go\<close>), and the
  reload of a running service (\<open>watchRemoteConfig\<close> and \<open>validateRuntimeConfigChange\<close> of
  \<open>boot/app.go\<close>). viper and JSON are a parameter (\<open>layer_lib\<close>); a key-value store is its \<open>Get\<close>.
\<close>

subsection \<open>Keys\<close>

abbreviation err_key_not_found :: goerr where
  "err_key_not_found \<equiv> Sentinel ''registry: key not found''"

abbreviation err_remote_not_found :: goerr where
  "err_remote_not_found \<equiv> Sentinel ''remote config key not found''"

definition max_remote_config_bytes :: nat where
  "max_remote_config_bytes = 4194304"

definition validate_remote_payload :: "string \<Rightarrow> goerr option" where
  "validate_remote_payload data =
    (if length data > max_remote_config_bytes
     then Some (Errorf ''remote config payload exceeds %d bytes'') else None)"

definition config_key_prefix :: "boot_registry_config \<Rightarrow> string" where
  "config_key_prefix r =
    (let p = (if rg_config_key r = [] then ''/config/'' else rg_config_key r)
     in trim_right_chars p ''/'' @ ''/'')"

definition resolve_config_key :: "boot_registry_config \<Rightarrow> string \<Rightarrow> string" where
  "resolve_config_key r service_name = config_key_prefix r @ service_name"

definition config_node :: "env_lib \<Rightarrow> boot_registry_config \<Rightarrow> string" where
  "config_node env r =
    (if rg_config_node r \<noteq> [] then rg_config_node r else el_getenv env ''REMOTE_NODE'')"

definition resolve_config_node_key :: "env_lib \<Rightarrow> boot_registry_config \<Rightarrow> string \<Rightarrow> string" where
  "resolve_config_node_key env r service_name =
    (let node = config_node env r
     in if node = [] then []
        else resolve_config_key r service_name @ ''/'' @ trim_chars node ''/'')"

definition config_format :: "boot_registry_config \<Rightarrow> string" where
  "config_format r = (if rg_config_format r = ''json'' then ''json'' else ''yaml'')"

definition remote_dial_timeout :: "boot_registry_config \<Rightarrow> duration" where
  "remote_dial_timeout r =
    (if rg_dial_timeout r > 0 then
       (if rg_dial_timeout r > 5 * 60 then 5 * minute else rg_dial_timeout r * second)
     else 5 * second)"

definition validate_remote_inputs :: "env_lib \<Rightarrow> boot_registry_config \<Rightarrow> string \<Rightarrow> goerr option" where
  "validate_remote_inputs env r service_name =
    check_guards
      [(service_name = [] \<or> length service_name > 128 \<or> contains ''/'' service_name \<or>
          contains_any service_name crlf_nul, ''remote config: invalid service name %q''),
       (length (rg_config_key r) > 256 \<or> contains_any (rg_config_key r) crlf_nul \<or>
          contains ''..'' (rg_config_key r), ''remote config: invalid config key''),
       (config_node env r \<noteq> [] \<and> (length (config_node env r) > 128 \<or>
          contains_any (config_node env r) (CHR ''/'' # crlf_nul)),
         ''remote config: invalid config node'')]"

subsection \<open>Layers\<close>

text \<open>
  A decoded layer: the settings of viper, a tree whose leaves are kept as the text
  \<open>fmt.Sprint\<close> gives them.
\<close>

datatype setting = SettingLeaf string | SettingNode "(string \<times> setting) list"

definition sensitive_config_path :: "string list \<Rightarrow> bool" where
  "sensitive_config_path path \<longleftrightarrow>
    (length path \<ge> 3 \<and> hd path = ''database'' \<and> last path = ''dsn'') \<or>
    path = [''diagnostics'', ''pprof'', ''authtoken''] \<or>
    path \<in> {[''redis'', ''password''], [''jwt'', ''secret''], [''registry'', ''token''],
      [''registry'', ''password''], [''notify'', ''token'']}"

fun sensitive_walk :: "(string \<times> setting) list \<Rightarrow> string list \<Rightarrow> string list option" where
  "sensitive_walk [] pfx = None"
| "sensitive_walk ((key, SettingNode nested) # rest) pfx =
    (case sensitive_walk nested (pfx @ [to_lower key]) of
       Some found \<Rightarrow> Some found | None \<Rightarrow> sensitive_walk rest pfx)"
| "sensitive_walk ((key, SettingLeaf value) # rest) pfx =
    (if sensitive_config_path (pfx @ [to_lower key]) \<and> value \<noteq> []
     then Some (pfx @ [to_lower key]) else sensitive_walk rest pfx)"

definition sensitive_remote_path :: "(string \<times> setting) list \<Rightarrow> string list option" where
  "sensitive_remote_path settings = sensitive_walk settings []"

text \<open>The leaves of a layer with their lower-case paths.\<close>

fun setting_leaves :: "(string \<times> setting) list \<Rightarrow> string list \<Rightarrow> (string list \<times> string) list" where
  "setting_leaves [] pfx = []"
| "setting_leaves ((key, SettingNode nested) # rest) pfx =
    setting_leaves nested (pfx @ [to_lower key]) @ setting_leaves rest pfx"
| "setting_leaves ((key, SettingLeaf value) # rest) pfx =
    (pfx @ [to_lower key], value) # setting_leaves rest pfx"

lemma sensitive_walk_None_iff:
  "sensitive_walk settings pfx = None \<longleftrightarrow>
    (\<forall>(path, value)\<in>set (setting_leaves settings pfx). sensitive_config_path path \<longrightarrow> value = [])"
proof (induction settings pfx rule: sensitive_walk.induct)
  case (2 key nested rest pfx)
  then show ?case
    by (cases "sensitive_walk nested (pfx @ [to_lower key])") (auto simp: ball_Un)
qed auto

record 'v layer_lib =
  ll_encode :: "boot_config \<Rightarrow> goerr + 'v"
  ll_parse :: "string \<Rightarrow> string \<Rightarrow> goerr + (string \<times> setting) list"
  ll_merge :: "'v \<Rightarrow> (string \<times> setting) list \<Rightarrow> goerr + 'v"
  ll_decode :: "'v \<Rightarrow> boot_config \<Rightarrow> goerr + boot_config"

definition merge_layer :: "'v layer_lib \<Rightarrow> 'v \<Rightarrow> string \<Rightarrow> string \<Rightarrow> goerr + 'v" where
  "merge_layer lib v data format =
    (case ll_parse lib format data of
       Inl e \<Rightarrow> Inl (Wrapf ''parse %s: %w'' e)
     | Inr settings \<Rightarrow>
        (case sensitive_remote_path settings of
           Some path \<Rightarrow>
             Inl (Errorf ''sensitive value %s is not allowed in remote config; use an environment variable'')
         | None \<Rightarrow> ll_merge lib v settings))"

definition merge_config_layers ::
  "'v layer_lib \<Rightarrow> boot_config \<Rightarrow> string \<Rightarrow> string \<Rightarrow> string \<Rightarrow> goerr + boot_config" where
  "merge_config_layers lib base format service_data node_data =
    (case ll_encode lib base of
       Inl e \<Rightarrow> Inl (Wrapf ''remote config: encode local: %w'' e)
     | Inr v \<Rightarrow>
        (case (if length service_data > 0 then merge_layer lib v service_data format else Inr v) of
           Inl e \<Rightarrow> Inl (Wrapf ''remote config: merge service: %w'' e)
         | Inr v \<Rightarrow>
            (case (if length node_data > 0 then merge_layer lib v node_data format else Inr v) of
               Inl e \<Rightarrow> Inl (Wrapf ''remote config: merge node: %w'' e)
             | Inr v \<Rightarrow>
                (case ll_decode lib v base of
                   Inl e \<Rightarrow> Inl (Wrapf ''remote config: unmarshal merged: %w'' e)
                 | Inr cfg \<Rightarrow> Inr cfg))))"

definition unmarshal_bytes ::
  "'v layer_lib \<Rightarrow> ((string \<times> setting) list \<Rightarrow> goerr + 'c) \<Rightarrow> string \<Rightarrow> string \<Rightarrow> goerr + 'c" where
  "unmarshal_bytes lib decode data format =
    (case ll_parse lib format data of
       Inl e \<Rightarrow> Inl (Wrapf ''remote config: parse %s: %w'' e)
     | Inr settings \<Rightarrow>
        (case sensitive_remote_path settings of
           Some path \<Rightarrow>
             Inl (Errorf ''sensitive value %s is not allowed in remote config; use an environment variable'')
         | None \<Rightarrow>
            (case decode settings of
               Inl e \<Rightarrow> Inl (Wrapf ''remote config: unmarshal: %w'' e) | Inr c \<Rightarrow> Inr c)))"

subsection \<open>Fetching\<close>

type_synonym kv_get = "string \<Rightarrow> goerr + string"

text \<open>
  \<open>openRemoteKV\<close>: the registry built from the section's own fields; \<open>None\<close> as its store is a
  backend without key-value storage. \<open>'r\<close> is the opened registry.
\<close>

definition open_remote_kv ::
  "(string \<times> (registry_config \<Rightarrow> goerr + 'r)) list \<Rightarrow> ('r \<Rightarrow> kv_get option) \<Rightarrow>
   boot_registry_config \<Rightarrow> goerr + kv_get" where
  "open_remote_kv factories kv_of reg =
    (case registry_new factories (registry_config.truncate reg) of
       Inl e \<Rightarrow> Inl e
     | Inr r \<Rightarrow>
        (case kv_of r of
           None \<Rightarrow> Inl (Errorf ''remote config: registry backend %q does not support KV storage'')
         | Some get \<Rightarrow> Inr get))"

definition fetch_remote_by_key :: "goerr + kv_get \<Rightarrow> string \<Rightarrow> goerr + string" where
  "fetch_remote_by_key store key =
    (case store of
       Inl e \<Rightarrow> Inl e
     | Inr get \<Rightarrow>
        (case get key of
           Inl e \<Rightarrow> if err_is e ''registry: key not found''
                     then Inl (Wrapf ''%w: key %q'' err_remote_not_found) else Inl e
         | Inr data \<Rightarrow>
            (case validate_remote_payload data of Some e \<Rightarrow> Inl e | None \<Rightarrow> Inr data)))"

text \<open>The node layer is optional: no node or a missing key is an empty layer.\<close>

definition fetch_node_layer :: "(string \<Rightarrow> goerr + string) \<Rightarrow> string \<Rightarrow> goerr + string" where
  "fetch_node_layer fetch key =
    (if key = [] then Inr []
     else (case fetch key of
         Inl e \<Rightarrow> if err_is e ''remote config key not found'' then Inr [] else Inl e
       | Inr data \<Rightarrow> Inr data))"

definition merge_remote_config ::
  "'v layer_lib \<Rightarrow> env_lib \<Rightarrow> goerr + kv_get \<Rightarrow> boot_registry_config \<Rightarrow> string \<Rightarrow>
   boot_config option \<Rightarrow> bool \<Rightarrow> goerr + boot_config" where
  "merge_remote_config lib env store reg service_name base allow_missing =
    (let service_name = trim_space service_name in
     case validate_remote_inputs env reg service_name of
       Some e \<Rightarrow> Inl e
     | None \<Rightarrow>
        (case base of
           None \<Rightarrow> Inl (Sentinel ''remote config: base config is nil'')
         | Some base \<Rightarrow>
            (case (case fetch_remote_by_key store (resolve_config_key reg service_name) of
                Inl e \<Rightarrow> if \<not> allow_missing \<or> \<not> err_is e ''remote config key not found''
                         then Inl e else Inr []
              | Inr data \<Rightarrow> Inr data) of
               Inl e \<Rightarrow> Inl e
             | Inr service_data \<Rightarrow>
                (case fetch_node_layer (fetch_remote_by_key store)
                        (resolve_config_node_key env reg service_name) of
                   Inl e \<Rightarrow> Inl e
                 | Inr node_data \<Rightarrow>
                     merge_config_layers lib base (config_format reg) service_data node_data))))"

text \<open>The same with an injected store; \<open>None\<close> is a nil store.\<close>

definition store_layer :: "kv_get \<Rightarrow> string \<Rightarrow> goerr + string" where
  "store_layer get key =
    (case get key of
       Inl e \<Rightarrow> if err_is e ''registry: key not found'' then Inl err_remote_not_found else Inl e
     | Inr data \<Rightarrow>
        (case validate_remote_payload data of Some e \<Rightarrow> Inl e | None \<Rightarrow> Inr data))"

definition merge_remote_from_store ::
  "'v layer_lib \<Rightarrow> env_lib \<Rightarrow> kv_get option \<Rightarrow> boot_registry_config \<Rightarrow> string \<Rightarrow>
   boot_config option \<Rightarrow> bool \<Rightarrow> goerr + boot_config" where
  "merge_remote_from_store lib env store reg service_name base allow_missing =
    (let service_name = trim_space service_name in
     case validate_remote_inputs env reg service_name of
       Some e \<Rightarrow> Inl e
     | None \<Rightarrow>
        (case store of
           None \<Rightarrow> Inl (Sentinel ''remote config: KV store is nil'')
         | Some get \<Rightarrow>
            (case base of
               None \<Rightarrow> Inl (Sentinel ''remote config: base config is nil'')
             | Some base \<Rightarrow>
                (case (case store_layer get (resolve_config_key reg service_name) of
                    Inl e \<Rightarrow> if \<not> allow_missing \<or> \<not> err_is e ''remote config key not found''
                             then Inl e else Inr []
                  | Inr data \<Rightarrow> Inr data) of
                   Inl e \<Rightarrow> Inl e
                 | Inr service_data \<Rightarrow>
                    (case fetch_node_layer (store_layer get)
                            (resolve_config_node_key env reg service_name) of
                       Inl e \<Rightarrow> Inl e
                     | Inr node_data \<Rightarrow>
                         merge_config_layers lib base (config_format reg) service_data node_data)))))"

definition load_remote_config ::
  "'v layer_lib \<Rightarrow> ((string \<times> setting) list \<Rightarrow> goerr + 'c) option \<Rightarrow> env_lib \<Rightarrow> goerr + kv_get \<Rightarrow>
   boot_registry_config \<Rightarrow> string \<Rightarrow> goerr + 'c" where
  "load_remote_config lib decode env store reg service_name =
    (let service_name = trim_space service_name in
     case validate_remote_inputs env reg service_name of
       Some e \<Rightarrow> Inl e
     | None \<Rightarrow>
        (case decode of
           None \<Rightarrow> Inl (Sentinel ''remote config: destination is nil'')
         | Some decode \<Rightarrow>
            (case fetch_remote_by_key store (resolve_config_key reg service_name) of
               Inl e \<Rightarrow> Inl e
             | Inr data \<Rightarrow> unmarshal_bytes lib decode data (config_format reg))))"

definition load_remote_config_from_store ::
  "'v layer_lib \<Rightarrow> ((string \<times> setting) list \<Rightarrow> goerr + 'c) option \<Rightarrow> env_lib \<Rightarrow> kv_get option \<Rightarrow>
   boot_registry_config \<Rightarrow> string \<Rightarrow> goerr + 'c" where
  "load_remote_config_from_store lib decode env store reg service_name =
    (let service_name = trim_space service_name in
     case validate_remote_inputs env reg service_name of
       Some e \<Rightarrow> Inl e
     | None \<Rightarrow>
        (case store of
           None \<Rightarrow> Inl (Sentinel ''remote config: KV store is nil'')
         | Some get \<Rightarrow>
            (case decode of
               None \<Rightarrow> Inl (Sentinel ''remote config: destination is nil'')
             | Some decode \<Rightarrow>
                (case store_layer get (resolve_config_key reg service_name) of
                   Inl e \<Rightarrow> Inl e
                 | Inr data \<Rightarrow> unmarshal_bytes lib decode data (config_format reg)))))"

text \<open>
  \<open>WatchRemoteConfigTree\<close>: the keys it watches, and the loop that collects the ends of their
  watches: \<open>Some r\<close> is a watch that ended with result \<open>r\<close>, \<open>None\<close> the end of the context.
\<close>

definition watch_tree_keys :: "env_lib \<Rightarrow> boot_registry_config \<Rightarrow> string \<Rightarrow> string list" where
  "watch_tree_keys env reg service_name =
    (let service_name = trim_space service_name;
         node_key = resolve_config_node_key env reg service_name
     in [resolve_config_key reg service_name] @ (if node_key \<noteq> [] then [node_key] else []))"

fun watch_tree_collect ::
  "nat \<Rightarrow> goerr option \<Rightarrow> goerr option option list \<Rightarrow> goerr option" where
  "watch_tree_collect 0 ctx_err es = ctx_err"
| "watch_tree_collect (Suc n) ctx_err [] = ctx_err"
| "watch_tree_collect (Suc n) ctx_err (None # es) = ctx_err"
| "watch_tree_collect (Suc n) ctx_err (Some r # es) =
    (if r \<noteq> None \<and> ctx_err = None then r else watch_tree_collect n ctx_err es)"

definition watch_remote_tree ::
  "env_lib \<Rightarrow> boot_registry_config \<Rightarrow> string \<Rightarrow> bool \<Rightarrow> goerr option \<Rightarrow>
   goerr option option list \<Rightarrow> goerr option" where
  "watch_remote_tree env reg service_name has_callback ctx_err ends =
    (case validate_remote_inputs env reg (trim_space service_name) of
       Some e \<Rightarrow> Some e
     | None \<Rightarrow>
        if \<not> has_callback then Some (Sentinel ''remote config: onChange callback is required'')
        else watch_tree_collect (length (watch_tree_keys env reg service_name)) ctx_err ends)"

subsection \<open>Reloading a running service\<close>

definition runtime_static_fields ::
  "boot_config \<Rightarrow> server_config \<times> security_config \<times> log_config \<times>
   (string \<times> database_config) list \<times> redis_config \<times> grpc_config \<times> boot_registry_config \<times>
   telemetry_config \<times> pprof_config" where
  "runtime_static_fields c =
    (cf_server c, cf_security c, cf_log c, cf_database c, cf_redis c, cf_grpc c, cf_registry c,
     cf_telemetry c, cf_pprof c)"

definition validate_runtime_change ::
  "('ip, 'net) net_lib \<Rightarrow> boot_config option \<Rightarrow> boot_config option \<Rightarrow> goerr option" where
  "validate_runtime_change lib current new =
    (case (current, new) of
       (Some c, Some n) \<Rightarrow>
         if runtime_static_fields c \<noteq> runtime_static_fields n
         then Some (Errorf ''startup-only server/log/database/redis/grpc/registry/security fields changed; restart is required'')
         else validate_config lib (Some n)
     | _ \<Rightarrow> Some (Errorf ''config cannot be nil''))"

text \<open>
  A validator gets a pointer to the new configuration and may change it; \<open>None\<close> is a nil
  function. A panic is an error.
\<close>

type_synonym config_validator = "(boot_config \<Rightarrow> goerr option call_outcome \<times> boot_config) option"

definition call_config_validator ::
  "config_validator \<Rightarrow> boot_config \<Rightarrow> goerr option \<times> boot_config" where
  "call_config_validator fn cfg =
    (case fn of
       None \<Rightarrow> (None, cfg)
     | Some f \<Rightarrow>
        (case f cfg of
           (Returned e, cfg) \<Rightarrow> (e, cfg)
         | (Panicked, cfg) \<Rightarrow> (Some (Errorf ''panic: %v''), cfg)))"

fun run_validators :: "config_validator list \<Rightarrow> boot_config \<Rightarrow> goerr option \<times> boot_config" where
  "run_validators [] cfg = (None, cfg)"
| "run_validators (fn # fns) cfg =
    (case call_config_validator fn cfg of
       (Some e, cfg) \<Rightarrow> (Some e, cfg)
     | (None, cfg) \<Rightarrow> run_validators fns cfg)"

text \<open>
  The state: the published configuration, the local base and the calls of the applied
  callbacks so far (which callback, with what configuration).
\<close>

record reload_state =
  rl_config :: boot_config
  rl_local :: "boot_config option"
  rl_applied :: "(nat \<times> boot_config) list"

definition reload_config ::
  "('ip, 'net) net_lib \<Rightarrow> env_lib \<Rightarrow> (boot_config \<Rightarrow> goerr + boot_config) \<Rightarrow>
   config_validator list \<Rightarrow> nat \<Rightarrow> reload_state \<Rightarrow> reload_state" where
  "reload_config lib env merge validators n_applied s =
    (let base = (case rl_local s of None \<Rightarrow> rl_config s | Some l \<Rightarrow> l) in
     case merge base of
       Inl e \<Rightarrow> s
     | Inr cfg \<Rightarrow>
        (let cfg = apply_env_overrides env cfg in
         case validate_runtime_change lib (Some (rl_config s)) (Some cfg) of
           Some e \<Rightarrow> s
         | None \<Rightarrow>
            (case run_validators validators cfg of
               (Some e, cfg) \<Rightarrow> s
             | (None, cfg) \<Rightarrow>
                 s\<lparr>rl_config := cfg,
                   rl_applied := rl_applied s @ map (\<lambda>i. (i, cfg)) [0..<n_applied]\<rparr>)))"

subsection \<open>Properties\<close>

lemma valid_remote_inputs:
  assumes "validate_remote_inputs env r name = None"
  shows "CHR ''/'' \<notin> set name" "name \<noteq> []" "CHR ''/'' \<notin> set (config_node env r)"
  using assms
  by (auto simp: validate_remote_inputs_def contains_char contains_any_iff crlf_nul_def
      split: if_splits)

lemma trim_chars_other: "set cs \<inter> set s = {} \<Longrightarrow> trim_chars s cs = s"
proof -
  assume "set cs \<inter> set s = {}"
  then have "dropWhile (\<lambda>c. c \<in> set cs) s = s" "s = [] \<or> last s \<notin> set cs"
    by (cases s; auto)+
  then show ?thesis by (simp add: trim_chars_def trim_right_chars_id)
qed

text \<open>
  The configuration keys of different services and nodes never collide: under one
  registry section, two valid service names have the same service key only if they are the
  same, the node key of a service is not the service key of any other one, and it says the
  node back after the service key and a slash.
\<close>

theorem remote_keys_separate:
  assumes "validate_remote_inputs env r a = None" and "validate_remote_inputs env r b = None"
  shows "(resolve_config_key r a = resolve_config_key r b \<longrightarrow> a = b) \<and>
    (config_node env r \<noteq> [] \<longrightarrow>
      resolve_config_node_key env r a \<noteq> resolve_config_key r b \<and>
      resolve_config_node_key env r a = resolve_config_key r a @ ''/'' @ config_node env r \<and>
      (resolve_config_node_key env r a = resolve_config_node_key env r b \<longrightarrow> a = b))"
proof -
  note A = valid_remote_inputs [OF assms(1)] and B = valid_remote_inputs [OF assms(2)]
  have node: "trim_chars (config_node env r) ''/'' = config_node env r"
    using A(3) by (intro trim_chars_other) auto
  have "a @ CHR ''/'' # x \<noteq> b" for x using B(1) by auto
  then show ?thesis
    using A(1) B(1)
    by (auto simp: resolve_config_node_key_def Let_def node resolve_config_key_def separated_eq_iff)
qed

theorem remote_keys_separate_witness:
  "resolve_config_key (demo_boot_registry ''/cfg//'' []) ''user'' = ''/cfg/user'' \<and>
   resolve_config_node_key (demo_env ''REMOTE_NODE'' ''n1'') (demo_boot_registry ''/cfg//'' []) ''user'' =
     ''/cfg/user/n1''"
proof -
  have v: "validate_remote_inputs (demo_env ''REMOTE_NODE'' ''n1'') (demo_boot_registry ''/cfg//'' []) ''user'' = None"
    by (simp add: validate_remote_inputs_def contains_char contains_any_iff crlf_nul_def
        demo_boot_registry_def config_node_def demo_env_def)
  show ?thesis
    using remote_keys_separate [OF v v]
    by (simp add: resolve_config_key_def config_key_prefix_def demo_boot_registry_def Let_def
        trim_right_chars_def config_node_def demo_env_def)
qed

definition layer_without_secrets :: "'v layer_lib \<Rightarrow> string \<Rightarrow> string \<Rightarrow> bool" where
  "layer_without_secrets lib format data \<longleftrightarrow>
    (data \<noteq> [] \<longrightarrow> (\<exists>settings. ll_parse lib format data = Inr settings \<and>
      (\<forall>(path, value)\<in>set (setting_leaves settings []). sensitive_config_path path \<longrightarrow> value = [])))"

lemma merge_layer_safe:
  "merge_layer lib v data format = Inr w \<Longrightarrow> layer_without_secrets lib format data"
  using sensitive_walk_None_iff
  by (auto simp: merge_layer_def layer_without_secrets_def sensitive_remote_path_def
      split: sum.splits option.splits)

lemma merge_config_layers_safe:
  "merge_config_layers lib base format service node = Inr cfg \<Longrightarrow>
    layer_without_secrets lib format service \<and> layer_without_secrets lib format node"
  using merge_layer_safe [of lib _ service format] merge_layer_safe [of lib _ node format]
  by (auto simp: merge_config_layers_def layer_without_secrets_def split: sum.splits if_splits)

text \<open>
  C10. No secret enters a service through remote configuration: if the merge succeeds, every
  layer it took from the store, within the size limit, parsed to settings in which each
  sensitive path (database DSNs, passwords, JWT secret, tokens, in any case) is absent or
  empty.
\<close>

theorem remote_layers_hold_no_secrets:
  assumes "merge_remote_config lib env (Inr get) reg name base allow_missing = Inr cfg"
  shows "(\<forall>key\<in>{resolve_config_key reg (trim_space name),
      resolve_config_node_key env reg (trim_space name)} - {[]}. \<forall>data. get key = Inr data \<longrightarrow>
    length data \<le> max_remote_config_bytes \<and> layer_without_secrets lib (config_format reg) data)"
proof -
  have "length data \<le> max_remote_config_bytes \<and> layer_without_secrets lib (config_format reg) data"
    if "get key = Inr data"
      "key = resolve_config_key reg (trim_space name) \<or>
       (key = resolve_config_node_key env reg (trim_space name) \<and> key \<noteq> [])"
    for key data
  proof -
    have fetched: "fetch_remote_by_key (Inr get) key =
        (if length data > max_remote_config_bytes
         then Inl (Errorf ''remote config payload exceeds %d bytes'') else Inr data)"
      using that(1) by (simp add: fetch_remote_by_key_def validate_remote_payload_def)
    show ?thesis
      using assms that(2) fetched
      by (auto simp: merge_remote_config_def Let_def fetch_node_layer_def
          dest!: merge_config_layers_safe split: option.splits sum.splits if_splits)
  qed
  then show ?thesis by blast
qed

definition demo_layers :: "unit layer_lib" where
  "demo_layers = \<lparr>ll_encode = \<lambda>c. Inr (), ll_parse = \<lambda>f d. Inr [(''jwt'', SettingNode [(''Issuer'', SettingLeaf ''me'')])],
    ll_merge = \<lambda>v s. Inr (), ll_decode = \<lambda>v c. Inr c\<rparr>"

definition demo_get :: kv_get where
  "demo_get key = (if key = ''/config/svc'' then Inr ''jwt: ...'' else Inl err_key_not_found)"

lemma demo_merge:
  "merge_remote_config demo_layers (demo_env [] []) (Inr demo_get) (demo_boot_registry [] []) ''svc''
    (Some (demo_config ''debug'' False (demo_boot_registry [] []) [])) False =
   Inr (demo_config ''debug'' False (demo_boot_registry [] []) [])"
proof -
  have low: "to_lower ''jwt'' = ''jwt''" "to_lower ''Issuer'' = ''issuer''" by code_simp+
  have key: "resolve_config_key (demo_boot_registry [] []) ''svc'' = ''/config/svc''"
      "config_node (demo_env [] []) (demo_boot_registry [] []) = []"
      "rg_config_key (demo_boot_registry [] []) = []"
    by (simp_all add: resolve_config_key_def config_key_prefix_def demo_boot_registry_def
        trim_right_chars_def config_node_def demo_env_def)
  show ?thesis
    by (simp add: merge_remote_config_def validate_remote_inputs_def key low contains_char
        contains_any_iff crlf_nul_def fetch_remote_by_key_def demo_get_def validate_remote_payload_def
        max_remote_config_bytes_def resolve_config_node_key_def fetch_node_layer_def Let_def
        merge_config_layers_def merge_layer_def demo_layers_def sensitive_remote_path_def
        sensitive_config_path_def del: to_lower.simps)
qed

theorem remote_layers_hold_no_secrets_witness:
  "layer_without_secrets demo_layers ''yaml'' ''jwt: ...''"
proof -
  have key: "resolve_config_key (demo_boot_registry [] []) (trim_space ''svc'') = ''/config/svc''"
      "config_format (demo_boot_registry [] []) = ''yaml''" "demo_get ''/config/svc'' = Inr ''jwt: ...''"
    by (simp_all add: resolve_config_key_def config_key_prefix_def demo_boot_registry_def
        trim_right_chars_def config_format_def demo_get_def)
  show ?thesis
    using remote_layers_hold_no_secrets [OF demo_merge] key by auto
qed

text \<open>
  Both ways to merge agree: with the store that the section's registry opens, \<open>MergeRemoteConfig\<close>
  and \<open>MergeRemoteConfigFromStore\<close> give the same configuration, and they fail on the same
  inputs; and a missing service key is an empty layer exactly when missing is allowed.
\<close>

theorem merge_paths_agree:
  "(case (merge_remote_config lib env (Inr get) reg name base allow_missing,
          merge_remote_from_store lib env (Some get) reg name base allow_missing) of
      (Inr a, Inr b) \<Rightarrow> a = b | (Inl _, Inl _) \<Rightarrow> True | _ \<Rightarrow> False) \<and>
   (\<forall>cfg. merge_remote_config lib env (Inr get) reg name base False = Inr cfg \<longrightarrow>
      (\<exists>data. get (resolve_config_key reg (trim_space name)) = Inr data))"
proof -
  have same: "(\<exists>d. fetch_remote_by_key (Inr get) key = Inr d \<and> store_layer get key = Inr d) \<or>
      (\<exists>e e'. fetch_remote_by_key (Inr get) key = Inl e \<and> store_layer get key = Inl e' \<and>
        err_is e ''remote config key not found'' = err_is e' ''remote config key not found'')" for key
    by (auto simp: fetch_remote_by_key_def store_layer_def split: sum.splits option.splits)
  have node: "(\<exists>d. fetch_node_layer (fetch_remote_by_key (Inr get)) key = Inr d \<and>
        fetch_node_layer (store_layer get) key = Inr d) \<or>
      (\<exists>e e'. fetch_node_layer (fetch_remote_by_key (Inr get)) key = Inl e \<and>
        fetch_node_layer (store_layer get) key = Inl e')" for key
    using same [of key] by (auto simp: fetch_node_layer_def)
  let ?k = "resolve_config_key reg (trim_space name)"
  have "\<exists>data. get ?k = Inr data"
    if "merge_remote_config lib env (Inr get) reg name base False = Inr cfg" for cfg
  proof (cases "get ?k")
    case (Inl e)
    then have "\<exists>e'. fetch_remote_by_key (Inr get) ?k = Inl e'" by (simp add: fetch_remote_by_key_def)
    then show ?thesis
      using that by (auto simp: merge_remote_config_def Let_def split: option.splits)
  qed simp
  moreover have "case (merge_remote_config lib env (Inr get) reg name base allow_missing,
          merge_remote_from_store lib env (Some get) reg name base allow_missing) of
      (Inr a, Inr b) \<Rightarrow> a = b | (Inl _, Inl _) \<Rightarrow> True | _ \<Rightarrow> False"
    using same [of ?k] node [of "resolve_config_node_key env reg (trim_space name)"]
    by (cases "validate_remote_inputs env reg (trim_space name)"; cases base; elim disjE exE conjE)
      (simp_all add: merge_remote_config_def merge_remote_from_store_def Let_def split: sum.splits)
  ultimately show ?thesis by blast
qed

theorem merge_paths_agree_witness:
  "\<exists>data. demo_get (resolve_config_key (demo_boot_registry [] []) (trim_space ''svc'')) = Inr data"
  using merge_paths_agree [of demo_layers "demo_env [] []" demo_get "demo_boot_registry [] []" "''svc''"
      "Some (demo_config ''debug'' False (demo_boot_registry [] []) [])" False]
    demo_merge
  by blast

text \<open>Reloads of a running service: any merge, any validators that leave the configuration alone.\<close>

definition pure_validators :: "config_validator list \<Rightarrow> bool" where
  "pure_validators fns \<longleftrightarrow> (\<forall>fn\<in>set fns. \<forall>f cfg. fn = Some f \<longrightarrow> snd (f cfg) = cfg)"

lemma call_config_validator_pure:
  "pure_validators [fn] \<Longrightarrow> snd (call_config_validator fn cfg) = cfg"
proof (cases fn)
  case (Some f)
  assume "pure_validators [fn]"
  then have "snd (f cfg) = cfg" using Some by (simp add: pure_validators_def)
  then obtain r where "f cfg = (r, cfg)" by (metis prod.collapse)
  then show ?thesis using Some by (cases r) (simp_all add: call_config_validator_def)
qed (simp add: call_config_validator_def)

lemma run_validators_pure:
  "pure_validators fns \<Longrightarrow> run_validators fns cfg = (None, cfg') \<Longrightarrow>
    cfg' = cfg \<and> (\<forall>fn\<in>set fns. call_config_validator fn cfg = (None, cfg))"
proof (induction fns arbitrary: cfg)
  case (Cons fn fns)
  obtain e c where v: "call_config_validator fn cfg = (e, c)" by (cases "call_config_validator fn cfg")
  then have "c = cfg"
    using call_config_validator_pure [of fn cfg] Cons.prems(1) by (simp add: pure_validators_def)
  then show ?case
    using Cons v by (cases e) (auto simp: pure_validators_def)
qed simp

inductive reload_step ::
  "('ip, 'net) net_lib \<Rightarrow> env_lib \<Rightarrow> config_validator list \<Rightarrow> nat \<Rightarrow> reload_state \<Rightarrow> reload_state \<Rightarrow> bool"
  for lib env validators n where
  "reload_step lib env validators n s (reload_config lib env merge validators n s)"

definition reload_keeps :: "('ip, 'net) net_lib \<Rightarrow> reload_state \<Rightarrow> reload_state \<Rightarrow> bool" where
  "reload_keeps lib s0 s \<longleftrightarrow>
    runtime_static_fields (rl_config s) = runtime_static_fields (rl_config s0) \<and>
    rl_local s = rl_local s0 \<and>
    (rl_config s = rl_config s0 \<or> validate_config lib (Some (rl_config s)) = None)"

lemma reload_config_cases:
  assumes "pure_validators validators"
  shows "reload_config lib env merge validators n s = s \<or>
    (\<exists>cfg. validate_config lib (Some cfg) = None \<and>
      runtime_static_fields cfg = runtime_static_fields (rl_config s) \<and>
      (\<forall>fn\<in>set validators. call_config_validator fn cfg = (None, cfg)) \<and>
      reload_config lib env merge validators n s =
        s\<lparr>rl_config := cfg, rl_applied := rl_applied s @ map (\<lambda>i. (i, cfg)) [0..<n]\<rparr>)"
  using run_validators_pure [OF assms]
  by (auto simp: reload_config_def Let_def validate_runtime_change_def
      split: sum.splits option.splits prod.splits if_splits)

interpretation reloads: step_invariant "reload_step lib env validators n"
  "\<lambda>s. pure_validators validators \<and> reload_keeps lib s0 s" for lib env validators n s0
proof
  fix s t
  assume inv: "pure_validators validators \<and> reload_keeps lib s0 s"
    and "reload_step lib env validators n s t"
  then obtain merge where "t = reload_config lib env merge validators n s"
    by (auto elim: reload_step.cases)
  with inv show "pure_validators validators \<and> reload_keeps lib s0 t"
    using reload_config_cases [of validators lib env merge n s] by (auto simp: reload_keeps_def)
qed

text \<open>
  C22. A running service only moves between valid configurations with the startup fields it was
  started with: whatever the registry delivers and however often, after any number of
  reloads the server, security, log, database, Redis, gRPC, registry, telemetry and
  diagnostics sections are those of the start, and the published configuration is the first
  one or passes the whole validation; and one reload either changes nothing or publishes a
  configuration that every validator accepted and hands it to every applied callback once,
  in order. (The validators do not write through the pointer they are given.)
\<close>

theorem reload_is_safe:
  assumes "pure_validators validators" and "(reload_step lib env validators n)\<^sup>*\<^sup>* s0 s"
  shows "reload_keeps lib s0 s \<and>
    (reload_config lib env merge validators n s = s \<or>
     (\<exists>cfg. (\<forall>fn\<in>set validators. call_config_validator fn cfg = (None, cfg)) \<and>
       rl_config (reload_config lib env merge validators n s) = cfg \<and>
       rl_applied (reload_config lib env merge validators n s) =
         rl_applied s @ map (\<lambda>i. (i, cfg)) [0..<n]))"
proof -
  have "reload_keeps lib s0 s0" by (simp add: reload_keeps_def)
  then have "reload_keeps lib s0 s"
    using reloads.steps_keep [OF assms(2), of s0] assms(1) by blast
  then show ?thesis
    using reload_config_cases [OF assms(1), of lib env merge n s] by fastforce
qed

theorem reload_is_safe_witness:
  "reload_keeps demo_net
    \<lparr>rl_config = demo_config ''debug'' False (demo_boot_registry [] []) [], rl_local = None, rl_applied = []\<rparr>
    (reload_config demo_net (demo_env [] []) Inr [Some (\<lambda>c. (Returned None, c))] 2
      \<lparr>rl_config = demo_config ''debug'' False (demo_boot_registry [] []) [], rl_local = None, rl_applied = []\<rparr>)"
proof -
  have "pure_validators [Some (\<lambda>c. (Returned None, c))]" by (simp add: pure_validators_def)
  moreover have "(reload_step demo_net (demo_env [] []) [Some (\<lambda>c. (Returned None, c))] 2)\<^sup>*\<^sup>* s
      (reload_config demo_net (demo_env [] []) Inr [Some (\<lambda>c. (Returned None, c))] 2 s)" for s
    by (intro r_into_rtranclp reload_step.intros)
  ultimately show ?thesis using reload_is_safe by blast
qed

end
