(* ===== verification/Request_Metadata.thy ===== *)
theory Request_Metadata
  imports Go_Errors
begin

text \<open>
  Request-scoped metadata, \<open>metadata/metadata.go\<close>, and the trace middleware of
  \<open>mid/trace.go\<close> and \<open>mid/grpc.go\<close>. A context is the metadata it carries and the trace
  identifier of the logger; HTTP headers are a function from canonical names, empty when
  absent; gRPC metadata is a function from names to lists of values.
\<close>

record meta_values =
  mv_trace :: string
  mv_user :: int
  mv_tenant :: int
  mv_workspace :: int
  mv_shops :: "int list"
  mv_scopes :: "string list"

definition no_values :: meta_values where
  "no_values = \<lparr>mv_trace = [], mv_user = 0, mv_tenant = 0, mv_workspace = 0, mv_shops = [],
    mv_scopes = []\<rparr>"

type_synonym http_header = "string \<Rightarrow> string"
type_synonym grpc_md = "string \<Rightarrow> string list"

subsection \<open>Trace identifiers\<close>

definition trace_char :: "char \<Rightarrow> bool" where
  "trace_char c \<longleftrightarrow> is_lower c \<or> is_upper c \<or> is_digit c \<or> c = CHR ''-'' \<or> c = CHR ''_'' \<or> c = CHR ''.''"

definition normalize_trace :: "string \<Rightarrow> string" where
  "normalize_trace value =
    (let value = trim_space value
     in if length value > 128 then [] else if list_all trace_char value then value else [])"

definition valid_trace_id :: "string \<Rightarrow> string" where
  "valid_trace_id trace =
    (if trace = [] \<or> length trace > 128 then []
     else if list_all trace_char trace then trace else [])"

definition trace_ok :: "string \<Rightarrow> bool" where
  "trace_ok s \<longleftrightarrow> length s \<le> 128 \<and> list_all trace_char s"

lemma trace_char_plain:
  assumes "trace_char c"
  shows "c \<notin> set space_bytes"
proof -
  have "(of_char c :: nat) \<in> {97..122} \<union> {65..90} \<union> {48..57} \<union> {95, 45, 46}"
    using assms by (auto simp: trace_char_def is_lower_def is_upper_def is_digit_def less_eq_char_def)
  moreover have "(of_char w :: nat) \<notin> {97..122} \<union> {65..90} \<union> {48..57} \<union> {95, 45, 46}"
    if "w \<in> set space_bytes" for w
    using that by (auto simp: space_bytes_def space_seqs_def)
  ultimately show ?thesis by blast
qed

interpretation trace_clean: sanitizer normalize_trace trace_ok
proof
  fix s
  show "trace_ok (normalize_trace s)"
    by (simp add: trace_ok_def normalize_trace_def Let_def)
  assume "trace_ok s"
  then show "normalize_trace s = s"
    using trace_char_plain
    by (auto simp: trace_ok_def normalize_trace_def Let_def list_all_iff trim_space_trimmed
        trimmed_if_no_space_bytes)
qed

interpretation trace_valid: sanitizer valid_trace_id trace_ok
  by unfold_locales (auto simp: trace_ok_def valid_trace_id_def)

subsection \<open>Contexts and transports\<close>

record meta_ctx =
  mx_values :: meta_values
  mx_log_trace :: string

definition with_meta :: "meta_ctx \<Rightarrow> meta_values \<Rightarrow> meta_ctx" where
  "with_meta ctx values = ctx\<lparr>mx_values := values\<lparr>mv_trace := normalize_trace (mv_trace values)\<rparr>\<rparr>"

definition inject_http :: "meta_ctx \<Rightarrow> http_header \<Rightarrow> http_header" where
  "inject_http ctx header =
    (if mv_trace (mx_values ctx) \<noteq> [] then header(''X-Trace-Id'' := mv_trace (mx_values ctx))
     else header)"

definition join_int64 :: "int list \<Rightarrow> string" where
  "join_int64 values = join '','' (map format_int (filter (\<lambda>v. v > 0) values))"

definition scope_ok :: "string \<Rightarrow> bool" where
  "scope_ok s \<longleftrightarrow> s \<noteq> [] \<and> length s \<le> 128 \<and> \<not> contains_any s [CHR 0x0D, CHR 0x0A, CHR '','']"

definition join_scopes :: "string list \<Rightarrow> string" where
  "join_scopes values = join '','' (filter scope_ok (map trim_space values))"

definition set_if :: "bool \<Rightarrow> string \<Rightarrow> string \<Rightarrow> http_header \<Rightarrow> http_header" where
  "set_if b name value header = (if b then header(name := value) else header)"

definition inject_identity_http :: "meta_ctx \<Rightarrow> http_header \<Rightarrow> http_header" where
  "inject_identity_http ctx header =
    (let v = mx_values ctx;
         header = set_if (mv_user v > 0) ''X-User-Id'' (format_int (mv_user v)) header;
         header = set_if (mv_tenant v > 0) ''X-Tenant-Id'' (format_int (mv_tenant v)) header;
         header = set_if (mv_workspace v > 0) ''X-Workspace-Id'' (format_int (mv_workspace v)) header;
         header = set_if (mv_shops v \<noteq> []) ''X-Shop-Ids'' (join_int64 (mv_shops v)) header;
         header = set_if (mv_scopes v \<noteq> []) ''X-Scopes'' (join_scopes (mv_scopes v)) header
     in header)"

definition extract_http :: "meta_ctx \<Rightarrow> http_header \<Rightarrow> meta_ctx" where
  "extract_http ctx header =
    with_meta ctx ((mx_values ctx)\<lparr>mv_trace := normalize_trace (header ''X-Trace-Id'')\<rparr>)"

definition inject_grpc :: "meta_ctx \<Rightarrow> grpc_md \<Rightarrow> grpc_md" where
  "inject_grpc ctx md =
    (if mv_trace (mx_values ctx) \<noteq> [] then md(''x-trace-id'' := [mv_trace (mx_values ctx)]) else md)"

definition set_md_if :: "bool \<Rightarrow> string \<Rightarrow> string \<Rightarrow> grpc_md \<Rightarrow> grpc_md" where
  "set_md_if b name value md = (if b then md(name := [value]) else md)"

definition inject_identity_grpc :: "meta_ctx \<Rightarrow> grpc_md \<Rightarrow> grpc_md" where
  "inject_identity_grpc ctx md =
    (let v = mx_values ctx;
         md = set_md_if (mv_user v > 0) ''x-user-id'' (format_int (mv_user v)) md;
         md = set_md_if (mv_tenant v > 0) ''x-tenant-id'' (format_int (mv_tenant v)) md;
         md = set_md_if (mv_workspace v > 0) ''x-workspace-id'' (format_int (mv_workspace v)) md;
         md = set_md_if (mv_shops v \<noteq> []) ''x-shop-ids'' (join_int64 (mv_shops v)) md;
         md = set_md_if (mv_scopes v \<noteq> []) ''x-scopes'' (join_scopes (mv_scopes v)) md
     in md)"

text \<open>The two transports carry the same identity.\<close>

lemma grpc_identity_matches_http:
  "list_all (\<lambda>(meta, header). \<forall>h md. md meta = [h header] \<longrightarrow>
      inject_identity_grpc ctx md meta = [inject_identity_http ctx h header])
    [(''x-user-id'', ''X-User-Id''), (''x-tenant-id'', ''X-Tenant-Id''), (''x-workspace-id'', ''X-Workspace-Id''),
     (''x-shop-ids'', ''X-Shop-Ids''), (''x-scopes'', ''X-Scopes'')]"
  by (simp add: inject_identity_grpc_def inject_identity_http_def set_md_if_def set_if_def Let_def)

definition first_value :: "string list \<Rightarrow> string" where
  "first_value xs = (case xs of [] \<Rightarrow> [] | x # _ \<Rightarrow> normalize_trace x)"

definition extract_grpc :: "meta_ctx \<Rightarrow> grpc_md \<Rightarrow> meta_ctx" where
  "extract_grpc ctx md =
    with_meta ctx ((mx_values ctx)\<lparr>mv_trace := first_value (md ''x-trace-id'')\<rparr>)"

subsection \<open>Trace middleware\<close>

text \<open>
  \<open>Trace\<close>: the request context, its headers, the trace of an active span (empty without
  one) and a fresh UUID; the result is the new context and the trace identifier, which is
  also the response header.
\<close>

definition trace_middleware ::
  "meta_ctx \<Rightarrow> http_header \<Rightarrow> string \<Rightarrow> string \<Rightarrow> meta_ctx \<times> string" where
  "trace_middleware ctx header span_trace fresh =
    (let ctx1 = extract_http ctx header;
         t = mv_trace (mx_values ctx1);
         t = (if t = [] then mx_log_trace ctx1 else t);
         t = (if t = [] then span_trace else t);
         t = (if t = [] then header ''X-Trace-Id'' else t);
         t = valid_trace_id t;
         t = (if t = [] then fresh else t);
         ctx2 = with_meta ctx1 (no_values\<lparr>mv_trace := t\<rparr>)
     in (ctx2\<lparr>mx_log_trace := t\<rparr>, t))"

definition grpc_client_md :: "meta_ctx \<Rightarrow> grpc_md \<Rightarrow> grpc_md" where
  "grpc_client_md ctx md =
    (let md = inject_grpc ctx md; t = valid_trace_id (mx_log_trace ctx)
     in if t \<noteq> [] then md(''x-trace-id'' := [t]) else md)"

text \<open>\<open>extractTraceFromMetadata\<close>; \<open>None\<close> is a context without incoming metadata.\<close>

definition extract_trace_from_md :: "meta_ctx \<Rightarrow> grpc_md option \<Rightarrow> string \<Rightarrow> meta_ctx" where
  "extract_trace_from_md ctx md fresh =
    (case md of
       None \<Rightarrow> (with_meta ctx (no_values\<lparr>mv_trace := fresh\<rparr>))\<lparr>mx_log_trace := fresh\<rparr>
     | Some md \<Rightarrow>
        (let ctx = extract_grpc ctx md;
             t = mv_trace (mx_values ctx);
             t = (case md ''x-trace-id'' of [] \<Rightarrow> t
                  | v # _ \<Rightarrow> if valid_trace_id v \<noteq> [] then valid_trace_id v else t);
             t = (if t = [] then fresh else t)
         in (with_meta ctx (no_values\<lparr>mv_trace := t\<rparr>))\<lparr>mx_log_trace := t\<rparr>))"

lemma set_if_simps [simp]:
  "set_if True n v h = h(n := v)" "set_if False n v h = h"
  by (simp_all add: set_if_def)

lemma trace_valid_cases: "valid_trace_id t = [] \<or> valid_trace_id t = t \<and> trace_ok t"
  by (auto simp: valid_trace_id_def trace_ok_def)

text \<open>
  Every request has one clean trace identifier and keeps it across services: whatever
  the headers, the span and the logger hold, the middleware settles on a non-empty
  identifier of at most 128 harmless characters (given that the generated ones are), the
  same in the context, the logger and the response; and when the request calls another
  service over gRPC, that service works under the same identifier, over HTTP likewise.
\<close>

theorem trace_id_propagates:
  assumes "trace_middleware ctx header span_trace fresh = (ctx', t)"
    and "fresh \<noteq> []" and "trace_ok fresh"
  shows "t \<noteq> [] \<and> trace_ok t \<and> mv_trace (mx_values ctx') = t \<and> mx_log_trace ctx' = t \<and>
    mx_log_trace (extract_trace_from_md remote (Some (grpc_client_md ctx' md)) fresh') = t \<and>
    mv_trace (mx_values (extract_trace_from_md remote (Some (grpc_client_md ctx' md)) fresh')) = t \<and>
    mv_trace (mx_values (extract_http remote (inject_http ctx' header'))) = t"
proof -
  have t: "t \<noteq> [] \<and> trace_ok t \<and> mv_trace (mx_values ctx') = normalize_trace t \<and> mx_log_trace ctx' = t"
  proof -
    obtain u where "t = (if valid_trace_id u = [] then fresh else valid_trace_id u)"
        "mv_trace (mx_values ctx') = normalize_trace t" "mx_log_trace ctx' = t"
      using assms(1) by (auto simp: trace_middleware_def Let_def with_meta_def no_values_def)
    then show ?thesis using assms(2,3) trace_valid_cases [of u] by auto
  qed
  then have n: "normalize_trace t = t" "valid_trace_id t = t"
    by (simp_all add: trace_clean.clean_id trace_valid.clean_id)
  then show ?thesis
    using t
    by (simp add: grpc_client_md_def inject_grpc_def extract_trace_from_md_def extract_grpc_def
        with_meta_def first_value_def no_values_def inject_http_def extract_http_def Let_def)
qed

definition empty_ctx :: meta_ctx where
  "empty_ctx = \<lparr>mx_values = no_values, mx_log_trace = []\<rparr>"

theorem trace_id_propagates_witness:
  "mx_log_trace (extract_trace_from_md empty_ctx
     (Some (grpc_client_md (fst (trace_middleware empty_ctx (\<lambda>h. []) [] ''u1'')) (\<lambda>k. []))) ''u2'') =
   snd (trace_middleware empty_ctx (\<lambda>h. []) [] ''u1'')"
proof -
  have "trace_ok ''u1''"
    by (simp add: trace_ok_def trace_char_def is_lower_def is_digit_def less_eq_char_def)
  then show ?thesis
    using trace_id_propagates [OF surjective_pairing, of "''u1''" empty_ctx "\<lambda>h. []" "[]"] by simp
qed

end
