(* ===== verification/Jwt_Auth.thy ===== *)
theory Jwt_Auth
  imports Config App_Errors Request_Metadata
begin

text \<open>
  The JWT middleware, \<open>contrib/mid/jwt/jwt.go\<close>: identity from a trusted gateway's headers or
  from a bearer token, the claims it reads and the identity it leaves for the handlers and
  in the request metadata. Parsing and verifying a token (the JWT library with the method,
  expiry, issuer, subject and audience checks the options ask for) is a parameter that
  gives the claims of a valid token; so are the parsers of \<open>net\<close>.
\<close>

subsection \<open>The data\<close>

record jwt_mid_config =
  jm_secret :: string
  jm_issuer :: string
  jm_subject :: string
  jm_audience :: "string list"
  jm_trusted_cidrs :: "string list"
  jm_allow_query_token :: bool
  jm_header_uid :: string
  jm_header_tenant :: string
  jm_header_workspace :: string
  jm_header_shops :: string
  jm_header_scopes :: string
  jm_trust_header :: bool

text \<open>A claim as \<open>jwt.MapClaims\<close> holds it.\<close>

datatype claim =
  ClaimFloat rat
| ClaimNumber string
| ClaimInt64 int
| ClaimInt int
| ClaimString string
| ClaimList "claim list"
| ClaimInt64s "int list"
| ClaimStrings "string list"
| ClaimOther

type_synonym claims = "string \<Rightarrow> claim option"

text \<open>The parser options the middleware builds from its configuration.\<close>

record jwt_options =
  jo_issuer :: "string option"
  jo_subject :: "string option"
  jo_audience :: "string list"

type_synonym jwt_parse = "jwt_options \<Rightarrow> string \<Rightarrow> string \<Rightarrow> claims option"

text \<open>The keys of the Gin context the middleware sets, and the request it reads; \<open>ar_header\<close> is
  \<open>GetHeader\<close>.\<close>

record identity =
  id_uid :: "int option"
  id_tenant :: "int option"
  id_workspace :: "int option"
  id_shops :: "int list option"
  id_scopes :: "string list option"
  id_role :: "int option"
  id_nickname :: "string option"
  id_phone :: "string option"

definition no_identity :: identity where
  "no_identity = \<lparr>id_uid = None, id_tenant = None, id_workspace = None, id_shops = None,
    id_scopes = None, id_role = None, id_nickname = None, id_phone = None\<rparr>"

record auth_request =
  ar_header :: http_header
  ar_remote :: string
  ar_query_token :: string
  ar_ctx :: meta_ctx

subsection \<open>Networks\<close>

definition parse_trusted_cidrs ::
  "('ip, 'net) net_lib \<Rightarrow> string list \<Rightarrow> 'net list \<times> bool" where
  "parse_trusted_cidrs lib values =
    (let parsed = map (\<lambda>v. let v = trim_space v in if v = [] then None else nl_parse_cidr lib v) values
     in (List.map_filter id parsed, list_all (\<lambda>p. p \<noteq> None) parsed))"

definition remote_host :: "string \<Rightarrow> string" where
  "remote_host remote = (case split_host_port remote of Inl e \<Rightarrow> remote | Inr (host, port) \<Rightarrow> host)"

definition source_in_networks :: "('ip, 'net) net_lib \<Rightarrow> string \<Rightarrow> 'net list \<Rightarrow> bool" where
  "source_in_networks lib remote networks =
    (if networks = [] then True
     else (case nl_parse_ip lib (remote_host remote) of
         None \<Rightarrow> False
       | Some ip \<Rightarrow> list_ex (\<lambda>n. nl_contains lib n ip) networks))"

subsection \<open>Claims and headers\<close>

definition positive_float :: "rat \<Rightarrow> bool" where
  "positive_float v \<longleftrightarrow> 0 < v \<and> v \<le> 2 ^ 63 \<and> of_int \<lfloor>v\<rfloor> = v"

text \<open>\<open>claimInt64\<close>; a float of 2^63 converts to the least integer, as on amd64.\<close>

definition claim_int64_value :: "claim option \<Rightarrow> int option" where
  "claim_int64_value c =
    (case c of
       Some (ClaimFloat v) \<Rightarrow> if positive_float v then Some (wrap64 \<lfloor>v\<rfloor>) else None
     | Some (ClaimNumber s) \<Rightarrow>
         (case parse_int s of (n, err) \<Rightarrow> if err = None \<and> n > 0 then Some n else None)
     | Some (ClaimInt64 v) \<Rightarrow> if v > 0 then Some v else None
     | Some (ClaimInt v) \<Rightarrow> if v > 0 then Some v else None
     | Some (ClaimString s) \<Rightarrow>
         (case parse_int s of (n, err) \<Rightarrow> if err = None \<and> n > 0 then Some n else None)
     | _ \<Rightarrow> None)"

definition claim_int64 :: "claims \<Rightarrow> string list \<Rightarrow> int" where
  "claim_int64 cl keys =
    (case first_some (map (\<lambda>k. claim_int64_value (cl k)) keys) of Some n \<Rightarrow> n | None \<Rightarrow> 0)"

definition parse_int64_csv :: "string \<Rightarrow> int list" where
  "parse_int64_csv s =
    filter (\<lambda>n. n > 0) (map (\<lambda>p. fst (parse_int (trim_space p))) (split_on (CHR '','') s))"

definition parse_string_csv :: "string \<Rightarrow> string list" where
  "parse_string_csv s = filter (\<lambda>v. v \<noteq> []) (map trim_space (split_on (CHR '','') s))"

fun claim_item :: "claim \<Rightarrow> int option" where
  "claim_item (ClaimFloat n) = (if positive_float n then Some (wrap64 \<lfloor>n\<rfloor>) else None)"
| "claim_item (ClaimNumber s) =
    (case parse_int s of (n, err) \<Rightarrow> if err = None \<and> n > 0 then Some n else None)"
| "claim_item (ClaimString s) = (if fst (parse_int s) > 0 then Some (fst (parse_int s)) else None)"
| "claim_item c = None"

definition claim_int64_slice :: "claims \<Rightarrow> string list \<Rightarrow> int list" where
  "claim_int64_slice cl keys =
    (case first_some (map (\<lambda>k.
        (case cl k of
           Some (ClaimList items) \<Rightarrow> Some (List.map_filter claim_item items)
         | Some (ClaimInt64s ns) \<Rightarrow> Some (filter (\<lambda>n. n > 0) ns)
         | Some (ClaimString s) \<Rightarrow> Some (parse_int64_csv s)
         | _ \<Rightarrow> None)) keys) of
       Some ns \<Rightarrow> ns | None \<Rightarrow> [])"

definition claim_string_slice :: "claims \<Rightarrow> string list \<Rightarrow> string list" where
  "claim_string_slice cl keys =
    (case first_some (map (\<lambda>k.
        (case cl k of
           Some (ClaimList items) \<Rightarrow> Some (List.map_filter (\<lambda>c. case c of
             ClaimString s \<Rightarrow> if s \<noteq> [] then Some s else None | _ \<Rightarrow> None) items)
         | Some (ClaimStrings ss) \<Rightarrow> Some ss
         | Some (ClaimString s) \<Rightarrow> Some (parse_string_csv s)
         | _ \<Rightarrow> None)) keys) of
       Some ss \<Rightarrow> ss | None \<Rightarrow> [])"

definition set_trusted_header_context ::
  "jwt_mid_config \<Rightarrow> http_header \<Rightarrow> identity \<Rightarrow> identity" where
  "set_trusted_header_context cfg header i =
    (let tenant = fst (parse_int (header (jm_header_tenant cfg)));
         workspace = fst (parse_int (header (jm_header_workspace cfg)));
         shops = parse_int64_csv (header (jm_header_shops cfg));
         scopes = parse_string_csv (header (jm_header_scopes cfg));
         i = (if jm_header_tenant cfg \<noteq> [] \<and> tenant > 0 then i\<lparr>id_tenant := Some tenant\<rparr> else i);
         i = (if jm_header_workspace cfg \<noteq> [] \<and> workspace > 0
              then i\<lparr>id_workspace := Some workspace\<rparr> else i);
         i = (if jm_header_shops cfg \<noteq> [] \<and> shops \<noteq> [] then i\<lparr>id_shops := Some shops\<rparr> else i);
         i = (if jm_header_scopes cfg \<noteq> [] \<and> scopes \<noteq> [] then i\<lparr>id_scopes := Some scopes\<rparr> else i)
     in i)"

definition set_optional_claim_context :: "claims \<Rightarrow> identity \<Rightarrow> identity" where
  "set_optional_claim_context cl i =
    (let tenant = claim_int64 cl [''tenant_id'', ''tid''];
         workspace = claim_int64 cl [''workspace_id'', ''wid''];
         shops = claim_int64_slice cl [''shop_ids'', ''sids''];
         scopes = claim_string_slice cl [''scopes'', ''scope''];
         i = (if tenant > 0 then i\<lparr>id_tenant := Some tenant\<rparr> else i);
         i = (if workspace > 0 then i\<lparr>id_workspace := Some workspace\<rparr> else i);
         i = (if shops \<noteq> [] then i\<lparr>id_shops := Some shops\<rparr> else i);
         i = (if scopes \<noteq> [] then i\<lparr>id_scopes := Some scopes\<rparr> else i)
     in i)"

definition attach_identity_metadata :: "identity \<Rightarrow> meta_ctx \<Rightarrow> meta_ctx" where
  "attach_identity_metadata i ctx =
    (let v = mx_values ctx;
         v = (case id_uid i of Some n \<Rightarrow> if n > 0 then v\<lparr>mv_user := n\<rparr> else v | None \<Rightarrow> v);
         v = (case id_tenant i of Some n \<Rightarrow> if n > 0 then v\<lparr>mv_tenant := n\<rparr> else v | None \<Rightarrow> v);
         v = (case id_workspace i of Some n \<Rightarrow> if n > 0 then v\<lparr>mv_workspace := n\<rparr> else v | None \<Rightarrow> v);
         v = (case id_shops i of Some ns \<Rightarrow> v\<lparr>mv_shops := ns\<rparr> | None \<Rightarrow> v);
         v = (case id_scopes i of Some ss \<Rightarrow> v\<lparr>mv_scopes := ss\<rparr> | None \<Rightarrow> v)
     in with_meta ctx v)"

subsection \<open>The middleware\<close>

datatype 'd auth_result = AuthRejected "'d reply" | AuthNext identity meta_ctx

definition auth_reject :: "int \<Rightarrow> string \<Rightarrow> 'd auth_result" where
  "auth_reject code msg = AuthRejected (fail_status 401 code msg)"

definition jwt_parse_options :: "jwt_mid_config \<Rightarrow> jwt_options" where
  "jwt_parse_options cfg =
    \<lparr>jo_issuer = (if jm_issuer cfg \<noteq> [] then Some (jm_issuer cfg) else None),
     jo_subject = (if jm_subject cfg \<noteq> [] then Some (jm_subject cfg) else None),
     jo_audience = jm_audience cfg\<rparr>"

definition header_identity ::
  "('ip, 'net) net_lib \<Rightarrow> jwt_mid_config \<Rightarrow> auth_request \<Rightarrow> identity option" where
  "header_identity lib cfg req =
    (let (networks, valid) = parse_trusted_cidrs lib (jm_trusted_cidrs cfg);
         text = ar_header req (jm_header_uid cfg);
         uid = fst (parse_int text)
     in if jm_header_uid cfg \<noteq> [] \<and> jm_trust_header cfg \<and> valid \<and>
           source_in_networks lib (ar_remote req) networks \<and> text \<noteq> [] \<and> uid > 0
        then Some (set_trusted_header_context cfg (ar_header req) (no_identity\<lparr>id_uid := Some uid\<rparr>))
        else None)"

definition claims_identity :: "claims \<Rightarrow> identity option" where
  "claims_identity cl =
    (let uid = claim_int64 cl [''uid'']; rid = claim_int64 cl [''rid''] in
     if uid > 0 then
       (let i = no_identity\<lparr>id_uid := Some uid\<rparr>;
            i = (if rid > 0 \<and> rid \<le> max_int64 then i\<lparr>id_role := Some rid\<rparr> else i);
            i = (case cl ''nick'' of Some (ClaimString s) \<Rightarrow> i\<lparr>id_nickname := Some s\<rparr> | _ \<Rightarrow> i);
            i = (case cl ''mob'' of Some (ClaimString s) \<Rightarrow> i\<lparr>id_phone := Some s\<rparr> | _ \<Rightarrow> i)
        in Some (set_optional_claim_context cl i))
     else None)"

definition bearer_parts :: "jwt_mid_config \<Rightarrow> auth_request \<Rightarrow> string list" where
  "bearer_parts cfg req =
    (let auth = ar_header req ''Authorization'';
         auth = (if auth = [] \<and> jm_allow_query_token cfg \<and>
                   equal_fold (ar_header req ''Upgrade'') ''websocket''
                 then ''Bearer '' @ ar_query_token req else auth)
     in Go_Strings.fields auth)"

definition jwt_middleware ::
  "('ip, 'net) net_lib \<Rightarrow> jwt_parse \<Rightarrow> jwt_mid_config \<Rightarrow> auth_request \<Rightarrow> 'd auth_result" where
  "jwt_middleware lib parse cfg req =
    (case header_identity lib cfg req of
       Some i \<Rightarrow> AuthNext i (attach_identity_metadata i (ar_ctx req))
     | None \<Rightarrow>
        (case bearer_parts cfg req of
           [scheme, token] \<Rightarrow>
             if \<not> equal_fold scheme ''Bearer'' then auth_reject code_unauthorized msg_not_logged_in
             else if jm_secret cfg = [] then auth_reject code_token_invalid msg_token_invalid
             else (case parse (jwt_parse_options cfg) (jm_secret cfg) token of
                 None \<Rightarrow> auth_reject code_token_invalid msg_token_invalid
               | Some cl \<Rightarrow>
                  (case claims_identity cl of
                     None \<Rightarrow> auth_reject code_token_invalid msg_token_invalid
                   | Some i \<Rightarrow> AuthNext i (attach_identity_metadata i (ar_ctx req))))
         | _ \<Rightarrow> auth_reject code_unauthorized msg_not_logged_in))"

text \<open>What handlers read back: an absent key gives the zero value, an empty text likewise.\<close>

definition get_uid :: "identity \<Rightarrow> int" where
  "get_uid i = (case id_uid i of Some n \<Rightarrow> n | None \<Rightarrow> 0)"

definition get_nickname :: "identity \<Rightarrow> string" where
  "get_nickname i = (case id_nickname i of Some s \<Rightarrow> if s \<noteq> [] then s else [] | None \<Rightarrow> [])"

definition get_role_id :: "identity \<Rightarrow> int" where
  "get_role_id i = (case id_role i of Some n \<Rightarrow> if n \<noteq> 0 then n else 0 | None \<Rightarrow> 0)"

definition get_phone :: "identity \<Rightarrow> string" where
  "get_phone i = (case id_phone i of Some s \<Rightarrow> if s \<noteq> [] then s else [] | None \<Rightarrow> [])"

definition get_tenant_id :: "identity \<Rightarrow> int" where
  "get_tenant_id i = (case id_tenant i of Some n \<Rightarrow> n | None \<Rightarrow> 0)"

definition get_workspace_id :: "identity \<Rightarrow> int" where
  "get_workspace_id i = (case id_workspace i of Some n \<Rightarrow> n | None \<Rightarrow> 0)"

definition get_shop_ids :: "identity \<Rightarrow> int list" where
  "get_shop_ids i = (case id_shops i of Some ns \<Rightarrow> ns | None \<Rightarrow> [])"

definition get_scopes :: "identity \<Rightarrow> string list" where
  "get_scopes i = (case id_scopes i of Some ss \<Rightarrow> ss | None \<Rightarrow> [])"

subsection \<open>What can get in\<close>

lemma context_keeps_uid [simp]:
  "id_uid (set_trusted_header_context cfg h i) = id_uid i"
  "id_uid (set_optional_claim_context cl i) = id_uid i"
  by (simp_all add: set_trusted_header_context_def set_optional_claim_context_def Let_def)

lemma header_identity_uid: "header_identity lib cfg req = Some i \<Longrightarrow> \<exists>n. id_uid i = Some n \<and> 0 < n"
  by (auto simp: header_identity_def Let_def split: if_splits prod.splits)

lemma claims_identity_uid:
  assumes "claims_identity cl = Some i"
  shows "\<exists>n. id_uid i = Some n \<and> 0 < n \<and> claim_int64 cl [''uid''] = n"
proof -
  have text_claims: "id_uid (case c of Some (ClaimString s) \<Rightarrow> f s | _ \<Rightarrow> j) = id_uid j"
    if "\<And>s. id_uid (f s) = id_uid j" for c f and j :: identity
    using that by (simp split: option.split claim.split)
  show ?thesis
    using assms by (auto simp: claims_identity_def Let_def text_claims split: if_splits)
qed

lemma attach_user:
  "id_uid i = Some n \<Longrightarrow> 0 < n \<Longrightarrow> mv_user (mx_values (attach_identity_metadata i ctx)) = n"
  by (auto simp: attach_identity_metadata_def with_meta_def Let_def split: option.splits)

text \<open>The two ways a handler can learn who calls, the keys of the request and its metadata, agree.\<close>

lemma getters_match_metadata:
  assumes "0 \<le> get_uid i" and "0 \<le> get_tenant_id i" and "0 \<le> get_workspace_id i"
    and "mx_values ctx = no_values"
  shows "mv_user (mx_values (attach_identity_metadata i ctx)) = get_uid i"
    "mv_tenant (mx_values (attach_identity_metadata i ctx)) = get_tenant_id i"
    "mv_workspace (mx_values (attach_identity_metadata i ctx)) = get_workspace_id i"
    "mv_shops (mx_values (attach_identity_metadata i ctx)) = get_shop_ids i"
    "mv_scopes (mx_values (attach_identity_metadata i ctx)) = get_scopes i"
  using assms
  by (auto simp: attach_identity_metadata_def with_meta_def Let_def get_uid_def get_tenant_id_def
      get_workspace_id_def get_shop_ids_def get_scopes_def no_values_def split: option.splits)

lemma jwt_rejects_401: "jwt_middleware lib parse cfg req = AuthRejected r \<Longrightarrow> rep_status r = 401"
  by (auto simp: jwt_middleware_def auth_reject_def fail_status_def
    split: option.splits list.splits if_splits)

lemma jwt_next_uid:
  assumes "jwt_middleware lib parse cfg req = AuthNext i ctx"
  shows "0 < get_uid i"
proof -
  have "header_identity lib cfg req = Some i \<or> (\<exists>cl. claims_identity cl = Some i)"
    using assms by (auto simp: jwt_middleware_def auth_reject_def split: option.splits list.splits if_splits)
  then show ?thesis
    using header_identity_uid claims_identity_uid by (fastforce simp: get_uid_def)
qed

text \<open>
  C5. Only verified identities reach a handler: the middleware continues the chain only with
  a positive user identifier, the same in the request metadata, and only in two ways. Either
  the gateway headers are trusted (enabled, with a valid allowlist that contains the peer,
  or is empty), or the request carries a bearer token that verifies under a non-empty secret
  with the configured issuer, subject and audience and names that user. Every refusal is a
  401 without data.
\<close>

theorem jwt_admits_verified_only:
  "(case jwt_middleware lib parse cfg req of
      AuthRejected r \<Rightarrow> rep_status r = 401 \<and> env_data (rep_body r) = None
    | AuthNext i ctx \<Rightarrow>
       (\<exists>n. id_uid i = Some n \<and> 0 < n \<and> mv_user (mx_values ctx) = n) \<and>
       ((jm_trust_header cfg \<and> jm_header_uid cfg \<noteq> [] \<and> snd (parse_trusted_cidrs lib (jm_trusted_cidrs cfg)) \<and>
          source_in_networks lib (ar_remote req) (fst (parse_trusted_cidrs lib (jm_trusted_cidrs cfg))))
        \<or> (jm_secret cfg \<noteq> [] \<and> (\<exists>scheme token cl. bearer_parts cfg req = [scheme, token] \<and>
             equal_fold scheme ''Bearer'' \<and>
             parse (jwt_parse_options cfg) (jm_secret cfg) token = Some cl \<and>
             Some (claim_int64 cl [''uid'']) = id_uid i))))"
proof (cases "header_identity lib cfg req")
  case (Some i)
  then have "jm_trust_header cfg \<and> jm_header_uid cfg \<noteq> [] \<and>
      snd (parse_trusted_cidrs lib (jm_trusted_cidrs cfg)) \<and>
      source_in_networks lib (ar_remote req) (fst (parse_trusted_cidrs lib (jm_trusted_cidrs cfg)))"
    by (auto simp: header_identity_def Let_def split: if_splits prod.splits)
  then show ?thesis
    using Some header_identity_uid [OF Some] attach_user by (auto simp: jwt_middleware_def)
next
  case None
  have token: ?thesis
    if "bearer_parts cfg req = [scheme, token]" for scheme token
  proof (cases "parse (jwt_parse_options cfg) (jm_secret cfg) token")
    case Some: (Some cl)
    show ?thesis
    proof (cases "claims_identity cl")
      case (Some i)
      then show ?thesis
        using that None \<open>parse _ _ token = Some cl\<close> claims_identity_uid [OF Some] attach_user
        by (auto simp: jwt_middleware_def auth_reject_def fail_status_def)
    qed (use that None Some in \<open>simp add: jwt_middleware_def auth_reject_def fail_status_def\<close>)
  qed (use that None in \<open>simp add: jwt_middleware_def auth_reject_def fail_status_def\<close>)
  show ?thesis
  proof (cases "\<exists>scheme token. bearer_parts cfg req = [scheme, token]")
    case True
    then show ?thesis using token by blast
  next
    case False
    then show ?thesis
      using None by (auto simp: jwt_middleware_def auth_reject_def fail_status_def split: list.splits)
  qed
qed

text \<open>
  Identity headers cannot be spoofed: unless header trust is enabled and the peer is
  allowed, the outcome does not depend on any header but \<open>Authorization\<close> and \<open>Upgrade\<close>, so
  no value a client puts into the identity headers changes the identity it gets.
\<close>

theorem identity_headers_ignored:
  assumes "\<not> jm_trust_header cfg \<or> \<not> snd (parse_trusted_cidrs lib (jm_trusted_cidrs cfg)) \<or>
      \<not> source_in_networks lib (ar_remote req) (fst (parse_trusted_cidrs lib (jm_trusted_cidrs cfg)))"
    and "h ''Authorization'' = ar_header req ''Authorization''" and "h ''Upgrade'' = ar_header req ''Upgrade''"
  shows "jwt_middleware lib parse cfg (req\<lparr>ar_header := h\<rparr>) = jwt_middleware lib parse cfg req"
proof -
  have none: "header_identity lib cfg r = None" if "ar_remote r = ar_remote req" for r
    using assms(1) that by (auto simp: header_identity_def Let_def split: prod.splits)
  have "header_identity lib cfg (req\<lparr>ar_header := h\<rparr>) = None" "header_identity lib cfg req = None"
      "ar_ctx (req\<lparr>ar_header := h\<rparr>) = ar_ctx req"
    by (simp_all add: none)
  moreover have "bearer_parts cfg (req\<lparr>ar_header := h\<rparr>) = bearer_parts cfg req"
    using assms(2,3) by (simp add: bearer_parts_def Let_def)
  ultimately show ?thesis by (simp only: jwt_middleware_def option.case)
qed

definition demo_jwt_config :: "bool \<Rightarrow> jwt_mid_config" where
  "demo_jwt_config trust =
    \<lparr>jm_secret = ''k'', jm_issuer = [], jm_subject = [], jm_audience = [], jm_trusted_cidrs = [],
     jm_allow_query_token = False, jm_header_uid = ''X-User-Id'', jm_header_tenant = ''X-Tenant-Id'',
     jm_header_workspace = ''X-Workspace-Id'', jm_header_shops = ''X-Shop-Ids'',
     jm_header_scopes = ''X-Scopes'', jm_trust_header = trust\<rparr>"

definition demo_auth_request :: "http_header \<Rightarrow> auth_request" where
  "demo_auth_request h = \<lparr>ar_header = h, ar_remote = ''10.0.0.9:1'', ar_query_token = [], ar_ctx = empty_ctx\<rparr>"

theorem identity_headers_ignored_witness:
  "jwt_middleware demo_net (\<lambda>op s t. None) (demo_jwt_config False)
     ((demo_auth_request (\<lambda>h. []))\<lparr>ar_header := (\<lambda>h. [])(''X-User-Id'' := ''7'')\<rparr>) =
   jwt_middleware demo_net (\<lambda>op s t. None) (demo_jwt_config False) (demo_auth_request (\<lambda>h. []))"
  by (rule identity_headers_ignored) (simp_all add: demo_jwt_config_def demo_auth_request_def)

text \<open>
  The header path ignores the error of \<open>ParseInt\<close>: a trusted user header whose number is
  too large for an \<open>int64\<close> is not refused but admitted as the user 2^63 - 1, so all such
  headers become one identity.
\<close>

theorem oversized_header_uid_admitted:
  assumes "jm_trust_header cfg" and "jm_header_uid cfg \<noteq> []"
    and "parse_trusted_cidrs lib (jm_trusted_cidrs cfg) = (networks, True)"
    and "source_in_networks lib (ar_remote req) networks"
    and "ar_header req (jm_header_uid cfg) = nat_digits n" and "max_int64 < int n" and "n < 2 ^ 64"
  shows "\<exists>i ctx. jwt_middleware lib parse cfg req = AuthNext i ctx \<and> id_uid i = Some max_int64"
proof -
  have "parse_int (nat_digits n) = (max_int64, Some NumRange)"
  proof -
    obtain c cs where digits: "nat_digits n = c # cs" by (cases "nat_digits n") auto
    then have "is_digit c" using nat_digits_digits [of c n] by simp
    then have "c \<noteq> CHR ''-''" "c \<noteq> CHR ''+''" using is_digit_not_sign by blast+
    moreover have "parse_digits 0 (nat_digits n) = (n, None)"
      using assms(7) by (intro parse_digits_nat_digits) simp
    ultimately show ?thesis
      using assms(6) digits
      by (auto simp: parse_int_def parse_uint_def signed_range_def max_int64_def)
  qed
  then have "fst (parse_int (ar_header req (jm_header_uid cfg))) = max_int64" using assms(5) by simp
  then obtain i where "header_identity lib cfg req = Some i" "id_uid i = Some max_int64"
    using assms(1-5)
    by (auto simp: header_identity_def Let_def max_int64_def set_trusted_header_context_def)
  then show ?thesis by (simp add: jwt_middleware_def)
qed

theorem oversized_header_uid_admitted_witness:
  "\<exists>i ctx. jwt_middleware demo_net (\<lambda>op s t. None) (demo_jwt_config True)
     (demo_auth_request ((\<lambda>h. [])(''X-User-Id'' := nat_digits 9999999999999999999))) = AuthNext i ctx \<and>
     id_uid i = Some max_int64"
  by (rule oversized_header_uid_admitted [where n = 9999999999999999999 and networks = "[]"])
    (simp_all add: demo_jwt_config_def demo_auth_request_def parse_trusted_cidrs_def
      source_in_networks_def max_int64_def List.map_filter_def del: nat_digits.simps)

subsection \<open>From one service to the next\<close>

lemma trim_digits: "trim_space (format_int n) = format_int n" if "0 < n"
proof -
  have "\<forall>c\<in>set (format_int n). is_digit c"
    using that nat_digits_digits by (auto simp: format_int_def)
  moreover have "backend_char c" if "is_digit c" for c
    using that by (simp add: backend_char_def)
  ultimately show ?thesis
    using backend_char_plain(4) by (intro trim_space_trimmed trimmed_if_no_space_bytes) blast
qed

lemma parse_join_int64:
  assumes "ns \<noteq> []" and "\<forall>n\<in>set ns. 0 < n \<and> n \<le> max_int64"
  shows "parse_int64_csv (join_int64 ns) = ns"
proof -
  have keep: "filter (\<lambda>v. v > 0) ns = ns" using assms(2) by (simp add: filter_id_conv)
  have "split_on (CHR '','') (join_int64 ns) = map format_int ns"
    using assms(1) format_int_no_comma by (simp add: join_int64_def keep split_on_join)
  moreover have "fst (parse_int (trim_space (format_int n))) = n" if "n \<in> set ns" for n
    using assms(2) that parse_int_format_int [of n] trim_digits [of n]
    by (auto simp: min_int64_def)
  ultimately show ?thesis
    using keep by (simp add: parse_int64_csv_def comp_def cong: map_cong)
qed

lemma parse_join_scopes:
  assumes "ss \<noteq> []" and "\<forall>s\<in>set ss. scope_ok s \<and> trimmed s"
  shows "parse_string_csv (join_scopes ss) = ss"
proof -
  have trims: "map trim_space ss = ss" using assms(2) by (simp add: map_idI trim_space_trimmed)
  have keep: "filter scope_ok ss = ss" using assms(2) by (simp add: filter_id_conv)
  have "\<forall>s\<in>set ss. CHR '','' \<notin> set s"
    using assms(2) by (auto simp: scope_ok_def contains_any_iff)
  then have "split_on (CHR '','') (join_scopes ss) = ss"
    using assms(1) by (simp add: join_scopes_def trims keep split_on_join)
  moreover have "filter (\<lambda>v. v \<noteq> []) ss = ss"
    using assms(2) by (auto simp: filter_id_conv scope_ok_def)
  ultimately show ?thesis by (simp add: parse_string_csv_def trims)
qed

lemma format_int_nonempty: "format_int n \<noteq> []"
  by (simp add: format_int_def)

definition identity_ok :: "meta_values \<Rightarrow> bool" where
  "identity_ok v \<longleftrightarrow>
    0 < mv_user v \<and> mv_user v \<le> max_int64 \<and> 0 \<le> mv_tenant v \<and> mv_tenant v \<le> max_int64 \<and>
    0 \<le> mv_workspace v \<and> mv_workspace v \<le> max_int64 \<and>
    (\<forall>n\<in>set (mv_shops v). 0 < n \<and> n \<le> max_int64) \<and> (\<forall>s\<in>set (mv_scopes v). scope_ok s \<and> trimmed s)"

text \<open>The header names of \<open>InjectIdentityHTTP\<close>, configured for a trusted gateway.\<close>

definition gateway_headers :: "jwt_mid_config \<Rightarrow> bool" where
  "gateway_headers cfg \<longleftrightarrow>
    jm_trust_header cfg \<and> jm_header_uid cfg = ''X-User-Id'' \<and> jm_header_tenant cfg = ''X-Tenant-Id'' \<and>
    jm_header_workspace cfg = ''X-Workspace-Id'' \<and> jm_header_shops cfg = ''X-Shop-Ids'' \<and>
    jm_header_scopes cfg = ''X-Scopes''"

lemma parse_csv_empty: "parse_int64_csv [] = []" "parse_string_csv [] = []"
  by (simp_all add: parse_int64_csv_def parse_string_csv_def parse_int_def)

lemma injected_headers:
  "inject_identity_http ctx (\<lambda>_. []) ''X-User-Id'' =
    (if 0 < mv_user (mx_values ctx) then format_int (mv_user (mx_values ctx)) else [])"
  "inject_identity_http ctx (\<lambda>_. []) ''X-Tenant-Id'' =
    (if 0 < mv_tenant (mx_values ctx) then format_int (mv_tenant (mx_values ctx)) else [])"
  "inject_identity_http ctx (\<lambda>_. []) ''X-Workspace-Id'' =
    (if 0 < mv_workspace (mx_values ctx) then format_int (mv_workspace (mx_values ctx)) else [])"
  "inject_identity_http ctx (\<lambda>_. []) ''X-Shop-Ids'' =
    (if mv_shops (mx_values ctx) \<noteq> [] then join_int64 (mv_shops (mx_values ctx)) else [])"
  "inject_identity_http ctx (\<lambda>_. []) ''X-Scopes'' =
    (if mv_scopes (mx_values ctx) \<noteq> [] then join_scopes (mv_scopes (mx_values ctx)) else [])"
  by (simp_all add: inject_identity_http_def Let_def set_if_def)

lemma parse_positive:
  "0 < n \<Longrightarrow> n \<le> max_int64 \<Longrightarrow> fst (parse_int (format_int n)) = n"
  using parse_int_format_int [of n] by (simp add: min_int64_def)

text \<open>
  Identity survives the trip to a trusted service: the headers that \<open>InjectIdentityHTTP\<close>
  writes for an authenticated request are read back by the trusted-header path of the JWT
  middleware as the same user, tenant, workspace, shops and scopes, in the same order.
\<close>

theorem identity_header_roundtrip:
  assumes "identity_ok (mx_values ctx)" and "gateway_headers cfg"
    and "parse_trusted_cidrs lib (jm_trusted_cidrs cfg) = (networks, True)"
    and "source_in_networks lib (ar_remote req) networks"
    and "ar_header req = inject_identity_http ctx (\<lambda>_. [])" and "ar_ctx req = empty_ctx"
  shows "\<exists>i ctx'. jwt_middleware lib parse cfg req = AuthNext i ctx' \<and>
    mx_values ctx' = (mx_values ctx)\<lparr>mv_trace := []\<rparr>"
proof -
  let ?v = "mx_values ctx"
  note H = injected_headers [of ctx]
  have nums: "0 < mv_user ?v" "fst (parse_int (format_int (mv_user ?v))) = mv_user ?v"
      "0 < mv_tenant ?v \<Longrightarrow> fst (parse_int (format_int (mv_tenant ?v))) = mv_tenant ?v"
      "0 < mv_workspace ?v \<Longrightarrow> fst (parse_int (format_int (mv_workspace ?v))) = mv_workspace ?v"
      "0 \<le> mv_tenant ?v" "0 \<le> mv_workspace ?v"
    using assms(1) parse_positive by (auto simp: identity_ok_def)
  have lists: "mv_shops ?v \<noteq> [] \<Longrightarrow> parse_int64_csv (join_int64 (mv_shops ?v)) = mv_shops ?v"
      "mv_scopes ?v \<noteq> [] \<Longrightarrow> parse_string_csv (join_scopes (mv_scopes ?v)) = mv_scopes ?v"
    using assms(1) parse_join_int64 parse_join_scopes by (auto simp: identity_ok_def)
  have zero: "fst (parse_int []) = 0" by (simp add: parse_int_def)
  let ?i = "\<lparr>id_uid = Some (mv_user ?v),
      id_tenant = (if 0 < mv_tenant ?v then Some (mv_tenant ?v) else None),
      id_workspace = (if 0 < mv_workspace ?v then Some (mv_workspace ?v) else None),
      id_shops = (if mv_shops ?v \<noteq> [] then Some (mv_shops ?v) else None),
      id_scopes = (if mv_scopes ?v \<noteq> [] then Some (mv_scopes ?v) else None),
      id_role = None, id_nickname = None, id_phone = None\<rparr>"
  have "set_trusted_header_context cfg (ar_header req) (no_identity\<lparr>id_uid := Some (mv_user ?v)\<rparr>) = ?i"
    using assms(2) nums lists
    by (simp add: set_trusted_header_context_def gateway_headers_def assms(5) H zero
        parse_csv_empty no_identity_def Let_def)
  then have "header_identity lib cfg req = Some ?i"
    using assms(2-4) nums
    by (simp add: header_identity_def gateway_headers_def assms(5) H format_int_nonempty)
  moreover have "mx_values (attach_identity_metadata ?i empty_ctx) = ?v\<lparr>mv_trace := []\<rparr>"
    using nums
    by (cases ?v) (simp add: attach_identity_metadata_def with_meta_def empty_ctx_def no_values_def
        normalize_trace_def Let_def)
  ultimately show ?thesis
    using assms(6) by (simp add: jwt_middleware_def)
qed

definition demo_identity :: meta_ctx where
  "demo_identity = \<lparr>mx_values = \<lparr>mv_trace = [], mv_user = 7, mv_tenant = 0, mv_workspace = 3,
    mv_shops = [12, 5], mv_scopes = []\<rparr>, mx_log_trace = []\<rparr>"

theorem identity_header_roundtrip_witness:
  "\<exists>i ctx'. jwt_middleware demo_net (\<lambda>op s t. None) (demo_jwt_config True)
     (demo_auth_request (inject_identity_http demo_identity (\<lambda>_. []))) = AuthNext i ctx' \<and>
     mx_values ctx' = (mx_values demo_identity)\<lparr>mv_trace := []\<rparr>"
  by (rule identity_header_roundtrip [where networks = "[]"])
    (simp_all add: demo_identity_def identity_ok_def max_int64_def gateway_headers_def
      demo_jwt_config_def demo_auth_request_def parse_trusted_cidrs_def source_in_networks_def
      List.map_filter_def)

end
