(* ===== verification/Rate_Limit.thy ===== *)
theory Rate_Limit
  imports App_Errors "HOL-Library.AList"
begin

unbundle bit_operations_syntax

text \<open>
  The rate limiters: the in-memory limiter of \<open>mid/ratelimit.go\<close>, the middleware chain of
  \<open>mid/default.go\<close> and the Redis limiter of \<open>contrib/mid/ratelimit/redis/redis.go\<close>. A shard's
  Go map is an association list without duplicate keys (\<open>AList\<close>); a request is its
  client address and the clock reading the middleware takes under the shard's lock. The
  lock makes one request one step, and the readings within a shard do not decrease.
\<close>

subsection \<open>The in-memory limiter\<close>

record rate_entry =
  re_count :: int
  re_reset :: instant

type_synonym rate_shard = "(string \<times> rate_entry) list"

definition rate_limiter_shard_count :: nat where
  "rate_limiter_shard_count = 64"

record rate_limiter =
  rl_max :: int
  rl_window :: duration
  rl_max_clients :: int
  rl_shards :: "rate_shard list"

definition new_rate_limiter :: "int \<Rightarrow> duration \<Rightarrow> rate_limiter" where
  "new_rate_limiter mx window =
    \<lparr>rl_max = default_pos mx 1, rl_window = default_pos window second,
     rl_max_clients = 100000, rl_shards = replicate rate_limiter_shard_count []\<rparr>"

definition fnv_step :: "32 word \<Rightarrow> char \<Rightarrow> 32 word" where
  "fnv_step hash c = (hash XOR of_nat (of_char c)) * 16777619"

definition rate_limiter_shard_index :: "string \<Rightarrow> nat" where
  "rate_limiter_shard_index key = unat (foldl fnv_step 2166136261 key AND 63)"

definition drop_expired :: "instant \<Rightarrow> rate_shard \<Rightarrow> rate_shard" where
  "drop_expired now = filter (\<lambda>(key, e). \<not> time_after now (re_reset e))"

definition shard_limit :: "rate_limiter \<Rightarrow> int" where
  "shard_limit l = rl_max_clients l div int rate_limiter_shard_count + 1"

definition shard_full :: "rate_limiter \<Rightarrow> rate_shard \<Rightarrow> bool" where
  "shard_full l shard \<longleftrightarrow> int (length shard) \<ge> shard_limit l"

datatype rate_verdict = RateNext | RateOver | RateTooManyClients

definition shard_request ::
  "rate_limiter \<Rightarrow> instant \<Rightarrow> string \<Rightarrow> rate_shard \<Rightarrow> rate_verdict \<times> rate_shard" where
  "shard_request l now ip shard =
    (let found = map_of shard ip;
         stale = (case found of None \<Rightarrow> True | Some e \<Rightarrow> time_after now (re_reset e));
         shard = (if found = None \<and> rl_max_clients l > 0 \<and> shard_full l shard
                  then drop_expired now shard else shard)
     in if found = None \<and> rl_max_clients l > 0 \<and> shard_full l shard
        then (RateTooManyClients, shard)
        else
          (let e = (if stale then \<lparr>re_count = 0, re_reset = now + rl_window l\<rparr> else the found);
               e = e\<lparr>re_count := re_count e + 1\<rparr>;
               shard = AList.update ip e shard
           in (if re_count e > rl_max l then RateOver else RateNext, shard)))"

definition rate_reply :: "rate_verdict \<Rightarrow> 'd reply option" where
  "rate_reply v =
    (case v of
       RateNext \<Rightarrow> None
     | RateOver \<Rightarrow> Some (fail_status 429 42901 msg_too_many)
     | RateTooManyClients \<Rightarrow> Some (fail_status 429 42902 msg_too_many_clients))"

definition rate_middleware ::
  "instant \<Rightarrow> string \<Rightarrow> rate_limiter \<Rightarrow> rate_verdict \<times> rate_limiter" where
  "rate_middleware now ip l =
    (let i = rate_limiter_shard_index ip;
         (v, shard) = shard_request l now ip (rl_shards l ! i)
     in (v, l\<lparr>rl_shards := (rl_shards l)[i := shard]\<rparr>))"

definition cleanup_expired :: "instant \<Rightarrow> rate_limiter \<Rightarrow> rate_limiter" where
  "cleanup_expired now l = l\<lparr>rl_shards := map (drop_expired now) (rl_shards l)\<rparr>"

definition cleanup_interval :: "rate_limiter \<Rightarrow> duration" where
  "cleanup_interval l = (if rl_window l < 30 * second then 30 * second else rl_window l)"

text \<open>
  A run of the limiter: what it answers to a sequence of requests, with the background
  cleanup taking its turns between them.
\<close>

datatype rate_event = RateRequest instant string | RateCleanup instant

primrec event_time :: "rate_event \<Rightarrow> instant" where
  "event_time (RateRequest now ip) = now"
| "event_time (RateCleanup now) = now"

fun rate_run :: "rate_event list \<Rightarrow> rate_limiter \<Rightarrow> (instant \<times> string \<times> rate_verdict) list" where
  "rate_run [] l = []"
| "rate_run (RateRequest now ip # es) l =
    (let (v, l') = rate_middleware now ip l in (now, ip, v) # rate_run es l')"
| "rate_run (RateCleanup now # es) l = rate_run es (cleanup_expired now l)"

definition rate_next :: "rate_event \<Rightarrow> rate_limiter \<Rightarrow> rate_limiter" where
  "rate_next ev l =
    (case ev of RateRequest now ip \<Rightarrow> snd (rate_middleware now ip l)
     | RateCleanup now \<Rightarrow> cleanup_expired now l)"

inductive rate_step :: "rate_limiter \<Rightarrow> rate_limiter \<Rightarrow> bool" where
  step_request: "rate_step l (rate_next (RateRequest now ip) l)"
| step_cleanup: "rate_step l (rate_next (RateCleanup now) l)"

inductive_cases rate_stepE: "rate_step l l'"

subsection \<open>The middleware chain\<close>

record access_limit_cfg =
  al_enable :: bool
  al_total :: int
  al_duration :: int
  al_backend :: string
  al_key_prefix :: string

datatype limiter_middleware = MemoryLimiter rate_limiter | RefusingLimiter

definition rate_limit_from_config :: "access_limit_cfg \<Rightarrow> limiter_middleware" where
  "rate_limit_from_config cfg =
    (let total = default_pos (al_total cfg) 300;
         dur = default_pos (al_duration cfg) 5;
         window = wrap64 (dur * second);
         backend = to_lower (trim_space (al_backend cfg))
     in if backend = [] \<or> backend = ''memory'' then MemoryLimiter (new_rate_limiter total window)
        else if backend = ''redis'' then MemoryLimiter (new_rate_limiter total window)
        else RefusingLimiter)"

definition refusing_reply :: "'d reply" where
  "refusing_reply = fail_status 503 50002 msg_limiter_config"

datatype 'cors mid_entry =
  MidTrace | MidRecovery | MidErrorHandler | MidLogger | MidCORS 'cors
| MidRateLimit limiter_middleware

definition mid_default :: "(bool \<times> 'cors) \<Rightarrow> access_limit_cfg \<Rightarrow> 'cors mid_entry list" where
  "mid_default cors access =
    [MidTrace, MidRecovery, MidErrorHandler, MidLogger]
    @ (if fst cors then [MidCORS (snd cors)] else [])
    @ (if al_enable access then [MidRateLimit (rate_limit_from_config access)] else [])"

subsection \<open>The Redis limiter\<close>

text \<open>
  The Redis server is a parameter: \<open>incr\<close> and \<open>pexpire\<close> are the two commands the script
  runs atomically on a server state, and a run of the script can fail with any effect. \<open>sha256_hex\<close> is the
  hexadecimal digest the key function uses for long values.
\<close>

record 'r redis_api =
  ra_incr :: "string \<Rightarrow> 'r \<Rightarrow> int \<times> 'r"
  ra_pexpire :: "string \<Rightarrow> int \<Rightarrow> 'r \<Rightarrow> 'r"
  ra_fails :: "'r \<Rightarrow> (goerr \<times> 'r) option"

record redis_rate_limiter =
  rr_max :: int
  rr_window :: duration
  rr_key_prefix :: string

definition bounded_key :: "(string \<Rightarrow> string) \<Rightarrow> string \<Rightarrow> string" where
  "bounded_key sha256_hex v = (if length v \<le> 256 then v else sha256_hex v)"

definition new_redis_rate_limiter ::
  "(string \<Rightarrow> string) \<Rightarrow> int \<Rightarrow> duration \<Rightarrow> string \<Rightarrow> redis_rate_limiter" where
  "new_redis_rate_limiter sha256_hex mx window key_prefix =
    \<lparr>rr_max = default_pos mx 1, rr_window = default_pos window second,
     rr_key_prefix = bounded_key sha256_hex (if key_prefix = [] then ''ratelimit'' else key_prefix)\<rparr>"

definition redis_rate_script :: "'r redis_api \<Rightarrow> string \<Rightarrow> int \<Rightarrow> 'r \<Rightarrow> int \<times> 'r" where
  "redis_rate_script api key ttl r =
    (let (count, r) = ra_incr api key r
     in (count, if count = 1 then ra_pexpire api key ttl r else r))"

definition redis_allow ::
  "'r redis_api \<Rightarrow> redis_rate_limiter \<Rightarrow> string \<Rightarrow> 'r \<Rightarrow> (goerr + bool) \<times> 'r" where
  "redis_allow api l key r =
    (let ttl = go_div (rr_window l) millisecond;
         ttl = (if ttl < 1 then 1 else ttl)
     in case ra_fails api r of
          Some (err, r) \<Rightarrow> (Inl err, r)
        | None \<Rightarrow>
            (let (n, r) = redis_rate_script api key ttl r in (Inr (n \<le> rr_max l), r)))"

definition redis_rate_key :: "(string \<Rightarrow> string) \<Rightarrow> redis_rate_limiter \<Rightarrow> string \<Rightarrow> string" where
  "redis_rate_key sha256_hex l part = rr_key_prefix l @ '':'' @ bounded_key sha256_hex part"

definition redis_rate_middleware ::
  "(string \<Rightarrow> string) \<Rightarrow> 'r redis_api option \<Rightarrow> redis_rate_limiter option \<Rightarrow> string \<Rightarrow> string \<Rightarrow>
    'r \<Rightarrow> 'd reply option \<times> 'r" where
  "redis_rate_middleware sha256_hex rdb limiter key_part client_ip r =
    (case (limiter, rdb) of
       (Some l, Some api) \<Rightarrow>
         (let part = (if key_part = [] then client_ip else key_part);
              (allowed, r) = redis_allow api l (redis_rate_key sha256_hex l part) r
          in case allowed of
               Inl _ \<Rightarrow> (Some (fail_status 503 50002 msg_limiter_down), r)
             | Inr False \<Rightarrow> (Some (fail_status 429 42901 msg_too_many), r)
             | Inr True \<Rightarrow> (None, r))
     | _ \<Rightarrow> (Some (fail_status 503 50002 msg_limiter_down), r))"

lemma bounded_key_length:
  assumes "\<And>v. length (sha256_hex v) = 64"
  shows "length (bounded_key sha256_hex v) \<le> 256"
    and "length (redis_rate_key sha256_hex (new_redis_rate_limiter sha256_hex mx window pre) v) \<le> 513"
  by (simp_all add: bounded_key_def redis_rate_key_def new_redis_rate_limiter_def assms)

lemma redis_rate_key_inj:
  assumes "length a \<le> 256" and "length b \<le> 256"
    and "redis_rate_key sha256_hex l a = redis_rate_key sha256_hex l b"
  shows "a = b"
  using assms by (simp add: redis_rate_key_def bounded_key_def)

lemma redis_limiter_fails_closed:
  "fst (redis_rate_middleware sha256_hex rdb limiter part ip r) = None \<longleftrightarrow>
    (\<exists>l api. limiter = Some l \<and> rdb = Some api \<and> ra_fails api r = None \<and>
      fst (ra_incr api (redis_rate_key sha256_hex l (if part = [] then ip else part)) r) \<le> rr_max l)"
  by (auto simp: redis_rate_middleware_def redis_allow_def redis_rate_script_def Let_def
      split: option.splits prod.splits bool.splits)

subsection \<open>Shards\<close>

lemma shard_index_less [simp]: "rate_limiter_shard_index key < rate_limiter_shard_count"
proof -
  have "unat (foldl fnv_step 2166136261 key AND 63) \<le> unat (63 :: 32 word)"
    by (rule word_le_nat_alt [THEN iffD1]) (rule word_and_le1)
  then show ?thesis
    by (simp add: rate_limiter_shard_index_def rate_limiter_shard_count_def)
qed

lemma live_entry:
  "distinct (map fst shard) \<Longrightarrow>
    map_of [(k, e) \<leftarrow> shard. live e] ip = Option.bind (map_of shard ip) (\<lambda>e. if live e then Some e else None)"
proof (induction shard)
  case (Cons x shard)
  then have "map_of shard (fst x) = None"
    by (simp add: map_of_eq_None_iff)
  with Cons show ?case
    by (cases x) (auto simp: Option.bind_eq_None_conv split: bind_splits)
qed simp

lemma length_update: "length (AList.update k v xs) =
    (if map_of xs k = None then Suc (length xs) else length xs)"
  by (induction xs) auto

definition entry_fresh :: "instant \<Rightarrow> rate_entry option \<Rightarrow> bool" where
  "entry_fresh now found \<longleftrightarrow> (case found of None \<Rightarrow> True | Some e \<Rightarrow> re_reset e < now)"

definition entry_after :: "rate_limiter \<Rightarrow> instant \<Rightarrow> rate_entry option \<Rightarrow> rate_entry" where
  "entry_after l now found =
    (if entry_fresh now found then \<lparr>re_count = 1, re_reset = now + rl_window l\<rparr>
     else (the found)\<lparr>re_count := re_count (the found) + 1\<rparr>)"

definition verdict_after :: "rate_limiter \<Rightarrow> instant \<Rightarrow> rate_entry option \<Rightarrow> rate_verdict" where
  "verdict_after l now found =
    (if re_count (entry_after l now found) > rl_max l then RateOver else RateNext)"

lemma drop_expired_facts:
  assumes "distinct (map fst shard)"
  shows "distinct (map fst (drop_expired now shard))"
    "length (drop_expired now shard) \<le> length shard"
    "set (drop_expired now shard) \<subseteq> set shard"
    "map_of (drop_expired now shard) k =
      (case map_of shard k of None \<Rightarrow> None
       | Some e \<Rightarrow> if re_reset e < now then None else Some e)"
  using assms
  by (auto simp: drop_expired_def distinct_map_filter live_entry time_after_def
      split: option.splits)

text \<open>One request either is refused because the shard is full, or updates its own entry.\<close>

lemma shard_request_cases:
  assumes "distinct (map fst shard)"
  shows "(map_of shard ip = None \<and> shard_full l (drop_expired now shard) \<and>
      shard_request l now ip shard = (RateTooManyClients, drop_expired now shard))
    \<or> (\<exists>kept \<in> {shard, drop_expired now shard}. map_of kept ip = map_of shard ip \<and>
      (map_of shard ip = None \<and> 0 < rl_max_clients l \<longrightarrow> \<not> shard_full l kept) \<and>
      shard_request l now ip shard = (verdict_after l now (map_of shard ip),
        AList.update ip (entry_after l now (map_of shard ip)) kept))"
  using assms
  by (cases "map_of shard ip")
    (auto simp: shard_request_def Let_def verdict_after_def entry_after_def entry_fresh_def
      drop_expired_facts time_after_def)

subsection \<open>The limiter's invariant\<close>

definition shard_ok :: "rate_limiter \<Rightarrow> nat \<Rightarrow> rate_shard \<Rightarrow> bool" where
  "shard_ok l i shard \<longleftrightarrow> distinct (map fst shard) \<and> int (length shard) \<le> shard_limit l \<and>
    (\<forall>(key, e) \<in> set shard. rate_limiter_shard_index key = i \<and> 0 < re_count e)"

definition rate_ok :: "rate_limiter \<Rightarrow> bool" where
  "rate_ok l \<longleftrightarrow> length (rl_shards l) = rate_limiter_shard_count \<and> 0 < rl_max l \<and> 0 < rl_window l \<and>
    0 < rl_max_clients l \<and> (\<forall>i < rate_limiter_shard_count. shard_ok l i (rl_shards l ! i))"

definition tracked :: "rate_limiter \<Rightarrow> string \<Rightarrow> rate_entry option" where
  "tracked l ip = map_of (rl_shards l ! rate_limiter_shard_index ip) ip"

lemma new_rate_limiter_ok [simp]: "rate_ok (new_rate_limiter mx window)"
  by (simp add: rate_ok_def new_rate_limiter_def shard_ok_def shard_limit_def second_def
      rate_limiter_shard_count_def)

lemma tracked_new [simp]: "tracked (new_rate_limiter mx window) ip = None"
  by (simp add: tracked_def new_rate_limiter_def)

lemma rate_settings [simp]:
  "rl_max (rate_next ev l) = rl_max l" "rl_window (rate_next ev l) = rl_window l"
  "rl_max_clients (rate_next ev l) = rl_max_clients l"
  by (cases ev; simp add: rate_next_def rate_middleware_def cleanup_expired_def Let_def split_def)+

lemma shard_settings [simp]:
  "shard_limit (rate_next ev l) = shard_limit l"
  "shard_ok (rate_next ev l) i shard = shard_ok l i shard"
proof -
  show "shard_limit (rate_next ev l) = shard_limit l"
    unfolding shard_limit_def by simp
  then show "shard_ok (rate_next ev l) i shard = shard_ok l i shard"
    unfolding shard_ok_def by simp
qed

lemma shard_ok_drop:
  assumes "shard_ok l i shard"
  shows "shard_ok l i (drop_expired now shard)"
proof -
  have "distinct (map fst shard)"
    using assms by (simp add: shard_ok_def)
  note facts = drop_expired_facts(1-3) [OF this, of now]
  show ?thesis
    unfolding shard_ok_def
  proof (intro conjI)
    show "\<forall>(key, e) \<in> set (drop_expired now shard).
        rate_limiter_shard_index key = i \<and> 0 < re_count e"
      using assms facts(3) unfolding shard_ok_def by blast
  qed (use assms facts(1,2) in \<open>simp_all add: shard_ok_def\<close>)
qed

lemma entry_after_positive:
  "(\<And>e. found = Some e \<Longrightarrow> 0 < re_count e) \<Longrightarrow> 0 < re_count (entry_after l now found)"
  by (cases found) (force simp: entry_after_def entry_fresh_def)+

lemma shard_ok_update:
  assumes ok: "shard_ok l (rate_limiter_shard_index ip) shard" and pos: "0 < re_count e"
    and room: "map_of shard ip = None \<Longrightarrow> \<not> shard_full l shard"
  shows "shard_ok l (rate_limiter_shard_index ip) (AList.update ip e shard)"
proof -
  have "int (length (AList.update ip e shard)) \<le> shard_limit l"
    using ok room by (auto simp: length_update shard_ok_def shard_full_def)
  moreover have "distinct (map fst (AList.update ip e shard))"
    using ok by (simp add: shard_ok_def distinct_update)
  moreover have "\<forall>x \<in> set (AList.update ip e shard). x = (ip, e) \<or> x \<in> set shard"
    by (induction shard) auto
  ultimately show ?thesis
    using ok pos unfolding shard_ok_def by fast
qed

lemma shard_ok_request:
  assumes ok: "shard_ok l (rate_limiter_shard_index ip) shard" and "0 < rl_max_clients l"
  shows "shard_ok l (rate_limiter_shard_index ip) (snd (shard_request l now ip shard))"
proof -
  have dist: "distinct (map fst shard)"
    using ok by (simp add: shard_ok_def)
  have pos: "0 < re_count (entry_after l now (map_of shard ip))"
    using ok by (intro entry_after_positive) (auto simp: shard_ok_def dest: map_of_SomeD)
  from shard_request_cases [OF dist, where ip = ip and l = l and now = now] show ?thesis
  proof (elim disjE bexE conjE)
    fix kept
    assume kept: "kept \<in> {shard, drop_expired now shard}" "map_of kept ip = map_of shard ip"
      "map_of shard ip = None \<and> 0 < rl_max_clients l \<longrightarrow> \<not> shard_full l kept"
    then have "shard_ok l (rate_limiter_shard_index ip) kept"
      using ok shard_ok_drop by blast
    then show ?thesis if "shard_request l now ip shard = (verdict_after l now (map_of shard ip),
        AList.update ip (entry_after l now (map_of shard ip)) kept)"
      using that kept assms(2) shard_ok_update [OF _ pos, where ip = ip and shard = kept] by simp
  qed (use ok shard_ok_drop in auto)
qed

lemma rate_next_ok:
  assumes "rate_ok l"
  shows "rate_ok (rate_next ev l)"
proof (cases ev)
  case (RateRequest now ip)
  then show ?thesis
    using assms shard_ok_request [of l ip "rl_shards l ! rate_limiter_shard_index ip" now]
    by (auto simp: rate_ok_def nth_list_update)
      (auto simp: rate_next_def rate_middleware_def Let_def nth_list_update split: prod.split)
next
  case (RateCleanup now)
  then show ?thesis
    using assms shard_ok_drop
    by (auto simp: rate_ok_def) (auto simp: rate_next_def cleanup_expired_def)
qed

interpretation rate_limit: step_invariant rate_step rate_ok
  by unfold_locales (auto elim!: rate_stepE intro: rate_next_ok)

subsection \<open>What a step does to one client's entry\<close>

lemma rate_ok_shard:
  "rate_ok l \<Longrightarrow> distinct (map fst (rl_shards l ! rate_limiter_shard_index ip))"
  "rate_ok l \<Longrightarrow> length (rl_shards l) = rate_limiter_shard_count"
  by (auto simp: rate_ok_def shard_ok_def)

lemma tracked_count: "rate_ok l \<Longrightarrow> tracked l ip = Some e \<Longrightarrow> 0 < re_count e"
  unfolding rate_ok_def shard_ok_def tracked_def
  using shard_index_less [of ip] by (fastforce dest: map_of_SomeD)

lemma tracked_request:
  assumes "rate_ok l"
  shows "(fst (rate_middleware now ip l) = RateTooManyClients \<and> tracked l ip = None \<and>
      tracked (snd (rate_middleware now ip l)) ip = None)
    \<or> (fst (rate_middleware now ip l) = verdict_after l now (tracked l ip) \<and>
      tracked (snd (rate_middleware now ip l)) ip = Some (entry_after l now (tracked l ip)))"
  using shard_request_cases [OF rate_ok_shard(1) [OF assms, of ip], where ip = ip and l = l and now = now]
    rate_ok_shard(2) [OF assms] rate_ok_shard(1) [OF assms, of ip]
  by (auto simp: rate_middleware_def Let_def tracked_def drop_expired_facts update_conv'
      split: prod.split)

lemma tracked_other:
  assumes "rate_ok l" and "k \<noteq> ip"
  shows "tracked (snd (rate_middleware now ip l)) k = tracked l k \<or>
    (tracked (snd (rate_middleware now ip l)) k = None \<and> entry_fresh now (tracked l k))"
proof (cases "rate_limiter_shard_index k = rate_limiter_shard_index ip")
  case True
  then show ?thesis
    using shard_request_cases [OF rate_ok_shard(1) [OF assms(1), of ip],
        where ip = ip and l = l and now = now]
      rate_ok_shard(2) [OF assms(1)] rate_ok_shard(1) [OF assms(1), of ip] assms(2)
    by (auto simp: rate_middleware_def Let_def tracked_def drop_expired_facts update_conv'
        entry_fresh_def split: prod.split option.splits if_splits)
next
  case False
  then show ?thesis
    by (simp add: rate_middleware_def Let_def tracked_def split: prod.split)
qed

lemma tracked_cleanup:
  assumes "rate_ok l"
  shows "tracked (cleanup_expired now l) k = tracked l k \<or>
    (tracked (cleanup_expired now l) k = None \<and> entry_fresh now (tracked l k))"
  using rate_ok_shard [OF assms]
  by (simp add: cleanup_expired_def tracked_def drop_expired_facts entry_fresh_def split: option.split)

subsection \<open>How many requests get through\<close>

definition admitted_in ::
  "rate_event list \<Rightarrow> rate_limiter \<Rightarrow> string \<Rightarrow> instant \<Rightarrow> instant \<Rightarrow> nat" where
  "admitted_in es l ip lo hi =
    length (filter (\<lambda>(t, i, v). i = ip \<and> v = RateNext \<and> lo \<le> t \<and> t \<le> hi) (rate_run es l))"

definition rate_budget :: "rate_limiter \<Rightarrow> instant \<Rightarrow> rate_entry option \<Rightarrow> int" where
  "rate_budget l hi found =
    (case found of None \<Rightarrow> rl_max l
     | Some e \<Rightarrow> max 0 (rl_max l - re_count e) + (if hi \<le> re_reset e then 0 else rl_max l))"

lemma admitted_Nil [simp]: "admitted_in [] l ip lo hi = 0"
  by (simp add: admitted_in_def)

lemma admitted_cleanup [simp]:
  "admitted_in (RateCleanup now # es) l ip lo hi =
    admitted_in es (rate_next (RateCleanup now) l) ip lo hi"
  by (simp add: admitted_in_def rate_next_def)

lemma admitted_request:
  "admitted_in (RateRequest now k # es) l ip lo hi =
    (if k = ip \<and> fst (rate_middleware now ip l) = RateNext \<and> lo \<le> now \<and> now \<le> hi then 1 else 0)
    + admitted_in es (rate_next (RateRequest now k) l) ip lo hi"
  by (auto simp: admitted_in_def rate_next_def split: prod.split)

lemma rate_next_budget [simp]: "rate_budget (rate_next ev l) hi found = rate_budget l hi found"
  by (simp add: rate_budget_def split: option.split)

lemma rate_budget_le:
  assumes "rate_ok l"
  shows "rate_budget l hi (tracked l ip) \<le> 2 * rl_max l"
  using assms tracked_count [OF assms, of ip]
  by (auto simp: rate_budget_def rate_ok_def split: option.split)

lemma rate_budget_nonneg: "0 < rl_max l \<Longrightarrow> 0 \<le> rate_budget l hi found"
  by (simp add: rate_budget_def split: option.split)

lemma rate_budget_forget:
  "0 < rl_max l \<Longrightarrow> now \<le> hi \<Longrightarrow> entry_fresh now found \<Longrightarrow>
    rate_budget l hi None \<le> rate_budget l hi found"
  by (auto simp: rate_budget_def entry_fresh_def split: option.split)

lemma rate_budget_spend:
  assumes "0 < rl_max l" and "now \<le> hi" and "hi \<le> now + rl_window l"
  shows "rate_budget l hi (Some (entry_after l now found))
      + (if verdict_after l now found = RateNext then 1 else 0) \<le> rate_budget l hi found"
  using assms
  by (auto simp: rate_budget_def entry_after_def verdict_after_def entry_fresh_def split: option.split)

lemma admitted_late: "\<forall>e \<in> set es. hi < event_time e \<Longrightarrow> admitted_in es l ip lo hi = 0"
proof (induction es arbitrary: l)
  case (Cons e es)
  then show ?case by (cases e) (auto simp: admitted_request)
qed simp

text \<open>Every step pays for the request it admits out of the client's budget.\<close>

lemma rate_budget_step:
  assumes ok: "rate_ok l" and "event_time ev \<le> hi" and "hi \<le> event_time ev + rl_window l"
  shows "rate_budget l hi (tracked (rate_next ev l) ip)
    + int (admitted_in [ev] l ip lo hi) \<le> rate_budget l hi (tracked l ip)"
proof (cases ev)
  case (RateCleanup now)
  then show ?thesis
    using tracked_cleanup [OF ok, of now ip] rate_budget_forget [of l now hi "tracked l ip"] ok assms
    by (auto simp: rate_next_def rate_ok_def)
next
  case (RateRequest now k)
  have pos: "0 < rl_max l" using ok by (simp add: rate_ok_def)
  show ?thesis
  proof (cases "k = ip")
    case True
    then show ?thesis
      using tracked_request [OF ok, of now ip] rate_budget_spend [OF pos, of now hi "tracked l ip"]
        assms RateRequest
      by (auto simp: admitted_request rate_next_def split: if_splits)
  next
    case False
    then show ?thesis
      using tracked_other [OF ok, of ip k now] rate_budget_forget [OF pos, of now hi "tracked l ip"]
        assms RateRequest
      by (auto simp: admitted_request rate_next_def)
  qed
qed

lemma admitted_Cons:
  "admitted_in (ev # es) l ip lo hi = admitted_in [ev] l ip lo hi
    + admitted_in es (rate_next ev l) ip lo hi"
  by (cases ev) (simp_all add: admitted_request)

lemma admitted_le_budget:
  assumes "rate_ok l" and "sorted (map event_time es)"
    and "\<forall>e \<in> set es. lo \<le> event_time e"
  shows "int (admitted_in es l ip lo (lo + rl_window l)) \<le> rate_budget l (lo + rl_window l) (tracked l ip)"
  using assms
proof (induction es arbitrary: l)
  case Nil
  then show ?case
    by (simp add: rate_budget_nonneg rate_ok_def)
next
  case (Cons e es)
  note ok = rate_next_ok [OF Cons.prems(1), of e]
  show ?case
  proof (cases "event_time e \<le> lo + rl_window l")
    case True
    then show ?thesis
      using Cons.IH [OF ok] Cons.prems rate_budget_step [OF Cons.prems(1) True, of ip lo]
      by (simp add: admitted_Cons [of e es])
  next
    case False
    then have "\<forall>x \<in> set (e # es). lo + rl_window l < event_time x"
      using Cons.prems(2) by auto
    from admitted_late [OF this] show ?thesis
      using Cons.prems(1) by (simp add: rate_budget_nonneg rate_ok_def)
  qed
qed

lemma admitted_le_double:
  assumes "rate_ok l" and "sorted (map event_time es)"
  shows "int (admitted_in es l ip lo (lo + rl_window l)) \<le> 2 * rl_max l"
  using assms
proof (induction es arbitrary: l)
  case Nil
  then show ?case by (simp add: rate_ok_def)
next
  case (Cons e es)
  note ok = rate_next_ok [OF Cons.prems(1), of e]
  show ?case
  proof (cases "lo \<le> event_time e")
    case True
    then have "\<forall>x \<in> set (e # es). lo \<le> event_time x"
      using Cons.prems by auto
    from admitted_le_budget [OF Cons.prems this, of ip] show ?thesis
      using rate_budget_le [OF Cons.prems(1), of "lo + rl_window l" ip] by linarith
  next
    case False
    then have "admitted_in [e] l ip lo (lo + rl_window l) = 0"
      by (cases e) (simp_all add: admitted_request)
    then show ?thesis
      using Cons.IH [OF ok] Cons.prems by (simp add: admitted_Cons [of e es])
  qed
qed

subsection \<open>Clients do not disturb each other\<close>

definition verdicts_of :: "rate_event list \<Rightarrow> rate_limiter \<Rightarrow> string \<Rightarrow> rate_verdict list" where
  "verdicts_of es l ip = map (\<lambda>(t, i, v). v) (filter (\<lambda>(t, i, v). i = ip) (rate_run es l))"

definition requests_of :: "rate_event list \<Rightarrow> string \<Rightarrow> nat" where
  "requests_of es ip =
    length (filter (\<lambda>e. case e of RateRequest t i \<Rightarrow> i = ip | RateCleanup t \<Rightarrow> False) es)"

definition window_verdict :: "int \<Rightarrow> int \<Rightarrow> rate_verdict" where
  "window_verdict mx n = (if n \<le> mx then RateNext else RateOver)"

lemma verdicts_simps [simp]:
  "verdicts_of [] l ip = []"
  "verdicts_of (RateCleanup now # es) l ip = verdicts_of es (rate_next (RateCleanup now) l) ip"
  "verdicts_of (RateRequest now k # es) l ip =
    (if k = ip then [fst (rate_middleware now ip l)] else [])
      @ verdicts_of es (rate_next (RateRequest now k) l) ip"
  by (auto simp: verdicts_of_def rate_next_def split: prod.split)

lemma requests_simps [simp]:
  "requests_of [] ip = 0"
  "requests_of (RateCleanup now # es) ip = requests_of es ip"
  "requests_of (RateRequest now k # es) ip = (if k = ip then 1 else 0) + requests_of es ip"
  by (simp_all add: requests_of_def)

lemma live_entry_kept:
  assumes "rate_ok l" and "tracked l ip = Some e" and "event_time ev \<le> re_reset e"
    and "\<forall>t. ev \<noteq> RateRequest t ip"
  shows "tracked (rate_next ev l) ip = Some e"
proof -
  have live: "\<not> entry_fresh (event_time ev) (Some e)"
    using assms by (simp add: entry_fresh_def)
  show ?thesis
  proof (cases ev)
    case (RateCleanup now)
    then show ?thesis
      using tracked_cleanup [OF assms(1), of now ip] live assms(2) by (auto simp: rate_next_def)
  next
    case (RateRequest now k)
    then show ?thesis
      using tracked_other [OF assms(1), of ip k now] live assms by (auto simp: rate_next_def)
  qed
qed

lemma live_entry_request:
  assumes "rate_ok l" and "tracked l ip = Some e" and "now \<le> re_reset e"
  shows "fst (rate_middleware now ip l) = window_verdict (rl_max l) (re_count e + 1)"
    "tracked (rate_next (RateRequest now ip) l) ip = Some (e\<lparr>re_count := re_count e + 1\<rparr>)"
  using tracked_request [OF assms(1), of now ip] assms
  by (auto simp: rate_next_def verdict_after_def entry_after_def entry_fresh_def window_verdict_def)

lemma verdicts_in_window:
  assumes "rate_ok l" and "tracked l ip = Some e" and "\<forall>ev \<in> set es. event_time ev \<le> re_reset e"
  shows "verdicts_of es l ip =
    map (\<lambda>i. window_verdict (rl_max l) (re_count e + 1 + int i)) [0..<requests_of es ip]"
  using assms
proof (induction es arbitrary: l e)
  case (Cons ev es)
  note ok = rate_next_ok [OF Cons.prems(1), of ev]
  have upt: "[0..<Suc n] = 0 # map Suc [0..<n]" for n
    by (simp add: map_Suc_upt upt_conv_Cons del: upt_Suc)
  show ?case
  proof (cases "\<exists>t. ev = RateRequest t ip")
    case True
    then obtain now where ev: "ev = RateRequest now ip" by blast
    have "now \<le> re_reset e" using Cons.prems ev by simp
    note entry = live_entry_request [OF Cons.prems(1,2) this]
    show ?thesis
      using Cons.IH [OF ok [unfolded ev] entry(2)] Cons.prems ev entry(1)
      by (simp add: upt o_def algebra_simps del: upt_Suc)
  next
    case False
    then have "tracked (rate_next ev l) ip = Some e"
      using live_entry_kept Cons.prems by simp
    from Cons.IH [OF ok this] Cons.prems show ?thesis
      using False by (cases ev) auto
  qed
qed simp

lemma fresh_client_verdict:
  assumes "rate_ok l" and "entry_fresh now (tracked l ip)"
    and "fst (rate_middleware now ip l) \<noteq> RateTooManyClients"
  shows "fst (rate_middleware now ip l) = RateNext"
    "tracked (rate_next (RateRequest now ip) l) ip =
      Some \<lparr>re_count = 1, re_reset = now + rl_window l\<rparr>"
  using tracked_request [OF assms(1), of now ip] assms
  by (auto simp: rate_next_def verdict_after_def entry_after_def rate_ok_def)

definition rate_reachable :: "rate_limiter \<Rightarrow> bool" where
  "rate_reachable l \<longleftrightarrow> (\<exists>mx window. rate_step\<^sup>*\<^sup>* (new_rate_limiter mx window) l)"

lemma rate_reachable_ok: "rate_reachable l \<Longrightarrow> rate_ok l"
  unfolding rate_reachable_def using rate_limit.steps_keep new_rate_limiter_ok by blast

lemma rate_reachable_new [intro]: "rate_reachable (new_rate_limiter mx window)"
  unfolding rate_reachable_def by blast

lemma rate_reachable_clients:
  assumes "rate_reachable l"
  shows "rl_max_clients l = 100000"
proof -
  obtain mx window where "rate_step\<^sup>*\<^sup>* (new_rate_limiter mx window) l"
    using assms by (auto simp: rate_reachable_def)
  then show ?thesis
    by (induction rule: rtranclp_induct) (auto elim!: rate_stepE simp: new_rate_limiter_def)
qed

text \<open>
  Over any sequence of requests and background cleanups, with a clock that does not go
  back, at most twice the configured number of requests of one client get through in any
  interval as long as the window, wherever the interval starts.
\<close>

theorem rate_window_bound:
  assumes "0 < mx" and "0 < window" and "sorted (map event_time es)"
  shows "int (admitted_in es (new_rate_limiter mx window) ip lo (lo + window)) \<le> 2 * mx"
  using admitted_le_double [OF new_rate_limiter_ok assms(3), of mx window ip lo] assms
  by (simp add: new_rate_limiter_def default_pos_def)

text \<open>Two requests per second: four get through around the end of the first window.\<close>

definition demo_rate_events :: "rate_event list" where
  "demo_rate_events = map (\<lambda>t. RateRequest t ''10.0.0.1'')
    [0, 999999998, 999999999, 1000000001, 1000000002, 1000000003]"

theorem rate_window_bound_witness:
  "int (admitted_in demo_rate_events (new_rate_limiter 2 second) ''10.0.0.1'' 5 (5 + second)) \<le> 4"
  using rate_window_bound [of 2 second demo_rate_events "''10.0.0.1''" 5]
  by (simp add: demo_rate_events_def second_def)

text \<open>
  C23. A client whose window starts anew and that is not turned away for lack of room gets
  exactly the configured number of requests through until the window ends, the first ones
  it makes, and the rest are refused, whatever other clients and the background cleanup do
  in the meantime.
\<close>

theorem rate_window_exact:
  assumes "rate_reachable l" and "entry_fresh now (tracked l ip)"
    and "fst (rate_middleware now ip l) \<noteq> RateTooManyClients"
    and "\<forall>ev \<in> set es. event_time ev \<le> now + rl_window l"
  shows "verdicts_of (RateRequest now ip # es) l ip =
    map (\<lambda>i. window_verdict (rl_max l) (1 + int i)) [0..<Suc (requests_of es ip)]"
proof -
  note ok = rate_reachable_ok [OF assms(1)]
  note first = fresh_client_verdict [OF ok assms(2,3)]
  have upt: "[0..<Suc n] = 0 # map Suc [0..<n]" for n
    by (simp add: map_Suc_upt upt_conv_Cons del: upt_Suc)
  have "0 < rl_max l" using ok by (simp add: rate_ok_def)
  then show ?thesis
    using verdicts_in_window [OF rate_next_ok [OF ok] first(2), of es] first(1) assms(4)
    by (simp add: upt o_def window_verdict_def algebra_simps del: upt_Suc)
qed

theorem rate_window_exact_witness:
  "verdicts_of [RateRequest 7 ''a'', RateRequest 8 ''b'', RateRequest 9 ''a'', RateCleanup 9,
      RateRequest 10 ''a''] (new_rate_limiter 2 100) ''a'' = [RateNext, RateNext, RateOver]"
proof -
  define l where "l = new_rate_limiter 2 100"
  have window: "rl_window l = 100" "rl_max l = 2"
    by (simp_all add: l_def new_rate_limiter_def default_pos_def)
  have "fst (rate_middleware 7 ''a'' l) \<noteq> RateTooManyClients"
    by (simp add: l_def rate_middleware_def shard_request_def shard_full_def shard_limit_def
        new_rate_limiter_def Let_def drop_expired_def rate_limiter_shard_count_def
        shard_index_less [unfolded rate_limiter_shard_count_def])
  then have "verdicts_of [RateRequest 7 ''a'', RateRequest 8 ''b'', RateRequest 9 ''a'',
      RateCleanup 9, RateRequest 10 ''a''] l ''a'' =
      map (\<lambda>i. window_verdict (rl_max l) (1 + int i)) [0..<Suc 2]"
    using rate_window_exact [of l 7 "''a''" "[RateRequest 8 ''b'', RateRequest 9 ''a'',
      RateCleanup 9, RateRequest 10 ''a'']"] window
    by (simp add: l_def rate_reachable_new entry_fresh_def numeral_3_eq_3 del: verdicts_simps)
  then show ?thesis
    by (simp add: window_verdict_def window l_def [symmetric] numeral_3_eq_3 del: verdicts_simps)
qed

text \<open>
  The limiter's memory is bounded: it never tracks more than 1563 clients in a shard,
  100032 in all, each only once and only in the shard its address hashes to. A request is
  turned away for lack of room only if its client is not tracked and the shard is full of
  clients whose windows have not ended.
\<close>

theorem rate_memory_bounded:
  assumes "rate_reachable l"
  shows "(\<forall>shard \<in> set (rl_shards l). length shard \<le> 1563 \<and> distinct (map fst shard)) \<and>
    sum_list (map length (rl_shards l)) \<le> 100032 \<and>
    (\<forall>i < 64. \<forall>(key, e) \<in> set (rl_shards l ! i). rate_limiter_shard_index key = i) \<and>
    (fst (rate_middleware now ip l) = RateTooManyClients \<longrightarrow>
      tracked l ip = None \<and>
      length (filter (\<lambda>(key, e). now \<le> re_reset e) (rl_shards l ! rate_limiter_shard_index ip)) = 1563)"
    (is "?small \<and> ?total \<and> ?home \<and> ?full")
proof (intro conjI)
  note ok = rate_reachable_ok [OF assms]
  have limit: "shard_limit l = 1563"
    using rate_reachable_clients [OF assms]
    by (simp add: shard_limit_def rate_limiter_shard_count_def)
  show small: ?small
    using ok limit by (auto simp: rate_ok_def shard_ok_def in_set_conv_nth)
  have "sum_list (map length (rl_shards l)) \<le> sum_list (map (\<lambda>_. 1563) (rl_shards l))"
    using small by (intro sum_list_mono) auto
  then show ?total
    using ok by (simp add: rate_ok_def rate_limiter_shard_count_def sum_list_triv)
  show ?home
    using ok by (auto simp: rate_ok_def shard_ok_def rate_limiter_shard_count_def)
  let ?shard = "rl_shards l ! rate_limiter_shard_index ip"
  have live: "drop_expired now ?shard = filter (\<lambda>(key, e). now \<le> re_reset e) ?shard"
    by (simp add: drop_expired_def time_after_def not_less)
  have "?shard \<in> set (rl_shards l)"
    using ok shard_index_less [of ip] by (simp add: rate_ok_def)
  then have "length (drop_expired now ?shard) \<le> 1563"
    using small by (auto simp: drop_expired_def intro: order_trans [OF length_filter_le])
  then show ?full
    using shard_request_cases [OF rate_ok_shard(1) [OF ok, of ip], where ip = ip and l = l and now = now]
      limit live
    by (auto simp: rate_middleware_def Let_def tracked_def shard_full_def verdict_after_def
        split: prod.splits if_splits)
qed

theorem rate_memory_bounded_witness:
  "sum_list (map length (rl_shards (rate_next (RateRequest 7 ''a'') (new_rate_limiter 2 100)))) \<le> 100032"
proof -
  have "rate_reachable (rate_next (RateRequest 7 ''a'') (new_rate_limiter 2 100))"
    unfolding rate_reachable_def using step_request by blast
  from rate_memory_bounded [OF this] show ?thesis by simp
qed

end
