(* ===== verification/Stream_Group.thy ===== *)
theory Stream_Group
  imports Go_Conv "HOL-Library.AList"
begin

text \<open>
  The Redis Stream helpers of \<open>contrib/stream/redis/stream.go\<close> and the trace fields of
  \<open>telemetry.go\<close>. The server is a parameter: each command is a function on a server state
  that may fail and may change the state also when it fails. A Go map of message fields is
  an association list without duplicate keys; \<open>marshal\<close> is \<open>json.Marshal\<close>, of which
  the code uses the length of the encoding. Spans only observe and are left out.
\<close>

subsection \<open>Data\<close>

datatype stream_error =
  StreamErr string
| RedisErr string
| RedisNil
| MarshalErr string
| CtxErr string

primrec stream_error_text :: "stream_error \<Rightarrow> string" where
  "stream_error_text (StreamErr s) = s"
| "stream_error_text (RedisErr s) = s"
| "stream_error_text RedisNil = ''redis: nil''"
| "stream_error_text (MarshalErr s) = s"
| "stream_error_text (CtxErr s) = s"

datatype 'v field_value = FieldString string | FieldOther 'v

type_synonym 'v fields_map = "(string \<times> 'v field_value) list"

record 'v stream_message =
  sm_stream :: string
  sm_id :: string
  sm_values :: "'v fields_map"

record reader_config =
  rc_stream :: string
  rc_group :: string
  rc_consumer :: string
  rc_count :: int
  rc_block :: duration

record claim_config =
  cc_stream :: string
  cc_group :: string
  cc_consumer :: string
  cc_min_idle :: duration
  cc_start :: string
  cc_count :: int

text \<open>A stream of a reply: its name and its entries.\<close>

type_synonym 'v xstream = "string \<times> (string \<times> 'v fields_map) list"

record ('v, 'r) stream_api =
  sa_group_create :: "string \<Rightarrow> string \<Rightarrow> string \<Rightarrow> 'r \<Rightarrow> stream_error option \<times> 'r"
  sa_read_group :: "reader_config \<Rightarrow> 'r \<Rightarrow> (stream_error + 'v xstream list) \<times> 'r"
  sa_auto_claim :: "claim_config \<Rightarrow> 'r \<Rightarrow>
    ((string \<times> 'v fields_map) list \<times> string \<times> stream_error option) \<times> 'r"
  sa_add :: "string \<Rightarrow> 'v fields_map \<Rightarrow> int \<Rightarrow> bool \<Rightarrow> 'r \<Rightarrow> (stream_error + string) \<times> 'r"
  sa_ack :: "string \<Rightarrow> string \<Rightarrow> string list \<Rightarrow> 'r \<Rightarrow> stream_error option \<times> 'r"
  sa_add_and_ack :: "string \<Rightarrow> 'v fields_map \<Rightarrow> string \<Rightarrow> string \<Rightarrow> string \<Rightarrow> 'r \<Rightarrow>
    (stream_error + string) \<times> 'r"

type_synonym 'v marshal = "'v fields_map \<Rightarrow> stream_error + string"

definition default_block :: duration where "default_block = 5 * second"
definition default_count :: int where "default_count = 10"
definition default_max_message_bytes :: int where "default_max_message_bytes = 1048576"

lemmas stream_defaults = default_block_def default_count_def default_max_message_bytes_def

subsection \<open>Checks\<close>

definition validate_stream_name :: "string \<Rightarrow> stream_error option" where
  "validate_stream_name nm =
    (let nm = trim_space nm
     in if nm = [] \<or> length nm > 256 \<or> contains_any nm [CHR 0x0D, CHR 0x0A]
        then Some (StreamErr ''stream: invalid stream name'') else None)"

definition validate_message_values :: "'v marshal \<Rightarrow> 'v fields_map \<Rightarrow> stream_error option" where
  "validate_message_values marshal vals =
    (if vals = [] then Some (StreamErr ''stream: message values are required'')
     else case marshal vals of
       Inl e \<Rightarrow> Some e
     | Inr encoded \<Rightarrow>
         if int (length encoded) > default_max_message_bytes
         then Some (StreamErr ''stream: message exceeds 1 MiB limit'') else None)"

definition is_busy_group :: "stream_error option \<Rightarrow> bool" where
  "is_busy_group err =
    (case err of None \<Rightarrow> False | Some e \<Rightarrow> contains (stream_error_text e) ''BUSYGROUP'')"

primrec first_invalid :: "'v marshal \<Rightarrow> 'v stream_message list \<Rightarrow> stream_error option" where
  "first_invalid marshal [] = None"
| "first_invalid marshal (m # ms) =
    (case validate_message_values marshal (sm_values m) of
       Some e \<Rightarrow> Some e | None \<Rightarrow> first_invalid marshal ms)"

definition normalize_streams :: "'v xstream list \<Rightarrow> 'v stream_message list" where
  "normalize_streams streams =
    concat (map (\<lambda>(nm, msgs).
      map (\<lambda>(i, vals). \<lparr>sm_stream = nm, sm_id = i, sm_values = vals\<rparr>) msgs) streams)"

abbreviation client_required :: stream_error where
  "client_required \<equiv> StreamErr ''stream: redis client is required''"

subsection \<open>Groups and messages\<close>

definition ensure_group ::
  "('v, 'r) stream_api option \<Rightarrow> string \<Rightarrow> string \<Rightarrow> string \<Rightarrow> 'r \<Rightarrow> stream_error option \<times> 'r" where
  "ensure_group rdb stream grp start r =
    (case rdb of None \<Rightarrow> (Some client_required, r)
     | Some api \<Rightarrow>
        (case validate_stream_name stream of Some e \<Rightarrow> (Some e, r)
         | None \<Rightarrow>
            if trim_space grp = [] \<or> length grp > 128
            then (Some (StreamErr ''stream: invalid consumer group''), r)
            else
              (let (err, r) = sa_group_create api stream grp (if start = [] then ''0'' else start) r
               in (if is_busy_group err then None else err, r))))"

definition reader_args :: "reader_config \<Rightarrow> reader_config" where
  "reader_args cfg = cfg\<lparr>rc_count := at_most 1000 (default_pos (rc_count cfg) default_count),
    rc_block := default_pos (rc_block cfg) default_block\<rparr>"

definition read_group ::
  "'v marshal \<Rightarrow> ('v, 'r) stream_api option \<Rightarrow> reader_config \<Rightarrow> 'r \<Rightarrow>
    (stream_error + 'v stream_message list) \<times> 'r" where
  "read_group marshal rdb cfg r =
    (case rdb of None \<Rightarrow> (Inl client_required, r)
     | Some api \<Rightarrow>
        (case validate_stream_name (rc_stream cfg) of Some e \<Rightarrow> (Inl e, r)
         | None \<Rightarrow>
            if trim_space (rc_group cfg) = [] \<or> trim_space (rc_consumer cfg) = []
            then (Inl (StreamErr ''stream: group and consumer are required''), r)
            else
              (let (result, r) = sa_read_group api (reader_args cfg) r
               in case result of
                    Inl err \<Rightarrow> (if err = RedisNil then Inr [] else Inl err, r)
                  | Inr streams \<Rightarrow>
                      (let messages = normalize_streams streams
                       in case first_invalid marshal messages of
                            Some e \<Rightarrow> (Inl e, r) | None \<Rightarrow> (Inr messages, r)))))"

definition claim_args :: "claim_config \<Rightarrow> claim_config" where
  "claim_args cfg = cfg\<lparr>cc_start := (if cc_start cfg = [] then ''0-0'' else cc_start cfg),
    cc_count := at_most 1000 (default_pos (cc_count cfg) default_count)\<rparr>"

text \<open>\<open>ClaimStale\<close> returns the messages, the next cursor and the error.\<close>

definition claim_stale ::
  "'v marshal \<Rightarrow> ('v, 'r) stream_api option \<Rightarrow> claim_config \<Rightarrow> 'r \<Rightarrow>
    ('v stream_message list \<times> string \<times> stream_error option) \<times> 'r" where
  "claim_stale marshal rdb cfg r =
    (case rdb of None \<Rightarrow> (([], [], Some client_required), r)
     | Some api \<Rightarrow>
        (case validate_stream_name (cc_stream cfg) of Some e \<Rightarrow> (([], [], Some e), r)
         | None \<Rightarrow>
            if trim_space (cc_group cfg) = [] \<or> trim_space (cc_consumer cfg) = []
            then (([], [], Some (StreamErr ''stream: group and consumer are required'')), r)
            else if cc_min_idle cfg \<le> 0
            then (([], [], Some (StreamErr ''stream: min idle must be positive'')), r)
            else
              (let ((entries, nxt, err), r) = sa_auto_claim api (claim_args cfg) r
               in case err of
                    Some e \<Rightarrow> (if e = RedisNil then ([], nxt, None) else ([], nxt, Some e), r)
                  | None \<Rightarrow>
                      (let messages = normalize_streams [(cc_stream cfg, entries)]
                       in case first_invalid marshal messages of
                            Some e \<Rightarrow> (([], nxt, Some e), r) | None \<Rightarrow> ((messages, nxt, None), r)))))"

definition ack ::
  "('v, 'r) stream_api option \<Rightarrow> string \<Rightarrow> string \<Rightarrow> string list \<Rightarrow> 'r \<Rightarrow> stream_error option \<times> 'r"
where
  "ack rdb stream grp ids r =
    (case rdb of None \<Rightarrow> (Some client_required, r)
     | Some api \<Rightarrow>
        (case validate_stream_name stream of Some e \<Rightarrow> (Some e, r)
         | None \<Rightarrow> if ids = [] then (None, r) else sa_ack api stream grp ids r))"

subsection \<open>Publishing and dead letters\<close>

text \<open>
  The trace fields of a message are copied from the carrier the propagator fills, which is
  empty without a telemetry provider.
\<close>

definition inject_message_context ::
  "(string \<times> string) list \<Rightarrow> 'v fields_map \<Rightarrow> 'v fields_map" where
  "inject_message_context carrier vals =
    fold (\<lambda>(k, v). AList.update k (FieldString v)) carrier vals"

definition publish_max_len ::
  "'v marshal \<Rightarrow> (string \<times> string) list \<Rightarrow> ('v, 'r) stream_api option \<Rightarrow> string \<Rightarrow>
    'v fields_map \<Rightarrow> int \<Rightarrow> 'r \<Rightarrow> (stream_error + string) \<times> 'r" where
  "publish_max_len marshal carrier rdb stream vals max_len r =
    (case rdb of None \<Rightarrow> (Inl client_required, r)
     | Some api \<Rightarrow>
        (case validate_stream_name stream of Some e \<Rightarrow> (Inl e, r)
         | None \<Rightarrow>
            (let vals = inject_message_context carrier vals
             in case validate_message_values marshal vals of Some e \<Rightarrow> (Inl e, r)
                | None \<Rightarrow> sa_add api stream vals max_len (max_len > 0) r)))"

definition publish ::
  "'v marshal \<Rightarrow> (string \<times> string) list \<Rightarrow> ('v, 'r) stream_api option \<Rightarrow> string \<Rightarrow>
    'v fields_map \<Rightarrow> 'r \<Rightarrow> (stream_error + string) \<times> 'r" where
  "publish marshal carrier rdb stream vals r = publish_max_len marshal carrier rdb stream vals 0 r"

definition dead_letter_values :: "'v stream_message \<Rightarrow> 'v fields_map \<Rightarrow> 'v fields_map" where
  "dead_letter_values msg extra =
    (let vals = fold (\<lambda>(k, v). AList.update k v) (sm_values msg) [];
         vals = fold (\<lambda>(k, v). AList.update k v) extra vals;
         vals = AList.update ''source_stream'' (FieldString (sm_stream msg)) vals
     in AList.update ''source_id'' (FieldString (sm_id msg)) vals)"

definition add_dead_letter ::
  "'v marshal \<Rightarrow> (string \<times> string) list \<Rightarrow> ('v, 'r) stream_api option \<Rightarrow> string \<Rightarrow>
    'v stream_message \<Rightarrow> 'v fields_map \<Rightarrow> bool \<Rightarrow> string \<Rightarrow> 'r \<Rightarrow>
    ((stream_error + string) \<times> 'r) option" where
  "add_dead_letter marshal carrier rdb dead msg extra with_ack grp r =
    (let vals = dead_letter_values msg extra
     in case validate_message_values marshal vals of Some e \<Rightarrow> Some (Inl e, r)
        | None \<Rightarrow>
           if \<not> with_ack then Some (publish marshal carrier rdb dead vals r)
           else if grp = [] \<or> sm_stream msg = [] \<or> sm_id msg = []
           then Some (Inl (StreamErr ''stream: group, source stream, and source ID are required''), r)
           else case rdb of None \<Rightarrow> None
             | Some api \<Rightarrow> Some (sa_add_and_ack api dead vals (sm_stream msg) grp (sm_id msg) r))"

definition to_dead_letter ::
  "'v marshal \<Rightarrow> (string \<times> string) list \<Rightarrow> ('v, 'r) stream_api option \<Rightarrow> string \<Rightarrow>
    'v stream_message \<Rightarrow> 'v fields_map \<Rightarrow> 'r \<Rightarrow> ((stream_error + string) \<times> 'r) option" where
  "to_dead_letter marshal carrier rdb dead msg extra r =
    add_dead_letter marshal carrier rdb dead msg extra False [] r"

definition dead_letter_and_ack ::
  "'v marshal \<Rightarrow> (string \<times> string) list \<Rightarrow> ('v, 'r) stream_api option \<Rightarrow> string \<Rightarrow> string \<Rightarrow>
    'v stream_message \<Rightarrow> 'v fields_map \<Rightarrow> 'r \<Rightarrow> ((stream_error + string) \<times> 'r) option" where
  "dead_letter_and_ack marshal carrier rdb grp dead msg extra r =
    add_dead_letter marshal carrier rdb dead msg extra True grp r"

subsection \<open>What the helpers hand over\<close>

lemma first_invalid_None_iff:
  "first_invalid marshal ms = None \<longleftrightarrow>
    (\<forall>m \<in> set ms. validate_message_values marshal (sm_values m) = None)"
  by (induction ms) (auto split: option.splits)

definition batch_ok :: "'v marshal \<Rightarrow> 'v stream_message list \<Rightarrow> bool" where
  "batch_ok marshal ms \<longleftrightarrow> (\<forall>m \<in> set ms. validate_message_values marshal (sm_values m) = None)"

lemma read_group_valid:
  assumes "read_group marshal rdb cfg r = (Inr ms, r')"
  shows "batch_ok marshal ms"
proof -
  have "ms = [] \<or> first_invalid marshal ms = None"
    using assms by (auto simp: read_group_def Let_def split: option.splits if_splits prod.splits sum.splits)
  then show ?thesis
    by (auto simp: batch_ok_def first_invalid_None_iff)
qed

lemma claim_stale_valid:
  assumes "claim_stale marshal rdb cfg r = ((ms, nxt, None), r')"
  shows "batch_ok marshal ms"
proof -
  have "ms = [] \<or> first_invalid marshal ms = None"
    using assms by (auto simp: claim_stale_def Let_def split: option.splits if_splits prod.splits)
  then show ?thesis
    by (auto simp: batch_ok_def first_invalid_None_iff)
qed

lemma fold_update_map_of:
  "map_of (fold (\<lambda>(k, v). AList.update k v) xs ys) = map_of ys ++ map_of (rev xs)"
  by (induction xs arbitrary: ys)
    (auto simp: update_conv' fun_eq_iff map_add_def split: option.split)

text \<open>
  A dead letter names the stream and the identifier of the message it was made from,
  also when the message or the extra fields use those names; every other field has its
  extra value if there is one and the message's value otherwise.
\<close>

theorem dead_letter_keeps_origin:
  assumes "distinct (map fst (sm_values msg))" and "distinct (map fst extra)"
  shows "map_of (dead_letter_values msg extra) ''source_stream'' = Some (FieldString (sm_stream msg))
    \<and> map_of (dead_letter_values msg extra) ''source_id'' = Some (FieldString (sm_id msg))
    \<and> (\<forall>k. k \<noteq> ''source_stream'' \<and> k \<noteq> ''source_id'' \<longrightarrow>
        map_of (dead_letter_values msg extra) k =
          (case map_of extra k of Some v \<Rightarrow> Some v | None \<Rightarrow> map_of (sm_values msg) k))"
  using assms
  by (simp add: dead_letter_values_def Let_def update_conv' fold_update_map_of map_add_def
      map_of_rev_distinct split: option.split)

text \<open>A forged origin in the message's own fields is replaced.\<close>

definition demo_message :: "nat stream_message" where
  "demo_message = \<lparr>sm_stream = ''orders'', sm_id = ''7-0'',
    sm_values = [(''source_id'', FieldString ''1-0''), (''kind'', FieldString ''paid'')]\<rparr>"

theorem dead_letter_keeps_origin_witness:
  "map_of (dead_letter_values demo_message [(''reason'', FieldOther (3 :: nat))]) ''source_id''
      = Some (FieldString ''7-0'') \<and>
   map_of (dead_letter_values demo_message [(''reason'', FieldOther 3)]) ''kind''
      = Some (FieldString ''paid'')"
  using dead_letter_keeps_origin [of demo_message "[(''reason'', FieldOther 3)]"]
  by (simp add: demo_message_def)

end
