(* ===== verification/Stream_Consumer.thy ===== *)
theory Stream_Consumer
  imports Stream_Group Backoff
begin

text \<open>
  The long-running consumer of \<open>contrib/stream/redis/consumer.go\<close>: the poll function that
  reads new messages and claims stale ones, and the loop around it with its backoff and its
  rate-limited reports. A run is driven by what the outside does in each round: the clock,
  the jitter, the end of the context and the answers of the server.
\<close>

subsection \<open>Configuration\<close>

record group_consumer_config =
  gcc_name :: string
  gcc_stream :: string
  gcc_group :: string
  gcc_consumer :: string
  gcc_start_id :: string
  gcc_count :: int
  gcc_block :: duration
  gcc_claim_interval :: duration
  gcc_claim_min_idle :: duration
  gcc_skip_ensure :: bool
  gcc_disable_claim :: bool
  gcc_initial_backoff :: duration
  gcc_max_backoff :: duration
  gcc_report_interval :: duration
  gcc_jitter_fraction :: rat
  gcc_disable_jitter :: bool

definition validate_group_consumer ::
  "'api option \<Rightarrow> group_consumer_config \<Rightarrow> 'h option \<Rightarrow> stream_error option" where
  "validate_group_consumer client cfg handle =
    (if client = None then Some (StreamErr ''stream: consumer redis client is required'')
     else if trim_space (gcc_stream cfg) = [] \<or> trim_space (gcc_group cfg) = [] \<or>
             trim_space (gcc_consumer cfg) = []
     then Some (StreamErr ''stream: consumer stream, group, and consumer are required'')
     else if handle = None then Some (StreamErr ''stream: consumer handler is required'')
     else None)"

definition normalize_group_consumer :: "group_consumer_config \<Rightarrow> group_consumer_config" where
  "normalize_group_consumer cfg =
    (let initial = at_most (1 * minute) (default_pos (gcc_initial_backoff cfg) (250 * millisecond));
         limit = at_most (10 * minute) (default_pos (gcc_max_backoff cfg) (30 * second));
         limit = (if limit < initial then initial else limit);
         fraction = (if gcc_disable_jitter cfg then 0
                     else if gcc_jitter_fraction cfg \<le> 0 then 1 / 5 else gcc_jitter_fraction cfg);
         fraction = (if fraction > 1 then 1 else fraction)
     in cfg\<lparr>gcc_name := (if gcc_name cfg = [] then gcc_group cfg @ '':'' @ gcc_stream cfg
                      else gcc_name cfg),
       gcc_start_id := (if gcc_start_id cfg = [] then ''0'' else gcc_start_id cfg),
       gcc_count := default_pos (gcc_count cfg) default_count,
       gcc_block := default_pos (gcc_block cfg) default_block,
       gcc_claim_interval := at_most (24 * hour) (default_pos (gcc_claim_interval cfg) (30 * second)),
       gcc_claim_min_idle := at_most (24 * hour) (default_pos (gcc_claim_min_idle cfg) (30 * second)),
       gcc_initial_backoff := initial, gcc_max_backoff := limit,
       gcc_report_interval := default_pos (gcc_report_interval cfg) minute,
       gcc_jitter_fraction := fraction\<rparr>)"

subsection \<open>One poll\<close>

text \<open>An error of a poll: with the operation that failed, or the bare error of the context.\<close>

datatype poll_error = PollError string stream_error | PlainError stream_error

primrec poll_error_text :: "poll_error \<Rightarrow> string" where
  "poll_error_text (PollError operation e) = operation @ '': '' @ stream_error_text e"
| "poll_error_text (PlainError e) = stream_error_text e"

definition poll_operation :: "poll_error \<Rightarrow> string" where
  "poll_operation e = (case e of PollError operation _ \<Rightarrow> operation | PlainError _ \<Rightarrow> ''poll'')"

record consumer_poll =
  po_group_ready :: bool
  po_claim_cursor :: string

text \<open>What the \<open>select\<close> on the claim ticker finds.\<close>

datatype claim_tick = TickContext stream_error | TickClaim | TickNone

text \<open>
  The handler answers whether it panicked. The list of batches records, for each call, whether
  the messages were claimed ones.
\<close>

type_synonym ('v, 'r) stream_handler = "'v stream_message list \<Rightarrow> 'r \<Rightarrow> bool \<times> 'r"
type_synonym 'v batches = "(bool \<times> 'v stream_message list) list"

definition invoke_handler ::
  "('v, 'r) stream_handler \<Rightarrow> 'v stream_message list \<Rightarrow> 'r \<Rightarrow> stream_error option \<times> 'r" where
  "invoke_handler handle messages r =
    (let (panicked, r) = handle messages r
     in (if panicked then Some (StreamErr ''stream: consumer handler panic'') else None, r))"

definition handle_batch ::
  "('v, 'r) stream_handler \<Rightarrow> bool \<Rightarrow> 'v stream_message list \<Rightarrow> 'r \<Rightarrow>
    poll_error option \<times> 'v batches \<times> 'r" where
  "handle_batch handle claimed messages r =
    (if messages = [] then (None, [], r)
     else let (err, r) = invoke_handler handle messages r
          in (map_option (PollError ''handle'') err, [(claimed, messages)], r))"

definition consumer_reader :: "group_consumer_config \<Rightarrow> reader_config" where
  "consumer_reader cfg = \<lparr>rc_stream = gcc_stream cfg, rc_group = gcc_group cfg,
    rc_consumer = gcc_consumer cfg, rc_count = gcc_count cfg, rc_block = gcc_block cfg\<rparr>"

definition consumer_claim :: "group_consumer_config \<Rightarrow> string \<Rightarrow> claim_config" where
  "consumer_claim cfg cursor = \<lparr>cc_stream = gcc_stream cfg, cc_group = gcc_group cfg,
    cc_consumer = gcc_consumer cfg, cc_min_idle = gcc_claim_min_idle cfg, cc_start = cursor,
    cc_count = gcc_count cfg\<rparr>"

definition poll_claim ::
  "'v marshal \<Rightarrow> ('v, 'r) stream_api \<Rightarrow> group_consumer_config \<Rightarrow> ('v, 'r) stream_handler \<Rightarrow>
    claim_tick \<Rightarrow> consumer_poll \<Rightarrow> 'r \<Rightarrow> poll_error option \<times> consumer_poll \<times> 'v batches \<times> 'r" where
  "poll_claim marshal api cfg handle tick po r =
    (if gcc_disable_claim cfg then (None, po, [], r)
     else case tick of
       TickContext e \<Rightarrow> (Some (PlainError e), po, [], r)
     | TickNone \<Rightarrow> (None, po, [], r)
     | TickClaim \<Rightarrow>
         (let ((stale, nxt, err), r) =
            claim_stale marshal (Some api) (consumer_claim cfg (po_claim_cursor po)) r
          in case err of
               Some e \<Rightarrow> (Some (PollError ''claim_stale'' e), po, [], r)
             | None \<Rightarrow>
                 (let po = po\<lparr>po_claim_cursor := nxt\<rparr>;
                      (herr, given, r) = handle_batch handle True stale r
                  in (herr, po, given, r))))"

definition poll_ensure ::
  "('v, 'r) stream_api \<Rightarrow> group_consumer_config \<Rightarrow> consumer_poll \<Rightarrow> 'r \<Rightarrow>
    poll_error option \<times> consumer_poll \<times> 'r" where
  "poll_ensure api cfg po r =
    (if po_group_ready po then (None, po, r)
     else let (err, r) = ensure_group (Some api) (gcc_stream cfg) (gcc_group cfg) (gcc_start_id cfg) r
          in case err of
               Some e \<Rightarrow> (Some (PollError ''ensure_group'' e), po, r)
             | None \<Rightarrow> (None, po\<lparr>po_group_ready := True\<rparr>, r))"

definition group_poll ::
  "'v marshal \<Rightarrow> ('v, 'r) stream_api \<Rightarrow> group_consumer_config \<Rightarrow> ('v, 'r) stream_handler \<Rightarrow>
    claim_tick \<Rightarrow> consumer_poll \<Rightarrow> 'r \<Rightarrow> poll_error option \<times> consumer_poll \<times> 'v batches \<times> 'r" where
  "group_poll marshal api cfg handle tick po r =
    (let (err, po, r) = poll_ensure api cfg po r
     in case err of
          Some e \<Rightarrow> (Some e, po, [], r)
        | None \<Rightarrow>
            (let (result, r) = read_group marshal (Some api) (consumer_reader cfg) r
             in case result of
                  Inl e \<Rightarrow>
                    (Some (PollError ''read_group'' e),
                     (if contains (stream_error_text e) ''NOGROUP''
                      then po\<lparr>po_group_ready := False\<rparr> else po), [], r)
                | Inr messages \<Rightarrow>
                    (let (herr, given, r) = handle_batch handle False messages r
                     in case herr of
                          Some e \<Rightarrow> (Some e, po, given, r)
                        | None \<Rightarrow>
                            (let (err, po, given', r) = poll_claim marshal api cfg handle tick po r
                             in (err, po, given @ given', r)))))"

subsection \<open>The loop\<close>

record poll_failure =
  pf_operation :: string
  pf_error :: poll_error
  pf_attempt :: int
  pf_delay :: duration
  pf_suppressed :: int

record poll_recovery =
  pr_attempts :: int
  pr_suppressed :: int
  pr_duration :: duration

record consumer_loop =
  cl_backoff :: duration
  cl_attempts :: int
  cl_total_suppressed :: int
  cl_since_report :: int
  cl_reported :: bool
  cl_last_report :: instant
  cl_last_error :: string
  cl_outage_started :: instant

record loop_options =
  lo_initial :: duration
  lo_max :: duration
  lo_report_interval :: duration

datatype loop_event =
  Failed poll_failure | Recovered poll_recovery | Sleep duration

text \<open>
  What a round of the loop meets: the error of the poll, the clock, the jitter applied to the
  backoff, the context's error when it has ended by the time the poll returns, and the error
  of a sleep that the context cuts short.
\<close>

record poll_round =
  ro_result :: "poll_error option"
  ro_now :: instant
  ro_jitter :: "duration \<Rightarrow> duration"
  ro_context :: "stream_error option"
  ro_sleep :: "stream_error option"

definition consumer_start :: "loop_options \<Rightarrow> consumer_loop" where
  "consumer_start opts =
    \<lparr>cl_backoff = lo_initial opts, cl_attempts = 0, cl_total_suppressed = 0, cl_since_report = 0,
     cl_reported = False, cl_last_report = 0, cl_last_error = [], cl_outage_started = 0\<rparr>"

definition loop_success :: "loop_options \<Rightarrow> instant \<Rightarrow> consumer_loop \<Rightarrow> loop_event list \<times> consumer_loop"
where
  "loop_success opts now l =
    ((if cl_attempts l > 0
      then [Recovered \<lparr>pr_attempts = cl_attempts l, pr_suppressed = cl_total_suppressed l,
              pr_duration = time_sub now (cl_outage_started l)\<rparr>]
      else []),
     (consumer_start opts)\<lparr>cl_last_report := cl_last_report l\<rparr>)"

definition loop_delay :: "loop_options \<Rightarrow> (duration \<Rightarrow> duration) \<Rightarrow> duration \<Rightarrow> duration" where
  "loop_delay opts jitter backoff =
    (let delay = jitter backoff;
         delay = (if delay < 0 then 0 else delay)
     in if delay > lo_max opts then lo_max opts else delay)"

definition loop_failure ::
  "loop_options \<Rightarrow> instant \<Rightarrow> duration \<Rightarrow> poll_error \<Rightarrow> consumer_loop \<Rightarrow>
    loop_event list \<times> consumer_loop" where
  "loop_failure opts now delay err l =
    (let l = l\<lparr>cl_attempts := cl_attempts l + 1,
              cl_outage_started := (if is_zero_time (cl_outage_started l) then now
                                    else cl_outage_started l)\<rparr>;
         operation = poll_operation err;
         error_key = operation @ [CHR 0x00] @ poll_error_text err
     in if \<not> cl_reported l \<or> error_key \<noteq> cl_last_error l \<or>
           time_sub now (cl_last_report l) \<ge> lo_report_interval opts
        then ([Failed \<lparr>pf_operation = operation, pf_error = err, pf_attempt = cl_attempts l,
                 pf_delay = delay, pf_suppressed = cl_since_report l\<rparr>],
              l\<lparr>cl_reported := True, cl_last_report := now, cl_last_error := error_key,
                cl_since_report := 0\<rparr>)
        else ([], l\<lparr>cl_since_report := cl_since_report l + 1,
                   cl_total_suppressed := cl_total_suppressed l + 1\<rparr>))"

text \<open>A round: the error that ends the loop or the state of the next round, and what it did.\<close>

definition consumer_round ::
  "loop_options \<Rightarrow> poll_round \<Rightarrow> consumer_loop \<Rightarrow> loop_event list \<times> (stream_error + consumer_loop)"
where
  "consumer_round opts ro l =
    (case ro_result ro of
       None \<Rightarrow> (let (evs, l) = loop_success opts (ro_now ro) l in (evs, Inr l))
     | Some err \<Rightarrow>
        (case ro_context ro of
           Some e \<Rightarrow> ([], Inl e)
         | None \<Rightarrow>
            (let delay = loop_delay opts (ro_jitter ro) (cl_backoff l);
                 (evs, l) = loop_failure opts (ro_now ro) delay err l
             in case ro_sleep ro of
                  Some e \<Rightarrow> (evs @ [Sleep delay], Inl e)
                | None \<Rightarrow>
                    (evs @ [Sleep delay],
                     Inr (l\<lparr>cl_backoff := next_consumer_backoff (cl_backoff l) (lo_max opts)\<rparr>)))))"

fun run_consumer_loop ::
  "loop_options \<Rightarrow> poll_round list \<Rightarrow> consumer_loop \<Rightarrow> loop_event list \<times> (stream_error + consumer_loop)"
where
  "run_consumer_loop opts [] l = ([], Inr l)"
| "run_consumer_loop opts (ro # ros) l =
    (let (evs, result) = consumer_round opts ro l
     in case result of
          Inl e \<Rightarrow> (evs, Inl e)
        | Inr l \<Rightarrow> (let (evs', result) = run_consumer_loop opts ros l in (evs @ evs', result)))"

definition consumer_options :: "group_consumer_config \<Rightarrow> loop_options" where
  "consumer_options cfg = \<lparr>lo_initial = gcc_initial_backoff cfg, lo_max = gcc_max_backoff cfg,
    lo_report_interval = gcc_report_interval cfg\<rparr>"

text \<open>
  The consumer: the loop with its polls. Each round of the environment says what the claim
  ticker shows during the poll and what the loop meets after it.
\<close>

type_synonym consumer_env = "(claim_tick \<times> poll_round) list"

fun consume ::
  "'v marshal \<Rightarrow> ('v, 'r) stream_api \<Rightarrow> group_consumer_config \<Rightarrow> ('v, 'r) stream_handler \<Rightarrow>
    consumer_env \<Rightarrow> consumer_poll \<Rightarrow> consumer_loop \<Rightarrow> 'r \<Rightarrow>
    loop_event list \<times> 'v batches \<times> (stream_error + consumer_loop) \<times> 'r" where
  "consume marshal api cfg handle [] po l r = ([], [], Inr l, r)"
| "consume marshal api cfg handle ((tick, ro) # env) po l r =
    (let (err, po, given, r) = group_poll marshal api cfg handle tick po r;
         (evs, result) = consumer_round (consumer_options cfg) (ro\<lparr>ro_result := err\<rparr>) l
     in case result of
          Inl e \<Rightarrow> (evs, given, Inl e, r)
        | Inr l \<Rightarrow>
            (let (evs', given', result, r) = consume marshal api cfg handle env po l r
             in (evs @ evs', given @ given', result, r)))"

definition run_group_consumer ::
  "'v marshal \<Rightarrow> ('v, 'r) stream_api option \<Rightarrow> group_consumer_config \<Rightarrow>
    ('v, 'r) stream_handler option \<Rightarrow> consumer_env \<Rightarrow> 'r \<Rightarrow>
    loop_event list \<times> 'v batches \<times> (stream_error + consumer_loop) \<times> 'r" where
  "run_group_consumer marshal client cfg handle env r =
    (case validate_group_consumer (map_option (\<lambda>_. ()) client) cfg (map_option (\<lambda>_. ()) handle) of
       Some e \<Rightarrow> ([], [], Inl e, r)
     | None \<Rightarrow>
        (let cfg = normalize_group_consumer cfg
         in consume marshal (the client) cfg (the handle) env
              \<lparr>po_group_ready = gcc_skip_ensure cfg, po_claim_cursor = []\<rparr>
              (consumer_start (consumer_options cfg)) r))"

text \<open>What the consumer reports is a run of the loop over the results of its polls.\<close>

lemma consume_runs_loop:
  "\<exists>ros. map (\<lambda>ro. ro\<lparr>ro_result := None\<rparr>) ros = map (\<lambda>(tick, ro). ro\<lparr>ro_result := None\<rparr>) env \<and>
    (\<exists>given r'. consume marshal api cfg handle env po l r =
      (fst (run_consumer_loop (consumer_options cfg) ros l), given,
       snd (run_consumer_loop (consumer_options cfg) ros l), r'))"
proof (induction env arbitrary: po l r)
  case (Cons x env)
  obtain tick ro where x: "x = (tick, ro)" by (cases x)
  obtain err po1 given r1 where poll: "group_poll marshal api cfg handle tick po r = (err, po1, given, r1)"
    by (cases "group_poll marshal api cfg handle tick po r") auto
  obtain evs result where round:
    "consumer_round (consumer_options cfg) (ro\<lparr>ro_result := err\<rparr>) l = (evs, result)"
    by (cases "consumer_round (consumer_options cfg) (ro\<lparr>ro_result := err\<rparr>) l")
  show ?case
  proof (cases result)
    case (Inl e)
    then show ?thesis
      using poll round
      by (intro exI [of _ "(ro\<lparr>ro_result := err\<rparr>) # map snd env"]) (auto simp: x split_def)
  next
    case (Inr l1)
    from Cons.IH [of po1 l1 r1] obtain ros given' r' where
      ros: "map (\<lambda>ro. ro\<lparr>ro_result := None\<rparr>) ros = map (\<lambda>(tick, ro). ro\<lparr>ro_result := None\<rparr>) env"
      and rest: "consume marshal api cfg handle env po1 l1 r1 =
        (fst (run_consumer_loop (consumer_options cfg) ros l1), given',
         snd (run_consumer_loop (consumer_options cfg) ros l1), r')" by blast
    show ?thesis
      using poll round Inr ros rest
      by (intro exI [of _ "(ro\<lparr>ro_result := err\<rparr>) # ros"]) (auto simp: x split: prod.split)
  qed
qed simp

subsection \<open>What the handler gets\<close>






subsection \<open>Claims that fail\<close>



















subsection \<open>The delays\<close>

lemma normalized_backoffs:
  "0 < gcc_initial_backoff (normalize_group_consumer cfg)"
  "gcc_initial_backoff (normalize_group_consumer cfg) \<le> gcc_max_backoff (normalize_group_consumer cfg)"
  "gcc_max_backoff (normalize_group_consumer cfg) \<le> 10 * minute"
  "0 < gcc_report_interval (normalize_group_consumer cfg)"
  by (auto simp: normalize_group_consumer_def Let_def at_most_def default_pos_def duration_units)

lemma next_consumer_backoff_min:
  "0 < d \<Longrightarrow> d \<le> m \<Longrightarrow> next_consumer_backoff d m = min m (2 * d)"
  by (auto simp: next_consumer_backoff_def go_div_def sgn_if min_def)

lemma consumer_backoff_powers:
  assumes "0 < d" and "d \<le> m"
  shows "((\<lambda>b. next_consumer_backoff b m) ^^ k) d = min m (d * 2 ^ k)"
proof (induction k)
  case (Suc k)
  have "0 < d * 2 ^ k" using assms by simp
  then have "0 < min m (d * 2 ^ k)" and "0 < m" using assms by (simp_all add: min_def)
  then show ?case
    using Suc next_consumer_backoff_min [of "min m (d * 2 ^ k)" m] by (auto simp: min_def)
qed (use assms in simp)

lemma consumer_backoff_shift:
  "((\<lambda>b. next_consumer_backoff b m) ^^ k) (next_consumer_backoff d m) =
    next_consumer_backoff (((\<lambda>b. next_consumer_backoff b m) ^^ k) d) m"
  by (induction k) simp_all

definition failing :: "poll_round \<Rightarrow> bool" where
  "failing ro \<longleftrightarrow> ro_result ro \<noteq> None \<and> ro_context ro = None \<and> ro_sleep ro = None"

definition failures_of :: "loop_event list \<Rightarrow> poll_failure list" where
  "failures_of evs = List.map_filter (\<lambda>ev. case ev of Failed f \<Rightarrow> Some f | _ \<Rightarrow> None) evs"

definition sleeps_of :: "loop_event list \<Rightarrow> duration list" where
  "sleeps_of evs = List.map_filter (\<lambda>ev. case ev of Sleep d \<Rightarrow> Some d | _ \<Rightarrow> None) evs"

lemma events_simps [simp]:
  "failures_of [] = []" "failures_of (xs @ ys) = failures_of xs @ failures_of ys"
  "failures_of (Failed f # evs) = f # failures_of evs" "failures_of (Sleep d # evs) = failures_of evs"
  "failures_of (Recovered p # evs) = failures_of evs"
  "sleeps_of [] = []" "sleeps_of (xs @ ys) = sleeps_of xs @ sleeps_of ys"
  "sleeps_of (Failed f # evs) = sleeps_of evs" "sleeps_of (Sleep d # evs) = d # sleeps_of evs"
  "sleeps_of (Recovered p # evs) = sleeps_of evs"
  by (simp_all add: failures_of_def sleeps_of_def List.map_filter_def)

text \<open>A failing round, as one step of the loop.\<close>

lemma failing_round:
  assumes "failing ro"
  shows "\<exists>err evs l1. ro_result ro = Some err \<and>
    loop_failure opts (ro_now ro) (loop_delay opts (ro_jitter ro) (cl_backoff l)) err l = (evs, l1) \<and>
    consumer_round opts ro l =
      (evs @ [Sleep (loop_delay opts (ro_jitter ro) (cl_backoff l))],
       Inr (l1\<lparr>cl_backoff := next_consumer_backoff (cl_backoff l) (lo_max opts)\<rparr>)) \<and>
    cl_backoff l1 = cl_backoff l \<and> sleeps_of evs = []"
  using assms
  by (auto simp: failing_def consumer_round_def loop_failure_def Let_def split: if_splits)

lemma outage_sleeps:
  assumes "\<forall>ro \<in> set ros. failing ro"
  shows "\<exists>evs l'. run_consumer_loop opts ros l = (evs, Inr l') \<and>
    sleeps_of evs = map (\<lambda>k. loop_delay opts (ro_jitter (ros ! k))
      (((\<lambda>b. next_consumer_backoff b (lo_max opts)) ^^ k) (cl_backoff l))) [0..<length ros]"
  using assms
proof (induction ros arbitrary: l)
  case (Cons ro ros)
  have "failing ro" using Cons.prems by simp
  from failing_round [OF this, of opts l] obtain evs l1 where
    round: "consumer_round opts ro l =
      (evs @ [Sleep (loop_delay opts (ro_jitter ro) (cl_backoff l))],
       Inr (l1\<lparr>cl_backoff := next_consumer_backoff (cl_backoff l) (lo_max opts)\<rparr>))"
    "sleeps_of evs = []" by auto
  have upt: "[0..<length (ro # ros)] = 0 # map Suc [0..<length ros]"
    by (simp add: map_Suc_upt upt_conv_Cons del: upt_Suc)
  from Cons.IH [of "l1\<lparr>cl_backoff := next_consumer_backoff (cl_backoff l) (lo_max opts)\<rparr>"] Cons.prems
  show ?case
    unfolding upt using round
    by (auto simp: o_def consumer_backoff_shift simp del: upt_Suc)
qed simp

subsection \<open>The reports\<close>

text \<open>
  Every failure of an outage is either reported or counted as suppressed, and a report carries
  the failures suppressed since the one before it.
\<close>

lemma loop_failure_counts:
  assumes "loop_failure opts now delay err l = (evs, l')"
  shows "cl_attempts l' = cl_attempts l + 1"
    "cl_total_suppressed l' + int (length (failures_of evs)) = cl_total_suppressed l + 1"
    "sum_list (map pf_suppressed (failures_of evs)) + cl_since_report l' + cl_total_suppressed l
      = cl_since_report l + cl_total_suppressed l'"
    "cl_outage_started l' = (if cl_outage_started l = 0 then now else cl_outage_started l)"
  using assms by (auto simp: loop_failure_def Let_def is_zero_time_def split: if_splits)

definition loop_tally :: "consumer_loop \<Rightarrow> loop_event list \<Rightarrow> nat \<Rightarrow> consumer_loop \<Rightarrow> bool" where
  "loop_tally l evs n l' \<longleftrightarrow>
    cl_attempts l' = cl_attempts l + int n \<and>
    cl_total_suppressed l' + int (length (failures_of evs)) = cl_total_suppressed l + int n \<and>
    sum_list (map pf_suppressed (failures_of evs)) + cl_since_report l' + cl_total_suppressed l
      = cl_since_report l + cl_total_suppressed l'"

lemma outage_tally:
  assumes "\<forall>ro \<in> set ros. failing ro"
  shows "\<exists>evs l'. run_consumer_loop opts ros l = (evs, Inr l') \<and> loop_tally l evs (length ros) l' \<and>
    (cl_outage_started l \<noteq> 0 \<longrightarrow> cl_outage_started l' = cl_outage_started l) \<and>
    (cl_outage_started l = 0 \<and> ros \<noteq> [] \<and> ro_now (hd ros) \<noteq> 0 \<longrightarrow>
      cl_outage_started l' = ro_now (hd ros))"
  using assms
proof (induction ros arbitrary: l)
  case Nil
  then show ?case by (simp add: loop_tally_def)
next
  case (Cons ro ros)
  have "failing ro" using Cons.prems by simp
  from failing_round [OF this, of opts l] obtain err evs l1 where
    failure: "loop_failure opts (ro_now ro) (loop_delay opts (ro_jitter ro) (cl_backoff l)) err l = (evs, l1)"
    and round: "consumer_round opts ro l =
      (evs @ [Sleep (loop_delay opts (ro_jitter ro) (cl_backoff l))],
       Inr (l1\<lparr>cl_backoff := next_consumer_backoff (cl_backoff l) (lo_max opts)\<rparr>))" by auto
  from Cons.IH [of "l1\<lparr>cl_backoff := next_consumer_backoff (cl_backoff l) (lo_max opts)\<rparr>"] Cons.prems
  obtain evs' l' where
    "run_consumer_loop opts ros (l1\<lparr>cl_backoff := next_consumer_backoff (cl_backoff l) (lo_max opts)\<rparr>)
      = (evs', Inr l')"
    "loop_tally l1 evs' (length ros) l'" "cl_outage_started l1 \<noteq> 0 \<longrightarrow> cl_outage_started l' = cl_outage_started l1"
    by (auto simp: loop_tally_def)
  with loop_failure_counts [OF failure] round show ?case
    by (auto simp: loop_tally_def)
qed

lemma outage_since_nonneg:
  assumes "run_consumer_loop opts ros l = (evs, Inr l')" and "0 \<le> cl_since_report l"
    and "\<forall>ro \<in> set ros. failing ro"
  shows "0 \<le> cl_since_report l'"
  using assms
proof (induction ros arbitrary: l evs)
  case (Cons ro ros)
  have "failing ro" using Cons.prems(3) by simp
  from failing_round [OF this, of opts l] obtain err evs1 l1 where
    failure: "loop_failure opts (ro_now ro) (loop_delay opts (ro_jitter ro) (cl_backoff l)) err l = (evs1, l1)"
    and round: "consumer_round opts ro l =
      (evs1 @ [Sleep (loop_delay opts (ro_jitter ro) (cl_backoff l))],
       Inr (l1\<lparr>cl_backoff := next_consumer_backoff (cl_backoff l) (lo_max opts)\<rparr>))" by auto
  have "0 \<le> cl_since_report l1"
    using failure Cons.prems(2) by (auto simp: loop_failure_def Let_def split: if_splits)
  with Cons round show ?case
    by (auto split: prod.splits)
qed simp

lemma run_consumer_append:
  "run_consumer_loop opts (ros @ ros') l =
    (case run_consumer_loop opts ros l of
       (evs, Inl e) \<Rightarrow> (evs, Inl e)
     | (evs, Inr l1) \<Rightarrow> (let (evs', res) = run_consumer_loop opts ros' l1 in (evs @ evs', res)))"
  by (induction ros arbitrary: l) (auto simp: Let_def split: prod.splits sum.splits)

text \<open>Reports of one and the same error: each but the first waits for the report interval.\<close>

lemma sorted_le_last: "sorted (map f xs) \<Longrightarrow> x \<in> set xs \<Longrightarrow> f x \<le> f (last xs)" for f :: "'b \<Rightarrow> int"
  by (induction xs) auto

definition same_error :: "poll_error \<Rightarrow> poll_round \<Rightarrow> bool" where
  "same_error err ro \<longleftrightarrow> failing ro \<and> ro_result ro = Some err"

lemma loop_failure_report:
  assumes "loop_failure opts now delay err l = (evs, l')"
    and "cl_reported l" and "cl_last_error l = poll_operation err @ [CHR 0x00] @ poll_error_text err"
    and "0 < lo_report_interval opts" and "lo_report_interval opts \<le> max_int64"
  shows "cl_reported l'" "cl_last_error l' = cl_last_error l"
    "int (length (failures_of evs)) * lo_report_interval opts + cl_last_report l \<le>
      max (cl_last_report l) (cl_last_report l')"
    "cl_last_report l' = cl_last_report l \<or> cl_last_report l' = now"
  using assms time_sub_less_iff [of "lo_report_interval opts" now "cl_last_report l"]
  by (auto simp: loop_failure_def Let_def min_int64_def not_less split: if_splits)

lemma same_error_reports:
  assumes "\<forall>ro \<in> set ros. same_error err ro" and "sorted (map ro_now ros)"
    and "\<forall>ro \<in> set ros. cl_last_report l \<le> ro_now ro \<and> ro_now ro \<le> t" and "cl_last_report l \<le> t"
    and "cl_reported l" and "cl_last_error l = poll_operation err @ [CHR 0x00] @ poll_error_text err"
    and "0 < lo_report_interval opts" and "lo_report_interval opts \<le> max_int64"
  shows "int (length (failures_of (fst (run_consumer_loop opts ros l)))) * lo_report_interval opts
    \<le> t - cl_last_report l"
  using assms
proof (induction ros arbitrary: l)
  case (Cons ro ros)
  have "failing ro" using Cons.prems(1) by (simp add: same_error_def)
  from failing_round [OF this, of opts l] Cons.prems(1) obtain evs l1 where
    failure: "loop_failure opts (ro_now ro) (loop_delay opts (ro_jitter ro) (cl_backoff l)) err l = (evs, l1)"
    and round: "consumer_round opts ro l =
      (evs @ [Sleep (loop_delay opts (ro_jitter ro) (cl_backoff l))],
       Inr (l1\<lparr>cl_backoff := next_consumer_backoff (cl_backoff l) (lo_max opts)\<rparr>))"
    by (auto simp: same_error_def)
  note report = loop_failure_report [OF failure Cons.prems(5-8)]
  define l2 where "l2 = l1\<lparr>cl_backoff := next_consumer_backoff (cl_backoff l) (lo_max opts)\<rparr>"
  have "int (length (failures_of (fst (run_consumer_loop opts ros l2)))) * lo_report_interval opts
      \<le> t - cl_last_report l2"
    using Cons.prems report by (intro Cons.IH) (auto simp: l2_def)
  moreover have "cl_last_report l \<le> cl_last_report l1"
    using report(4) Cons.prems(3) by auto
  ultimately show ?case
    using round report(3)
    by (auto simp: l2_def [symmetric] algebra_simps split: prod.split)
      (simp add: l2_def)
qed simp

subsection \<open>Properties\<close>

text \<open>
  During an outage of any length the consumer polls on, and its n-th sleep is what the
  jitter makes of the n-th power-of-two multiple of the initial backoff, capped by the
  maximal one; whatever the jitter does, a sleep lasts at most the maximal backoff, which a
  normalised configuration limits to ten minutes.
\<close>

theorem consumer_delays:
  assumes "opts = consumer_options (normalize_group_consumer cfg)"
    and "\<forall>ro \<in> set ros. failing ro"
  shows "\<exists>evs l. run_consumer_loop opts ros (consumer_start opts) = (evs, Inr l) \<and>
    sleeps_of evs = map (\<lambda>k. loop_delay opts (ro_jitter (ros ! k))
      (min (lo_max opts) (lo_initial opts * 2 ^ k))) [0..<length ros] \<and>
    (\<forall>d \<in> set (sleeps_of evs). 0 \<le> d \<and> d \<le> lo_max opts) \<and> lo_max opts \<le> 10 * minute"
proof -
  have range: "0 < lo_initial opts" "lo_initial opts \<le> lo_max opts" "lo_max opts \<le> 10 * minute"
    using normalized_backoffs [of cfg] by (simp_all add: assms(1) consumer_options_def)
  have delay: "0 \<le> loop_delay opts j d \<and> loop_delay opts j d \<le> lo_max opts" for j d
    using range by (auto simp: loop_delay_def Let_def)
  obtain evs l where "run_consumer_loop opts ros (consumer_start opts) = (evs, Inr l)"
    and sleeps: "sleeps_of evs = map (\<lambda>k. loop_delay opts (ro_jitter (ros ! k))
      (((\<lambda>b. next_consumer_backoff b (lo_max opts)) ^^ k) (lo_initial opts))) [0..<length ros]"
    using outage_sleeps [OF assms(2), of opts "consumer_start opts"]
    by (auto simp: consumer_start_def)
  moreover have "\<forall>d \<in> set (sleeps_of evs). 0 \<le> d \<and> d \<le> lo_max opts"
    unfolding sleeps using delay by auto
  ultimately show ?thesis
    using range consumer_backoff_powers [OF range(1,2)] by simp
qed

definition demo_consumer_config :: group_consumer_config where
  "demo_consumer_config = \<lparr>gcc_name = [], gcc_stream = ''orders'', gcc_group = ''billing'',
    gcc_consumer = ''b1'', gcc_start_id = [], gcc_count = 0, gcc_block = 0,
    gcc_claim_interval = 0, gcc_claim_min_idle = 0, gcc_skip_ensure = False,
    gcc_disable_claim = False, gcc_initial_backoff = 40 * second, gcc_max_backoff = 100 * second,
    gcc_report_interval = 0, gcc_jitter_fraction = 0, gcc_disable_jitter = True\<rparr>"

definition demo_round :: "instant \<Rightarrow> poll_error option \<Rightarrow> poll_round" where
  "demo_round now result = \<lparr>ro_result = result, ro_now = now, ro_jitter = id, ro_context = None,
    ro_sleep = None\<rparr>"

abbreviation demo_options :: loop_options where
  "demo_options \<equiv> consumer_options (normalize_group_consumer demo_consumer_config)"

lemma demo_options_eq:
  "demo_options = \<lparr>lo_initial = 40 * second, lo_max = 100 * second, lo_report_interval = minute\<rparr>"
  by (simp add: consumer_options_def normalize_group_consumer_def Let_def demo_consumer_config_def
      at_most_def default_pos_def duration_units)

abbreviation demo_failure :: "instant \<Rightarrow> poll_round" where
  "demo_failure now \<equiv> demo_round now (Some (PollError ''read_group'' (RedisErr ''down'')))"

lemma demo_round_simps [simp]:
  "ro_now (demo_round now res) = now" "ro_result (demo_round now res) = res"
  by (simp_all add: demo_round_def)

lemma demo_failing [simp]: "failing (demo_failure now)"
  by (simp add: failing_def demo_round_def)

theorem consumer_delays_witness:
  "\<exists>evs l. run_consumer_loop demo_options [demo_failure 1, demo_failure 2, demo_failure 3]
      (consumer_start demo_options) = (evs, Inr l) \<and>
    sleeps_of evs = [40 * second, 80 * second, 100 * second]"
proof -
  have "\<forall>ro \<in> set [demo_failure 1, demo_failure 2, demo_failure 3]. failing ro"
    by simp
  from consumer_delays [OF refl this, of demo_consumer_config] obtain evs l where
    run: "run_consumer_loop demo_options [demo_failure 1, demo_failure 2, demo_failure 3]
      (consumer_start demo_options) = (evs, Inr l)"
    and sleeps: "sleeps_of evs = map (\<lambda>k. loop_delay demo_options
        (ro_jitter ([demo_failure 1, demo_failure 2, demo_failure 3] ! k))
        (min (lo_max demo_options) (lo_initial demo_options * 2 ^ k)))
      [0..<length [demo_failure 1, demo_failure 2, demo_failure 3]]" by blast
  have "sleeps_of evs = [40 * second, 80 * second, 100 * second]"
    unfolding sleeps demo_options_eq
    by (simp add: numeral_3_eq_3 demo_round_def loop_delay_def duration_units)
  with run show ?thesis by blast
qed

text \<open>
  C39. The recovery that ends an outage reports exactly how many polls failed, how many of
  them were not reported as they happened, and the time since the first of them; the reports
  made on the way carry at most that many suppressed failures, and the loop is then as at its
  start, apart from the time of its last report.
\<close>

theorem consumer_recovery_report:
  assumes "\<forall>ro \<in> set ros. failing ro" and "ros \<noteq> []" and "ro_now (hd ros) \<noteq> 0"
    and "ro_result ok = None" and "l = (consumer_start opts)\<lparr>cl_last_report := t\<rparr>"
  shows "\<exists>evs t'. run_consumer_loop opts (ros @ [ok]) l =
    (evs @ [Recovered \<lparr>pr_attempts = int (length ros),
        pr_suppressed = int (length ros) - int (length (failures_of evs)),
        pr_duration = time_sub (ro_now ok) (ro_now (hd ros))\<rparr>],
     Inr ((consumer_start opts)\<lparr>cl_last_report := t'\<rparr>))
    \<and> sum_list (map pf_suppressed (failures_of evs)) \<le> int (length ros) - int (length (failures_of evs))"
proof -
  obtain evs l' where run: "run_consumer_loop opts ros l = (evs, Inr l')"
    and tally: "loop_tally l evs (length ros) l'" "cl_outage_started l' = ro_now (hd ros)"
    using outage_tally [OF assms(1), of opts l] assms(2,3,5) by (auto simp: consumer_start_def)
  have counts: "cl_attempts l' = int (length ros)"
    "cl_total_suppressed l' = int (length ros) - int (length (failures_of evs))"
    "sum_list (map pf_suppressed (failures_of evs)) + cl_since_report l' = cl_total_suppressed l'"
    using tally(1) assms(5) by (simp_all add: loop_tally_def consumer_start_def)
  have "0 \<le> cl_since_report l'"
    using outage_since_nonneg [OF run _ assms(1)] assms(5) by (simp add: consumer_start_def)
  moreover have "run_consumer_loop opts (ros @ [ok]) l = (evs @ fst (loop_success opts (ro_now ok) l'),
      Inr ((consumer_start opts)\<lparr>cl_last_report := cl_last_report l'\<rparr>))"
    using run assms(4) by (simp add: run_consumer_append consumer_round_def loop_success_def)
  ultimately show ?thesis
    using counts tally(2) assms(2) by (auto simp: loop_success_def)
qed

theorem consumer_recovery_report_witness:
  "\<exists>evs t'. run_consumer_loop demo_options [demo_failure 5, demo_failure 6, demo_round 9 None]
      (consumer_start demo_options) =
    (evs @ [Recovered \<lparr>pr_attempts = 2, pr_suppressed = 2 - int (length (failures_of evs)), pr_duration = 4\<rparr>],
     Inr ((consumer_start demo_options)\<lparr>cl_last_report := t'\<rparr>))"
proof -
  have "time_sub 9 5 = 4"
    by (simp add: time_sub_def min_int64_def max_int64_def)
  moreover have "consumer_start demo_options = (consumer_start demo_options)\<lparr>cl_last_report := 0\<rparr>"
    by (simp add: consumer_start_def)
  ultimately show ?thesis
    using consumer_recovery_report [of "[demo_failure 5, demo_failure 6]" "demo_round 9 None"
        "consumer_start demo_options" 0 demo_options]
    by (auto simp del: run_consumer_loop.simps)
qed

text \<open>
  While one and the same error repeats, the reports after the first are at least the
  report interval apart: their number times the interval is at most the time between the
  first and the last failure.
\<close>

theorem consumer_reports_limited:
  assumes "\<forall>ro \<in> set (first # ros). same_error err ro" and "sorted (map ro_now (first # ros))"
    and "l = (consumer_start opts)\<lparr>cl_last_report := t\<rparr>"
    and "0 < lo_report_interval opts" and "lo_report_interval opts \<le> max_int64"
  shows "\<exists>f fs. failures_of (fst (run_consumer_loop opts (first # ros) l)) = f # fs \<and>
    pf_attempt f = 1 \<and> pf_error f = err \<and>
    int (length fs) * lo_report_interval opts \<le> ro_now (last (first # ros)) - ro_now first"
proof -
  let ?l1 = "l\<lparr>cl_attempts := 1, cl_outage_started := ro_now first, cl_reported := True,
    cl_last_report := ro_now first, cl_last_error := poll_operation err @ [CHR 0x00] @ poll_error_text err,
    cl_since_report := 0, cl_backoff := next_consumer_backoff (cl_backoff l) (lo_max opts)\<rparr>"
  have first: "failures_of (fst (consumer_round opts first l)) =
      [\<lparr>pf_operation = poll_operation err, pf_error = err, pf_attempt = 1,
        pf_delay = loop_delay opts (ro_jitter first) (cl_backoff l), pf_suppressed = 0\<rparr>]"
    "snd (consumer_round opts first l) = Inr ?l1"
    using assms(1,3)
    by (auto simp: same_error_def failing_def consumer_round_def loop_failure_def Let_def
        consumer_start_def is_zero_time_def)
  have "\<forall>ro \<in> set ros. ro_now first \<le> ro_now ro \<and> ro_now ro \<le> ro_now (last (first # ros))"
    using assms(2) by (auto simp: sorted_le_last)
  then have "int (length (failures_of (fst (run_consumer_loop opts ros ?l1)))) * lo_report_interval opts
      \<le> ro_now (last (first # ros)) - ro_now first"
    using assms same_error_reports [of ros err ?l1 "ro_now (last (first # ros))" opts]
    by (cases ros) (auto simp: sorted_le_last)
  with first show ?thesis
    by (cases "consumer_round opts first l") (auto split: prod.split)
qed

theorem consumer_reports_limited_witness:
  "\<exists>f fs. failures_of (fst (run_consumer_loop demo_options
      [demo_failure 1, demo_failure (30 * second), demo_failure (59 * second)]
      (consumer_start demo_options))) = f # fs \<and> int (length fs) * minute \<le> 59 * second - 1"
proof -
  have "consumer_start demo_options = (consumer_start demo_options)\<lparr>cl_last_report := 0\<rparr>"
    by (simp add: consumer_start_def)
  moreover have "lo_report_interval demo_options = minute"
    by (simp add: demo_options_eq)
  ultimately show ?thesis
    using consumer_reports_limited [of "demo_failure 1"
        "[demo_failure (30 * second), demo_failure (59 * second)]"
        "PollError ''read_group'' (RedisErr ''down'')" "consumer_start demo_options" 0 demo_options]
    by (auto simp: same_error_def duration_units max_int64_def simp del: run_consumer_loop.simps)
qed






end
