(* ===== verification/Registry_Events.thy ===== *)
theory Registry_Events
  imports Registry_Service
begin

text \<open>
  The contract between a registry backend and those who follow its \<open>Watch\<close> channel: a
  follower that keeps a map of instances, adds what a put event carries and drops what a
  delete event names, holds at any moment what the backend knows.
\<close>

type_synonym service_map = "string \<rightharpoonup> service"

primrec apply_event :: "event_type \<Rightarrow> service \<Rightarrow> service_map \<Rightarrow> service_map" where
  "apply_event EventPut svc m = m(svc_instance svc \<mapsto> svc)"
| "apply_event EventDelete svc m = m(svc_instance svc := None)"

definition apply_events :: "event list \<Rightarrow> service_map \<Rightarrow> service_map" where
  "apply_events = fold (\<lambda>e. apply_event (ev_type e) (ev_service e))"

lemma apply_events_simps [simp]:
  "apply_events [] m = m"
  "apply_events (e # es) m = apply_events es (apply_event (ev_type e) (ev_service e) m)"
  "apply_events (es @ es') m = apply_events es' (apply_events es m)"
  by (simp_all add: apply_events_def)

abbreviation put_event :: "service \<Rightarrow> event" where
  "put_event svc \<equiv> \<lparr>ev_type = EventPut, ev_service = svc\<rparr>"

abbreviation delete_event :: "service \<Rightarrow> event" where
  "delete_event svc \<equiv> \<lparr>ev_type = EventDelete, ev_service = svc\<rparr>"

lemma apply_puts:
  "apply_events (map put_event ss) m = m ++ map_of (rev (map (\<lambda>s. (svc_instance s, s)) ss))"
  by (induction ss arbitrary: m) (auto simp: fun_eq_iff map_add_def split: option.split)

lemma apply_deletes:
  "apply_events (map delete_event ss) m = (\<lambda>i. if i \<in> svc_instance ` set ss then None else m i)"
  by (induction ss arbitrary: m) (auto simp: fun_eq_iff)

definition bare_service :: "string \<Rightarrow> string \<Rightarrow> service" where
  "bare_service name i = \<lparr>svc_name = name, svc_version = [], svc_instance = i, svc_addr = [],
    svc_grpc_addr = [], svc_meta = None, svc_register_at = 0\<rparr>"

text \<open>The maps that the backends keep, as association lists from identifiers.\<close>

type_synonym known_services = "(string \<times> service) list"

definition known_ok :: "known_services \<Rightarrow> bool" where
  "known_ok known \<longleftrightarrow> (\<forall>(i, svc) \<in> set known. svc_instance svc = i)"

definition known_from :: "service list \<Rightarrow> known_services" where
  "known_from svcs = fold (\<lambda>svc. AList.update (svc_instance svc) svc) svcs []"

lemma known_ok_Nil [simp]: "known_ok []"
  by (simp add: known_ok_def)

lemma known_ok_update: "known_ok known \<Longrightarrow> svc_instance svc = i \<Longrightarrow> known_ok (AList.update i svc known)"
  by (induction known) (auto simp: known_ok_def)

lemma known_ok_services: "known_ok known \<Longrightarrow>
    known_ok (fold (\<lambda>svc. AList.update (svc_instance svc) svc) svcs known)"
  by (induction svcs arbitrary: known) (simp_all add: known_ok_update)

lemma known_from_ok [simp]: "known_ok (known_from svcs)"
  by (simp add: known_from_def known_ok_services)

lemma fold_update_services:
  "map_of (fold (\<lambda>svc. AList.update (svc_instance svc) svc) svcs known) =
    apply_events (map put_event svcs) (map_of known)"
  by (induction svcs arbitrary: known) (simp_all add: update_conv')

lemma known_from_map:
  "map_of (known_from svcs) = map_of (rev (map (\<lambda>s. (svc_instance s, s)) svcs))"
  using fold_update_services [of svcs "[]"] by (simp add: known_from_def apply_puts)

text \<open>The instances a backend no longer sees, which it announces by delete events.\<close>

lemma gone_instances:
  assumes "known_ok known"
  shows "svc_instance ` set (map snd (filter (\<lambda>(i, svc). map_of current i = None) known)) =
    {i. map_of current i = None \<and> map_of known i \<noteq> None}"
  using assms by (force simp: known_ok_def map_of_eq_None_iff image_iff)

text \<open>
  A feed reacts to an input (a snapshot, a batch of changes) with events and a new state, of
  which \<open>known\<close> is the map it believes in. Its one law is that its events carry a follower
  from the old map to the new one; then a follower never diverges, however long it follows.
\<close>

fun run_feed :: "('i \<Rightarrow> 's \<Rightarrow> event list \<times> 's) \<Rightarrow> 'i list \<Rightarrow> 's \<Rightarrow> event list \<times> 's" where
  "run_feed react [] s = ([], s)"
| "run_feed react (i # is) s =
    (let (es, s') = react i s; (es', s'') = run_feed react is s' in (es @ es', s''))"

locale event_feed =
  fixes react :: "'i \<Rightarrow> 's \<Rightarrow> event list \<times> 's"
    and known :: "'s \<Rightarrow> service_map"
    and feed_ok :: "'s \<Rightarrow> bool"
    and input_ok :: "'i \<Rightarrow> bool"
  assumes react_follows: "feed_ok s \<Longrightarrow> input_ok i \<Longrightarrow> react i s = (es, s') \<Longrightarrow>
      apply_events es (known s) = known s'"
    and react_ok: "feed_ok s \<Longrightarrow> input_ok i \<Longrightarrow> react i s = (es, s') \<Longrightarrow> feed_ok s'"
begin

lemma run_feed_ok:
  "feed_ok s \<Longrightarrow> list_all input_ok is \<Longrightarrow> run_feed react is s = (es, s') \<Longrightarrow> feed_ok s'"
  by (induction "is" arbitrary: s es) (auto split: prod.splits dest: react_ok)

lemma follower_in_sync:
  "feed_ok s \<Longrightarrow> list_all input_ok is \<Longrightarrow> run_feed react is s = (es, s') \<Longrightarrow>
    apply_events es (known s) = known s'"
proof (induction "is" arbitrary: s es)
  case (Cons i "is")
  obtain es1 s1 es2 where one: "react i s = (es1, s1)" and rest: "run_feed react is s1 = (es2, s')"
    and "es = es1 @ es2"
    using Cons.prems(3) by (auto split: prod.splits)
  moreover have ok: "feed_ok s1" and "apply_events es1 (known s) = known s1"
    using react_ok [OF Cons.prems(1) _ one] react_follows [OF Cons.prems(1) _ one] Cons.prems(2) by simp_all
  ultimately show ?case
    using Cons.IH [OF ok _ rest] Cons.prems(2) by simp
qed simp

end

end
