(* ===== verification/Etcd_Watch.thy ===== *)
theory Etcd_Watch
  imports Registry_Events
begin

text \<open>
  Discovery and watching on etcd, \<open>contrib/registry/etcd/registry.go\<close>: what a key and a value
  say about an instance, the instances of a range read, and the loop of \<open>Watch\<close> as a
  reaction to the snapshots and the watch responses it meets. A connection that breaks shows
  as a new snapshot. The JSON decoder is a parameter; the Go map \<open>known\<close> is an association
  list.
\<close>

subsection \<open>Reading instances\<close>

type_synonym json_decoder = "string \<Rightarrow> goerr option \<times> service"
type_synonym etcd_kv = "string \<times> string"

definition etcd_service :: "json_decoder \<Rightarrow> string \<Rightarrow> string \<Rightarrow> etcd_kv \<Rightarrow> service option" where
  "etcd_service json pfx name kv =
    (case service_instance_from_key pfx (fst kv) of
       None \<Rightarrow> None
     | Some key_instance \<Rightarrow>
         (case unmarshal_service json (snd kv) of
            (Some err, svc) \<Rightarrow> None
          | (None, svc) \<Rightarrow>
              if svc_name svc \<noteq> name \<or> svc_instance svc \<noteq> key_instance \<or> validate_service svc \<noteq> None
              then None else Some svc))"

definition etcd_services :: "json_decoder \<Rightarrow> string \<Rightarrow> string \<Rightarrow> etcd_kv list \<Rightarrow> service list" where
  "etcd_services json pfx name kvs = List.map_filter (etcd_service json pfx name) kvs"

subsection \<open>Watching\<close>

record etcd_change =
  ec_put :: bool
  ec_kv :: "etcd_kv option"
  ec_prev :: "etcd_kv option"

definition etcd_event :: "json_decoder \<Rightarrow> string \<Rightarrow> string \<Rightarrow> etcd_change \<Rightarrow> event option" where
  "etcd_event json pfx name ev =
    (if ec_put ev then
       (case ec_kv ev of None \<Rightarrow> None
        | Some kv \<Rightarrow> map_option put_event (etcd_service json pfx name kv))
     else
       (case Option.bind (ec_prev ev) (etcd_service json pfx name) of
          Some svc \<Rightarrow> Some (delete_event svc)
        | None \<Rightarrow>
            (case ec_kv ev of None \<Rightarrow> None
             | Some kv \<Rightarrow>
                 map_option (\<lambda>i. delete_event (bare_service name i))
                   (service_instance_from_key pfx (fst kv)))))"

datatype etcd_input = EtcdSnapshot "etcd_kv list" | EtcdResponse "etcd_change list"

definition etcd_snapshot ::
  "json_decoder \<Rightarrow> string \<Rightarrow> string \<Rightarrow> etcd_kv list \<Rightarrow> known_services \<Rightarrow> event list \<times> known_services" where
  "etcd_snapshot json pfx name kvs known =
    (let svcs = etcd_services json pfx name kvs;
         current = known_from svcs;
         gone = filter (\<lambda>(i, svc). map_of current i = None) known
     in (map put_event svcs @ map (\<lambda>(i, svc). delete_event svc) gone, current))"

definition known_event :: "event \<Rightarrow> known_services \<Rightarrow> known_services" where
  "known_event e known =
    (case ev_type e of
       EventDelete \<Rightarrow> AList.delete (svc_instance (ev_service e)) known
     | EventPut \<Rightarrow> AList.update (svc_instance (ev_service e)) (ev_service e) known)"

definition etcd_response ::
  "json_decoder \<Rightarrow> string \<Rightarrow> string \<Rightarrow> etcd_change list \<Rightarrow> known_services \<Rightarrow> event list \<times> known_services" where
  "etcd_response json pfx name evs known =
    (let events = List.map_filter (etcd_event json pfx name) evs
     in (events, fold known_event events known))"

definition etcd_react ::
  "json_decoder \<Rightarrow> string \<Rightarrow> string \<Rightarrow> etcd_input \<Rightarrow> known_services \<Rightarrow> event list \<times> known_services" where
  "etcd_react json pfx name inp known =
    (case inp of EtcdSnapshot kvs \<Rightarrow> etcd_snapshot json pfx name kvs known
     | EtcdResponse evs \<Rightarrow> etcd_response json pfx name evs known)"

lemma etcd_react_simps [simp]:
  "etcd_react json pfx name (EtcdSnapshot kvs) known = etcd_snapshot json pfx name kvs known"
  "etcd_react json pfx name (EtcdResponse evs) known = etcd_response json pfx name evs known"
  by (simp_all add: etcd_react_def)

subsection \<open>The feed contract\<close>

lemma known_event_map: "map_of (known_event e known) = apply_event (ev_type e) (ev_service e) (map_of known)"
  by (cases "ev_type e") (simp_all add: known_event_def update_conv' delete_conv')

lemma fold_known_event: "map_of (fold known_event es known) = apply_events es (map_of known)"
  by (induction es arbitrary: known) (simp_all add: known_event_map)

lemma known_ok_event: "known_ok known \<Longrightarrow> known_ok (known_event e known)"
  by (cases "ev_type e")
    (auto simp: known_event_def known_ok_update, auto simp: known_ok_def AList.delete_eq)

lemma known_ok_fold: "known_ok known \<Longrightarrow> known_ok (fold known_event es known)"
  by (induction es arbitrary: known) (simp_all add: known_ok_event)

lemma etcd_snapshot_follows:
  assumes "known_ok known" and "etcd_snapshot json pfx name kvs known = (es, known')"
  shows "apply_events es (map_of known) = map_of known'"
proof -
  let ?svcs = "etcd_services json pfx name kvs"
  have current: "map_of known' = map_of (rev (map (\<lambda>s. (svc_instance s, s)) ?svcs))"
    using assms(2) by (auto simp: etcd_snapshot_def Let_def known_from_map)
  have "es = map put_event ?svcs @ map delete_event (map snd (filter (\<lambda>(i, svc). map_of known' i = None) known))"
    using assms(2) by (auto simp: etcd_snapshot_def Let_def)
  then have "apply_events es (map_of known) =
      (\<lambda>i. if i \<in> svc_instance ` set (map snd (filter (\<lambda>(i, svc). map_of known' i = None) known))
        then None else (map_of known ++ map_of known') i)"
    by (simp only: apply_events_simps apply_puts apply_deletes current)
  moreover have "svc_instance ` set (map snd (filter (\<lambda>(i, svc). map_of known' i = None) known)) =
      {i. map_of known' i = None \<and> map_of known i \<noteq> None}"
    by (rule gone_instances [OF assms(1)])
  ultimately show ?thesis
    by (auto simp: fun_eq_iff map_add_def split: option.split)
qed

interpretation etcd_feed: event_feed "etcd_react json pfx name" map_of known_ok "\<lambda>_. True"
  for json pfx name
proof
  fix s i es s'
  assume ok: "known_ok s" and react: "etcd_react json pfx name i s = (es, s')"
  show "apply_events es (map_of s) = map_of s'"
    using react etcd_snapshot_follows [OF ok]
    by (cases i) (auto simp: etcd_response_def Let_def fold_known_event)
  show "known_ok s'"
    using react ok
    by (cases i) (auto simp: etcd_response_def etcd_snapshot_def Let_def
        known_ok_fold)
qed

subsection \<open>Agreement with the server\<close>

text \<open>
  The instances that the keys of the server stand for, and the changes of the keys that a
  watch response reports. The previous value of a deleted key may be missing from the
  response, but if it is there it is the value the key had.
\<close>

type_synonym etcd_keys = "string \<rightharpoonup> string"

definition etcd_view :: "json_decoder \<Rightarrow> string \<Rightarrow> string \<Rightarrow> etcd_keys \<Rightarrow> service_map" where
  "etcd_view json pfx name keys i =
    Option.bind (keys (pfx @ i)) (\<lambda>v. etcd_service json pfx name (pfx @ i, v))"

definition change_keys :: "etcd_change \<Rightarrow> etcd_keys \<Rightarrow> etcd_keys" where
  "change_keys ev keys =
    (case ec_kv ev of None \<Rightarrow> keys
     | Some (k, v) \<Rightarrow> if ec_put ev then keys(k \<mapsto> v) else keys(k := None))"

text \<open>
  What etcd promises of a response: a change names its key, and the previous value, if there is one,
  is that of the same key.
\<close>

definition well_reported :: "etcd_change \<Rightarrow> bool" where
  "well_reported ev \<longleftrightarrow> ec_kv ev \<noteq> None \<and>
    (\<forall>kv0 \<in> set_option (ec_prev ev). \<forall>kv \<in> set_option (ec_kv ev). fst kv0 = fst kv)"

text \<open>
  The one way in which a follower lags behind: the key of a valid instance was overwritten with a
  value that is not one, and since then it has held such values only. Of this the watch reports
  nothing, so the follower keeps the last instance that was valid. A follower mirrors the changes
  \<open>evs\<close> since a read of \<open>keys\<close> if for every identifier it holds that last instance where
  there is one, and otherwise exactly what the keys say.
\<close>

definition keeps_last :: "json_decoder \<Rightarrow> string \<Rightarrow> string \<Rightarrow> etcd_keys \<Rightarrow> etcd_change list \<Rightarrow> string \<Rightarrow> service \<Rightarrow> bool" where
  "keeps_last json pfx name keys evs i svc \<longleftrightarrow>
    (\<exists>n < length evs. etcd_view json pfx name (fold change_keys (take n evs) keys) i = Some svc \<and>
      (\<forall>j. n < j \<and> j \<le> length evs \<longrightarrow>
        (\<exists>v. fold change_keys (take j evs) keys (pfx @ i) = Some v \<and>
          etcd_service json pfx name (pfx @ i, v) = None)))"

definition mirrors :: "json_decoder \<Rightarrow> string \<Rightarrow> string \<Rightarrow> etcd_keys \<Rightarrow> etcd_change list \<Rightarrow> service_map \<Rightarrow> bool" where
  "mirrors json pfx name keys evs m \<longleftrightarrow>
    (\<forall>i. (\<forall>svc. keeps_last json pfx name keys evs i svc \<longrightarrow> m i = Some svc) \<and>
      ((\<nexists>svc. keeps_last json pfx name keys evs i svc) \<longrightarrow>
        m i = etcd_view json pfx name (fold change_keys evs keys) i))"

lemma etcd_service_name: "etcd_service json pfx name kv = Some svc \<Longrightarrow> svc_name svc = name"
  by (auto simp: etcd_service_def split: option.splits if_splits prod.splits)

lemma etcd_service_key:
  assumes "etcd_service json pfx name (k, v) = Some svc" and "pfx \<noteq> []"
  shows "k = pfx @ svc_instance svc" "service_instance_from_key pfx k = Some (svc_instance svc)"
proof -
  show inst: "service_instance_from_key pfx k = Some (svc_instance svc)"
    using assms(1) by (auto simp: etcd_service_def split: option.splits if_splits prod.splits)
  show "k = pfx @ svc_instance svc"
    using inst instance_from_key_iff [OF assms(2)] by simp
qed

lemma etcd_view_instance: "etcd_view json pfx name keys i = Some svc \<Longrightarrow> pfx \<noteq> [] \<Longrightarrow> svc_instance svc = i"
  using etcd_service_key by (fastforce simp: etcd_view_def bind_eq_Some_conv)

lemma etcd_services_iff:
  "svc \<in> set (etcd_services json pfx name kvs) \<longleftrightarrow> (\<exists>kv \<in> set kvs. etcd_service json pfx name kv = Some svc)"
  by (auto simp: etcd_services_def List.map_filter_def) force

lemma etcd_services_distinct:
  assumes "pfx \<noteq> []" and "distinct (map fst kvs)"
  shows "distinct (map svc_instance (etcd_services json pfx name kvs))"
  using assms(2)
proof (induction kvs)
  case (Cons kv kvs)
  obtain k v where kv: "kv = (k, v)" by (cases kv)
  have "svc_instance svc \<notin> svc_instance ` set (etcd_services json pfx name kvs)"
    if "etcd_service json pfx name kv = Some svc" for svc
  proof
    assume "svc_instance svc \<in> svc_instance ` set (etcd_services json pfx name kvs)"
    then obtain svc' k' v' where "(k', v') \<in> set kvs"
      "etcd_service json pfx name (k', v') = Some svc'" "svc_instance svc = svc_instance svc'"
      by (auto simp: etcd_services_iff)
    moreover have "k = pfx @ svc_instance svc"
      using that kv etcd_service_key(1) [OF _ assms(1)] by simp
    moreover have "k' = pfx @ svc_instance svc'"
      using calculation(2) by (rule etcd_service_key(1) [OF _ assms(1)])
    ultimately have "k \<in> fst ` set kvs" by force
    then show False using Cons.prems kv by simp
  qed
  with Cons show ?case
    by (auto simp: etcd_services_def List.map_filter_simps split: option.split)
qed (simp add: etcd_services_def List.map_filter_simps)

lemma etcd_services_view:
  assumes pfx: "pfx \<noteq> []" and keys: "distinct (map fst kvs)"
  shows "map_of (map (\<lambda>s. (svc_instance s, s)) (etcd_services json pfx name kvs)) i = Some svc \<longleftrightarrow>
    etcd_view json pfx name (map_of kvs) i = Some svc"
proof -
  have "etcd_view json pfx name (map_of kvs) i = Some svc \<longleftrightarrow>
      (\<exists>v. (pfx @ i, v) \<in> set kvs \<and> etcd_service json pfx name (pfx @ i, v) = Some svc)"
    using keys by (auto simp: etcd_view_def bind_eq_Some_conv)
  also have "\<dots> \<longleftrightarrow> svc_instance svc = i \<and> svc \<in> set (etcd_services json pfx name kvs)"
  proof (intro iffI; elim exE conjE)
    fix v
    assume v: "(pfx @ i, v) \<in> set kvs" "etcd_service json pfx name (pfx @ i, v) = Some svc"
    then have "svc_instance svc = i"
      using etcd_service_key(1) [OF v(2) pfx] by simp
    with v show "svc_instance svc = i \<and> svc \<in> set (etcd_services json pfx name kvs)"
      by (auto simp: etcd_services_iff)
  next
    assume i: "svc_instance svc = i" "svc \<in> set (etcd_services json pfx name kvs)"
    then obtain k v where kv: "(k, v) \<in> set kvs" "etcd_service json pfx name (k, v) = Some svc"
      by (auto simp: etcd_services_iff)
    then have "k = pfx @ i"
      using etcd_service_key(1) [OF kv(2) pfx] i by simp
    with kv show "\<exists>v. (pfx @ i, v) \<in> set kvs \<and> etcd_service json pfx name (pfx @ i, v) = Some svc"
      by blast
  qed
  also have "\<dots> \<longleftrightarrow> map_of (map (\<lambda>s. (svc_instance s, s)) (etcd_services json pfx name kvs)) i = Some svc"
    using etcd_services_distinct [OF pfx keys] by (auto simp: comp_def)
  finally show ?thesis by simp
qed

lemma etcd_snapshot_view:
  assumes "pfx \<noteq> []" and "distinct (map fst kvs)"
    and "etcd_snapshot json pfx name kvs known = (es, known')"
  shows "map_of known' = etcd_view json pfx name (map_of kvs)"
proof -
  let ?entries = "map (\<lambda>s. (svc_instance s, s)) (etcd_services json pfx name kvs)"
  have "map_of known' = map_of (rev ?entries)"
    using assms(3) by (auto simp: etcd_snapshot_def Let_def known_from_map)
  also have "\<dots> = map_of ?entries"
    using etcd_services_distinct [OF assms(1,2)] by (intro map_of_rev_distinct) (simp add: comp_def)
  also have "\<dots> = etcd_view json pfx name (map_of kvs)"
    by (intro ext option_eqI) (rule etcd_services_view [OF assms(1,2)])
  finally show ?thesis .
qed

lemma etcd_view_upd:
  "etcd_view json pfx name (keys(k := x)) i =
    (if k = pfx @ i then Option.bind x (\<lambda>v. etcd_service json pfx name (k, v))
     else etcd_view json pfx name keys i)"
  by (auto simp: etcd_view_def)

lemma view_needs_instance_key:
  "service_instance_from_key pfx (pfx @ i) = None \<Longrightarrow> etcd_view json pfx name keys i = None"
  by (auto simp: etcd_view_def etcd_service_def bind_eq_None_conv)

definition event_effect :: "event option \<Rightarrow> service_map \<Rightarrow> service_map" where
  "event_effect e m = (case e of None \<Rightarrow> m | Some e \<Rightarrow> apply_event (ev_type e) (ev_service e) m)"

lemma event_effect_bind: "apply_events (List.map_filter f [ev]) m = event_effect (f ev) m"
  by (cases "f ev") (simp_all add: event_effect_def List.map_filter_simps)

text \<open>What one change does to a follower, at its own key and elsewhere.\<close>

lemma change_elsewhere:
  assumes "well_reported ev" and pfx: "pfx \<noteq> []" and "\<And>v. ec_kv ev \<noteq> Some (pfx @ i, v)"
  shows "event_effect (etcd_event json pfx name ev) m i = m i" "change_keys ev keys (pfx @ i) = keys (pfx @ i)"
proof -
  obtain k v where kv: "ec_kv ev = Some (k, v)"
    using assms(1) by (auto simp: well_reported_def)
  have k: "k \<noteq> pfx @ i"
    using assms(3) kv by auto
  have prev: "k0 = k" if "ec_prev ev = Some (k0, v0)" for k0 v0
    using assms(1) kv that by (simp add: well_reported_def)
  have service: "svc_instance svc \<noteq> i" if "etcd_service json pfx name (k, v) = Some svc" for v svc
    using etcd_service_key(1) [OF that pfx] k by auto
  have bare: "j \<noteq> i" if "service_instance_from_key pfx k = Some j" for j
    using that instance_from_key_iff [OF pfx] k by auto
  have old: "svc_instance svc \<noteq> i" if bound: "Option.bind (ec_prev ev) (etcd_service json pfx name) = Some svc" for svc
  proof -
    obtain k0 v0 where prev0: "ec_prev ev = Some (k0, v0)" "etcd_service json pfx name (k0, v0) = Some svc"
      using bound by (auto simp: bind_eq_Some_conv)
    with prev have "etcd_service json pfx name (k, v0) = Some svc" by simp
    then show ?thesis by (rule service)
  qed
  have "svc_instance (ev_service e) \<noteq> i" if "etcd_event json pfx name ev = Some e" for e
    using that old
    by (auto simp: etcd_event_def kv bare_service_def split: option.splits if_splits dest: service bare)
  then show "event_effect (etcd_event json pfx name ev) m i = m i"
    by (cases "etcd_event json pfx name ev"; cases "ev_type (the (etcd_event json pfx name ev))")
      (simp_all add: event_effect_def)
  show "change_keys ev keys (pfx @ i) = keys (pfx @ i)"
    using k by (simp add: change_keys_def kv)
qed

lemma put_here:
  assumes "ec_kv ev = Some (pfx @ i, v)" and "ec_put ev" and "pfx \<noteq> []"
  shows "event_effect (etcd_event json pfx name ev) m i =
      (case etcd_service json pfx name (pfx @ i, v) of None \<Rightarrow> m i | Some svc \<Rightarrow> Some svc)"
    "change_keys ev keys (pfx @ i) = Some v"
  using assms etcd_service_key(1) [of json pfx name "pfx @ i" v]
  by (auto simp: event_effect_def etcd_event_def change_keys_def split: option.split)

lemma delete_here:
  assumes "well_reported ev" and kv: "ec_kv ev = Some (pfx @ i, v)" and put: "\<not> ec_put ev" and pfx: "pfx \<noteq> []"
  shows "service_instance_from_key pfx (pfx @ i) \<noteq> None \<Longrightarrow> event_effect (etcd_event json pfx name ev) m i = None"
    "service_instance_from_key pfx (pfx @ i) = None \<Longrightarrow> event_effect (etcd_event json pfx name ev) m i = m i"
    "change_keys ev keys (pfx @ i) = None"
proof -
  have prev: "fst kv0 = pfx @ i" if "ec_prev ev = Some kv0" for kv0
    using assms(1) that by (auto simp: well_reported_def kv)
  have service: "svc_instance svc = i \<and> service_instance_from_key pfx (pfx @ i) = Some i"
    if bound: "Option.bind (ec_prev ev) (etcd_service json pfx name) = Some svc" for svc
  proof -
    obtain k0 v0 where prev0: "ec_prev ev = Some (k0, v0)" "etcd_service json pfx name (k0, v0) = Some svc"
      using bound by (auto simp: bind_eq_Some_conv)
    with prev [OF prev0(1)] have "etcd_service json pfx name (pfx @ i, v0) = Some svc" by simp
    from etcd_service_key [OF this pfx] show ?thesis by simp
  qed
  show "event_effect (etcd_event json pfx name ev) m i = None" if "service_instance_from_key pfx (pfx @ i) \<noteq> None"
  proof (cases "Option.bind (ec_prev ev) (etcd_service json pfx name)")
    case None
    have "service_instance_from_key pfx (pfx @ i) = Some i"
      using that instance_from_key_iff [OF pfx] by fastforce
    with None put show ?thesis
      by (simp add: event_effect_def etcd_event_def kv bare_service_def)
  next
    case (Some svc)
    with service [OF Some] put show ?thesis
      by (simp add: event_effect_def etcd_event_def)
  qed
  show "event_effect (etcd_event json pfx name ev) m i = m i" if "service_instance_from_key pfx (pfx @ i) = None"
    using that service put
    by (cases "Option.bind (ec_prev ev) (etcd_service json pfx name)")
      (auto simp: event_effect_def etcd_event_def kv)
  show "change_keys ev keys (pfx @ i) = None"
    using put by (simp add: change_keys_def kv)
qed

text \<open>How the instance that is kept, or none, changes with the next change.\<close>

lemma keeps_last_snoc:
  "keeps_last json pfx name keys (evs @ [ev]) i svc \<longleftrightarrow>
    (\<exists>v. change_keys ev (fold change_keys evs keys) (pfx @ i) = Some v \<and>
       etcd_service json pfx name (pfx @ i, v) = None) \<and>
    (keeps_last json pfx name keys evs i svc \<or>
     etcd_view json pfx name (fold change_keys evs keys) i = Some svc)"
  (is "_ \<longleftrightarrow> ?last \<and> _")
proof -
  let ?view = "\<lambda>n. etcd_view json pfx name (fold change_keys (take n evs) keys) i = Some svc"
  let ?bad = "\<lambda>j. \<exists>v. fold change_keys (take j evs) keys (pfx @ i) = Some v \<and>
      etcd_service json pfx name (pfx @ i, v) = None"
  have "keeps_last json pfx name keys (evs @ [ev]) i svc \<longleftrightarrow>
      (\<exists>n \<le> length evs. ?view n \<and> (\<forall>j. n < j \<and> j \<le> length evs \<longrightarrow> ?bad j) \<and> ?last)"
    unfolding keeps_last_def by (auto simp: less_Suc_eq_le le_Suc_eq all_conj_distrib conj_disj_distribL
        conj_disj_distribR imp_disjL)
  also have "\<dots> \<longleftrightarrow> ?last \<and> (keeps_last json pfx name keys evs i svc \<or> ?view (length evs))"
    unfolding keeps_last_def by (auto simp: le_less)
  finally show ?thesis by simp
qed

lemma keeps_last_view:
  assumes "keeps_last json pfx name keys evs i svc"
  shows "etcd_view json pfx name (fold change_keys evs keys) i = None"
proof -
  have "\<exists>v. fold change_keys evs keys (pfx @ i) = Some v \<and> etcd_service json pfx name (pfx @ i, v) = None"
    using assms unfolding keeps_last_def by (metis order_refl take_all_iff)
  then show ?thesis by (auto simp: etcd_view_def)
qed

lemma mirrors_snoc:
  assumes "mirrors json pfx name keys evs m" and ev: "well_reported ev" and pfx: "pfx \<noteq> []"
  shows "mirrors json pfx name keys (evs @ [ev]) (event_effect (etcd_event json pfx name ev) m)"
proof -
  let ?K = "fold change_keys evs keys" and ?m = "event_effect (etcd_event json pfx name ev) m"
  have "(\<forall>svc. keeps_last json pfx name keys (evs @ [ev]) i svc \<longrightarrow> ?m i = Some svc) \<and>
      ((\<nexists>svc. keeps_last json pfx name keys (evs @ [ev]) i svc) \<longrightarrow>
        ?m i = etcd_view json pfx name (change_keys ev ?K) i)" for i
  proof -
    note old = assms(1) [unfolded mirrors_def, rule_format, of i]
    have bad: "?K (pfx @ i) = Some w \<Longrightarrow> etcd_service json pfx name (pfx @ i, w) = None \<Longrightarrow>
        etcd_view json pfx name ?K i = None" for w
      by (simp add: etcd_view_def)
    consider (else) "\<And>v. ec_kv ev \<noteq> Some (pfx @ i, v)"
      | (put) v where "ec_kv ev = Some (pfx @ i, v)" "ec_put ev"
      | (del) v where "ec_kv ev = Some (pfx @ i, v)" "\<not> ec_put ev" by blast
    then show ?thesis
    proof cases
      case else
      note same = change_elsewhere [OF ev pfx else]
      have "keeps_last json pfx name keys (evs @ [ev]) i svc \<longleftrightarrow> keeps_last json pfx name keys evs i svc" for svc
        using bad unfolding keeps_last_snoc same
        by (auto simp: keeps_last_def dest: spec [of _ "length evs"])
      then show ?thesis
        using old by (simp add: same etcd_view_def)
    next
      case put
      note here = put_here [OF put pfx]
      show ?thesis
      proof (cases "etcd_service json pfx name (pfx @ i, v)")
        case None
        then have kept: "keeps_last json pfx name keys (evs @ [ev]) i svc \<longleftrightarrow>
            keeps_last json pfx name keys evs i svc \<or> etcd_view json pfx name ?K i = Some svc" for svc
          by (simp add: keeps_last_snoc here)
        have "?m i = m i" "etcd_view json pfx name (change_keys ev ?K) i = None"
          using None by (simp_all add: here etcd_view_def)
        then show ?thesis
          using old keeps_last_view unfolding kept by (cases "m i") fastforce+
      qed (simp add: keeps_last_snoc here etcd_view_def)
    next
      case del
      note here = delete_here [OF ev del pfx]
      have "m i = None" if "service_instance_from_key pfx (pfx @ i) = None"
        using old view_needs_instance_key [OF that] by (auto simp: keeps_last_def)
      then show ?thesis
        using here(1,2) by (cases "service_instance_from_key pfx (pfx @ i)")
          (auto simp: keeps_last_snoc here(3) etcd_view_def)
    qed
  qed
  then show ?thesis
    by (simp add: mirrors_def)
qed

lemma mirrors_view [simp]:
  "mirrors json pfx name keys [] m \<longleftrightarrow> m = etcd_view json pfx name keys"
  by (auto simp: mirrors_def keeps_last_def)

lemma events_mirror:
  assumes "list_all well_reported evs" and "pfx \<noteq> []"
  shows "mirrors json pfx name keys evs
    (apply_events (List.map_filter (etcd_event json pfx name) evs) (etcd_view json pfx name keys))"
  using assms(1)
proof (induction evs rule: rev_induct)
  case (snoc ev evs)
  have "List.map_filter (etcd_event json pfx name) (evs @ [ev]) =
      List.map_filter (etcd_event json pfx name) evs @ List.map_filter (etcd_event json pfx name) [ev]"
    by (simp add: List.map_filter_def)
  then show ?case
    using snoc mirrors_snoc [OF _ _ assms(2)] by (simp only: apply_events_simps event_effect_bind) simp
qed (simp add: List.map_filter_simps)

lemma responses_known:
  "run_feed (etcd_react json pfx name) (map EtcdResponse responses) known = (es, known') \<Longrightarrow>
    es = List.map_filter (etcd_event json pfx name) (concat responses) \<and>
    map_of known' = apply_events es (map_of known)"
  by (induction responses arbitrary: known es)
    (auto simp: etcd_response_def Let_def fold_known_event List.map_filter_def split: prod.splits)

lemma responses_mirror:
  assumes "run_feed (etcd_react json pfx name) (map EtcdResponse responses) known = (es, known')"
    and "map_of known = etcd_view json pfx name keys"
    and "list_all well_reported (concat responses)" and "pfx \<noteq> []"
  shows "mirrors json pfx name keys (concat responses) (map_of known')"
  using events_mirror [OF assms(3,4)] responses_known [OF assms(1)] assms(2) by simp

text \<open>
  A watch on etcd is a faithful mirror: from a snapshot of the keys on, through any number of
  responses, a follower that applies the events of the channel to an empty map holds the instances
  that a discovery would find among the keys of the server at that moment, apart from the keys that
  were overwritten with values that are no instances, whose last instance it keeps; and so does the
  watch itself.
\<close>

theorem etcd_watch_mirrors:
  assumes "pfx \<noteq> []" and "distinct (map fst kvs)"
    and "list_all well_reported (concat responses)"
    and "run_feed (etcd_react json pfx name) (EtcdSnapshot kvs # map EtcdResponse responses) [] = (es, known)"
  shows "mirrors json pfx name (map_of kvs) (concat responses) (apply_events es Map.empty)
    \<and> map_of known = apply_events es Map.empty"
proof -
  have sync: "map_of known = apply_events es Map.empty"
    using etcd_feed.follower_in_sync [OF _ _ assms(4)] by (simp add: list_all_iff)
  obtain es1 known1 es2 where first: "etcd_snapshot json pfx name kvs [] = (es1, known1)"
    and rest: "run_feed (etcd_react json pfx name) (map EtcdResponse responses) known1 = (es2, known)"
    using assms(4) by (auto split: prod.splits)
  have "map_of known1 = etcd_view json pfx name (map_of kvs)"
    by (rule etcd_snapshot_view [OF assms(1,2) first])
  from responses_mirror [OF rest this assms(3,1)] sync show ?thesis by simp
qed

definition demo_json :: json_decoder where
  "demo_json v = (if v = ''one'' then (None, demo_service ''mf-user'' ''u1'')
    else if v = ''two'' then (None, demo_service ''mf-user'' ''u2'')
    else (Some (Errorf ''invalid character''), bare_service [] []))"

lemma demo_service_u2: "validate_service (demo_service ''mf-user'' ''u2'') = None"
  by (simp add: demo_service_def validate_service_def validate_service_name_def
      validate_service_addr_def contains_char contains_any_iff crlf_nul_def meta_entries_def
      split_host_port_def parse_int_def signed_range_def parse_uint_def is_digit_def
      less_eq_char_def digit_val_def)

lemma demo_json_service:
  "etcd_service demo_json ''/s/'' ''mf-user'' (''/s/u2'', ''two'') = Some (demo_service ''mf-user'' ''u2'')"
proof -
  have "trim_space ''v1'' \<noteq> []" by code_simp
  then show ?thesis
    using demo_service_u2 instance_from_key_iff [of "''/s/''" "''/s/u2''" "''u2''"]
    by (simp add: etcd_service_def unmarshal_service_def demo_json_def demo_service_def
        contains_any_iff crlf_nul_def)
qed

theorem etcd_watch_mirrors_witness:
  "mirrors demo_json ''/s/'' ''mf-user'' (map_of [(''/s/u1'', ''one'')])
    [\<lparr>ec_put = True, ec_kv = Some (''/s/u1'', ''broken''), ec_prev = None\<rparr>]
    (apply_events (fst (run_feed (etcd_react demo_json ''/s/'' ''mf-user'')
      [EtcdSnapshot [(''/s/u1'', ''one'')],
       EtcdResponse [\<lparr>ec_put = True, ec_kv = Some (''/s/u1'', ''broken''), ec_prev = None\<rparr>]] [])) Map.empty)"
  (is "mirrors _ _ _ _ ?evs (apply_events (fst ?run) _)")
proof -
  have "list_all well_reported (concat [?evs])"
    by (simp add: well_reported_def)
  moreover have "?run = (fst ?run, snd ?run)" by simp
  ultimately show ?thesis
    using etcd_watch_mirrors [of "''/s/''" "[(''/s/u1'', ''one'')]" "[?evs]" demo_json "''mf-user''"
        "fst ?run" "snd ?run"]
    by (simp del: run_feed.simps)
qed

text \<open>
  An overwrite with a value that is not an instance: the watch reports nothing, and its followers
  keep the instance that a discovery no longer finds.
\<close>

lemma etcd_watch_keeps_overwritten:
  assumes "etcd_service json pfx name (k, v) = None"
  shows "etcd_react json pfx name (EtcdResponse [\<lparr>ec_put = True, ec_kv = Some (k, v), ec_prev = prev\<rparr>]) known
    = ([], known)"
  using assms by (simp add: etcd_response_def etcd_event_def List.map_filter_simps)

end
