(* ===== verification/Go_Utf8.thy ===== *)
theory Go_Utf8
  imports Go_Strings
begin

text \<open>
  Valid UTF-8 (\<open>unicode/utf8\<close>): overlong forms, surrogates and code points above U+10FFFF are not.
\<close>

definition utf8_tail :: "char \<Rightarrow> bool" where
  "utf8_tail c \<longleftrightarrow> CHR 0x80 \<le> c \<and> c \<le> CHR 0xBF"

fun utf8_valid :: "string \<Rightarrow> bool" where
  "utf8_valid [] = True"
| "utf8_valid (c # cs) =
    (if c < CHR 0x80 then utf8_valid cs
     else (case cs of
         a # as \<Rightarrow>
           if CHR 0xC2 \<le> c \<and> c \<le> CHR 0xDF then utf8_tail a \<and> utf8_valid as
           else (case as of
               b # bs \<Rightarrow>
                 if CHR 0xE0 \<le> c \<and> c \<le> CHR 0xEF
                 then (c = CHR 0xE0 \<longrightarrow> CHR 0xA0 \<le> a) \<and> (c = CHR 0xED \<longrightarrow> a \<le> CHR 0x9F) \<and>
                   utf8_tail a \<and> utf8_tail b \<and> utf8_valid bs
                 else (case bs of
                     d # ds \<Rightarrow> CHR 0xF0 \<le> c \<and> c \<le> CHR 0xF4 \<and> (c = CHR 0xF0 \<longrightarrow> CHR 0x90 \<le> a) \<and>
                       (c = CHR 0xF4 \<longrightarrow> a \<le> CHR 0x8F) \<and> utf8_tail a \<and> utf8_tail b \<and> utf8_tail d \<and> utf8_valid ds
                   | [] \<Rightarrow> False)
             | [] \<Rightarrow> False)
       | [] \<Rightarrow> False))"

lemma utf8_valid_ascii: "\<forall>c \<in> set s. c < CHR 0x80 \<Longrightarrow> utf8_valid s"
  by (induction s) auto

end
