(* ===== verification/Etcd_Registry.thy ===== *)
theory Etcd_Registry
  imports Etcd_Watch Go_Utf8
begin

text \<open>
  Registration on etcd, \<open>contrib/registry/etcd/registry.go\<close>. The server is a parameter: the
  commands the code sends, each of which may fail. The registry keeps the lease and the
  keep-alive loop of every instance it registered; a loop is one goroutine, and its phases
  are the places where other goroutines can get between its steps.
\<close>

subsection \<open>State\<close>

type_synonym lease_id = int

record 'e etcd_api =
  ea_grant :: "int \<Rightarrow> 'e \<Rightarrow> (goerr + lease_id) \<times> 'e"
  ea_put :: "string \<Rightarrow> string \<Rightarrow> lease_id \<Rightarrow> 'e \<Rightarrow> goerr option \<times> 'e"
  ea_delete :: "string \<Rightarrow> 'e \<Rightarrow> goerr option \<times> 'e"
  ea_revoke :: "lease_id \<Rightarrow> 'e \<Rightarrow> goerr option \<times> 'e"
  ea_range :: "string \<Rightarrow> 'e \<Rightarrow> goerr + etcd_kv list"

type_synonym json_encoder = "service \<Rightarrow> goerr + string"

text \<open>
  A loop starts with the registration, keeps its lease alive, and when the keep-alive stream
  breaks puts the instance again under a new lease, which it then either takes over or has
  to drop because the registration has changed meanwhile.
\<close>

datatype loop_phase =
  LoopStarting | LoopAlive | LoopReput lease_id | LoopDropped lease_id | LoopEnded

record etcd_loop =
  lp_service :: service
  lp_lease :: lease_id
  lp_cancelled :: bool
  lp_phase :: loop_phase

record 'e etcd_registry =
  er_config :: registry_config
  er_server :: 'e
  er_leases :: "(string \<times> lease_id) list"
  er_cancels :: "(string \<times> nat) list"
  er_loops :: "etcd_loop list"

abbreviation er_prefix :: "'e etcd_registry \<Rightarrow> string" where
  "er_prefix r \<equiv> registry_prefix (er_config r)"


definition cancel_loop :: "nat option \<Rightarrow> 'e etcd_registry \<Rightarrow> 'e etcd_registry" where
  "cancel_loop loop r =
    (case loop of None \<Rightarrow> r
     | Some n \<Rightarrow> r\<lparr>er_loops := (er_loops r)[n := (er_loops r ! n)\<lparr>lp_cancelled := True\<rparr>]\<rparr>)"

definition server_call :: "('e \<Rightarrow> 'a \<times> 'e) \<Rightarrow> 'e etcd_registry \<Rightarrow> 'a \<times> 'e etcd_registry" where
  "server_call f r = (let (x, e) = f (er_server r) in (x, r\<lparr>er_server := e\<rparr>))"

subsection \<open>Registering\<close>

definition grant_and_put ::
  "'e etcd_api \<Rightarrow> json_encoder \<Rightarrow> service \<Rightarrow> 'e etcd_registry \<Rightarrow> (goerr + lease_id) \<times> 'e etcd_registry"
where
  "grant_and_put api marshal svc r =
    (let (lease, r) = server_call (ea_grant api (registry_ttl (er_config r))) r
     in case lease of
          Inl err \<Rightarrow> (Inl (Wrapf ''registry: grant lease: %w'' err), r)
        | Inr lease \<Rightarrow>
            (case marshal svc of
               Inl err \<Rightarrow>
                 (let (_, r) = server_call (ea_revoke api lease) r
                  in (Inl (Wrapf ''registry: marshal: %w'' err), r))
             | Inr val \<Rightarrow>
                 (let key = service_key (er_prefix r) (svc_name svc) (svc_instance svc);
                      (err, r) = server_call (ea_put api key val lease) r
                  in case err of
                       Some err \<Rightarrow>
                         (let (_, r) = server_call (ea_revoke api lease) r
                          in (Inl (Wrapf ''registry: put: %w'' err), r))
                     | None \<Rightarrow> (Inr lease, r))))"

text \<open>
  \<open>Register\<close> in the parts between which other goroutines can run: the checks and the writes
  to the server, the locked section with the cancelling of the old loop, and the revocation
  of the old lease with the start of the new loop. \<open>generated\<close> is what
  \<open>GenerateInstanceID\<close> returns.
\<close>

definition register_prepare ::
  "'e etcd_api \<Rightarrow> json_encoder \<Rightarrow> string \<Rightarrow> instant \<Rightarrow> service \<Rightarrow> 'e etcd_registry \<Rightarrow>
    (goerr + service \<times> lease_id) \<times> 'e etcd_registry" where
  "register_prepare api marshal generated now svc r =
    (let svc = (if svc_instance svc = [] then svc\<lparr>svc_instance := generated\<rparr> else svc)
     in case validate_service svc of
          Some err \<Rightarrow> (Inl err, r)
        | None \<Rightarrow>
            (let svc = svc\<lparr>svc_register_at := now\<rparr>;
                 (lease, r) = grant_and_put api marshal svc r
             in case lease of Inl err \<Rightarrow> (Inl err, r) | Inr lease \<Rightarrow> (Inr (svc, lease), r)))"

definition register_publish ::
  "service \<Rightarrow> lease_id \<Rightarrow> 'e etcd_registry \<Rightarrow> (lease_id option \<times> nat) \<times> 'e etcd_registry" where
  "register_publish svc lease r =
    (let i = svc_instance svc;
         old_cancel = map_of (er_cancels r) i;
         old_lease = map_of (er_leases r) i;
         n = length (er_loops r);
         r = r\<lparr>er_leases := AList.update i lease (er_leases r),
              er_cancels := AList.update i n (er_cancels r),
              er_loops := er_loops r @ [\<lparr>lp_service = svc, lp_lease = lease,
                lp_cancelled = False, lp_phase = LoopStarting\<rparr>]\<rparr>
     in ((old_lease, n), cancel_loop old_cancel r))"

definition set_phase :: "nat \<Rightarrow> loop_phase \<Rightarrow> 'e etcd_registry \<Rightarrow> 'e etcd_registry" where
  "set_phase n phase r = r\<lparr>er_loops := (er_loops r)[n := (er_loops r ! n)\<lparr>lp_phase := phase\<rparr>]\<rparr>"

definition register_finish ::
  "'e etcd_api \<Rightarrow> lease_id option \<times> nat \<Rightarrow> 'e etcd_registry \<Rightarrow> 'e etcd_registry" where
  "register_finish api old r =
    (let (old_lease, n) = old;
         r = (case old_lease of None \<Rightarrow> r
              | Some l \<Rightarrow> if l \<noteq> 0 then snd (server_call (ea_revoke api l) r) else r)
     in set_phase n LoopAlive r)"


subsection \<open>The keep-alive loop\<close>

text \<open>The stream broke: put the instance again under a new lease, or try again later.\<close>

definition loop_reput ::
  "'e etcd_api \<Rightarrow> json_encoder \<Rightarrow> nat \<Rightarrow> 'e etcd_registry \<Rightarrow> 'e etcd_registry" where
  "loop_reput api marshal n r =
    (let (res, r') = grant_and_put api marshal (lp_service (er_loops r ! n)) r
     in case res of Inl err \<Rightarrow> r' | Inr lease \<Rightarrow> set_phase n (LoopReput lease) r')"

text \<open>The locked section: take the new lease over if the registration is still the loop's.\<close>

definition loop_commit :: "nat \<Rightarrow> lease_id \<Rightarrow> 'e etcd_registry \<Rightarrow> 'e etcd_registry" where
  "loop_commit n new_lease r =
    (let lp = er_loops r ! n; i = svc_instance (lp_service lp)
     in if map_of (er_leases r) i = Some (lp_lease lp)
        then r\<lparr>er_leases := AList.update i new_lease (er_leases r),
               er_loops := (er_loops r)[n := lp\<lparr>lp_lease := new_lease, lp_phase := LoopAlive\<rparr>]\<rparr>
        else set_phase n (LoopDropped new_lease) r)"

definition loop_drop :: "'e etcd_api \<Rightarrow> nat \<Rightarrow> lease_id \<Rightarrow> 'e etcd_registry \<Rightarrow> 'e etcd_registry" where
  "loop_drop api n new_lease r =
    set_phase n LoopEnded (snd (server_call (ea_revoke api new_lease) r))"

subsection \<open>Deregistering, discovering and closing\<close>

definition deregister_forget :: "string \<Rightarrow> 'e etcd_registry \<Rightarrow> lease_id option \<times> 'e etcd_registry" where
  "deregister_forget i r =
    (let r = cancel_loop (map_of (er_cancels r) i) r
     in (map_of (er_leases r) i,
         r\<lparr>er_cancels := AList.delete i (er_cancels r), er_leases := AList.delete i (er_leases r)\<rparr>))"

definition deregister_check :: "string \<Rightarrow> string \<Rightarrow> goerr option" where
  "deregister_check name i =
    (case validate_service_name (trim_space name) of
       Some err \<Rightarrow> Some err
     | None \<Rightarrow>
        if i = [] \<or> length i > 256 \<or> contains ''/'' i \<or> contains_any i crlf_nul
        then Some (Errorf ''registry: invalid instance ID %q'') else None)"


definition etcd_discover ::
  "'e etcd_api \<Rightarrow> json_decoder \<Rightarrow> string \<Rightarrow> 'e etcd_registry \<Rightarrow> goerr + service list" where
  "etcd_discover api json name r =
    (let name = trim_space name
     in case validate_service_name name of
          Some err \<Rightarrow> Inl err
        | None \<Rightarrow>
           (let pfx = service_prefix_key (er_prefix r) name
            in case ea_range api pfx (er_server r) of
                 Inl err \<Rightarrow> Inl (Wrapf ''registry: get: %w'' err)
               | Inr kvs \<Rightarrow> Inr (etcd_services json pfx name kvs)))"

definition etcd_close :: "'e etcd_api \<Rightarrow> 'e etcd_registry \<Rightarrow> 'e etcd_registry" where
  "etcd_close api r =
    (let leases = map snd (er_leases r);
         r = fold (\<lambda>(i, n). cancel_loop (Some n)) (er_cancels r) r;
         r = r\<lparr>er_cancels := [], er_leases := []\<rparr>
     in fold (\<lambda>l r. snd (server_call (ea_revoke api l) r)) leases r)"

subsection \<open>What the code relies on\<close>














lemma server_call_fields [simp]:
  "er_config (snd (server_call f r)) = er_config r" "er_leases (snd (server_call f r)) = er_leases r"
  "er_cancels (snd (server_call f r)) = er_cancels r" "er_loops (snd (server_call f r)) = er_loops r"
  "er_server (snd (server_call f r)) = snd (f (er_server r))"
  "fst (server_call f r) = fst (f (er_server r))"
  by (simp_all add: server_call_def split_def Let_def)

lemma cancel_loop_fields [simp]:
  "er_config (cancel_loop n r) = er_config r" "er_leases (cancel_loop n r) = er_leases r"
  "er_cancels (cancel_loop n r) = er_cancels r" "er_server (cancel_loop n r) = er_server r"
  by (simp_all add: cancel_loop_def split: option.split)

lemma set_phase_fields [simp]:
  "er_config (set_phase n p r) = er_config r" "er_leases (set_phase n p r) = er_leases r"
  "er_cancels (set_phase n p r) = er_cancels r" "er_server (set_phase n p r) = er_server r"
  by (simp_all add: set_phase_def)


subsection \<open>The registry as a directory\<close>


lemma validate_register_at [simp]: "validate_service (svc\<lparr>svc_register_at := t\<rparr>) = validate_service svc"
  by (simp add: validate_service_def cong: option.case_cong if_cong)




definition json_copy :: "service \<Rightarrow> service" where
  "json_copy svc = svc\<lparr>svc_meta :=
    (if meta_entries (svc_meta svc) = [] then None else Some (sort_key fst (meta_entries (svc_meta svc))))\<rparr>"


text \<open>\<open>unmarshalService\<close> then takes a missing version from the metadata.\<close>

definition fill_version :: "service \<Rightarrow> service" where
  "fill_version svc =
    (if trim_space (svc_version svc) = [] \<and> svc_meta svc \<noteq> None
     then svc\<lparr>svc_version := trim_space (meta_get (svc_meta svc) ''version'')\<rparr> else svc)"

lemma fill_version_fields [simp]:
  "svc_name (fill_version svc) = svc_name svc" "svc_instance (fill_version svc) = svc_instance svc"
  by (simp_all add: fill_version_def)

definition stored_form :: "service \<Rightarrow> service" where
  "stored_form svc = fill_version (json_copy svc)"

lemma stored_form_fields [simp]:
  "svc_name (stored_form svc) = svc_name svc" "svc_instance (stored_form svc) = svc_instance svc"
  by (simp_all add: stored_form_def json_copy_def)













lemma service_prefix_key_nonempty [simp]: "service_prefix_key pfx name \<noteq> []"
  by (simp add: service_prefix_key_def)




























text \<open>
  A name with white space around it passes the checks of \<open>Register\<close>, but every lookup trims
  the name it is given, so no lookup ever finds the instance.
\<close>

lemma etcd_padded_name_lost:
  assumes "trim_space (svc_name svc) \<noteq> svc_name svc"
    and "etcd_discover api json name r = Inr ss"
  shows "svc \<notin> set ss"
proof
  assume "svc \<in> set ss"
  then have "svc_name svc = trim_space name"
    using assms(2)
    by (auto simp: etcd_discover_def Let_def etcd_services_iff dest: etcd_service_name
        split: option.splits sum.splits)
  then show False
    using assms(1) trim_space_trimmed [OF trimmed_trim_space, of name] by simp
qed

subsection \<open>Concurrent calls\<close>

text \<open>
  The registry with several goroutines: calls of \<open>Register\<close> and \<open>Deregister\<close> in progress and
  the keep-alive loops. An action is one goroutine doing its next part.
\<close>

datatype registry_call =
  CallPut service lease_id
| CallPublished "lease_id option \<times> nat"
| CallForgot string string "lease_id option"
| CallDeleted "goerr option" "lease_id option"
| CallReturned "goerr option"

record 'e etcd_system =
  es_registry :: "'e etcd_registry"
  es_calls :: "registry_call list"

datatype etcd_action =
  BeginRegister string instant service
| BeginDeregister string string
| Proceed nat
| LoopInterrupted nat
| LoopContinue nat

definition proceed_call ::
  "'e etcd_api \<Rightarrow> registry_call \<Rightarrow> 'e etcd_registry \<Rightarrow> (registry_call \<times> 'e etcd_registry) option" where
  "proceed_call api c r =
    (case c of
       CallPut svc lease \<Rightarrow> (let (old, r) = register_publish svc lease r in Some (CallPublished old, r))
     | CallPublished old \<Rightarrow> Some (CallReturned None, register_finish api old r)
     | CallForgot name i lease \<Rightarrow>
         (let (err, r) = server_call (ea_delete api (service_key (er_prefix r) (trim_space name) i)) r
          in Some (CallDeleted err lease, r))
     | CallDeleted delete_err lease \<Rightarrow>
         (let (revoke_err, r) = (case lease of None \<Rightarrow> (None, r)
            | Some l \<Rightarrow> if l \<noteq> 0 then server_call (ea_revoke api l) r else (None, r))
          in Some (CallReturned (err_join [map_option (Wrapf ''registry: delete: %w'') delete_err,
               map_option (Wrapf ''registry: revoke lease: %w'') revoke_err]), r))
     | CallReturned err \<Rightarrow> None)"

definition continue_loop :: "'e etcd_api \<Rightarrow> nat \<Rightarrow> 'e etcd_registry \<Rightarrow> 'e etcd_registry option" where
  "continue_loop api n r =
    (case lp_phase (er_loops r ! n) of
       LoopReput l \<Rightarrow> Some (loop_commit n l r)
     | LoopDropped l \<Rightarrow> Some (loop_drop api n l r)
     | LoopAlive \<Rightarrow> if lp_cancelled (er_loops r ! n) then Some (set_phase n LoopEnded r) else None
     | LoopStarting \<Rightarrow> None
     | LoopEnded \<Rightarrow> None)"

definition etcd_act ::
  "'e etcd_api \<Rightarrow> json_encoder \<Rightarrow> etcd_action \<Rightarrow> 'e etcd_system \<Rightarrow> 'e etcd_system option" where
  "etcd_act api marshal a s =
    (let r = es_registry s; calls = es_calls s in
     case a of
       BeginRegister generated now svc \<Rightarrow>
         (case register_prepare api marshal generated now svc r of
            (Inl err, r) \<Rightarrow> Some \<lparr>es_registry = r, es_calls = calls @ [CallReturned (Some err)]\<rparr>
          | (Inr (svc, lease), r) \<Rightarrow> Some \<lparr>es_registry = r, es_calls = calls @ [CallPut svc lease]\<rparr>)
     | BeginDeregister name i \<Rightarrow>
         (case deregister_check name i of
            Some err \<Rightarrow> Some \<lparr>es_registry = r, es_calls = calls @ [CallReturned (Some err)]\<rparr>
          | None \<Rightarrow>
              (let (lease, r) = deregister_forget i r
               in Some \<lparr>es_registry = r, es_calls = calls @ [CallForgot name i lease]\<rparr>))
     | Proceed n \<Rightarrow>
         if n < length calls
         then map_option (\<lambda>(c, r). \<lparr>es_registry = r, es_calls = calls[n := c]\<rparr>) (proceed_call api (calls ! n) r)
         else None
     | LoopInterrupted n \<Rightarrow>
         if n < length (er_loops r) \<and> \<not> lp_cancelled (er_loops r ! n) \<and>
            lp_phase (er_loops r ! n) = LoopAlive
         then Some (s\<lparr>es_registry := loop_reput api marshal n r\<rparr>) else None
     | LoopContinue n \<Rightarrow>
         if n < length (er_loops r)
         then map_option (\<lambda>r. s\<lparr>es_registry := r\<rparr>) (continue_loop api n r) else None)"

inductive etcd_step :: "'e etcd_api \<Rightarrow> json_encoder \<Rightarrow> 'e etcd_system \<Rightarrow> 'e etcd_system \<Rightarrow> bool"
  for api marshal where
  etcd_acts: "etcd_act api marshal a s = Some s' \<Longrightarrow> etcd_step api marshal s s'"

fun etcd_acts_run ::
  "'e etcd_api \<Rightarrow> json_encoder \<Rightarrow> etcd_action list \<Rightarrow> 'e etcd_system \<Rightarrow> 'e etcd_system option" where
  "etcd_acts_run api marshal [] s = Some s"
| "etcd_acts_run api marshal (a # as) s = Option.bind (etcd_act api marshal a s) (etcd_acts_run api marshal as)"

lemma etcd_acts_run_steps:
  "etcd_acts_run api marshal as s = Some s' \<Longrightarrow> (etcd_step api marshal)\<^sup>*\<^sup>* s s'"
  by (induction as arbitrary: s)
    (auto simp: bind_eq_Some_conv intro: etcd_acts converse_rtranclp_into_rtranclp)














end
