(* ===== verification/Consul_Registry.thy ===== *)
theory Consul_Registry
  imports Registry_Events
begin

text \<open>
  The Consul backend, \<open>contrib/registry/consul/registry.go\<close>: how an instance is written as an
  agent service with its health check, how the entries of a health query are read back, the
  rounds of \<open>Watch\<close>, and the registry with its TTL refresh loops. The agent and the RFC 3339
  format of instants are parameters. A decoded metadata map is listed by its keys in order,
  so that equal maps are equal lists.
\<close>

subsection \<open>The agent\<close>

record consul_check =
  ck_id :: string
  ck_deregister_after :: string
  ck_http :: string
  ck_interval :: string
  ck_timeout :: string
  ck_ttl :: string

record consul_entry =
  ce_id :: string
  ce_name :: string
  ce_address :: string
  ce_port :: int
  ce_meta :: "(string \<times> string) list"

record 'c consul_api =
  ca_register :: "consul_entry \<Rightarrow> consul_check \<Rightarrow> 'c \<Rightarrow> goerr option \<times> 'c"
  ca_update_ttl :: "string \<Rightarrow> 'c \<Rightarrow> goerr option \<times> 'c"
  ca_deregister :: "string \<Rightarrow> 'c \<Rightarrow> goerr option \<times> 'c"
  ca_check_deregister :: "string \<Rightarrow> 'c \<Rightarrow> goerr option \<times> 'c"
  ca_health :: "string \<Rightarrow> 'c \<Rightarrow> goerr + consul_entry list"

record time_format =
  tf_format :: "instant \<Rightarrow> string"
  tf_parse :: "string \<Rightarrow> instant option"

subsection \<open>Checks\<close>

definition duration_seconds :: "duration \<Rightarrow> string" where
  "duration_seconds d = format_int (go_div d second) @ ''s''"

definition seconds_text :: "int \<Rightarrow> string" where
  "seconds_text n = format_int n @ ''s''"

definition consul_check_url :: "(string \<Rightarrow> string \<Rightarrow> string \<Rightarrow> string) \<Rightarrow> string \<Rightarrow> string \<Rightarrow> bool \<Rightarrow> string" where
  "consul_check_url url_string addr path tls = url_string (if tls then ''https'' else ''http'') addr path"

definition consul_service_check ::
  "(string \<Rightarrow> string \<Rightarrow> string \<Rightarrow> string) \<Rightarrow> registry_config \<Rightarrow> string \<Rightarrow> string \<Rightarrow>
    goerr + consul_check \<times> bool" where
  "consul_service_check url_string cfg check_id check_addr =
    (case consul_check_type cfg of
       Inl err \<Rightarrow> Inl err
     | Inr check_type \<Rightarrow>
        (let check = \<lparr>ck_id = check_id,
               ck_deregister_after = duration_seconds (registry_deregister_after cfg),
               ck_http = [], ck_interval = [], ck_timeout = [], ck_ttl = []\<rparr>;
             ttl = registry_ttl cfg
         in if check_type = ''http''
            then Inr (check\<lparr>ck_http := consul_check_url url_string check_addr (registry_check_path cfg)
                              (rg_check_tls cfg),
                            ck_interval := seconds_text ttl, ck_timeout := seconds_text (min 5 ttl)\<rparr>, False)
            else Inr (check\<lparr>ck_ttl := seconds_text ttl\<rparr>, True)))"

definition consul_refresh_interval :: "int \<Rightarrow> duration" where
  "consul_refresh_interval ttl =
    (let interval = wrap64 (go_div ttl 3 * second)
     in if interval < second then second else interval)"

subsection \<open>Writing and reading instances\<close>

definition atoi :: "string \<Rightarrow> int option" where
  "atoi s = (case parse_int s of (n, None) \<Rightarrow> Some n | (n, Some e) \<Rightarrow> None)"

definition consul_meta :: "time_format \<Rightarrow> service \<Rightarrow> (string \<times> string) list" where
  "consul_meta tf svc =
    (let meta = meta_entries (svc_meta svc);
         meta = (if svc_version svc \<noteq> [] then AList.update ''version'' (svc_version svc) meta else meta);
         meta = (if svc_grpc_addr svc \<noteq> [] then AList.update ''grpc_addr'' (svc_grpc_addr svc) meta else meta)
     in AList.update ''register_at'' (tf_format tf (svc_register_at svc)) meta)"

definition consul_registration ::
  "time_format \<Rightarrow> string \<Rightarrow> service \<Rightarrow> goerr + consul_entry \<times> string" where
  "consul_registration tf local_ip svc =
    (case split_host_port (svc_addr svc) of
       Inl e \<Rightarrow> Inl (Wrapf ''registry: parse addr %q: %w'' (NetErr (addr_error_text e)))
     | Inr (host, port_text) \<Rightarrow>
        (let host = (if host = [] then local_ip else host);
             check_addr = join_host_port host port_text
         in case atoi port_text of
              None \<Rightarrow> Inl (Errorf ''registry: invalid port %q'')
            | Some port \<Rightarrow>
                if port \<le> 0 \<or> port > 65535 then Inl (Errorf ''registry: invalid port %q'')
                else Inr (\<lparr>ce_id = svc_instance svc, ce_name = svc_name svc, ce_address = host,
                       ce_port = port, ce_meta = consul_meta tf svc\<rparr>, check_addr)))"

definition consul_reserved :: "string list" where
  "consul_reserved = [''grpc_addr'', ''register_at'']"

definition consul_entry_service :: "time_format \<Rightarrow> consul_entry \<Rightarrow> service" where
  "consul_entry_service tf e =
    (let meta = ce_meta e
     in \<lparr>svc_name = ce_name e,
         svc_version = (case map_of meta ''version'' of Some v \<Rightarrow> v | None \<Rightarrow> []),
         svc_instance = ce_id e,
         svc_addr = join_host_port (ce_address e) (format_int (ce_port e)),
         svc_grpc_addr = (case map_of meta ''grpc_addr'' of Some v \<Rightarrow> v | None \<Rightarrow> []),
         svc_meta = Some (sort_key fst (filter (\<lambda>(k, v). k \<notin> set consul_reserved) meta)),
         svc_register_at = (case Option.bind (map_of meta ''register_at'') (tf_parse tf) of
           Some t \<Rightarrow> t | None \<Rightarrow> 0)\<rparr>)"

definition consul_services :: "time_format \<Rightarrow> string \<Rightarrow> consul_entry list \<Rightarrow> service list" where
  "consul_services tf name entries =
    filter (\<lambda>svc. \<not> (svc_name svc \<noteq> name \<or> validate_service svc \<noteq> None))
      (map (consul_entry_service tf) entries)"

definition consul_discover ::
  "'c consul_api \<Rightarrow> time_format \<Rightarrow> string \<Rightarrow> 'c \<Rightarrow> goerr + service list" where
  "consul_discover api tf name c =
    (let name = trim_space name
     in case validate_service_name name of
          Some err \<Rightarrow> Inl err
        | None \<Rightarrow>
           (case ca_health api name c of
              Inl err \<Rightarrow> Inl (Wrapf ''registry: consul discover: %w'' err)
            | Inr entries \<Rightarrow> Inr (consul_services tf name entries)))"

subsection \<open>Watching\<close>

text \<open>
  A round of the watch: what the health query returned. The first round is the state that
  \<open>Watch\<close> sends before its loop.
\<close>

fun consul_puts :: "known_services \<Rightarrow> service list \<Rightarrow> event list" where
  "consul_puts known [] = []"
| "consul_puts known (svc # ss) =
    (if map_of known (svc_instance svc) \<noteq> Some svc then [put_event svc] else []) @ consul_puts known ss"

definition consul_round ::
  "time_format \<Rightarrow> string \<Rightarrow> consul_entry list \<Rightarrow> known_services \<Rightarrow>
    event list \<times> known_services" where
  "consul_round tf name entries known =
    (let ss = consul_services tf name entries;
         seen = known_from ss;
         gone = filter (\<lambda>(i, svc). map_of seen i = None) known
     in (consul_puts known ss @ map (\<lambda>(i, svc). delete_event (bare_service name i)) gone, seen))"

definition consul_watch_start ::
  "time_format \<Rightarrow> string \<Rightarrow> consul_entry list \<Rightarrow> event list \<times> known_services" where
  "consul_watch_start tf name entries =
    (let ss = consul_services tf name entries in (map put_event ss, known_from ss))"

subsection \<open>What a registration reads back as\<close>

lemma split_host_parts:
  assumes "split_host_port hp = Inr (host, port)"
  shows "CHR ''['' \<notin> set host \<and> CHR '']'' \<notin> set host \<and> set host \<subseteq> set hp"
proof -
  obtain i where "last_index (CHR '':'') hp = Some i"
    using assms by (auto simp: split_host_port_def split: option.splits)
  note parts = assms [unfolded split_host_port_def this option.case Let_def]
  show ?thesis
  proof (cases "hd hp = CHR ''[''")
    case True
    then obtain e where e: "index_of (CHR '']'') hp = Some e"
      and host: "host = take (e - 1) (drop 1 hp)" and no: "CHR ''['' \<notin> set (drop 1 hp)"
      using parts by (auto split: option.splits if_splits)
    have first: "CHR '']'' \<notin> set (take e hp)"
      using e by (induction hp arbitrary: e) (auto split: if_splits simp: take_Cons')
    have "set host \<subseteq> set (take e hp)"
      by (cases hp; cases e) (auto simp: host)
    with first no host show ?thesis
      by (auto dest: in_set_takeD in_set_dropD)
  next
    case False
    then show ?thesis
      using parts by (auto split: if_splits dest: in_set_takeD)
  qed
qed

lemma nat_digits_short: "n < 100000 \<Longrightarrow> length (nat_digits n) \<le> 5"
  by (simp add: nat_digits.simps [of n] nat_digits.simps [of "n div 10"] nat_digits.simps [of "n div 100"]
      nat_digits.simps [of "n div 1000"] nat_digits.simps [of "n div 10000"] div_mult2_eq [symmetric])

lemma port_text:
  assumes "0 < port" and "port \<le> 65535"
  shows "length (format_int port) \<le> 5" "format_int port \<noteq> []" "set (format_int port) \<inter> set ''[]:'' = {}"
    "set (format_int port) \<inter> set crlf_nul = {}" "parse_int (format_int port) = (port, None)"
proof -
  have digits: "format_int port = nat_digits (nat port)" using assms by (simp add: format_int_def)
  then show "length (format_int port) \<le> 5" "format_int port \<noteq> []"
    using assms nat_digits_short [of "nat port"] by simp_all
  show "set (format_int port) \<inter> set ''[]:'' = {}" "set (format_int port) \<inter> set crlf_nul = {}"
    by (auto simp: digits is_digit_def less_eq_char_def crlf_nul_def dest!: nat_digits_digits)
  show "parse_int (format_int port) = (port, None)"
    using assms by (intro parse_int_format_int) (simp_all add: min_int64_def max_int64_def)
qed

lemma joined_addr_valid:
  assumes "split_host_port addr = Inr (host, text)" and "validate_service_addr addr ''addr'' = None"
    and "length host \<le> 248" and port: "0 < port" "port \<le> 65535"
  shows "validate_service_addr (join_host_port host (format_int port)) ''addr'' = None"
    "split_host_port (join_host_port host (format_int port)) = Inr (host, format_int port)"
proof -
  note host = split_host_parts [OF assms(1)]
  show split: "split_host_port (join_host_port host (format_int port)) = Inr (host, format_int port)"
    using host port_text(3) [OF port] by (intro split_join_host_port) simp_all
  have "set host \<inter> set crlf_nul = {}"
    using host assms(2) by (auto simp: validate_service_addr_def contains_any_iff split: if_splits)
  then have "\<not> contains_any (join_host_port host (format_int port)) crlf_nul"
    using port_text(4) [OF port] by (auto simp: join_host_port_def contains_any_iff crlf_nul_def)
  moreover have "length (join_host_port host (format_int port)) \<le> 256" "join_host_port host (format_int port) \<noteq> []"
    using assms(3) port_text(1) [OF port] by (simp_all add: join_host_port_def)
  ultimately show "validate_service_addr (join_host_port host (format_int port)) ''addr'' = None"
    using port split port_text(2,5) [OF port] by (simp add: validate_service_addr_def)
qed

text \<open>The metadata: what the code adds is read into fields again, and the version also stays.\<close>

lemma filter_update_hidden:
  "k \<in> K \<Longrightarrow> filter (\<lambda>(k, v). k \<notin> K) (AList.update k v xs) = filter (\<lambda>(k, v). k \<notin> K) xs"
  by (induction xs) auto

lemma length_update_le: "length (AList.update k v xs) \<le> Suc (length xs)"
  by (induction xs) auto

lemma set_update_le: "set (AList.update k v xs) \<subseteq> insert (k, v) (set xs)"
  by (induction xs) auto

definition versioned_meta :: "service \<Rightarrow> (string \<times> string) list" where
  "versioned_meta svc =
    (if svc_version svc \<noteq> [] then AList.update ''version'' (svc_version svc) (meta_entries (svc_meta svc))
     else meta_entries (svc_meta svc))"

lemma consul_meta_shown:
  "filter (\<lambda>(k, v). k \<notin> set consul_reserved) (consul_meta tf svc) =
    filter (\<lambda>(k, v). k \<notin> set consul_reserved) (versioned_meta svc)"
proof -
  have "''grpc_addr'' \<in> set consul_reserved" "''register_at'' \<in> set consul_reserved"
    by (simp_all add: consul_reserved_def)
  note hidden = this [THEN filter_update_hidden]
  show ?thesis by (simp add: consul_meta_def versioned_meta_def Let_def hidden)
qed

lemma consul_meta_lookup:
  "map_of (consul_meta tf svc) ''version'' =
    (if svc_version svc \<noteq> [] then Some (svc_version svc) else map_of (meta_entries (svc_meta svc)) ''version'')"
  "map_of (consul_meta tf svc) ''grpc_addr'' =
    (if svc_grpc_addr svc \<noteq> [] then Some (svc_grpc_addr svc)
     else map_of (meta_entries (svc_meta svc)) ''grpc_addr'')"
  "map_of (consul_meta tf svc) ''register_at'' = Some (tf_format tf (svc_register_at svc))"
  by (simp_all add: consul_meta_def Let_def update_conv')

lemma distinct_consul_meta:
  "distinct (map fst (meta_entries (svc_meta svc))) \<Longrightarrow> distinct (map fst (consul_meta tf svc))"
  by (simp add: consul_meta_def Let_def distinct_update)

definition reads_back_as :: "time_format \<Rightarrow> consul_entry \<Rightarrow> service \<Rightarrow> service" where
  "reads_back_as tf entry svc = svc\<lparr>
    svc_version := (if svc_version svc \<noteq> [] then svc_version svc else meta_get (svc_meta svc) ''version''),
    svc_addr := join_host_port (ce_address entry) (format_int (ce_port entry)),
    svc_meta := Some (sort_key fst (versioned_meta svc)),
    svc_register_at := (case tf_parse tf (tf_format tf (svc_register_at svc)) of
      Some t \<Rightarrow> t | None \<Rightarrow> 0)\<rparr>"

lemma entry_reads_back:
  assumes reg: "consul_registration tf ip svc = Inr (entry, check_addr)"
    and meta: "set consul_reserved \<inter> set (map fst (meta_entries (svc_meta svc))) = {}"
  shows "consul_entry_service tf entry = reads_back_as tf entry svc"
proof -
  let ?m = "meta_entries (svc_meta svc)"
  have entry: "ce_id entry = svc_instance svc" "ce_name entry = svc_name svc" "ce_meta entry = consul_meta tf svc"
    using reg by (auto simp: consul_registration_def Let_def split: sum.splits option.splits if_splits)
  have none: "map_of ?m ''grpc_addr'' = None" "map_of ?m ''register_at'' = None"
    using meta by (auto simp: map_of_eq_None_iff consul_reserved_def)
  have "set (versioned_meta svc) \<subseteq> insert (''version'', svc_version svc) (set ?m)"
    using set_update_le [of "''version''" "svc_version svc" ?m] by (auto simp: versioned_meta_def)
  then have "filter (\<lambda>(k, v). k \<notin> set consul_reserved) (versioned_meta svc) = versioned_meta svc"
    using meta by (force simp: consul_reserved_def intro!: filter_True)
  then show ?thesis
    using none
    by (cases "svc_version svc = []"; cases "svc_grpc_addr svc = []"; cases "svc_meta svc")
      (simp_all add: consul_entry_service_def Let_def entry consul_meta_shown consul_meta_lookup
        reads_back_as_def meta_get_def meta_entries_def split: option.split)
qed

definition consul_safe :: "service \<Rightarrow> bool" where
  "consul_safe svc \<longleftrightarrow>
    (let meta = meta_entries (svc_meta svc)
     in set consul_reserved \<inter> set (map fst meta) = {} \<and> length (versioned_meta svc) \<le> 128 \<and>
        length (meta_get (svc_meta svc) ''version'') \<le> 128 \<and>
        (case split_host_port (svc_addr svc) of Inl e \<Rightarrow> False
         | Inr (host, port) \<Rightarrow> host \<noteq> [] \<and> length host \<le> 248))"

lemma valid_service_fields:
  "validate_service svc = None \<longleftrightarrow>
    validate_service_name (svc_name svc) = None \<and>
    length (svc_version svc) \<le> 128 \<and> \<not> contains_any (svc_version svc) crlf_nul \<and>
    svc_instance svc \<noteq> [] \<and> length (svc_instance svc) \<le> 256 \<and>
    \<not> contains ''/'' (svc_instance svc) \<and> \<not> contains_any (svc_instance svc) crlf_nul \<and>
    validate_service_addr (svc_addr svc) ''addr'' = None \<and>
    (svc_grpc_addr svc \<noteq> [] \<longrightarrow> validate_service_addr (svc_grpc_addr svc) ''grpc addr'' = None) \<and>
    length (meta_entries (svc_meta svc)) \<le> 128 \<and>
    (\<forall>(key, value) \<in> set (meta_entries (svc_meta svc)). key \<noteq> [] \<and> length key \<le> 128 \<and>
      length value \<le> 1024 \<and> \<not> contains_any (key @ value) crlf_nul)"
proof -
  have "list_ex (\<lambda>(key, value). key = [] \<or> length key > 128 \<or> length value > 1024 \<or>
      contains_any (key @ value) crlf_nul) xs \<longleftrightarrow>
    \<not> (\<forall>(key, value) \<in> set xs. key \<noteq> [] \<and> length key \<le> 128 \<and> length value \<le> 1024 \<and>
      \<not> contains_any (key @ value) crlf_nul)" for xs
    by (induction xs) (auto simp: not_less)
  then show ?thesis
    by (simp add: validate_service_def not_less split: option.split)
qed

lemma registration_parts:
  assumes "consul_registration tf ip svc = Inr (entry, check_addr)"
    and "split_host_port (svc_addr svc) = Inr (host, text)" and "host \<noteq> []"
  shows "ce_address entry = host" "0 < ce_port entry" "ce_port entry \<le> 65535"
    "parse_int text = (ce_port entry, None)" "check_addr = join_host_port host text"
  using assms by (auto simp: consul_registration_def Let_def atoi_def split: option.splits if_splits prod.splits)

lemma versioned_meta_valid:
  assumes "validate_service svc = None"
  shows "\<forall>(key, value) \<in> set (versioned_meta svc). key \<noteq> [] \<and> length key \<le> 128 \<and>
      length value \<le> 1024 \<and> \<not> contains_any (key @ value) crlf_nul"
proof -
  have "set (versioned_meta svc) \<subseteq> insert (''version'', svc_version svc) (set (meta_entries (svc_meta svc)))"
    using set_update_le [of "''version''" "svc_version svc" "meta_entries (svc_meta svc)"]
    by (auto simp: versioned_meta_def)
  moreover have "\<not> contains_any (''version'' @ svc_version svc) crlf_nul"
    using assms by (auto simp: valid_service_fields contains_any_iff crlf_nul_def)
  ultimately show ?thesis
    using assms unfolding valid_service_fields by fastforce
qed

lemma meta_get_valid:
  assumes "validate_service svc = None"
  shows "\<not> contains_any (meta_get (svc_meta svc) k) crlf_nul"
proof (cases "map_of (meta_entries (svc_meta svc)) k")
  case None
  then show ?thesis
    by (cases "svc_meta svc") (simp_all add: meta_get_def meta_entries_def contains_any_iff)
next
  case (Some v)
  then have "\<not> contains_any (k @ v) crlf_nul"
    using assms map_of_SomeD [OF Some] by (auto simp: valid_service_fields)
  then show ?thesis
    using Some by (cases "svc_meta svc") (auto simp: meta_get_def meta_entries_def contains_any_iff)
qed

text \<open>
  C28. What \<open>Register\<close> writes to Consul, \<open>Discover\<close> reads back: a valid instance whose address
  names a host, and whose metadata does not use the keys of the backend and leaves room for
  the version, is listed again with the same name, identifier and gRPC address, with its
  version and metadata (which now also carries the version), with its host and the value of
  its port as the address, and with the registration time as far as the time format keeps it.
\<close>

theorem consul_discovers_registered:
  assumes valid: "validate_service svc = None" and safe: "consul_safe svc"
    and reg: "consul_registration tf ip svc = Inr (entry, check_addr)"
  shows "consul_services tf (svc_name svc) [entry] = [reads_back_as tf entry svc] \<and>
    (\<exists>host pt. split_host_port (svc_addr svc) = Inr (host, pt) \<and> check_addr = join_host_port host pt \<and>
      split_host_port (svc_addr (reads_back_as tf entry svc)) = Inr (host, format_int (ce_port entry)) \<and>
      parse_int pt = (ce_port entry, None))"
proof -
  obtain host pt where addr: "split_host_port (svc_addr svc) = Inr (host, pt)"
    and host: "host \<noteq> []" "length host \<le> 248"
    using safe by (auto simp: consul_safe_def Let_def split: sum.splits)
  note parts = registration_parts [OF reg addr host(1)]
  have "validate_service_addr (svc_addr svc) ''addr'' = None"
    using valid by (simp add: valid_service_fields)
  note joined = joined_addr_valid [OF addr this host(2) parts(2,3)]
  have "validate_service (reads_back_as tf entry svc) = None"
    using valid safe joined parts(1) versioned_meta_valid [OF valid] meta_get_valid [OF valid]
    by (simp add: reads_back_as_def valid_service_fields consul_safe_def Let_def meta_entries_def)
  moreover have "consul_entry_service tf entry = reads_back_as tf entry svc"
    using safe by (intro entry_reads_back [OF reg]) (simp add: consul_safe_def Let_def)
  ultimately have "consul_services tf (svc_name svc) [entry] = [reads_back_as tf entry svc]"
    by (simp add: consul_services_def) (simp add: reads_back_as_def)
  moreover have "svc_addr (reads_back_as tf entry svc) = join_host_port host (format_int (ce_port entry))"
    using parts(1) by (simp add: reads_back_as_def)
  ultimately show ?thesis
    using addr parts(4,5) joined(2) by simp
qed

text \<open>
  Without the room: 128 entries are accepted by \<open>Register\<close>, the version makes them 129, and
  \<open>Discover\<close> drops the instance that it was asked for.
\<close>

lemma consul_version_takes_room:
  assumes "validate_service svc = None" and "length (versioned_meta svc) = 129"
    and "set consul_reserved \<inter> set (map fst (meta_entries (svc_meta svc))) = {}"
    and "consul_registration tf ip svc = Inr (entry, check_addr)"
  shows "consul_services tf (svc_name svc) [entry] = []"
proof -
  have "validate_service (consul_entry_service tf entry) \<noteq> None"
    using assms(2) by (simp add: entry_reads_back [OF assms(4,3)] valid_service_fields reads_back_as_def
        meta_entries_def)
  then show ?thesis by (simp add: consul_services_def)
qed

definition demo_time_format :: time_format where
  "demo_time_format = \<lparr>tf_format = format_int, tf_parse = (\<lambda>s. Some (fst (parse_int s)))\<rparr>"

lemma demo_split: "split_host_port ''10.0.1.5:7801'' = Inr (''10.0.1.5'', ''7801'')"
  by (simp add: split_host_port_def)

lemma demo_registration:
  obtains entry check_addr where
    "consul_registration demo_time_format [] (demo_service ''mf-user'' ''u1'') = Inr (entry, check_addr)"
proof -
  have "parse_int ''7801'' = (7801, None)"
    by (simp add: parse_int_def signed_range_def parse_uint_def is_digit_def less_eq_char_def digit_val_def)
  then show ?thesis
    using that by (simp add: consul_registration_def demo_service_def atoi_def demo_split)
qed

theorem consul_discovers_registered_witness:
  "\<exists>entry check_addr. consul_registration demo_time_format [] (demo_service ''mf-user'' ''u1'') =
      Inr (entry, check_addr) \<and>
    consul_services demo_time_format ''mf-user'' [entry] =
      [reads_back_as demo_time_format entry (demo_service ''mf-user'' ''u1'')]"
proof -
  let ?svc = "demo_service ''mf-user'' ''u1''"
  obtain entry check_addr where reg: "consul_registration demo_time_format [] ?svc = Inr (entry, check_addr)"
    by (rule demo_registration)
  have "consul_safe ?svc"
    by (simp add: consul_safe_def demo_service_def demo_split meta_entries_def meta_get_def
        consul_reserved_def versioned_meta_def Let_def)
  from consul_discovers_registered [OF demo_service_valid(1) this reg] reg show ?thesis
    by (simp add: demo_service_def)
qed

subsection \<open>Following a watch\<close>

lemma consul_puts_apply:
  assumes "distinct (map svc_instance ss)"
    and "\<And>s. s \<in> set ss \<Longrightarrow> m (svc_instance s) = map_of known (svc_instance s)"
  shows "apply_events (consul_puts known ss) m = apply_events (map put_event ss) m"
  using assms
proof (induction ss arbitrary: m)
  case (Cons s ss)
  let ?m = "m(svc_instance s \<mapsto> s)"
  have same: "apply_events (if map_of known (svc_instance s) \<noteq> Some s then [put_event s] else []) m = ?m"
    using Cons.prems(2) [of s] by (auto simp: fun_eq_iff)
  have "apply_events (consul_puts known ss) ?m = apply_events (map put_event ss) ?m"
  proof (rule Cons.IH)
    fix t
    assume t: "t \<in> set ss"
    moreover have "svc_instance s \<notin> svc_instance ` set ss" using Cons.prems(1) by simp
    ultimately have "svc_instance t \<noteq> svc_instance s" by (metis imageI)
    with t show "?m (svc_instance t) = map_of known (svc_instance t)" using Cons.prems(2) by simp
  qed (use Cons.prems(1) in simp)
  with same show ?case by (simp del: fun_upd_apply)
qed simp

definition distinct_instances :: "time_format \<Rightarrow> string \<Rightarrow> consul_entry list \<Rightarrow> bool" where
  "distinct_instances tf name entries \<longleftrightarrow> distinct (map svc_instance (consul_services tf name entries))"

lemma consul_round_follows:
  assumes "known_ok known" and "distinct_instances tf name entries"
    and round: "consul_round tf name entries known = (es, known')"
  shows "apply_events es (map_of known) = map_of known' \<and> known_ok known'"
proof -
  let ?ss = "consul_services tf name entries"
  let ?gone = "filter (\<lambda>(i, svc). map_of (known_from ?ss) i = None) known"
  have known': "known' = known_from ?ss"
    and es: "es = consul_puts known ?ss @ map delete_event (map (\<lambda>(i, svc). bare_service name i) ?gone)"
    using round by (auto simp: consul_round_def Let_def)
  have "svc_instance (snd p) = fst p" if "p \<in> set ?gone" for p
    using that assms(1) by (auto simp: known_ok_def)
  then have "svc_instance ` set (map (\<lambda>(i, svc). bare_service name i) ?gone) = svc_instance ` set (map snd ?gone)"
    unfolding set_map image_image by (intro image_cong) (auto simp: bare_service_def)
  then have ids: "svc_instance ` set (map (\<lambda>(i, svc). bare_service name i) ?gone) =
      {i. map_of (known_from ?ss) i = None \<and> map_of known i \<noteq> None}"
    using gone_instances [OF assms(1)] by simp
  have puts: "apply_events (consul_puts known ?ss) (map_of known) = map_of known ++ map_of (known_from ?ss)"
    using assms(2) by (simp add: consul_puts_apply distinct_instances_def apply_puts known_from_map)
  have "apply_events es (map_of known) = map_of (known_from ?ss)"
    unfolding es apply_events_simps(3) puts apply_deletes ids
    by (auto simp: fun_eq_iff map_add_def split: option.split)
  then show ?thesis by (simp add: known')
qed

interpretation consul_feed: event_feed "consul_round tf name" map_of known_ok "distinct_instances tf name"
  for tf name
  by unfold_locales (auto dest: consul_round_follows)

lemma consul_rounds_known:
  "run_feed (consul_round tf name) rounds known = (es, known') \<Longrightarrow>
    known' = (if rounds = [] then known else known_from (consul_services tf name (last rounds)))"
  by (induction rounds arbitrary: known es) (auto simp: consul_round_def Let_def split: prod.splits if_splits)

text \<open>
  Whoever follows \<open>Watch\<close> on Consul, when no answer lists one identifier twice, always has
  the instances of the last health query.
\<close>

theorem consul_watch_mirrors:
  assumes start: "consul_watch_start tf name first = (es0, known0)"
    and distinct: "list_all (distinct_instances tf name) rounds"
    and run: "run_feed (consul_round tf name) rounds known0 = (es, known)"
  shows "apply_events (es0 @ es) Map.empty =
    map_of (rev (map (\<lambda>s. (svc_instance s, s)) (consul_services tf name (last (first # rounds)))))"
proof -
  have es0: "es0 = map put_event (consul_services tf name first)"
    and known0: "known0 = known_from (consul_services tf name first)"
    using start by (simp_all add: consul_watch_start_def Let_def)
  then have "apply_events es (map_of known0) = map_of known"
    using consul_feed.follower_in_sync [OF _ distinct run] by simp
  moreover have "apply_events es0 Map.empty = map_of known0"
    by (simp add: es0 known0 apply_puts known_from_map)
  moreover have "known = known_from (consul_services tf name (last (first # rounds)))"
    using consul_rounds_known [OF run] known0 by simp
  ultimately show ?thesis by (simp add: known_from_map)
qed

text \<open>
  With identifiers listed twice, one identifier at a time: what the puts of a round leave of it, what
  an answer says of it, and so what a follower holds of it after any number of rounds.
\<close>

definition named_entries :: "string \<Rightarrow> service list \<Rightarrow> service list" where
  "named_entries i ss = filter (\<lambda>s. svc_instance s = i) ss"

definition listed_once :: "time_format \<Rightarrow> string \<Rightarrow> string \<Rightarrow> consul_entry list \<Rightarrow> bool" where
  "listed_once tf name i entries \<longleftrightarrow> length (named_entries i (consul_services tf name entries)) \<le> 1"

fun last_put :: "service option \<Rightarrow> service list \<Rightarrow> service option \<Rightarrow> service option" where
  "last_put p [] x = x"
| "last_put p (s # ss) x = last_put p ss (if p \<noteq> Some s then Some s else x)"

lemma consul_puts_at:
  "apply_events (consul_puts known ss) m i = last_put (map_of known i) (named_entries i ss) (m i)"
  by (induction ss arbitrary: m) (auto simp: named_entries_def)

lemma known_from_at:
  "map_of (known_from ss) i = (if named_entries i ss = [] then None else Some (last (named_entries i ss)))"
  by (induction ss rule: rev_induct) (auto simp: known_from_map named_entries_def)

lemma last_put_None: "p \<noteq> None \<or> ss = [] \<Longrightarrow> last_put p ss x = None \<Longrightarrow> x = None"
  by (induction ss arbitrary: x) (auto split: if_splits)

lemma last_put_Some [simp]: "last_put p ss (Some x) \<noteq> None"
  by (induction ss arbitrary: x) (auto split: if_splits)

lemma last_put_new: "ss \<noteq> [] \<Longrightarrow> last_put None ss x \<noteq> None"
  by (cases ss) (simp_all del: last_put.simps(1))

lemma last_put_in: "last_put p ss x = Some s \<Longrightarrow> s \<in> set ss \<or> x = Some s"
  by (induction ss arbitrary: x) (auto split: if_splits)

lemma named_entries_set: "s \<in> set (named_entries i ss) \<longleftrightarrow> s \<in> set ss \<and> svc_instance s = i"
  by (auto simp: named_entries_def)

lemma consul_round_at:
  assumes "known_ok known" and "consul_round tf name entries known = (es, known')"
  shows "apply_events es m i =
    (if named_entries i (consul_services tf name entries) = [] then
       (if map_of known i = None then m i else None)
     else last_put (map_of known i) (named_entries i (consul_services tf name entries)) (m i))"
proof -
  let ?ss = "consul_services tf name entries"
  let ?gone = "filter (\<lambda>(i, svc). map_of (known_from ?ss) i = None) known"
  have es: "es = consul_puts known ?ss @ map delete_event (map (\<lambda>(i, svc). bare_service name i) ?gone)"
    using assms(2) by (auto simp: consul_round_def Let_def)
  have "svc_instance ` set (map (\<lambda>(i, svc). bare_service name i) ?gone) = fst ` set ?gone"
    unfolding set_map image_image by (intro image_cong) (auto simp: bare_service_def)
  moreover have "i \<in> fst ` set ?gone \<longleftrightarrow> map_of (known_from ?ss) i = None \<and> map_of known i \<noteq> None"
    by (force simp: map_of_eq_None_iff)
  ultimately show ?thesis
    unfolding es apply_events_simps(3) apply_deletes consul_puts_at
    by (auto simp: known_from_at)
qed

definition follows_at :: "service_map \<Rightarrow> known_services \<Rightarrow> service set \<Rightarrow> string \<Rightarrow> bool" where
  "follows_at m known listed i \<longleftrightarrow> (m i = None \<longleftrightarrow> map_of known i = None) \<and>
    (\<forall>svc. m i = Some svc \<longrightarrow> svc_instance svc = i \<and> svc \<in> listed)"

lemma consul_round_follows_at:
  assumes "known_ok known" and "consul_round tf name entries known = (es, known')"
    and "follows_at m known listed i"
  shows "follows_at (apply_events es m) known' (listed \<union> set (consul_services tf name entries)) i"
    "listed_once tf name i entries \<Longrightarrow> m i = map_of known i \<Longrightarrow> apply_events es m i = map_of known' i"
proof -
  let ?xs = "named_entries i (consul_services tf name entries)"
  note at = consul_round_at [OF assms(1,2), of m i]
  have known': "map_of known' i = (if ?xs = [] then None else Some (last ?xs))"
    using assms(2) known_from_at [of "consul_services tf name entries" i] by (auto simp: consul_round_def Let_def)
  have some: "last_put (map_of known i) ?xs (m i) \<noteq> None" if "?xs \<noteq> []"
    using assms(3) that last_put_new by (cases "m i") (auto simp: follows_at_def)
  show "follows_at (apply_events es m) known' (listed \<union> set (consul_services tf name entries)) i"
  proof (cases "?xs = []")
    case True
    then have "apply_events es m i = None"
      using assms(3) at by (auto simp: follows_at_def)
    then show ?thesis by (simp add: follows_at_def known' True)
  next
    case False
    then show ?thesis
      using some assms(3) at last_put_in [of "map_of known i" ?xs "m i"]
      by (auto simp: follows_at_def known' named_entries_set)
  qed
  show "apply_events es m i = map_of known' i" if "listed_once tf name i entries" "m i = map_of known i"
    using that at known' by (cases ?xs) (auto simp: listed_once_def)
qed

lemma consul_rounds_follow:
  assumes "run_feed (consul_round tf name) rounds known = (es, known')" and "known_ok known"
    and "follows_at m known listed i"
  shows "follows_at (apply_events es m) known'
      (listed \<union> (\<Union>entries \<in> set rounds. set (consul_services tf name entries))) i \<and>
    (list_all (listed_once tf name i) rounds \<longrightarrow> m i = map_of known i \<longrightarrow>
      apply_events es m i = map_of known' i)"
  using assms
proof (induction rounds arbitrary: known es m listed)
  case (Cons entries rounds)
  obtain es1 known1 es2 where one: "consul_round tf name entries known = (es1, known1)"
    and rest: "run_feed (consul_round tf name) rounds known1 = (es2, known')" and es: "es = es1 @ es2"
    using Cons.prems(1) by (auto split: prod.splits)
  have ok: "known_ok known1"
    using one by (auto simp: consul_round_def Let_def)
  note first = consul_round_follows_at [OF Cons.prems(2) one Cons.prems(3)]
  from Cons.IH [OF rest ok first(1)] first(2) show ?case
    by (simp add: es Un_assoc)
qed simp

text \<open>
  With one identifier listed twice, the code compares each entry with the last entry of the
  previous answer, and a follower is left with an instance the query no longer ends with.
\<close>

lemma consul_duplicate_diverges:
  assumes "consul_services tf name entries = [s, t]" and "svc_instance s = svc_instance t" and "s \<noteq> t"
    and "consul_watch_start tf name entries = (es0, known0)"
    and "consul_round tf name entries known0 = (es, known)"
  shows "map_of known (svc_instance t) = Some t \<and>
    apply_events (es0 @ es) Map.empty (svc_instance t) = Some s"
  using assms by (auto simp: consul_watch_start_def consul_round_def Let_def known_from_def split: if_splits)

subsection \<open>The registry and its refresh loops\<close>

text \<open>
  A refresh loop is the goroutine of \<open>refreshTTL\<close>: it updates its check at every tick until
  its context is cancelled. \<open>cr_cancels\<close> maps an instance to the number of its loop.
\<close>

record consul_loop =
  cl_check :: string
  cl_cancelled :: bool

record 'c consul_registry =
  cr_config :: registry_config
  cr_agent :: 'c
  cr_checks :: "(string \<times> string) list"
  cr_cancels :: "(string \<times> nat) list"
  cr_loops :: "consul_loop list"

definition new_consul ::
  "(string \<Rightarrow> registry_config \<Rightarrow> goerr option \<times> 'c) \<Rightarrow> registry_config \<Rightarrow> goerr + 'c consul_registry" where
  "new_consul connect cfg =
    (let addr = (if rg_address cfg = [] \<and> rg_endpoints cfg \<noteq> [] then hd (rg_endpoints cfg) else rg_address cfg)
     in if addr = [] then Inl (Errorf ''registry: no consul address configured'')
        else case consul_check_type cfg of
            Inl err \<Rightarrow> Inl err
          | Inr check_type \<Rightarrow>
             (case connect addr cfg of
                (Some err, agent) \<Rightarrow> Inl (Wrapf ''registry: consul connect: %w'' err)
              | (None, agent) \<Rightarrow> Inr \<lparr>cr_config = cfg, cr_agent = agent, cr_checks = [],
                  cr_cancels = [], cr_loops = []\<rparr>))"

definition agent_call :: "('c \<Rightarrow> 'a \<times> 'c) \<Rightarrow> 'c consul_registry \<Rightarrow> 'a \<times> 'c consul_registry" where
  "agent_call f r = (let (x, c) = f (cr_agent r) in (x, r\<lparr>cr_agent := c\<rparr>))"

definition cancel_refresh :: "nat option \<Rightarrow> 'c consul_registry \<Rightarrow> 'c consul_registry" where
  "cancel_refresh loop r =
    (case loop of None \<Rightarrow> r
     | Some n \<Rightarrow> r\<lparr>cr_loops := (cr_loops r)[n := (cr_loops r ! n)\<lparr>cl_cancelled := True\<rparr>]\<rparr>)"

definition consul_publish :: "string \<Rightarrow> string \<Rightarrow> bool \<Rightarrow> 'c consul_registry \<Rightarrow> 'c consul_registry" where
  "consul_publish i check_id uses_ttl r =
    (let old_cancel = map_of (cr_cancels r) i;
         r = r\<lparr>cr_checks := AList.update i check_id (cr_checks r)\<rparr>;
         r = (if uses_ttl
              then r\<lparr>cr_cancels := AList.update i (length (cr_loops r)) (cr_cancels r),
                     cr_loops := cr_loops r @ [\<lparr>cl_check = check_id, cl_cancelled = False\<rparr>]\<rparr>
              else r\<lparr>cr_cancels := AList.delete i (cr_cancels r)\<rparr>)
     in cancel_refresh old_cancel r)"

definition consul_register ::
  "'c consul_api \<Rightarrow> time_format \<Rightarrow> (string \<Rightarrow> string \<Rightarrow> string \<Rightarrow> string) \<Rightarrow> string \<Rightarrow> string \<Rightarrow>
    instant \<Rightarrow> service \<Rightarrow> 'c consul_registry \<Rightarrow> goerr option \<times> 'c consul_registry" where
  "consul_register api tf url_string local_ip generated now svc r =
    (let svc = (if svc_instance svc = [] then svc\<lparr>svc_instance := generated\<rparr> else svc)
     in case validate_service svc of
          Some err \<Rightarrow> (Some err, r)
        | None \<Rightarrow>
       (let svc = svc\<lparr>svc_register_at := now\<rparr>
        in case consul_registration tf local_ip svc of
             Inl err \<Rightarrow> (Some err, r)
           | Inr (entry, check_addr) \<Rightarrow>
          (let check_id = ''check-'' @ svc_instance svc
           in case consul_service_check url_string (cr_config r) check_id check_addr of
                Inl err \<Rightarrow> (Some err, r)
              | Inr (check, uses_ttl) \<Rightarrow>
             (case agent_call (ca_register api entry check) r of
                (Some err, r) \<Rightarrow> (Some (Wrapf ''registry: consul register: %w'' err), r)
              | (None, r) \<Rightarrow>
                  if \<not> uses_ttl then (None, consul_publish (svc_instance svc) check_id False r)
                  else (case agent_call (ca_update_ttl api check_id) r of
                      (Some err, r) \<Rightarrow>
                        (Some (Wrapf ''registry: consul pass ttl: %w'' err),
                         snd (agent_call (ca_deregister api (svc_instance svc)) r))
                    | (None, r) \<Rightarrow> (None, consul_publish (svc_instance svc) check_id True r))))))"

definition refresh_tick :: "'c consul_api \<Rightarrow> nat \<Rightarrow> 'c consul_registry \<Rightarrow> 'c consul_registry" where
  "refresh_tick api n r =
    (if cl_cancelled (cr_loops r ! n) then r
     else snd (agent_call (ca_update_ttl api (cl_check (cr_loops r ! n))) r))"

definition bad_instance_id :: "string \<Rightarrow> bool" where
  "bad_instance_id i \<longleftrightarrow> i = [] \<or> length i > 256 \<or> contains ''/'' i \<or> contains_any i crlf_nul"

definition consul_deregister ::
  "'c consul_api \<Rightarrow> string \<Rightarrow> string \<Rightarrow> 'c consul_registry \<Rightarrow> goerr option \<times> 'c consul_registry" where
  "consul_deregister api name i r =
    (case validate_service_name (trim_space name) of
       Some err \<Rightarrow> (Some err, r)
     | None \<Rightarrow>
        if bad_instance_id i then (Some (Errorf ''registry: invalid instance ID %q''), r)
        else (let r = cancel_refresh (map_of (cr_cancels r) i) r;
                  r = r\<lparr>cr_cancels := AList.delete i (cr_cancels r), cr_checks := AList.delete i (cr_checks r)\<rparr>;
                  (err, r) = agent_call (ca_deregister api i) r
              in (map_option (Wrapf ''registry: consul deregister: %w'') err, r)))"

definition consul_close :: "'c consul_api \<Rightarrow> 'c consul_registry \<Rightarrow> 'c consul_registry" where
  "consul_close api r =
    (let r = fold (\<lambda>(i, n). cancel_refresh (Some n)) (cr_cancels r) r;
         checks = cr_checks r;
         r = r\<lparr>cr_cancels := [], cr_checks := []\<rparr>
     in fold (\<lambda>(i, check_id) r. snd (agent_call (ca_check_deregister api check_id)
          (snd (agent_call (ca_deregister api i) r)))) checks r)"

datatype consul_op =
  ConsulRegister string instant service | ConsulDeregister string string | ConsulTick nat | ConsulClose

definition consul_exec ::
  "'c consul_api \<Rightarrow> time_format \<Rightarrow> (string \<Rightarrow> string \<Rightarrow> string \<Rightarrow> string) \<Rightarrow> string \<Rightarrow> consul_op \<Rightarrow>
    'c consul_registry \<Rightarrow> 'c consul_registry" where
  "consul_exec api tf url_string local_ip op r =
    (case op of
       ConsulRegister generated now svc \<Rightarrow>
         snd (consul_register api tf url_string local_ip generated now svc r)
     | ConsulDeregister name i \<Rightarrow> snd (consul_deregister api name i r)
     | ConsulTick n \<Rightarrow> if n < length (cr_loops r) then refresh_tick api n r else r
     | ConsulClose \<Rightarrow> consul_close api r)"

inductive consul_step ::
  "'c consul_api \<Rightarrow> time_format \<Rightarrow> (string \<Rightarrow> string \<Rightarrow> string \<Rightarrow> string) \<Rightarrow> string \<Rightarrow>
    'c consul_registry \<Rightarrow> 'c consul_registry \<Rightarrow> bool" for api tf url_string local_ip where
  consul_execs: "consul_step api tf url_string local_ip r (consul_exec api tf url_string local_ip op r)"

text \<open>
  The invariant: the loops that are not cancelled are exactly those that \<open>cr_cancels\<close> names,
  each refreshes the check of its instance, and that instance is registered.
\<close>

definition loops_ok :: "'c consul_registry \<Rightarrow> bool" where
  "loops_ok r \<longleftrightarrow>
    (\<forall>i n. map_of (cr_cancels r) i = Some n \<longrightarrow> n < length (cr_loops r) \<and>
      cl_check (cr_loops r ! n) = ''check-'' @ i \<and> map_of (cr_checks r) i = Some (''check-'' @ i)) \<and>
    (\<forall>n < length (cr_loops r). \<not> cl_cancelled (cr_loops r ! n) \<longleftrightarrow>
      (\<exists>i. map_of (cr_cancels r) i = Some n)) \<and>
    distinct (map fst (cr_cancels r)) \<and> distinct (map fst (cr_checks r))"

lemma agent_call_fields [simp]:
  "cr_config (snd (agent_call f r)) = cr_config r" "cr_checks (snd (agent_call f r)) = cr_checks r"
  "cr_cancels (snd (agent_call f r)) = cr_cancels r" "cr_loops (snd (agent_call f r)) = cr_loops r"
  by (simp_all add: agent_call_def split_def Let_def)

lemma cancel_refresh_fields [simp]:
  "cr_config (cancel_refresh l r) = cr_config r" "cr_checks (cancel_refresh l r) = cr_checks r"
  "cr_cancels (cancel_refresh l r) = cr_cancels r" "cr_agent (cancel_refresh l r) = cr_agent r"
  "length (cr_loops (cancel_refresh l r)) = length (cr_loops r)"
  by (simp_all add: cancel_refresh_def split: option.split)

lemma cancel_refresh_nth [simp]:
  assumes "n < length (cr_loops r)"
  shows "cl_check (cr_loops (cancel_refresh l r) ! n) = cl_check (cr_loops r ! n)"
    "cl_cancelled (cr_loops (cancel_refresh l r) ! n) \<longleftrightarrow> cl_cancelled (cr_loops r ! n) \<or> l = Some n"
  using assms by (cases "l = Some n"; auto simp: cancel_refresh_def split: option.split)+

lemma loops_okD:
  assumes "loops_ok r"
  shows "map_of (cr_cancels r) i = Some n \<Longrightarrow> n < length (cr_loops r)"
    "map_of (cr_cancels r) i = Some n \<Longrightarrow> cl_check (cr_loops r ! n) = ''check-'' @ i"
    "map_of (cr_cancels r) i = Some n \<Longrightarrow> map_of (cr_checks r) i = Some (''check-'' @ i)"
    "n < length (cr_loops r) \<Longrightarrow> \<not> cl_cancelled (cr_loops r ! n) \<Longrightarrow>
      \<exists>i. map_of (cr_cancels r) i = Some n"
    "map_of (cr_cancels r) i = Some n \<Longrightarrow> \<not> cl_cancelled (cr_loops r ! n)"
    "distinct (map fst (cr_cancels r))" "distinct (map fst (cr_checks r))"
  using assms unfolding loops_ok_def by blast+

lemma loops_ok_same_loop:
  "loops_ok r \<Longrightarrow> map_of (cr_cancels r) i = Some n \<Longrightarrow> map_of (cr_cancels r) j = Some n \<Longrightarrow> i = j"
  using loops_okD(2) [of r i n] loops_okD(2) [of r j n] by simp

lemma loops_ok_agent: "loops_ok (r\<lparr>cr_agent := c\<rparr>) = loops_ok r"
  by (simp add: loops_ok_def)

lemma loops_ok_agent_call [simp]: "loops_ok (snd (agent_call f r)) = loops_ok r"
  by (simp add: loops_ok_def)

text \<open>Cancelling the loop of an instance and forgetting it.\<close>

lemma loops_ok_forget:
  assumes ok: "loops_ok r"
    and r': "cr_loops r' = cr_loops (cancel_refresh (map_of (cr_cancels r) i) r)"
      "cr_cancels r' = AList.delete i (cr_cancels r)" "distinct (map fst (cr_checks r'))"
      "\<And>j. j \<noteq> i \<Longrightarrow> map_of (cr_checks r') j = map_of (cr_checks r) j"
  shows "loops_ok r'"
  unfolding loops_ok_def r'(1,2) cancel_refresh_fields
proof (intro conjI allI impI)
  fix j n
  assume "map_of (AList.delete i (cr_cancels r)) j = Some n"
  then have j: "j \<noteq> i" "map_of (cr_cancels r) j = Some n"
    by (auto simp: delete_conv' split: if_splits)
  note own = loops_okD(1-3) [OF ok j(2)]
  then show "n < length (cr_loops r)" by simp
  then show "cl_check (cr_loops (cancel_refresh (map_of (cr_cancels r) i) r) ! n) = ''check-'' @ j"
    using own by simp
  show "map_of (cr_checks r') j = Some (''check-'' @ j)" using own j r'(4) by simp
next
  fix n
  assume n: "n < length (cr_loops r)"
  show "(\<not> cl_cancelled (cr_loops (cancel_refresh (map_of (cr_cancels r) i) r) ! n)) =
      (\<exists>j. map_of (AList.delete i (cr_cancels r)) j = Some n)"
  proof -
    have "(\<exists>j. map_of (AList.delete i (cr_cancels r)) j = Some n) \<longleftrightarrow>
        (\<exists>j. j \<noteq> i \<and> map_of (cr_cancels r) j = Some n)"
      by (auto simp: delete_conv')
    moreover have "\<dots> \<longleftrightarrow> \<not> cl_cancelled (cr_loops r ! n) \<and> map_of (cr_cancels r) i \<noteq> Some n"
      using n loops_okD(4,5) [OF ok] loops_ok_same_loop [OF ok] by metis
    ultimately show ?thesis using n by simp
  qed
qed (use loops_okD(6) [OF ok] r'(3) in \<open>simp_all add: distinct_delete\<close>)

text \<open>Starting the loop of an instance that has none.\<close>

lemma loops_ok_start:
  assumes ok: "loops_ok r" and none: "map_of (cr_cancels r) i = None"
    and check: "map_of (cr_checks r) i = Some (''check-'' @ i)"
    and r': "cr_loops r' = cr_loops r @ [\<lparr>cl_check = ''check-'' @ i, cl_cancelled = False\<rparr>]"
      "map_of (cr_cancels r') = (map_of (cr_cancels r))(i \<mapsto> length (cr_loops r))"
      "distinct (map fst (cr_cancels r'))" "cr_checks r' = cr_checks r"
  shows "loops_ok r'"
  unfolding loops_ok_def r'(1,2,4)
proof (intro conjI allI impI)
  fix j n
  assume j: "((map_of (cr_cancels r))(i \<mapsto> length (cr_loops r))) j = Some n"
  show "n < length (cr_loops r @ [\<lparr>cl_check = ''check-'' @ i, cl_cancelled = False\<rparr>])"
    "cl_check ((cr_loops r @ [\<lparr>cl_check = ''check-'' @ i, cl_cancelled = False\<rparr>]) ! n) = ''check-'' @ j"
    "map_of (cr_checks r) j = Some (''check-'' @ j)"
    using j check loops_okD(1-3) [OF ok, of j n] by (auto simp: nth_append split: if_splits)
next
  fix n
  assume "n < length (cr_loops r @ [\<lparr>cl_check = ''check-'' @ i, cl_cancelled = False\<rparr>])"
  then consider "n < length (cr_loops r)" | "n = length (cr_loops r)" by fastforce
  then show "(\<not> cl_cancelled ((cr_loops r @ [\<lparr>cl_check = ''check-'' @ i, cl_cancelled = False\<rparr>]) ! n)) =
      (\<exists>j. ((map_of (cr_cancels r))(i \<mapsto> length (cr_loops r))) j = Some n)"
  proof cases
    case 1
    then have "(\<exists>j. ((map_of (cr_cancels r))(i \<mapsto> length (cr_loops r))) j = Some n) =
        (\<exists>j. map_of (cr_cancels r) j = Some n)"
      using none by (metis fun_upd_apply less_irrefl option.distinct(1) option.inject)
    then show ?thesis
      using 1 loops_okD(5) [OF ok, of _ n] loops_okD(4) [OF ok, of n] by (auto simp: nth_append)
  next
    case 2
    then show ?thesis by (auto simp: nth_append)
  qed
qed (use loops_okD(7) [OF ok] r'(3) in simp_all)

lemma publish_loops_ok:
  assumes ok: "loops_ok r"
  shows "loops_ok (consul_publish i (''check-'' @ i) uses_ttl r)"
proof -
  let ?r = "(cancel_refresh (map_of (cr_cancels r) i) r)
    \<lparr>cr_cancels := AList.delete i (cr_cancels r), cr_checks := AList.update i (''check-'' @ i) (cr_checks r)\<rparr>"
  have forgot: "loops_ok ?r"
    by (rule loops_ok_forget [OF ok]) (auto simp: distinct_update loops_okD(7) [OF ok] update_conv')
  show ?thesis
  proof (cases uses_ttl)
    case True
    have "cr_loops (consul_publish i (''check-'' @ i) True r) =
        cr_loops ?r @ [\<lparr>cl_check = ''check-'' @ i, cl_cancelled = False\<rparr>]"
      using loops_okD(1) [OF ok, of i]
      by (auto simp: consul_publish_def Let_def cancel_refresh_def list_update_append nth_append
          split: option.split)
    then have "loops_ok (consul_publish i (''check-'' @ i) True r)"
      by (intro loops_ok_start [OF forgot])
        (auto simp: consul_publish_def Let_def update_conv' delete_conv' distinct_update
          loops_okD(6) [OF ok] fun_eq_iff)
    with True show ?thesis by simp
  next
    case False
    have "loops_ok (consul_publish i (''check-'' @ i) False r)"
      by (rule loops_ok_forget [OF ok, where i = i])
        (auto simp: consul_publish_def Let_def cancel_refresh_def distinct_update loops_okD(7) [OF ok]
          update_conv' split: option.split)
    with False show ?thesis by simp
  qed
qed

lemma cancel_all_loops:
  "length (cr_loops (fold (\<lambda>(i, n). cancel_refresh (Some n)) xs r)) = length (cr_loops r) \<and>
   cr_checks (fold (\<lambda>(i, n). cancel_refresh (Some n)) xs r) = cr_checks r \<and>
   (\<forall>n < length (cr_loops r). cl_cancelled (cr_loops (fold (\<lambda>(i, n). cancel_refresh (Some n)) xs r) ! n)
      \<longleftrightarrow> cl_cancelled (cr_loops r ! n) \<or> (\<exists>i. (i, n) \<in> set xs))"
  by (induction xs arbitrary: r) auto

lemma close_calls_fields:
  "cr_loops (fold (\<lambda>(i, check_id) r. snd (agent_call (ca_check_deregister api check_id)
      (snd (agent_call (ca_deregister api i) r)))) xs r) = cr_loops r \<and>
   cr_cancels (fold (\<lambda>(i, check_id) r. snd (agent_call (ca_check_deregister api check_id)
      (snd (agent_call (ca_deregister api i) r)))) xs r) = cr_cancels r \<and>
   cr_checks (fold (\<lambda>(i, check_id) r. snd (agent_call (ca_check_deregister api check_id)
      (snd (agent_call (ca_deregister api i) r)))) xs r) = cr_checks r"
  by (induction xs arbitrary: r) (simp_all add: split_def)

lemma close_stops_loops:
  assumes ok: "loops_ok r"
  shows "cr_cancels (consul_close api r) = [] \<and> cr_checks (consul_close api r) = [] \<and>
    list_all cl_cancelled (cr_loops (consul_close api r))"
proof -
  have "\<exists>i. (i, n) \<in> set (cr_cancels r)" if "n < length (cr_loops r)" "\<not> cl_cancelled (cr_loops r ! n)" for n
    using loops_okD(4) [OF ok that] by (auto dest: map_of_SomeD)
  then show ?thesis
    using cancel_all_loops [of "cr_cancels r" r]
    by (auto simp: consul_close_def Let_def close_calls_fields list_all_length)
qed

lemma register_loops_ok:
  assumes ok: "loops_ok r"
  shows "loops_ok (snd (consul_register api tf url_string ip generated now svc r))"
  using ok
  by (simp add: consul_register_def Let_def prod.case_eq_if publish_loops_ok [simplified]
      split: option.split sum.split)

lemma deregister_loops_ok:
  assumes ok: "loops_ok r"
  shows "loops_ok (snd (consul_deregister api name i r))"
proof -
  let ?r = "(cancel_refresh (map_of (cr_cancels r) i) r)
    \<lparr>cr_cancels := AList.delete i (cr_cancels r), cr_checks := AList.delete i (cr_checks r)\<rparr>"
  have "loops_ok ?r"
    by (rule loops_ok_forget [OF ok]) (auto simp: distinct_delete loops_okD(7) [OF ok] delete_conv')
  then have "loops_ok (snd (agent_call (ca_deregister api i) ?r))" by simp
  then show ?thesis
    using ok by (simp add: consul_deregister_def Let_def split_def split: option.split)
qed

lemma close_loops_ok: "loops_ok r \<Longrightarrow> loops_ok (consul_close api r)"
  using close_stops_loops [of r api] by (auto simp: loops_ok_def list_all_length)

inductive_cases consul_stepE: "consul_step api tf url_string local_ip r r'"

interpretation consul_loops: step_invariant "consul_step api tf url_string local_ip" loops_ok
  for api tf url_string local_ip
  by unfold_locales (auto simp: consul_exec_def refresh_tick_def register_loops_ok deregister_loops_ok
      close_loops_ok elim!: consul_stepE split: consul_op.split)

definition refreshed :: "string \<Rightarrow> 'c consul_registry \<Rightarrow> nat \<Rightarrow> bool" where
  "refreshed i r n \<longleftrightarrow> n < length (cr_loops r) \<and> \<not> cl_cancelled (cr_loops r ! n) \<and>
    cl_check (cr_loops r ! n) = ''check-'' @ i"

lemma refreshed_iff: "loops_ok r \<Longrightarrow> refreshed i r n \<longleftrightarrow> map_of (cr_cancels r) i = Some n"
  using loops_okD(1,2,5) [of r i n] loops_okD(4) [of r n] loops_okD(2) [of r _ n]
  by (fastforce simp: refreshed_def)

text \<open>
  The refresh loops follow the registrations: in every state that calls and ticks can
  reach from a new registry, an instance has at most one loop that refreshes its check, and
  has it only while it is registered; once \<open>Deregister\<close> has accepted the instance no loop
  refreshes its check any more, whether the agent answered or not, and after \<open>Close\<close> no loop
  refreshes anything.
\<close>

theorem consul_refresh_loops:
  assumes start: "new_consul connect cfg = Inr r0"
    and reach: "(consul_step api tf url_string local_ip)\<^sup>*\<^sup>* r0 r"
  shows "(\<forall>i n m. refreshed i r n \<and> refreshed i r m \<longrightarrow> n = m) \<and>
    (\<forall>i n. refreshed i r n \<longrightarrow> map_of (cr_checks r) i = Some (''check-'' @ i)) \<and>
    (\<forall>name i n. validate_service_name (trim_space name) = None \<and> \<not> bad_instance_id i \<longrightarrow>
      \<not> refreshed i (snd (consul_deregister api name i r)) n) \<and>
    (\<forall>i n. \<not> refreshed i (consul_close api r) n)"
proof -
  have "loops_ok r0"
    using start by (auto simp: new_consul_def Let_def loops_ok_def split: if_splits sum.splits prod.splits option.splits)
  then have ok: "loops_ok r"
    using consul_loops.steps_keep [OF reach] by simp
  have "\<not> refreshed i (snd (consul_deregister api name i r)) n"
    if "validate_service_name (trim_space name) = None" "\<not> bad_instance_id i" for name i n
    unfolding refreshed_iff [OF deregister_loops_ok [OF ok]]
    using that by (simp add: consul_deregister_def Let_def split_def delete_conv')
  moreover have "\<not> refreshed i (consul_close api r) n" for i n
    unfolding refreshed_iff [OF close_loops_ok [OF ok]] using close_stops_loops [OF ok, of api] by simp
  ultimately show ?thesis
    using refreshed_iff [OF ok] loops_okD(3) [OF ok] by auto
qed

text \<open>
  Refreshing keeps ahead of the TTL: whatever the configuration, the interval between two
  refreshes is at least a second, so the ticker never panics, and a TTL of three seconds or
  more leaves room for three refreshes; but a TTL of one second, which the configuration
  accepts, is refreshed only as it expires.
\<close>

theorem consul_refresh_in_time:
  "second \<le> consul_refresh_interval (registry_ttl cfg) \<and>
   (registry_ttl cfg \<ge> 3 \<longrightarrow> 3 * consul_refresh_interval (registry_ttl cfg) \<le> registry_ttl cfg * second) \<and>
   (registry_ttl cfg = 2 \<longrightarrow> 2 * consul_refresh_interval (registry_ttl cfg) = registry_ttl cfg * second) \<and>
   (registry_ttl cfg = 1 \<longrightarrow> consul_refresh_interval (registry_ttl cfg) = registry_ttl cfg * second)"
proof -
  let ?ttl = "registry_ttl cfg"
  let ?i = "?ttl div 3 * second"
  have third: "go_div ?ttl 3 = ?ttl div 3"
    by (rule go_div_nonneg) (simp_all add: registry_ttl_def)
  have "wrap64 ?i \<le> ?i"
  proof (cases "?i \<le> max_int64")
    case True
    moreover have "0 \<le> ?ttl div 3" by (simp add: registry_ttl_def pos_imp_zdiv_nonneg_iff)
    then have "min_int64 \<le> ?i" by (simp add: second_def min_int64_def)
    ultimately show ?thesis by simp
  next
    case False
    then show ?thesis using wrap64_range(2) [of ?i] by linarith
  qed
  moreover have "3 * ?i \<le> ?ttl * second" by (simp add: second_def)
  moreover have "wrap64 0 = 0" "go_div 1 3 = 0" "go_div 2 3 = 0" by (simp_all add: wrap64_def go_div_def)
  ultimately show ?thesis
    by (auto simp: consul_refresh_interval_def Let_def third second_def)
qed

theorem consul_refresh_in_time_witness:
  "registry_ttl ((demo_registry_config ''consul'')\<lparr>rg_ttl := 1\<rparr>) = 1 \<and>
   consul_refresh_interval 1 = second \<and> 3 * consul_refresh_interval 30 \<le> 30 * second"
proof -
  have "registry_ttl ((demo_registry_config ''consul'')\<lparr>rg_ttl := 1\<rparr>) = 1"
    "registry_ttl (demo_registry_config ''consul'') = 30"
    by (simp_all add: registry_ttl_def demo_registry_config_def)
  then show ?thesis
    using consul_refresh_in_time [of "(demo_registry_config ''consul'')\<lparr>rg_ttl := 1\<rparr>"]
      consul_refresh_in_time [of "demo_registry_config ''consul''"] by simp
qed

text \<open>An agent that accepts everything, for the witnesses.\<close>

definition willing_agent :: "unit consul_api" where
  "willing_agent = \<lparr>ca_register = (\<lambda>entry check c. (None, c)), ca_update_ttl = (\<lambda>check_id c. (None, c)),
    ca_deregister = (\<lambda>i c. (None, c)), ca_check_deregister = (\<lambda>check_id c. (None, c)),
    ca_health = (\<lambda>name c. Inr [])\<rparr>"

definition demo_consul_config :: registry_config where
  "demo_consul_config = (demo_registry_config ''consul'')\<lparr>rg_address := ''127.0.0.1:8500''\<rparr>"

definition demo_consul :: "unit consul_registry" where
  "demo_consul = \<lparr>cr_config = demo_consul_config, cr_agent = (), cr_checks = [], cr_cancels = [], cr_loops = []\<rparr>"

lemma demo_new_consul: "new_consul (\<lambda>addr cfg. (None, ())) demo_consul_config = Inr demo_consul"
  by (simp add: new_consul_def demo_consul_config_def demo_registry_config_def consul_check_type_def
      demo_consul_def)

definition demo_registered :: "unit consul_registry" where
  "demo_registered = consul_exec willing_agent demo_time_format (\<lambda>scheme host path. []) []
    (ConsulRegister [] 5 (demo_service ''mf-user'' ''u1'')) demo_consul"

lemma demo_refreshed: "refreshed ''u1'' demo_registered 0"
proof -
  let ?svc = "demo_service ''mf-user'' ''u1''"
  have svc: "?svc\<lparr>svc_register_at := 5\<rparr> = ?svc" "svc_instance ?svc = ''u1''"
    by (simp_all add: demo_service_def)
  obtain entry check_addr where "consul_registration demo_time_format [] ?svc = Inr (entry, check_addr)"
    by (rule demo_registration)
  then show ?thesis
    using svc demo_service_valid(1)
    by (simp add: demo_registered_def consul_exec_def consul_register_def willing_agent_def agent_call_def
        demo_consul_def demo_consul_config_def demo_registry_config_def consul_service_check_def
        consul_check_type_def consul_publish_def cancel_refresh_def refreshed_def Let_def)
qed

theorem consul_refresh_loops_witness:
  "refreshed ''u1'' demo_registered 0 \<and> \<not> refreshed ''u1'' demo_registered 1 \<and>
   \<not> refreshed ''u1'' (consul_close willing_agent demo_registered) 0"
proof -
  have "(consul_step willing_agent demo_time_format (\<lambda>scheme host path. []) [])\<^sup>*\<^sup>* demo_consul demo_registered"
    unfolding demo_registered_def by (intro r_into_rtranclp consul_execs)
  note facts = consul_refresh_loops [OF demo_new_consul this]
  have "\<not> refreshed ''u1'' demo_registered 1"
    using facts demo_refreshed by (metis zero_neq_one)
  then show ?thesis
    using facts demo_refreshed by metis
qed

definition demo_entry :: "string \<Rightarrow> consul_entry" where
  "demo_entry i = \<lparr>ce_id = i, ce_name = ''mf-user'', ce_address = ''10.0.1.5'', ce_port = 7801,
    ce_meta = [(''version'', ''v1'')]\<rparr>"

theorem consul_watch_mirrors_witness:
  "apply_events (fst (consul_watch_start demo_time_format ''mf-user'' [demo_entry ''u1'']) @
      fst (consul_round demo_time_format ''mf-user'' []
        (snd (consul_watch_start demo_time_format ''mf-user'' [demo_entry ''u1''])))) Map.empty = Map.empty"
proof -
  let ?s = "consul_watch_start demo_time_format ''mf-user'' [demo_entry ''u1'']"
  have distinct: "list_all (distinct_instances demo_time_format ''mf-user'') [[]]"
    by (simp add: distinct_instances_def consul_services_def)
  have run: "run_feed (consul_round demo_time_format ''mf-user'') [[]] (snd ?s) =
      (fst (consul_round demo_time_format ''mf-user'' [] (snd ?s)),
       snd (consul_round demo_time_format ''mf-user'' [] (snd ?s)))"
    by (simp add: split_def Let_def)
  from consul_watch_mirrors [OF prod.collapse [symmetric] distinct run] show ?thesis
    by (simp add: consul_services_def)
qed

end
