(* ===== verification/Store_Opts.thy ===== *)
theory Store_Opts
  imports Go_Strings
begin

text \<open>
  Pagination and sorting options of the data layer, \<open>store/opts.go\<close>. The integers are Go's
  64-bit \<open>int\<close>, the arithmetic wraps around as the machine does.
\<close>

record list_opts =
  lo_page :: int
  lo_size :: int
  lo_order_by :: string

definition page_size :: "list_opts \<Rightarrow> int" where
  "page_size opts = (if lo_size opts \<le> 0 then 20 else if lo_size opts > 500 then 500 else lo_size opts)"

definition list_offset :: "list_opts \<Rightarrow> int" where
  "list_offset opts =
    (let p = (if lo_page opts \<le> 0 then 1 else lo_page opts);
         size = page_size opts
     in if wrap64 (p - 1) > go_div max_int64 size then max_int64 else wrap64 (wrap64 (p - 1) * size))"

definition safe_order_by :: "list_opts \<Rightarrow> (string \<rightharpoonup> string) \<Rightarrow> string \<Rightarrow> string" where
  "safe_order_by opts allowed fallback =
    (case allowed (to_lower (trim_space (lo_order_by opts))) of Some clause \<Rightarrow> clause | None \<Rightarrow> fallback)"

lemma page_size_bounds [go_bounds]: "1 \<le> page_size opts \<and> page_size opts \<le> 500"
  by (simp add: page_size_def)

lemma int_mult_le_iff:
  assumes "0 < (s :: int)"
  shows "p * s \<le> m \<longleftrightarrow> p \<le> m div s"
proof
  assume "p * s \<le> m"
  from zdiv_mono1 [OF this assms] assms show "p \<le> m div s" by simp
next
  assume "p \<le> m div s"
  then have "p * s \<le> m div s * s" using assms by simp
  also have "\<dots> \<le> m" using assms pos_mod_sign [OF assms, of m] div_mult_mod_eq [of m s] by linarith
  finally show "p * s \<le> m" .
qed

text \<open>
  A query can reach the database only through clauses the caller lists, and pages never
  alias: whatever page and size a request carries, the LIMIT is between 1 and 500, the OFFSET
  is the exact number of rows before the page or, when that does not fit, the largest
  \<open>int\<close>, never a wrapped value, and the ORDER BY clause is one of the allowed ones or the
  fallback, independent of the case and the space around the key.
\<close>

theorem list_query_bounds:
  assumes "lo_page opts \<le> max_int64"
  shows "1 \<le> page_size opts \<and> page_size opts \<le> 500 \<and>
    list_offset opts = min max_int64 ((max 1 (lo_page opts) - 1) * page_size opts) \<and>
    safe_order_by opts allowed fallback \<in> insert fallback (ran allowed)"
proof -
  let ?p = "max 1 (lo_page opts) - 1" and ?s = "page_size opts"
  have s: "1 \<le> ?s" "?s \<le> 500" using page_size_bounds [of opts] by auto
  have "0 \<le> ?p" "?p \<le> max_int64" using assms by (auto simp: max_int64_def)
  then have wp: "wrap64 ?p = ?p" and wps: "?p * ?s \<le> max_int64 \<Longrightarrow> wrap64 (?p * ?s) = ?p * ?s"
    using s by (simp_all add: min_int64_def order_trans [OF _ mult_nonneg_nonneg])
  have p: "(if lo_page opts \<le> 0 then 1 else lo_page opts) - 1 = ?p" by auto
  have "go_div max_int64 ?s = max_int64 div ?s"
    using s by (intro go_div_nonneg) (simp_all add: max_int64_def)
  then have "list_offset opts = (if ?p * ?s \<le> max_int64 then wrap64 (?p * ?s) else max_int64)"
    using s by (simp add: list_offset_def Let_def p wp int_mult_le_iff not_less)
  then have "list_offset opts = min max_int64 (?p * ?s)"
    using wps by simp
  with s show ?thesis
    by (auto simp: safe_order_by_def ran_def split: option.split)
qed

theorem list_query_bounds_witness:
  "list_offset \<lparr>lo_page = 3, lo_size = 0, lo_order_by = []\<rparr> = 40 \<and>
   list_offset \<lparr>lo_page = 2 ^ 62, lo_size = 1000, lo_order_by = []\<rparr> = 2 ^ 63 - 1"
  using list_query_bounds [of "\<lparr>lo_page = 3, lo_size = 0, lo_order_by = []\<rparr>" Map.empty "[]"]
    list_query_bounds [of "\<lparr>lo_page = 2 ^ 62, lo_size = 1000, lo_order_by = []\<rparr>" Map.empty "[]"]
  by (simp add: page_size_def max_int64_def)

end
