(* ===== verification/Byte_Reader.thy ===== *)
theory Byte_Reader
  imports Go_Errors
begin

text \<open>
  Streams of bytes, \<open>io.Reader\<close>: the contract the callers of a reader rely on, reading a
  stream to its end, the reader over a byte slice, and the reader of \<open>clientx/http.go\<close> that
  bounds a response body. A read returns bytes and possibly an error, and the rest of the
  stream.
\<close>

abbreviation io_eof :: goerr where
  "io_eof \<equiv> Sentinel ''EOF''"

type_synonym read_result = "string \<times> goerr option"

subsection \<open>The contract\<close>

text \<open>
  The documented behaviour of \<open>Read\<close>: at most as many bytes as the buffer has, in order;
  a read that returns no error made progress; the error comes when the stream is used up.
  \<open>content\<close> is what is left to be read and \<open>final\<close> the error at its end.
\<close>

locale byte_reader =
  fixes read :: "nat \<Rightarrow> 's \<Rightarrow> read_result \<times> 's"
    and valid :: "'s \<Rightarrow> bool"
    and content :: "'s \<Rightarrow> string"
    and final :: "'s \<Rightarrow> goerr"
  assumes read_more: "valid s \<Longrightarrow> 0 < n \<Longrightarrow> read n s = ((out, None), s') \<Longrightarrow>
      out \<noteq> [] \<and> length out \<le> n \<and> content s = out @ content s' \<and> valid s' \<and> final s' = final s"
    and read_last: "valid s \<Longrightarrow> 0 < n \<Longrightarrow> read n s = ((out, Some e), s') \<Longrightarrow>
      length out \<le> n \<and> content s = out \<and> e = final s"

text \<open>
  \<open>io.ReadAll\<close>: the reads are made with the buffer space the growing slice has left, until
  one returns an error.
\<close>

fun read_all :: "(nat \<Rightarrow> 's \<Rightarrow> read_result \<times> 's) \<Rightarrow> nat list \<Rightarrow> 's \<Rightarrow> read_result" where
  "read_all read [] s = ([], None)"
| "read_all read (n # ns) s =
    (case read n s of
       ((out, Some e), s') \<Rightarrow> (out, Some e)
     | ((out, None), s') \<Rightarrow> (let (rest, err) = read_all read ns s' in (out @ rest, err)))"

context byte_reader begin

text \<open>As many reads as there are bytes, and one more, reach the end.\<close>

lemma read_all_content:
  "valid s \<Longrightarrow> (\<forall>n \<in> set ns. 0 < n) \<Longrightarrow> length (content s) < length ns \<Longrightarrow>
    read_all read ns s = (content s, Some (final s))"
proof (induction ns arbitrary: s)
  case (Cons n ns)
  obtain out err s' where r: "read n s = ((out, err), s')" by (metis surj_pair)
  show ?case
  proof (cases err)
    case None
    then have more: "out \<noteq> []" "content s = out @ content s'" "valid s'" "final s' = final s"
      using read_more [OF Cons.prems(1) _ r [unfolded None]] Cons.prems(2) by auto
    then have "length (content s') < length ns" using Cons.prems(3) by (cases out) auto
    then have "read_all read ns s' = (content s', Some (final s'))"
      using more Cons.prems by (intro Cons.IH) auto
    with r None more show ?thesis by simp
  next
    case (Some e)
    then show ?thesis using read_last [OF Cons.prems(1) _ r [unfolded Some]] Cons.prems(2) r by simp
  qed
qed simp

end

subsection \<open>A byte slice\<close>

text \<open>\<open>bytes.NewReader\<close>, behind which a buffered request body is sent.\<close>

definition bytes_read :: "nat \<Rightarrow> string \<Rightarrow> read_result \<times> string" where
  "bytes_read n s = ((take n s, if s = [] then Some io_eof else None), drop n s)"

interpretation bytes_reader: byte_reader bytes_read "\<lambda>s. True" "\<lambda>s. s" "\<lambda>s. io_eof"
  by unfold_locales (auto simp: bytes_read_def split: if_splits)

subsection \<open>The bounded response body\<close>

definition err_response_body_too_large :: goerr where
  "err_response_body_too_large = Sentinel ''clientx: response body exceeds configured limit''"

record 's limited_body =
  lb_reader :: 's
  lb_remaining :: int

definition limited_read ::
  "(nat \<Rightarrow> 's \<Rightarrow> read_result \<times> 's) \<Rightarrow> nat \<Rightarrow> 's limited_body \<Rightarrow> read_result \<times> 's limited_body" where
  "limited_read read n b =
    (if n = 0 then (([], None), b)
     else if lb_remaining b = 0 then
       (case read 1 (lb_reader b) of
          ((probe, err), r) \<Rightarrow>
            (if probe \<noteq> [] then ([], Some err_response_body_too_large) else ([], err), b\<lparr>lb_reader := r\<rparr>))
     else
       (case read (if int n > lb_remaining b then nat (lb_remaining b) else n) (lb_reader b) of
          ((out, err), r) \<Rightarrow>
            ((out, err), b\<lparr>lb_reader := r, lb_remaining := lb_remaining b - int (length out)\<rparr>)))"

text \<open>What a reader sees of a bounded body.\<close>

definition limited_content :: "('s \<Rightarrow> string) \<Rightarrow> 's limited_body \<Rightarrow> string" where
  "limited_content content b = take (nat (lb_remaining b)) (content (lb_reader b))"

definition limited_final :: "('s \<Rightarrow> string) \<Rightarrow> ('s \<Rightarrow> goerr) \<Rightarrow> 's limited_body \<Rightarrow> goerr" where
  "limited_final content final b =
    (if length (content (lb_reader b)) \<le> nat (lb_remaining b) then final (lb_reader b)
     else err_response_body_too_large)"

context byte_reader begin

lemma limited_more:
  assumes b: "valid (lb_reader b)" "0 \<le> lb_remaining b" "0 < n"
    and r: "limited_read read n b = ((out, None), b')"
  shows "out \<noteq> [] \<and> length out \<le> n \<and> limited_content content b = out @ limited_content content b' \<and>
    (valid (lb_reader b') \<and> 0 \<le> lb_remaining b') \<and> limited_final content final b' = limited_final content final b"
proof -
  let ?m = "if int n > lb_remaining b then nat (lb_remaining b) else n"
  have some: "lb_remaining b \<noteq> 0"
  proof
    assume rest: "lb_remaining b = 0"
    obtain probe err z where p: "read 1 (lb_reader b) = ((probe, err), z)" by (metis surj_pair)
    then have "probe = []" "err = None" using r rest b by (auto simp: limited_read_def split: if_splits)
    then show False using read_more [OF b(1) _ p [unfolded \<open>err = None\<close>]] by simp
  qed
  obtain z where z: "read ?m (lb_reader b) = ((out, None), z)"
    and b': "b' = b\<lparr>lb_reader := z, lb_remaining := lb_remaining b - int (length out)\<rparr>"
    using r some b by (auto simp: limited_read_def split: prod.splits)
  have m: "0 < ?m" "int ?m \<le> lb_remaining b" "?m \<le> n" using some b by auto
  note more = read_more [OF b(1) m(1) z]
  have len: "int (length out) \<le> lb_remaining b" using more m by linarith
  then have "nat (lb_remaining b) = length out + nat (lb_remaining b - int (length out))" using b(2) by linarith
  then show ?thesis
    using more m len by (simp add: b' limited_content_def limited_final_def)
qed

lemma limited_last:
  assumes b: "valid (lb_reader b)" "0 \<le> lb_remaining b" "0 < n"
    and r: "limited_read read n b = ((out, Some e), b')"
  shows "length out \<le> n \<and> limited_content content b = out \<and> e = limited_final content final b"
proof (cases "lb_remaining b = 0")
  case True
  obtain probe err z where p: "read 1 (lb_reader b) = ((probe, err), z)" by (metis surj_pair)
  have "out = []" "probe \<noteq> [] \<Longrightarrow> e = err_response_body_too_large" "probe = [] \<Longrightarrow> err = Some e"
    using r True p b(3) by (auto simp: limited_read_def split: if_splits)
  moreover have "content (lb_reader b) = [] \<longleftrightarrow> probe = []" "probe = [] \<Longrightarrow> err = Some e \<Longrightarrow> e = final (lb_reader b)"
    using read_more [OF b(1), of 1 probe z] read_last [OF b(1), of 1 probe e z]
      read_last [OF b(1), of 1 probe _ z] p by (cases err; auto)+
  ultimately show ?thesis using True by (auto simp: limited_content_def limited_final_def)
next
  case False
  let ?m = "if int n > lb_remaining b then nat (lb_remaining b) else n"
  obtain z where z: "read ?m (lb_reader b) = ((out, Some e), z)"
    using r False b by (auto simp: limited_read_def split: prod.splits)
  have m: "0 < ?m" "int ?m \<le> lb_remaining b" "?m \<le> n" using False b by auto
  have "length out \<le> ?m" "content (lb_reader b) = out" "e = final (lb_reader b)"
    using read_last [OF b(1) m(1) z] by simp_all
  with m show ?thesis by (auto simp: limited_content_def limited_final_def)
qed

end

text \<open>Bounding a reader gives a reader.\<close>

lemma limited_reader:
  assumes "byte_reader read valid content final"
  shows "byte_reader (limited_read read) (\<lambda>b. valid (lb_reader b) \<and> 0 \<le> lb_remaining b)
    (limited_content content) (limited_final content final)"
  using byte_reader.limited_more [OF assms] byte_reader.limited_last [OF assms]
  by (intro byte_reader.intro) blast+

interpretation limited_bytes: byte_reader "limited_read bytes_read" "\<lambda>b. 0 \<le> lb_remaining b"
    "limited_content (\<lambda>s. s)" "limited_final (\<lambda>s. s) (\<lambda>s. io_eof)"
  using limited_reader [OF bytes_reader.byte_reader_axioms] by simp

lemma read_all_limited:
  assumes reader: "byte_reader read valid content final" and "valid s" and "0 \<le> limit"
    and sizes: "\<forall>n \<in> set ns. 0 < n" "length (content s) < length ns"
  shows "read_all (limited_read read) ns \<lparr>lb_reader = s, lb_remaining = limit\<rparr> =
    (take (nat limit) (content s),
     Some (if int (length (content s)) \<le> limit then final s else err_response_body_too_large))"
proof -
  let ?b = "\<lparr>lb_reader = s, lb_remaining = limit\<rparr>"
  have "read_all (limited_read read) ns ?b = (limited_content content ?b, Some (limited_final content final ?b))"
    by (rule byte_reader.read_all_content [OF limited_reader [OF reader]])
      (use assms in \<open>auto simp: limited_content_def\<close>)
  then show ?thesis
    using assms(3) by (auto simp: limited_content_def limited_final_def nat_le_iff)
qed

text \<open>
  A caller that reads the body of a response to its end gets the whole body when it is
  within the limit, and otherwise exactly the first bytes up to the limit followed by
  \<open>ErrResponseBodyTooLarge\<close>, never a shortened body that looks complete, whatever sizes it
  reads with and however the connection delivers the bytes.
\<close>

theorem response_body_limited:
  assumes reader: "byte_reader read valid content final" and "valid s" and "0 \<le> limit"
    and sizes: "\<forall>n \<in> set ns. 0 < n" "length (content s) < length ns"
  shows "read_all (limited_read read) ns \<lparr>lb_reader = s, lb_remaining = limit\<rparr> =
    (if int (length (content s)) \<le> limit then (content s, Some (final s))
     else (take (nat limit) (content s), Some err_response_body_too_large))"
  using read_all_limited [OF assms] assms(3) by auto

theorem response_body_limited_witness:
  "read_all (limited_read bytes_read) [2, 2, 2, 2, 2, 2] \<lparr>lb_reader = ''hello'', lb_remaining = 5\<rparr> =
    (''hello'', Some io_eof) \<and>
   read_all (limited_read bytes_read) [2, 2, 2, 2, 2, 2] \<lparr>lb_reader = ''hello'', lb_remaining = 4\<rparr> =
    (''hell'', Some err_response_body_too_large)"
  using response_body_limited [OF bytes_reader.byte_reader_axioms, where s = "''hello''" and limit = 5
      and ns = "[2, 2, 2, 2, 2, 2]"]
    response_body_limited [OF bytes_reader.byte_reader_axioms, where s = "''hello''" and limit = 4
      and ns = "[2, 2, 2, 2, 2, 2]"]
  by simp

end
