(* ===== verification/Grpc_Policy.thy ===== *)
theory Grpc_Policy
  imports App_Errors Byte_Reader "HOL-Library.Multiset"
begin

text \<open>
  The policies a server and a client put around their calls: authentication, deadlines,
  recovery from panics and the limit on calls in flight (\<open>mid/grpc_policy.go\<close>,
  \<open>mid/grpc.go\<close>), the deadlines of outgoing calls and streams (\<open>mid/grpc_client.go\<close>) and the
  limit on request bodies (\<open>mid/bodylimit.go\<close>). A handler is a function of its context; it
  may panic. The type of contexts is a parameter where the code only passes them on.
\<close>

datatype 'r outcome = Returned "'r option" "goerr option" | Panicked

subsection \<open>Server interceptors\<close>

definition unauthenticated :: goerr where
  "unauthenticated = StatusErr GrpcUnauthenticated ''authentication required''"

definition grpc_unary_auth ::
  "('c \<Rightarrow> string \<Rightarrow> 'c \<times> goerr option) option \<Rightarrow> 'c \<Rightarrow> string \<Rightarrow> ('c \<Rightarrow> 'r outcome) \<Rightarrow> 'r outcome" where
  "grpc_unary_auth auth ctx full_method handler =
    (case auth of None \<Rightarrow> handler ctx
     | Some auth \<Rightarrow>
        (let (enriched, err) = auth ctx full_method
         in if err \<noteq> None then Returned None (Some unauthenticated) else handler enriched))"

text \<open>The deadline a handler sees: \<open>context.WithTimeout\<close> counts from the call.\<close>

definition effective_deadline :: "duration \<Rightarrow> instant \<Rightarrow> instant option \<Rightarrow> instant option" where
  "effective_deadline timeout now deadline =
    (if timeout \<le> 0 then deadline
     else (case deadline of Some d \<Rightarrow> Some d | None \<Rightarrow> Some (now + timeout)))"

definition grpc_unary_timeout ::
  "duration \<Rightarrow> instant \<Rightarrow> instant option \<Rightarrow> (instant option \<Rightarrow> 'r outcome) \<Rightarrow> 'r outcome" where
  "grpc_unary_timeout timeout now deadline handler = handler (effective_deadline timeout now deadline)"

definition grpc_recovery :: "'r outcome \<Rightarrow> 'r outcome" where
  "grpc_recovery res =
    (case res of Panicked \<Rightarrow> Returned None (Some (StatusErr GrpcInternal ''internal server error''))
     | Returned r e \<Rightarrow> Returned r e)"

definition validate_grpc_timeout :: "duration \<Rightarrow> goerr option" where
  "validate_grpc_timeout timeout =
    (if timeout < 0 then Some (Errorf ''grpc request timeout must not be negative'') else None)"

subsection \<open>The limit on calls in flight\<close>

text \<open>
  The semaphore is a buffered channel: its capacity and the number of tokens in it. A call
  is refused, in flight or over; it is over when its handler returned or panicked.
\<close>

record limiter =
  lm_capacity :: nat
  lm_tokens :: nat

definition new_limiter :: "int \<Rightarrow> limiter option" where
  "new_limiter limit = (if limit \<le> 0 then None else Some \<lparr>lm_capacity = nat limit, lm_tokens = 0\<rparr>)"

definition server_busy :: goerr where
  "server_busy = StatusErr GrpcResourceExhausted ''server busy''"

definition limiter_enter :: "limiter option \<Rightarrow> (goerr + unit) \<times> limiter option" where
  "limiter_enter l =
    (case l of None \<Rightarrow> (Inr (), None)
     | Some l \<Rightarrow>
        if lm_tokens l < lm_capacity l then (Inr (), Some (l\<lparr>lm_tokens := lm_tokens l + 1\<rparr>))
        else (Inl server_busy, Some l))"

definition limiter_leave :: "limiter option \<Rightarrow> limiter option" where
  "limiter_leave l = map_option (\<lambda>l. l\<lparr>lm_tokens := lm_tokens l - 1\<rparr>) l"

datatype call_state = InFlight | Refused goerr | Over

record limited_server =
  ls_limiter :: "limiter option"
  ls_calls :: "call_state list"

inductive limited_step :: "limited_server \<Rightarrow> limited_server \<Rightarrow> bool" where
  call_enters: "limiter_enter (ls_limiter s) = (Inr (), l) \<Longrightarrow>
    limited_step s \<lparr>ls_limiter = l, ls_calls = ls_calls s @ [InFlight]\<rparr>"
| call_refused: "limiter_enter (ls_limiter s) = (Inl e, l) \<Longrightarrow>
    limited_step s \<lparr>ls_limiter = l, ls_calls = ls_calls s @ [Refused e]\<rparr>"
| call_ends: "n < length (ls_calls s) \<Longrightarrow> ls_calls s ! n = InFlight \<Longrightarrow>
    limited_step s \<lparr>ls_limiter = limiter_leave (ls_limiter s), ls_calls = (ls_calls s)[n := Over]\<rparr>"

inductive_cases limited_stepE: "limited_step s t"

definition in_flight :: "limited_server \<Rightarrow> nat" where
  "in_flight s = count (mset (ls_calls s)) InFlight"

definition limited_ok :: "int \<Rightarrow> limited_server \<Rightarrow> bool" where
  "limited_ok limit s \<longleftrightarrow>
    (if limit \<le> 0 then ls_limiter s = None
     else ls_limiter s = Some \<lparr>lm_capacity = nat limit, lm_tokens = in_flight s\<rparr> \<and>
       in_flight s \<le> nat limit)"

lemma limited_step_ok:
  assumes ok: "limited_ok limit s" and step: "limited_step s t"
  shows "limited_ok limit t"
  using step
proof (cases rule: limited_step.cases)
  case (call_ends n)
  have "mset (ls_calls t) = mset (ls_calls s) - {#InFlight#} + {#Over#}"
    using call_ends by (simp add: mset_update)
  moreover have "0 < in_flight s"
    using call_ends by (metis count_greater_zero_iff in_flight_def nth_mem set_mset_mset)
  ultimately have "in_flight t = in_flight s - 1" "0 < in_flight s"
    by (simp_all add: in_flight_def)
  then show ?thesis
    using ok call_ends(1) by (auto simp: limited_ok_def limiter_leave_def)
qed (use ok in \<open>auto simp: limited_ok_def limiter_enter_def in_flight_def split: option.splits if_splits\<close>)

interpretation limited_calls: step_invariant limited_step "limited_ok limit" for limit
  by unfold_locales (rule limited_step_ok)

text \<open>
  C24. The limit on calls holds and leaks nothing: in every state that arrivals, returns and
  panics can reach, in any order, at most \<open>limit\<close> handlers are in flight; the next call is
  admitted exactly when fewer are, and is refused with \<open>ResourceExhausted\<close> otherwise, so a
  slot comes back with every call that ends, also by a panic. A limit that is not positive
  admits everything.
\<close>

theorem grpc_calls_limited:
  assumes reach: "limited_step\<^sup>*\<^sup>* \<lparr>ls_limiter = new_limiter limit, ls_calls = []\<rparr> s"
  shows "if limit \<le> 0 then fst (limiter_enter (ls_limiter s)) = Inr ()
    else in_flight s \<le> nat limit \<and>
      fst (limiter_enter (ls_limiter s)) = (if in_flight s < nat limit then Inr () else Inl server_busy)"
proof -
  have "limited_ok limit \<lparr>ls_limiter = new_limiter limit, ls_calls = []\<rparr>"
    by (simp add: limited_ok_def new_limiter_def in_flight_def)
  then have "limited_ok limit s"
    by (rule limited_calls.steps_keep [OF reach])
  then show ?thesis
    by (auto simp: limited_ok_def limiter_enter_def split: if_splits)
qed

theorem grpc_calls_limited_witness:
  "fst (limiter_enter (Some \<lparr>lm_capacity = 1, lm_tokens = 1\<rparr>)) = Inl server_busy \<and>
   fst (limiter_enter (Some \<lparr>lm_capacity = 1, lm_tokens = 0\<rparr>)) = Inr ()"
proof -
  let ?s0 = "\<lparr>ls_limiter = new_limiter 1, ls_calls = []\<rparr>"
  let ?s1 = "\<lparr>ls_limiter = Some \<lparr>lm_capacity = 1, lm_tokens = 1\<rparr>, ls_calls = [InFlight]\<rparr>"
  let ?s2 = "\<lparr>ls_limiter = Some \<lparr>lm_capacity = 1, lm_tokens = 0\<rparr>, ls_calls = [Over]\<rparr>"
  have "limited_step ?s0 ?s1"
    using call_enters [of ?s0] by (simp add: new_limiter_def limiter_enter_def)
  moreover have "limited_step ?s1 ?s2"
    using call_ends [of 0 ?s1] by (simp add: limiter_leave_def)
  ultimately have "limited_step\<^sup>*\<^sup>* ?s0 ?s1" "limited_step\<^sup>*\<^sup>* ?s0 ?s2" by auto
  from this [THEN grpc_calls_limited] show ?thesis
    by (simp add: in_flight_def)
qed

subsection \<open>Outgoing calls\<close>

text \<open>
  A client stream is a parameter: opening it under a deadline, \<open>CloseSend\<close>, and \<open>RecvMsg\<close>,
  which is told whether the context of the call has been cancelled. A received message is
  \<open>Inr\<close>, the end of the stream the error \<open>io.EOF\<close>.
\<close>

record ('st, 'm) stream_lib =
  sl_open :: "instant option \<Rightarrow> goerr + 'st"
  sl_close_send :: "'st \<Rightarrow> goerr option \<times> 'st"
  sl_recv :: "bool \<Rightarrow> 'st \<Rightarrow> (goerr + 'm) \<times> 'st"

record 'st client_stream =
  cs_stream :: 'st
  cs_wrapped :: bool
  cs_cancelled :: bool

definition client_stream_timeout ::
  "('st, 'm) stream_lib \<Rightarrow> duration \<Rightarrow> instant \<Rightarrow> instant option \<Rightarrow> goerr + 'st client_stream" where
  "client_stream_timeout lib timeout now deadline =
    (let wrap = timeout > 0 \<and> deadline = None
     in case sl_open lib (effective_deadline timeout now deadline) of
          Inl err \<Rightarrow> Inl err
        | Inr st \<Rightarrow> Inr \<lparr>cs_stream = st, cs_wrapped = wrap, cs_cancelled = False\<rparr>)"

definition stream_close_send ::
  "('st, 'm) stream_lib \<Rightarrow> 'st client_stream \<Rightarrow> goerr option \<times> 'st client_stream" where
  "stream_close_send lib s =
    (let (err, st) = sl_close_send lib (cs_stream s)
     in (err, s\<lparr>cs_stream := st, cs_cancelled := cs_cancelled s \<or> cs_wrapped s\<rparr>))"

definition stream_recv ::
  "('st, 'm) stream_lib \<Rightarrow> 'st client_stream \<Rightarrow> (goerr + 'm) \<times> 'st client_stream" where
  "stream_recv lib s =
    (let (res, st) = sl_recv lib (cs_cancelled s) (cs_stream s)
     in (res, s\<lparr>cs_stream := st,
          cs_cancelled := cs_cancelled s \<or> (cs_wrapped s \<and> res = Inl io_eof)\<rparr>))"

fun recv_all :: "('st, 'm) stream_lib \<Rightarrow> nat \<Rightarrow> 'st client_stream \<Rightarrow> 'm list \<times> goerr option" where
  "recv_all lib 0 s = ([], None)"
| "recv_all lib (Suc n) s =
    (case stream_recv lib s of
       (Inl err, s) \<Rightarrow> ([], Some err)
     | (Inr m, s) \<Rightarrow> (let (ms, err) = recv_all lib n s in (m # ms, err)))"

text \<open>
  What the library documents: a received message has arrived before; once the context of a
  call is cancelled nothing arrives any more, and a receive that finds nothing returns the
  status \<open>Canceled\<close>.
\<close>

definition cancel_law :: "('st, 'm) stream_lib \<Rightarrow> ('st \<Rightarrow> nat) \<Rightarrow> bool" where
  "cancel_law lib arrived \<longleftrightarrow>
    (\<forall>st. arrived st = 0 \<longrightarrow> (\<exists>msg. fst (sl_recv lib True st) = Inl (StatusErr GrpcCanceled msg)))"

text \<open>
  The default deadline breaks streams: when a default timeout is set and the caller has no
  deadline of its own, \<open>CloseSend\<close> cancels the whole call, not only its sending half. A
  client that sends its request, closes its sending half, as every server-streaming call
  does before it receives, and finds nothing arrived yet, gets \<open>Canceled\<close> instead of the
  answer, whatever the server sends later; without the timeout, or with a deadline from the
  caller, the same client receives what the library delivers on a call in progress.
\<close>

theorem stream_timeout_cancels_answer:
  assumes law: "cancel_law lib arrived"
    and opened: "client_stream_timeout lib timeout now deadline = Inr s"
    and closed: "stream_close_send lib s = (err, s')"
    and idle: "arrived (cs_stream s') = 0"
  shows "if timeout > 0 \<and> deadline = None
    then \<exists>msg. recv_all lib (Suc n) s' = ([], Some (StatusErr GrpcCanceled msg))
    else fst (stream_recv lib s') = fst (sl_recv lib False (cs_stream s'))"
proof -
  have s: "cs_cancelled s' \<longleftrightarrow> timeout > 0 \<and> deadline = None"
    using opened closed
    by (auto simp: client_stream_timeout_def stream_close_send_def Let_def split: sum.splits prod.splits)
  show ?thesis
  proof (cases "timeout > 0 \<and> deadline = None")
    case True
    obtain msg where "fst (sl_recv lib True (cs_stream s')) = Inl (StatusErr GrpcCanceled msg)"
      using law idle unfolding cancel_law_def by blast
    then show ?thesis
      using True s by (auto simp: stream_recv_def Let_def split: prod.split)
  next
    case False
    then show ?thesis
      using s by (auto simp: stream_recv_def Let_def split: prod.split)
  qed
qed

text \<open>A stream whose server answers twice and ends, nothing of which has arrived at first.\<close>

definition demo_stream :: "(nat, nat) stream_lib" where
  "demo_stream = \<lparr>sl_open = (\<lambda>deadline. Inr 0), sl_close_send = (\<lambda>st. (None, st)),
    sl_recv = (\<lambda>cancelled st.
      if cancelled then (Inl (StatusErr GrpcCanceled ''context canceled''), st)
      else if st < 2 then (Inr st, st + 1) else (Inl io_eof, st))\<rparr>"

theorem stream_timeout_cancels_answer_witness:
  "(\<exists>msg. recv_all demo_stream 3 \<lparr>cs_stream = 0, cs_wrapped = True, cs_cancelled = True\<rparr> =
      ([], Some (StatusErr GrpcCanceled msg))) \<and>
   recv_all demo_stream 3 \<lparr>cs_stream = 0, cs_wrapped = False, cs_cancelled = False\<rparr> = ([0, 1], Some io_eof)"
proof -
  have law: "cancel_law demo_stream (\<lambda>st. 0)"
    by (simp add: cancel_law_def demo_stream_def)
  have "client_stream_timeout demo_stream second 0 None =
      Inr \<lparr>cs_stream = 0, cs_wrapped = True, cs_cancelled = False\<rparr>"
    by (simp add: client_stream_timeout_def demo_stream_def second_def Let_def)
  from stream_timeout_cancels_answer [OF law this, where n = 2]
  have "\<exists>msg. recv_all demo_stream 3 \<lparr>cs_stream = 0, cs_wrapped = True, cs_cancelled = True\<rparr> =
      ([], Some (StatusErr GrpcCanceled msg))"
    by (simp add: stream_close_send_def demo_stream_def second_def numeral_3_eq_3 Let_def)
  moreover have "recv_all demo_stream 3 \<lparr>cs_stream = 0, cs_wrapped = False, cs_cancelled = False\<rparr> =
      ([0, 1], Some io_eof)"
    by (simp add: demo_stream_def stream_recv_def numeral_3_eq_3)
  ultimately show ?thesis by blast
qed

subsection \<open>Request bodies\<close>

text \<open>
  A request is refused by its announced length; else its body is read through
  \<open>http.MaxBytesReader\<close>, which hands over at most the limit and then fails.
\<close>

definition max_body :: "int \<Rightarrow> int" where
  "max_body max_bytes = (if max_bytes \<le> 0 then 10485760 else max_bytes)"

definition max_bytes_read :: "int \<Rightarrow> string \<Rightarrow> string \<times> goerr option" where
  "max_bytes_read limit body =
    (if int (length body) \<le> limit then (body, None)
     else (take (nat limit) body, Some (Errorf ''http: request body too large'')))"

definition request_body_limit :: "int \<Rightarrow> int \<Rightarrow> string \<Rightarrow> 'd reply + string \<times> goerr option" where
  "request_body_limit max_bytes content_length body =
    (if content_length > max_body max_bytes
     then Inl (fail_status 413 41301 msg_body_too_large)
     else Inr (max_bytes_read (max_body max_bytes) body))"

lemma request_body_bounded:
  assumes "request_body_limit max_bytes content_length body = Inr (got, err)"
  shows "int (length got) \<le> max_body max_bytes" "err = None \<longleftrightarrow> got = body"
  using assms
  by (auto simp: request_body_limit_def max_bytes_read_def max_body_def split: if_splits)

end
