(* ===== verification/Grpc_Dial.thy ===== *)
theory Grpc_Dial
  imports Registry_Watch Complex_Main
begin

text \<open>
  gRPC clients, \<open>grpcx/dial.go\<close> and \<open>grpcx/registry_resolver.go\<close>: the options of a connection,
  the policy they must satisfy, the wait for a connection, and the resolver that turns the
  snapshots of a registry watch into addresses. The service configuration is the value the
  code encodes as JSON; formatting a duration in seconds, \<open>grpc.NewClient\<close> and the states a
  connection goes through are parameters.
\<close>

subsection \<open>Options\<close>

text \<open>
  Of a \<open>tls.Config\<close> only \<open>InsecureSkipVerify\<close> matters here. Custom credentials report a
  security protocol, which is all the code asks them for; whether they verify the peer at all is a
  fact about them that it cannot see (\<open>credentials.NewTLS\<close> of a configuration with
  \<open>InsecureSkipVerify\<close> reports \<open>tls\<close> and does not).
\<close>

record custom_creds =
  cc_protocol :: string
  cc_verifies :: bool

datatype transport_creds = CredsCustom custom_creds | CredsTls bool | CredsInsecure

record dial_option =
  dl_timeout :: duration
  dl_keepalive_time :: duration
  dl_keepalive_timeout :: duration
  dl_request_timeout :: duration
  dl_tls :: "bool option"
  dl_creds :: "custom_creds option"
  dl_require_tls :: bool
  dl_version :: string
  dl_metadata :: go_meta
  dl_service_filter :: service_filter
  dl_filter :: service_filter
  dl_retry_attempts :: int
  dl_retry_methods :: "string list"
  dl_retry_initial :: duration
  dl_retry_max :: duration
  dl_retry_multiplier :: rat

definition default_opts :: dial_option where
  "default_opts = \<lparr>dl_timeout = 5 * second, dl_keepalive_time = 30 * second,
    dl_keepalive_timeout = 10 * second, dl_request_timeout = 0, dl_tls = None, dl_creds = None,
    dl_require_tls = False, dl_version = [], dl_metadata = None, dl_service_filter = None,
    dl_filter = None, dl_retry_attempts = 1, dl_retry_methods = [],
    dl_retry_initial = 100 * millisecond, dl_retry_max = second, dl_retry_multiplier = 2\<rparr>"

definition or_default :: "'a \<Rightarrow> ('a :: zero) \<Rightarrow> 'a" where
  "or_default d v = (if v = 0 then d else v)"

definition normalize_dial_option :: "dial_option list \<Rightarrow> dial_option" where
  "normalize_dial_option opts =
    (case opts of [] \<Rightarrow> default_opts
     | opt # _ \<Rightarrow> opt\<lparr>
         dl_timeout := or_default (dl_timeout default_opts) (dl_timeout opt),
         dl_keepalive_time := or_default (dl_keepalive_time default_opts) (dl_keepalive_time opt),
         dl_keepalive_timeout := or_default (dl_keepalive_timeout default_opts) (dl_keepalive_timeout opt),
         dl_retry_attempts := or_default (dl_retry_attempts default_opts) (dl_retry_attempts opt),
         dl_retry_initial := or_default (dl_retry_initial default_opts) (dl_retry_initial opt),
         dl_retry_max := or_default (dl_retry_max default_opts) (dl_retry_max opt),
         dl_retry_multiplier := or_default (dl_retry_multiplier default_opts) (dl_retry_multiplier opt)\<rparr>)"

definition transport_credentials :: "dial_option \<Rightarrow> transport_creds" where
  "transport_credentials opt =
    (case dl_creds opt of Some creds \<Rightarrow> CredsCustom creds
     | None \<Rightarrow> (case dl_tls opt of Some skip_verify \<Rightarrow> CredsTls skip_verify | None \<Rightarrow> CredsInsecure))"

definition validate_dial_option :: "dial_option \<Rightarrow> goerr option" where
  "validate_dial_option opt =
    (if dl_timeout opt \<le> 0 \<or> dl_keepalive_time opt \<le> 0 \<or> dl_keepalive_timeout opt \<le> 0
     then Some (Errorf ''grpcx: timeout and keepalive durations must be positive'')
     else if dl_request_timeout opt < 0 \<or> dl_request_timeout opt > 5 * minute
     then Some (Errorf ''grpcx: default request timeout must be between 0 and 5m'')
     else if dl_retry_attempts opt < 1 \<or> dl_retry_attempts opt > 5
     then Some (Errorf ''grpcx: retry max attempts must be between 1 and 5'')
     else if dl_retry_attempts opt > 1 \<and> dl_retry_methods opt = []
     then Some (Errorf ''grpcx: retry methods are required when retries are enabled'')
     else if dl_retry_initial opt \<le> 0 \<or> dl_retry_max opt \<le> 0 \<or> dl_retry_multiplier opt \<le> 0
     then Some (Errorf ''grpcx: retry backoff values must be positive'')
     else if dl_require_tls opt \<and> dl_tls opt = None \<and> dl_creds opt = None
     then Some (Errorf ''grpcx: TLS credentials are required'')
     else if dl_require_tls opt \<and> dl_tls opt = Some True
     then Some (Errorf ''grpcx: insecure TLS verification is not allowed when TLS is required'')
     else if dl_require_tls opt \<and>
        (case dl_creds opt of None \<Rightarrow> False | Some creds \<Rightarrow> equal_fold (cc_protocol creds) ''insecure'')
     then Some (Errorf ''grpcx: insecure transport credentials are not allowed when TLS is required'')
     else None)"

subsection \<open>Retries\<close>

record retry_policy =
  rp_attempts :: int
  rp_initial :: string
  rp_max :: string
  rp_multiplier :: rat
  rp_codes :: "string list"

record service_config =
  sc_methods :: "((string \<times> string) list \<times> retry_policy) list"
  sc_round_robin :: bool

definition retry_method :: "string \<Rightarrow> (string \<times> string) option" where
  "retry_method full_method =
    (case split_on (CHR ''/'') (trim_prefix ''/'' full_method) of
       [service, meth] \<Rightarrow> if service = [] \<or> meth = [] then None else Some (service, meth)
     | _ \<Rightarrow> None)"

fun retry_methods :: "string list \<Rightarrow> goerr + (string \<times> string) list" where
  "retry_methods [] = Inr []"
| "retry_methods (m # ms) =
    (case retry_method m of
       None \<Rightarrow> Inl (Errorf ''grpcx: invalid retry method %q'')
     | Some name \<Rightarrow> (case retry_methods ms of Inl err \<Rightarrow> Inl err | Inr names \<Rightarrow> Inr (name # names)))"

definition retry_service_config :: "(duration \<Rightarrow> string) \<Rightarrow> dial_option \<Rightarrow> goerr + service_config" where
  "retry_service_config seconds opt =
    (if dl_retry_attempts opt \<le> 1 then Inr \<lparr>sc_methods = [], sc_round_robin = False\<rparr>
     else (case retry_methods (dl_retry_methods opt) of
         Inl err \<Rightarrow> Inl err
       | Inr names \<Rightarrow> Inr \<lparr>sc_methods = [(names,
           \<lparr>rp_attempts = dl_retry_attempts opt, rp_initial = seconds (dl_retry_initial opt),
            rp_max = seconds (dl_retry_max opt), rp_multiplier = dl_retry_multiplier opt,
            rp_codes = [''UNAVAILABLE'', ''RESOURCE_EXHAUSTED'']\<rparr>)], sc_round_robin = False\<rparr>))"

definition with_round_robin :: "service_config \<Rightarrow> service_config" where
  "with_round_robin config = config\<lparr>sc_round_robin := True\<rparr>"

subsection \<open>Dialing\<close>

datatype conn_state = ConnIdle | ConnConnecting | ConnReady | ConnTransientFailure | ConnShutdown

text \<open>The states \<open>GetState\<close> returns in turn; the context expires after the last one.\<close>

fun await_ready :: "conn_state list \<Rightarrow> goerr option" where
  "await_ready [] = Some (Wrapf ''grpcx: connect %s: %w'' ctx_deadline)"
| "await_ready (st # sts) =
    (if st = ConnReady then None
     else if st = ConnShutdown then Some (Errorf ''grpcx: connection shut down before ready'')
     else await_ready sts)"

text \<open>What is handed to \<open>grpc.NewClient\<close>.\<close>

record client_setup =
  cu_addr :: string
  cu_creds :: transport_creds
  cu_keepalive_time :: duration
  cu_keepalive_timeout :: duration
  cu_request_timeout :: duration
  cu_config :: service_config

definition prepare_client :: "(duration \<Rightarrow> string) \<Rightarrow> bool \<Rightarrow> string \<Rightarrow> dial_option \<Rightarrow> goerr + client_setup" where
  "prepare_client seconds resolved addr opt =
    (if trim_space addr = [] then Inl (Errorf ''grpcx: empty address'')
     else (case validate_dial_option opt of
         Some err \<Rightarrow> Inl err
       | None \<Rightarrow>
          (case retry_service_config seconds opt of
             Inl err \<Rightarrow> Inl err
           | Inr config \<Rightarrow> Inr \<lparr>cu_addr = addr, cu_creds = transport_credentials opt,
               cu_keepalive_time = dl_keepalive_time opt, cu_keepalive_timeout = dl_keepalive_timeout opt,
               cu_request_timeout = dl_request_timeout opt,
               cu_config = (if resolved then with_round_robin config else config)\<rparr>)))"

definition dial_prepared :: "(client_setup \<Rightarrow> goerr + conn_state list) \<Rightarrow> goerr + client_setup \<Rightarrow> goerr option" where
  "dial_prepared new_client prepared =
    (case prepared of
       Inl err \<Rightarrow> Some err
     | Inr setup \<Rightarrow> (case new_client setup of Inl err \<Rightarrow> Some err | Inr sts \<Rightarrow> await_ready sts))"

definition dial_context ::
  "(duration \<Rightarrow> string) \<Rightarrow> (client_setup \<Rightarrow> goerr + conn_state list) \<Rightarrow> string \<Rightarrow> dial_option list \<Rightarrow> goerr option"
where
  "dial_context seconds new_client addr opts =
    dial_prepared new_client (prepare_client seconds False addr (normalize_dial_option opts))"

definition dns_target :: "string \<Rightarrow> goerr + string" where
  "dns_target target =
    (let target = trim_space target
     in if target = [] then Inl (Errorf ''grpcx: empty DNS target'')
        else Inr (if prefix ''dns:///'' target then target else ''dns:///'' @ trim_prefix ''//'' target))"

definition dial_dns ::
  "(duration \<Rightarrow> string) \<Rightarrow> (client_setup \<Rightarrow> goerr + conn_state list) \<Rightarrow> string \<Rightarrow> dial_option list \<Rightarrow> goerr option"
where
  "dial_dns seconds new_client target opts =
    (case dns_target target of Inl err \<Rightarrow> Some err | Inr t \<Rightarrow> dial_context seconds new_client t opts)"

definition service_target :: "string \<Rightarrow> goerr + string" where
  "service_target service =
    (let service = trim_space service
     in if service = [] \<or> contains_any service (CHR ''/'' # crlf_nul)
        then Inl (Errorf ''grpcx: invalid registry service %q'') else Inr service)"

definition dial_service ::
  "(duration \<Rightarrow> string) \<Rightarrow> (client_setup \<Rightarrow> goerr + conn_state list) \<Rightarrow> string \<Rightarrow> dial_option list \<Rightarrow> goerr option"
where
  "dial_service seconds new_client service opts =
    (case service_target service of Inl err \<Rightarrow> Some err
     | Inr name \<Rightarrow> dial_prepared new_client
         (prepare_client seconds True (''registry:///'' @ name) (normalize_dial_option opts)))"

subsection \<open>The registry resolver\<close>

record resolver_builder =
  rb_initial_timeout :: duration
  rb_version :: string
  rb_metadata :: go_meta
  rb_service_filter :: service_filter
  rb_filter :: service_filter
  rb_stale_grace :: duration
  rb_resync :: duration

definition service_builder :: "dial_option \<Rightarrow> resolver_builder" where
  "service_builder opt = \<lparr>rb_initial_timeout = dl_timeout opt, rb_version = dl_version opt,
    rb_metadata = dl_metadata opt, rb_service_filter = dl_service_filter opt,
    rb_filter = dl_filter opt, rb_stale_grace = 0, rb_resync = 0\<rparr>"

definition builder_watch_options :: "resolver_builder \<Rightarrow> watch_options" where
  "builder_watch_options b = \<lparr>wo_stale_grace = rb_stale_grace b, wo_resync = rb_resync b,
    wo_filter = and_filters [version_filter (rb_version b), metadata_filter (rb_metadata b),
      rb_service_filter b, rb_filter b],
    wo_initial_timeout = rb_initial_timeout b\<rparr>"

definition resolver_address :: "service \<Rightarrow> string option" where
  "resolver_address svc =
    (let addr = trim_space (svc_grpc_addr svc);
         addr = (if addr = [] then trim_space (svc_addr svc) else addr)
     in if addr = [] \<or> contains_any addr crlf_nul then None else Some addr)"

definition resolver_addresses :: "service list \<Rightarrow> string list" where
  "resolver_addresses services = List.map_filter resolver_address services"

text \<open>
  What \<open>cc.UpdateState\<close> is called with; \<open>validate\<close> is \<open>ValidateEndpoints\<close>, \<open>Inl\<close> the error that
  is returned instead of an update.
\<close>

definition update_resolver_state ::
  "(string list \<Rightarrow> goerr option) \<Rightarrow> service list \<Rightarrow> goerr + string list" where
  "update_resolver_state validate services =
    (let addresses = resolver_addresses services
     in case validate addresses of
          Some err \<Rightarrow> if addresses = [] then Inr [] else Inl err
        | None \<Rightarrow> Inr addresses)"

definition resolver_updates ::
  "(string list \<Rightarrow> goerr option) \<Rightarrow> upstream_snapshot list \<Rightarrow> (goerr + string list) list" where
  "resolver_updates validate snapshots = map (\<lambda>sn. update_resolver_state validate (us_services sn)) snapshots"

subsection \<open>Properties\<close>

text \<open>
  What \<open>RequireTLS\<close> enforces: no plain text, no TLS configuration of the caller that skips the
  verification, and no custom credentials that call themselves insecure. Whether a peer is verified.
\<close>

definition tls_policy :: "transport_creds \<Rightarrow> bool" where
  "tls_policy c \<longleftrightarrow> (case c of CredsInsecure \<Rightarrow> False | CredsTls skip_verify \<Rightarrow> \<not> skip_verify
    | CredsCustom creds \<Rightarrow> \<not> equal_fold (cc_protocol creds) ''insecure'')"

definition peer_verified :: "transport_creds \<Rightarrow> bool" where
  "peer_verified c \<longleftrightarrow> (case c of CredsInsecure \<Rightarrow> False | CredsTls skip_verify \<Rightarrow> \<not> skip_verify
    | CredsCustom creds \<Rightarrow> cc_verifies creds)"

lemma retry_method_Some:
  "retry_method m = Some (service, meth) \<longleftrightarrow> service \<noteq> [] \<and> meth \<noteq> [] \<and>
    CHR ''/'' \<notin> set service \<and> CHR ''/'' \<notin> set meth \<and> trim_prefix ''/'' m = service @ ''/'' @ meth"
proof
  assume m: "retry_method m = Some (service, meth)"
  then have split: "split_on (CHR ''/'') (trim_prefix ''/'' m) = [service, meth]" "service \<noteq> []" "meth \<noteq> []"
    by (auto simp: retry_method_def split: list.splits if_splits)
  moreover from this have "CHR ''/'' \<notin> set service" "CHR ''/'' \<notin> set meth"
    using split_on_parts [of _ "CHR ''/''" "trim_prefix ''/'' m"] by auto
  ultimately show "service \<noteq> [] \<and> meth \<noteq> [] \<and> CHR ''/'' \<notin> set service \<and> CHR ''/'' \<notin> set meth \<and>
      trim_prefix ''/'' m = service @ ''/'' @ meth"
    using join_split_on [of "CHR ''/''" "trim_prefix ''/'' m"] by simp
next
  assume "service \<noteq> [] \<and> meth \<noteq> [] \<and> CHR ''/'' \<notin> set service \<and> CHR ''/'' \<notin> set meth \<and>
    trim_prefix ''/'' m = service @ ''/'' @ meth"
  then show "retry_method m = Some (service, meth)"
    by (simp add: retry_method_def split_on_append split_on_no_sep)
qed

lemma retry_methods_Inr:
  "retry_methods ms = Inr names \<Longrightarrow>
    list_all2 (\<lambda>m (service, meth). service \<noteq> [] \<and> meth \<noteq> [] \<and>
      trim_prefix ''/'' m = service @ ''/'' @ meth) ms names"
  by (induction ms arbitrary: names) (auto simp: retry_method_Some split: option.splits sum.splits)

text \<open>
  C26. No connection is ever attempted outside the policy: whatever options a caller passes, what
  reaches \<open>grpc.NewClient\<close> has positive keepalive times, and either no default deadline for a
  call (when none was asked for) or one of at most five minutes. With \<open>RequireTLS\<close> its
  credentials are never plain text; without custom credentials they are TLS that verifies the peer;
  custom credentials are taken as they are unless they call themselves insecure, whether they verify
  the peer or not. Retries are configured only when they were asked for, for at most five attempts,
  on exactly the methods the caller listed as idempotent, each with a service and a method name.
\<close>

theorem dial_policy:
  assumes "prepare_client seconds resolved addr opt = Inr setup"
  shows "0 < cu_keepalive_time setup \<and> 0 < cu_keepalive_timeout setup \<and>
    cu_request_timeout setup = dl_request_timeout opt \<and>
    (cu_request_timeout setup = 0 \<or> 0 < cu_request_timeout setup \<and> cu_request_timeout setup \<le> 5 * minute) \<and>
    (dl_require_tls opt \<longrightarrow> tls_policy (cu_creds setup) \<and> cu_creds setup \<noteq> CredsInsecure \<and>
      (dl_creds opt = None \<longrightarrow> peer_verified (cu_creds setup))) \<and>
    (\<forall>creds. dl_creds opt = Some creds \<longrightarrow> cu_creds setup = CredsCustom creds) \<and>
    (if dl_retry_attempts opt = 1 then sc_methods (cu_config setup) = []
     else \<exists>names policy. sc_methods (cu_config setup) = [(names, policy)] \<and> names \<noteq> [] \<and>
       rp_attempts policy = dl_retry_attempts opt \<and> 2 \<le> rp_attempts policy \<and> rp_attempts policy \<le> 5 \<and>
       list_all2 (\<lambda>m (service, meth). service \<noteq> [] \<and> meth \<noteq> [] \<and>
         trim_prefix ''/'' m = service @ ''/'' @ meth) (dl_retry_methods opt) names)"
proof -
  obtain config where valid: "validate_dial_option opt = None"
    and config: "retry_service_config seconds opt = Inr config"
    and made: "setup = \<lparr>cu_addr = addr, cu_creds = transport_credentials opt,
      cu_keepalive_time = dl_keepalive_time opt, cu_keepalive_timeout = dl_keepalive_timeout opt,
      cu_request_timeout = dl_request_timeout opt,
      cu_config = (if resolved then with_round_robin config else config)\<rparr>"
    using assms by (auto simp: prepare_client_def split: if_splits option.splits sum.splits)
  have bounds: "0 < dl_keepalive_time opt" "0 < dl_keepalive_timeout opt" "0 \<le> dl_request_timeout opt"
    "dl_request_timeout opt \<le> 5 * minute" "1 \<le> dl_retry_attempts opt" "dl_retry_attempts opt \<le> 5"
    "dl_retry_attempts opt > 1 \<Longrightarrow> dl_retry_methods opt \<noteq> []"
    using valid by (auto simp: validate_dial_option_def split: if_splits)
  have creds: "tls_policy (transport_credentials opt) \<and> transport_credentials opt \<noteq> CredsInsecure \<and>
      (dl_creds opt = None \<longrightarrow> peer_verified (transport_credentials opt))" if "dl_require_tls opt"
    using valid that
    by (auto simp: validate_dial_option_def tls_policy_def peer_verified_def transport_credentials_def
        split: if_splits option.splits)
  have custom: "\<forall>creds. dl_creds opt = Some creds \<longrightarrow> transport_credentials opt = CredsCustom creds"
    by (simp add: transport_credentials_def)
  have methods: "sc_methods (cu_config setup) = sc_methods config"
    by (simp add: made with_round_robin_def)
  show ?thesis
  proof (cases "dl_retry_attempts opt = 1")
    case True
    then have "sc_methods config = []" using config by (auto simp: retry_service_config_def)
    with True bounds creds custom methods show ?thesis by (auto simp: made)
  next
    case False
    then obtain names policy where names: "retry_methods (dl_retry_methods opt) = Inr names"
      and policy: "sc_methods config = [(names, policy)]" "rp_attempts policy = dl_retry_attempts opt"
      using config bounds(5) by (auto simp: retry_service_config_def split: sum.splits)
    note each = retry_methods_Inr [OF names]
    then have "names \<noteq> []"
      using bounds(5,7) False by (auto simp: list_all2_Nil2)
    with each show ?thesis
      using False bounds creds custom methods policy by (auto simp: made)
  qed
qed

definition demo_dial :: dial_option where
  "demo_dial = default_opts\<lparr>dl_require_tls := True, dl_tls := Some False, dl_retry_attempts := 3,
    dl_retry_methods := [''/user.User/Get'']\<rparr>"

theorem dial_policy_witness:
  "\<exists>client. prepare_client (\<lambda>d. []) False ''mf-user:7889'' demo_dial = Inr client \<and>
    cu_creds client = CredsTls False \<and> peer_verified (cu_creds client) \<and>
    (\<exists>policy. sc_methods (cu_config client) = [([(''user.User'', ''Get'')], policy)] \<and> rp_attempts policy \<le> 5)"
proof -
  have "trim_space ''mf-user:7889'' \<noteq> []" by code_simp
  then obtain client where ok: "prepare_client (\<lambda>d. []) False ''mf-user:7889'' demo_dial = Inr client"
    and "cu_creds client = CredsTls False"
    "\<exists>policy. sc_methods (cu_config client) = [([(''user.User'', ''Get'')], policy)] \<and> rp_attempts policy = 3"
    by (auto simp: prepare_client_def validate_dial_option_def demo_dial_def default_opts_def duration_units
        retry_service_config_def retry_method_def trim_prefix_def transport_credentials_def)
  then show ?thesis
    using dial_policy [OF ok] by (auto simp: demo_dial_def default_opts_def)
qed

text \<open>
  The gap: the code looks at the verification of a \<open>tls.Config\<close> only. The same TLS without
  verification passes \<open>RequireTLS\<close> as custom credentials.
\<close>

lemma custom_creds_unverified:
  assumes "opt = default_opts\<lparr>dl_require_tls := True, dl_creds := Some \<lparr>cc_protocol = ''tls'', cc_verifies = False\<rparr>\<rparr>"
  shows "validate_dial_option opt = None \<and> \<not> peer_verified (transport_credentials opt)"
    "validate_dial_option (opt\<lparr>dl_creds := None, dl_tls := Some True\<rparr>) \<noteq> None"
proof -
  have "\<not> equal_fold ''tls'' ''insecure''" by code_simp
  then show "validate_dial_option opt = None \<and> \<not> peer_verified (transport_credentials opt)"
    by (simp add: assms validate_dial_option_def default_opts_def duration_units peer_verified_def
        transport_credentials_def)
  show "validate_dial_option (opt\<lparr>dl_creds := None, dl_tls := Some True\<rparr>) \<noteq> None"
    by (simp add: assms validate_dial_option_def default_opts_def)
qed

text \<open>
  A client that dials a service by name is kept on eligible instances only: of every snapshot
  the watch sends, the resolver gives gRPC exactly the addresses of its instances, in their
  order, also when there are none, and never fails the update; each instance carries the
  version and the labels that were asked for and passes both custom filters, and no address
  is blank, padded or broken over lines.
\<close>

theorem resolver_follows_watch:
  assumes reach: "watch_reachable (builder_watch_options b) now ws" "grace_ok (builder_watch_options b)"
    and validate: "\<And>addresses. validate addresses \<noteq> None \<longleftrightarrow> addresses = []"
    and sent: "sn \<in> set (ws_sent ws)"
  shows "update_resolver_state validate (us_services sn) = Inr (resolver_addresses (us_services sn)) \<and>
    (\<forall>s \<in> set (us_services sn). accepts (version_filter (rb_version b)) s \<and>
      accepts (metadata_filter (rb_metadata b)) s \<and> accepts (rb_service_filter b) s \<and> accepts (rb_filter b) s) \<and>
    (\<forall>a \<in> set (resolver_addresses (us_services sn)). a \<noteq> [] \<and> trim_space a = a \<and> \<not> contains_any a crlf_nul)"
proof -
  have "\<forall>s\<in>set (us_services sn). accepts (wo_filter (builder_watch_options b)) s"
    using reachable_watch_ok [OF reach] sent by (simp add: watch_ok_def watch_base_def snapshot_ok_def)
  moreover have "update_resolver_state validate (us_services sn) = Inr (resolver_addresses (us_services sn))"
  proof (cases "validate (resolver_addresses (us_services sn))")
    case (Some err)
    then have "resolver_addresses (us_services sn) = []" using validate by blast
    with Some show ?thesis by (simp add: update_resolver_state_def Let_def)
  qed (simp add: update_resolver_state_def Let_def)
  moreover have "a \<noteq> [] \<and> trim_space a = a \<and> \<not> contains_any a crlf_nul" if "resolver_address s = Some a" for s a
    using that by (auto simp: resolver_address_def Let_def split: if_splits)
  ultimately show ?thesis
    by (auto simp: builder_watch_options_def accepts_and_filters resolver_addresses_def List.map_filter_def)
qed

definition demo_builder :: resolver_builder where
  "demo_builder = \<lparr>rb_initial_timeout = 0, rb_version = [], rb_metadata = None,
    rb_service_filter = None, rb_filter = None, rb_stale_grace = 10, rb_resync = 0\<rparr>"

lemma demo_builder_options: "builder_watch_options demo_builder = demo_watch_options"
  by (simp add: builder_watch_options_def demo_builder_def demo_watch_options_def version_filter_def
      metadata_filter_def meta_entries_def and_filters_def List.map_filter_def)

theorem resolver_follows_watch_witness:
  "update_resolver_state (\<lambda>addresses. if addresses = [] then Some (Errorf ''no addresses'') else None)
      [demo_service ''mf-user'' ''u1''] = Inr [''10.0.1.5:7801'']"
proof -
  have "trim_space ''10.0.1.5:7801'' = ''10.0.1.5:7801''" by code_simp
  then have "resolver_addresses [demo_service ''mf-user'' ''u1''] = [''10.0.1.5:7801'']"
    by (simp add: resolver_addresses_def resolver_address_def demo_service_def List.map_filter_def Let_def
        contains_any_iff crlf_nul_def)
  moreover have "hd (ws_sent demo_watch_state) \<in> set (ws_sent demo_watch_state)"
    "us_services (hd (ws_sent demo_watch_state)) = [demo_service ''mf-user'' ''u1'']"
    by (simp_all add: demo_watch_state_def Let_def)
  ultimately show ?thesis
    using resolver_follows_watch [where b = demo_builder and now = 5 and ws = demo_watch_state
        and validate = "\<lambda>addresses. if addresses = [] then Some (Errorf ''no addresses'') else None"
        and sn = "hd (ws_sent demo_watch_state)"]
      demo_watch_reachable demo_grace(1) by (simp add: demo_builder_options)
qed

end
