(* ===== verification/Diagnostics.thy ===== *)
theory Diagnostics
  imports Config
begin

text \<open>
  The profiling endpoints, \<open>diagnostics/pprof.go\<close>, with the listener \<open>boot/app.go\<close> opens for
  them: which routes exist, and which requests get through. A request is its source address
  and its \<open>Authorization\<close> header; the parsers of \<open>net\<close> are parameters.
  The TLS settings of the listener are in \<open>Tls_Config\<close>.
\<close>

subsection \<open>Routes\<close>

definition default_pprof_prefix :: string where
  "default_pprof_prefix = ''/debug/pprof''"

definition normalize_prefix :: "string \<Rightarrow> string" where
  "normalize_prefix p =
    (let p = trim_space p
     in if p = [] then default_pprof_prefix
        else (let p = (if prefix ''/'' p then p else CHR ''/'' # p);
                  p = trim_right_chars p ''/''
              in if p = [] then default_pprof_prefix
                 else if length p > 128 \<or> contains ''..'' p \<or> contains_any p [CHR 0x0D, CHR 0x0A]
                 then default_pprof_prefix else p))"

definition pprof_handlers :: "string list" where
  "pprof_handlers = [[], ''/'', ''/cmdline'', ''/profile'', ''/symbol'', ''/trace'', ''/allocs'', ''/block'',
    ''/goroutine'', ''/heap'', ''/mutex'', ''/threadcreate'']"

definition pprof_routes :: "string \<Rightarrow> string list" where
  "pprof_routes p = map (\<lambda>h. normalize_prefix p @ h) pprof_handlers"

subsection \<open>Access\<close>

record pprof_request =
  pq_remote :: string
  pq_authorization :: string

definition split_cidrs :: "string \<Rightarrow> string list" where
  "split_cidrs value =
    (if trim_space value = [] then []
     else filter (\<lambda>p. p \<noteq> []) (map trim_space (split_on (CHR '','') value)))"

definition token_allowed :: "pprof_request \<Rightarrow> string \<Rightarrow> bool" where
  "token_allowed req expected =
    (if expected = [] then True
     else (let value = trim_space (pq_authorization req); n = length ''Bearer ''
           in if length value < n \<or> \<not> equal_fold (take n value) ''Bearer '' then False
              else (let got = trim_space (drop n value)
                    in length got = length expected \<and> got = expected)))"

fun parse_cidrs :: "('ip, 'net) net_lib \<Rightarrow> string list \<Rightarrow> 'net list \<times> bool" where
  "parse_cidrs lib [] = ([], False)"
| "parse_cidrs lib (v # vs) =
    (let (networks, invalid) = parse_cidrs lib vs; v = trim_space v
     in if v = [] then (networks, True)
        else (case nl_parse_cidr lib v of None \<Rightarrow> (networks, True) | Some n \<Rightarrow> (n # networks, invalid)))"

definition source_allowed :: "('ip, 'net) net_lib \<Rightarrow> pprof_request \<Rightarrow> 'net list \<Rightarrow> bool" where
  "source_allowed lib req allowed =
    (if allowed = [] then True
     else (let remote = pq_remote req;
               host = (case split_host_port remote of Inl e \<Rightarrow> remote | Inr (host, port) \<Rightarrow> host)
           in case nl_parse_ip lib host of None \<Rightarrow> False
              | Some ip \<Rightarrow> list_ex (\<lambda>network. nl_contains lib network ip) allowed))"

text \<open>Whether a request reaches the profiler; it is answered 403 otherwise.\<close>

definition pprof_served :: "('ip, 'net) net_lib \<Rightarrow> string \<Rightarrow> string list \<Rightarrow> pprof_request \<Rightarrow> bool" where
  "pprof_served lib token allowed_cidrs req =
    (let (allowed, invalid) = parse_cidrs lib allowed_cidrs
     in \<not> (invalid \<or> (allowed = [] \<and> token = []) \<or> \<not> source_allowed lib req allowed \<or>
        \<not> token_allowed req token))"

subsection \<open>Configuration\<close>

definition register_from_config ::
  "('ip, 'net) net_lib \<Rightarrow> pprof_config \<Rightarrow> (string list \<times> (pprof_request \<Rightarrow> bool)) option" where
  "register_from_config lib p =
    (if pp_enabled p \<and> pp_addr p = []
     then Some (pprof_routes (pp_prefix p),
       pprof_served lib (pp_auth_token p) (split_cidrs (pp_allowed_cidrs p)))
     else None)"

definition diagnostic_listener ::
  "('ip, 'net) net_lib \<Rightarrow> pprof_config \<Rightarrow> (string list \<times> (pprof_request \<Rightarrow> bool)) option" where
  "diagnostic_listener lib p =
    (if pp_enabled p \<and> pp_addr p \<noteq> []
     then Some (pprof_routes (pp_prefix p),
       pprof_served lib (pp_auth_token p) (split_cidrs (pp_allowed_cidrs p)))
     else None)"

subsection \<open>Properties\<close>

lemma parse_cidrs_iff:
  "parse_cidrs lib vs = (networks, invalid) \<Longrightarrow>
    (invalid \<longleftrightarrow> (\<exists>v \<in> set vs. trim_space v = [] \<or> nl_parse_cidr lib (trim_space v) = None)) \<and>
    set networks = {n. \<exists>v \<in> set vs. trim_space v \<noteq> [] \<and> nl_parse_cidr lib (trim_space v) = Some n} \<and>
    (\<not> invalid \<longrightarrow> (networks = [] \<longleftrightarrow> vs = []))"
  by (induction vs arbitrary: networks invalid) (auto simp: Let_def split: prod.splits if_splits option.splits)

definition bearer_of :: "string \<Rightarrow> string \<Rightarrow> bool" where
  "bearer_of header token \<longleftrightarrow> (\<exists>scheme rest. trim_space header = scheme @ rest \<and>
    length scheme = 7 \<and> equal_fold scheme ''Bearer '' \<and> trim_space rest = token)"

lemma token_allowed_iff: "token_allowed req token \<longleftrightarrow> token = [] \<or> bearer_of (pq_authorization req) token"
proof (cases "token = []")
  case False
  let ?v = "trim_space (pq_authorization req)"
  have "bearer_of (pq_authorization req) token \<longleftrightarrow>
      7 \<le> length ?v \<and> equal_fold (take 7 ?v) ''Bearer '' \<and> trim_space (drop 7 ?v) = token"
  proof
    assume "7 \<le> length ?v \<and> equal_fold (take 7 ?v) ''Bearer '' \<and> trim_space (drop 7 ?v) = token"
    then show "bearer_of (pq_authorization req) token"
      unfolding bearer_of_def by (intro exI [of _ "take 7 ?v"] exI [of _ "drop 7 ?v"]) simp
  qed (auto simp: bearer_of_def)
  moreover have n: "length ''Bearer '' = 7" by simp
  ultimately show ?thesis
    using False unfolding token_allowed_def Let_def n by auto
qed (simp add: token_allowed_def)

text \<open>
  The profiler fails closed: a request reaches it only when something protects it, that is a
  token or at least one network, when every configured network could be parsed, when the
  source address lies in one of the networks, if there are any, and when the header carries
  the token as a bearer token, if there is one; and every such request gets through.
\<close>

theorem pprof_fails_closed:
  "pprof_served lib token cidrs req \<longleftrightarrow>
    (token \<noteq> [] \<or> cidrs \<noteq> []) \<and>
    (\<forall>c \<in> set cidrs. trim_space c \<noteq> [] \<and> nl_parse_cidr lib (trim_space c) \<noteq> None) \<and>
    (cidrs = [] \<or> (\<exists>c \<in> set cidrs. \<exists>network ip. nl_parse_cidr lib (trim_space c) = Some network \<and>
      nl_parse_ip lib (case split_host_port (pq_remote req) of Inl e \<Rightarrow> pq_remote req
        | Inr (host, port) \<Rightarrow> host) = Some ip \<and> nl_contains lib network ip)) \<and>
    (token = [] \<or> bearer_of (pq_authorization req) token)"
proof -
  obtain networks invalid where parsed: "parse_cidrs lib cidrs = (networks, invalid)" by fastforce
  note facts = parse_cidrs_iff [OF parsed]
  let ?host = "case split_host_port (pq_remote req) of Inl e \<Rightarrow> pq_remote req | Inr (host, port) \<Rightarrow> host"
  have source: "source_allowed lib req networks \<longleftrightarrow> networks = [] \<or>
      (\<exists>network \<in> set networks. \<exists>ip. nl_parse_ip lib ?host = Some ip \<and> nl_contains lib network ip)"
    by (auto simp: source_allowed_def Let_def list_ex_iff split: option.splits)
  show ?thesis
    unfolding pprof_served_def parsed Let_def prod.case token_allowed_iff source
    using facts by (cases "cidrs = []") fastforce+
qed

text \<open>Networks that are the text of one address, for the witnesses.\<close>

definition exact_net :: "(string, string) net_lib" where
  "exact_net = \<lparr>nl_parse_ip = Some, nl_loopback = (\<lambda>ip. ip = ''127.0.0.1''), nl_parse_cidr = Some,
    nl_contains = (=), nl_parse_url = (\<lambda>s. None)\<rparr>"

theorem pprof_fails_closed_witness:
  "pprof_served exact_net [] [''10.0.0.1''] \<lparr>pq_remote = ''10.0.0.1:5000'', pq_authorization = []\<rparr> \<and>
   \<not> pprof_served exact_net [] [''10.0.0.1''] \<lparr>pq_remote = ''10.0.0.2:5000'', pq_authorization = []\<rparr> \<and>
   \<not> pprof_served exact_net ''s'' [] \<lparr>pq_remote = ''10.0.0.1:5000'', pq_authorization = []\<rparr>"
proof -
  have hosts: "split_host_port ''10.0.0.1:5000'' = Inr (''10.0.0.1'', ''5000'')"
    "split_host_port ''10.0.0.2:5000'' = Inr (''10.0.0.2'', ''5000'')"
    "trim_space ''10.0.0.1'' = ''10.0.0.1''" by code_simp+
  have "\<not> bearer_of [] ''s''" by (simp add: bearer_of_def)
  with hosts show ?thesis
    by (simp add: pprof_fails_closed exact_net_def)
qed

text \<open>
  A profiler on a loopback address cannot be reached without a token or a network: the
  configuration accepts it in release mode exactly when the address is a loopback one, and
  the listener is opened, but every request to it is refused.
\<close>

theorem loopback_pprof_unreachable:
  assumes "pp_enabled p" and "pp_addr p \<noteq> []" and "\<not> pt_enable (pp_tls p)"
    and "pp_auth_token p = []" and "trim_space (pp_allowed_cidrs p) = []"
  shows "(validate_config_pprof lib ''release'' p = None \<longleftrightarrow> \<not> pprof_exposed lib (pp_addr p)) \<and>
    (\<exists>serves. diagnostic_listener lib p = Some (pprof_routes (pp_prefix p), serves) \<and> (\<forall>req. \<not> serves req))"
  using assms
  by (auto simp: validate_config_pprof_def release_mode_def Let_def diagnostic_listener_def split_cidrs_def
      pprof_served_def)

definition demo_pprof :: pprof_config where
  "demo_pprof = \<lparr>pp_enabled = True, pp_prefix = [], pp_addr = ''127.0.0.1:6060'', pp_auth_token = [],
    pp_allowed_cidrs = [], pp_tls = \<lparr>pt_enable = False, pt_ca_file = [], pt_cert_file = [],
      pt_key_file = [], pt_require_client_cert = False\<rparr>\<rparr>"

theorem loopback_pprof_unreachable_witness:
  "validate_config_pprof exact_net ''release'' demo_pprof = None \<and>
   (\<exists>serves. diagnostic_listener exact_net demo_pprof = Some (pprof_routes [], serves) \<and>
     \<not> serves \<lparr>pq_remote = ''127.0.0.1:5000'', pq_authorization = []\<rparr>)"
proof -
  have "trim_space ''127.0.0.1:6060'' = ''127.0.0.1:6060''" "equal_fold ''127.0.0.1'' ''localhost'' = False"
    "split_host_port ''127.0.0.1:6060'' = Inr (''127.0.0.1'', ''6060'')" by code_simp+
  then have "\<not> pprof_exposed exact_net (pp_addr demo_pprof)"
    by (simp add: pprof_exposed_def demo_pprof_def exact_net_def)
  then show ?thesis
    using loopback_pprof_unreachable [of demo_pprof exact_net] by (auto simp: demo_pprof_def)
qed

text \<open>A token with space around it is compared with a trimmed one, so no request ever carries it.\<close>

lemma padded_token_refused:
  assumes "trim_space token \<noteq> token"
  shows "\<not> pprof_served lib token cidrs req"
proof -
  have "\<not> bearer_of (pq_authorization req) token"
    using assms by (auto simp: bearer_of_def)
  moreover have "token \<noteq> []" using assms by auto
  ultimately show ?thesis
    by (simp add: pprof_served_def token_allowed_iff split: prod.split)
qed

end
