(* ===== verification/Readiness.thy ===== *)
theory Readiness
  imports Components
begin

text \<open>
  The readiness probe of \<open>boot/app.go\<close>: the registered checks, the cached verdict, and the
  evaluation that runs every check with a deadline. A probe first reads the cache; if that
  does not answer, it evaluates under a lock. Its two parts are the places where probes can
  interleave. What the checks did is given as the sequence of events the probe's \<open>select\<close>
  saw; the verdicts stored so far are kept with their evidence.
\<close>

subsection \<open>State\<close>

record readiness =
  rd_checks :: "string list"
  rd_ttl :: duration
  rd_cached_at :: instant
  rd_cached_ok :: bool
  rd_in_flight :: nat
  rd_log :: "(instant \<times> string list \<times> goerr option list) list"

definition new_readiness :: readiness where
  "new_readiness = \<lparr>rd_checks = [], rd_ttl = 0, rd_cached_at = 0, rd_cached_ok = False,
    rd_in_flight = 0, rd_log = []\<rparr>"

definition add_readiness_check :: "string \<Rightarrow> bool \<Rightarrow> readiness \<Rightarrow> goerr option \<times> readiness" where
  "add_readiness_check name has_check r =
    (let name = trim_space name
     in if name = [] \<or> \<not> has_check
        then (Some (Sentinel ''boot: readiness check name and function are required''), r)
        else if name \<in> set (rd_checks r)
        then (Some (Errorf ''boot: readiness check %q already registered''), r)
        else (None, r\<lparr>rd_checks := rd_checks r @ [name]\<rparr>))"

definition set_readiness_cache_ttl :: "duration \<Rightarrow> readiness \<Rightarrow> readiness" where
  "set_readiness_cache_ttl ttl r = r\<lparr>rd_ttl := ttl, rd_cached_at := 0\<rparr>"

definition store_readiness_cache :: "instant \<Rightarrow> bool \<Rightarrow> readiness \<Rightarrow> readiness" where
  "store_readiness_cache now ok r = r\<lparr>rd_cached_at := now, rd_cached_ok := ok\<rparr>"

text \<open>A check in its goroutine: a nil function and a panic count as errors.\<close>

datatype check_run = CheckNil | CheckReturns "goerr option" | CheckPanics

definition run_readiness_check :: "check_run \<Rightarrow> goerr option" where
  "run_readiness_check c =
    (case c of CheckNil \<Rightarrow> Some (Sentinel ''nil readiness check'')
     | CheckReturns e \<Rightarrow> e
     | CheckPanics \<Rightarrow> Some (Errorf ''readiness check panic: %v''))"

subsection \<open>A probe\<close>

definition effective_ttl :: "readiness \<Rightarrow> duration" where
  "effective_ttl r = (if rd_ttl r = 0 then 2 * second else rd_ttl r)"

definition cached_verdict :: "duration \<Rightarrow> instant \<Rightarrow> readiness \<Rightarrow> bool option" where
  "cached_verdict ttl now r =
    (if ttl > 0 \<and> \<not> is_zero_time (rd_cached_at r) \<and> time_sub now (rd_cached_at r) < ttl
     then Some (rd_cached_ok r) else None)"

text \<open>
  The loop over the results: \<open>ContextDone\<close> is the deadline, or the cancellation after the
  first failure, whichever the \<open>select\<close> saw. \<open>None\<close> is the return without storing a verdict;
  the second component counts the results that were received.
\<close>

datatype probe_event = CheckDone check_run | ContextDone

fun collect_results :: "nat \<Rightarrow> bool \<Rightarrow> probe_event list \<Rightarrow> bool option \<times> goerr option list" where
  "collect_results 0 ok es = (Some ok, [])"
| "collect_results (Suc n) ok [] = (None, [])"
| "collect_results (Suc n) ok (ContextDone # es) = (None, [])"
| "collect_results (Suc n) ok (CheckDone c # es) =
    (let (verdict, results) = collect_results n (ok \<and> run_readiness_check c = None) es
     in (verdict, run_readiness_check c # results))"

definition probe_slow ::
  "duration \<Rightarrow> instant \<Rightarrow> probe_event list \<Rightarrow> instant \<Rightarrow> readiness \<Rightarrow> bool \<times> readiness" where
  "probe_slow ttl now events finished r =
    (case cached_verdict ttl now r of
       Some ok \<Rightarrow> (ok, r)
     | None \<Rightarrow>
        if rd_checks r = []
        then (True, store_readiness_cache finished True r
          \<lparr>rd_log := (finished, [], []) # rd_log r\<rparr>)
        else if rd_in_flight r > 0 then (False, r)
        else (let n = length (rd_checks r);
                  (verdict, results) = collect_results n True events;
                  r = r\<lparr>rd_in_flight := rd_in_flight r + n\<rparr>
              in case verdict of
                   None \<Rightarrow> (False, r)
                 | Some ok \<Rightarrow> (ok, store_readiness_cache finished ok r
                     \<lparr>rd_log := (finished, rd_checks r, results) # rd_log r\<rparr>)))"

text \<open>
  The interleavings: any number of probes that have read the ttl and found no verdict wait
  for the lock; a check that has delivered its result, or ignores its context, leaves the
  count when its goroutine ends; checks are added and the ttl is changed at any time.
\<close>

inductive readiness_step :: "readiness \<Rightarrow> readiness \<Rightarrow> bool" where
  slow_probe: "ttl \<noteq> 0 \<Longrightarrow> probe_slow ttl now events finished r = (ok, r') \<Longrightarrow> readiness_step r r'"
| check_ends: "rd_in_flight r > 0 \<Longrightarrow> readiness_step r (r\<lparr>rd_in_flight := rd_in_flight r - 1\<rparr>)"
| add_check: "add_readiness_check name has_check r = (err, r') \<Longrightarrow> readiness_step r r'"
| set_ttl: "readiness_step r (set_readiness_cache_ttl ttl r)"

inductive_cases readiness_stepE: "readiness_step r r'"

text \<open>The guard in front of \<open>/ready\<close> and the route behind it.\<close>

definition ready_status :: "bool \<Rightarrow> bool \<Rightarrow> int" where
  "ready_status ready_flag readiness = (if \<not> ready_flag \<or> \<not> readiness then 503 else 200)"

subsection \<open>Invariant\<close>

definition evidence_ok :: "instant \<times> string list \<times> goerr option list \<Rightarrow> bool" where
  "evidence_ok v \<longleftrightarrow> (case v of (at, checks, results) \<Rightarrow> length results = length checks \<and> list_all (\<lambda>e. e = None) results)"

lemma evidence_okI:
  "length results = length checks \<Longrightarrow> list_all (\<lambda>e. e = None) results \<Longrightarrow> evidence_ok (at, checks, results)"
  by (simp add: evidence_ok_def)

definition evidence_at :: "instant \<Rightarrow> readiness \<Rightarrow> bool" where
  "evidence_at t r \<longleftrightarrow> (\<exists>v \<in> set (rd_log r). fst v = t \<and> evidence_ok v)"

lemma evidence_at_simps [simp]:
  "evidence_at t (r\<lparr>rd_in_flight := n\<rparr>) = evidence_at t r"
  "evidence_at t (r\<lparr>rd_cached_at := at\<rparr>) = evidence_at t r"
  "evidence_at t (r\<lparr>rd_cached_ok := b\<rparr>) = evidence_at t r"
  "evidence_at t (r\<lparr>rd_checks := cs\<rparr>) = evidence_at t r"
  "evidence_at t (r\<lparr>rd_ttl := d\<rparr>) = evidence_at t r"
  "evidence_at t (r\<lparr>rd_log := v # vs\<rparr>) \<longleftrightarrow> fst v = t \<and> evidence_ok v \<or> evidence_at t (r\<lparr>rd_log := vs\<rparr>)"
  "evidence_at t (r\<lparr>rd_log := rd_log r\<rparr>) = evidence_at t r"
  by (auto simp: evidence_at_def)

definition readiness_inv :: "readiness \<Rightarrow> bool" where
  "readiness_inv r \<longleftrightarrow> rd_in_flight r \<le> length (rd_checks r) \<and>
    (rd_cached_at r \<noteq> 0 \<and> rd_cached_ok r \<longrightarrow> evidence_at (rd_cached_at r) r)"

lemma collect_results_facts:
  "collect_results n ok es = (verdict, results) \<Longrightarrow> length results \<le> n \<and>
    (verdict \<noteq> None \<longrightarrow> length results = n \<and> verdict = Some (ok \<and> list_all (\<lambda>e. e = None) results))"
  by (induction n ok es arbitrary: verdict results rule: collect_results.induct)
    (auto simp: Let_def split: prod.splits)

lemma probe_slow_cases:
  assumes "probe_slow ttl now events finished r = (ok, r')"
  obtains
    (cached) "cached_verdict ttl now r = Some ok" "r' = r"
  | (none) "rd_checks r = []" "ok"
      "r' = r\<lparr>rd_cached_at := finished, rd_cached_ok := True, rd_log := (finished, [], []) # rd_log r\<rparr>"
  | (busy) "rd_in_flight r > 0" "\<not> ok" "r' = r"
  | (open_end) "rd_in_flight r = 0" "\<not> ok" "r' = r\<lparr>rd_in_flight := length (rd_checks r)\<rparr>"
  | (verdict) results where "rd_in_flight r = 0" "length results = length (rd_checks r)"
      "ok = list_all (\<lambda>e. e = None) results"
      "r' = r\<lparr>rd_in_flight := length (rd_checks r), rd_cached_at := finished, rd_cached_ok := ok,
        rd_log := (finished, rd_checks r, results) # rd_log r\<rparr>"
proof (cases "cached_verdict ttl now r")
  case (Some b)
  then have "b = ok" "r' = r" using assms by (simp_all add: probe_slow_def)
  with Some show ?thesis using cached by blast
next
  case None
  show ?thesis
  proof (cases "rd_checks r = [] \<or> rd_in_flight r > 0")
    case True
    then show ?thesis
    proof (cases "rd_checks r = []")
      case True
      then have "ok" "r' = r\<lparr>rd_cached_at := finished, rd_cached_ok := True,
          rd_log := (finished, [], []) # rd_log r\<rparr>"
        using assms None by (simp_all add: probe_slow_def store_readiness_cache_def)
      with True show ?thesis using none by blast
    next
      case False
      then have "rd_in_flight r > 0" "\<not> ok" "r' = r"
        using assms None True by (simp_all add: probe_slow_def)
      then show ?thesis using busy by blast
    qed
  next
    case False
    obtain v results where c: "collect_results (length (rd_checks r)) True events = (v, results)" by fastforce
    note facts = collect_results_facts [OF c]
    have idle: "rd_in_flight r = 0" using False by simp
    show ?thesis
    proof (cases v)
      case None': None
      then have "\<not> ok" "r' = r\<lparr>rd_in_flight := length (rd_checks r)\<rparr>"
        using assms None False c by (simp_all add: probe_slow_def Let_def)
      then show ?thesis using idle facts open_end by blast
    next
      case (Some b)
      then have "ok = list_all (\<lambda>e. e = None) results" "r' = r\<lparr>rd_in_flight := length (rd_checks r), rd_cached_at := finished,
          rd_cached_ok := ok, rd_log := (finished, rd_checks r, results) # rd_log r\<rparr>"
        using assms None False c facts by (auto simp: probe_slow_def Let_def store_readiness_cache_def)
      moreover have "length results = length (rd_checks r)" using facts Some by simp
      ultimately show ?thesis using idle verdict by blast
    qed
  qed
qed

lemma readiness_step_inv:
  assumes "readiness_inv r" and "readiness_step r r'"
  shows "readiness_inv r'"
  using assms(2)
proof (cases rule: readiness_step.cases)
  case (slow_probe ttl now events finished ok)
  from slow_probe(2) show ?thesis
    by (rule probe_slow_cases) (use assms(1) in \<open>auto simp: readiness_inv_def evidence_okI\<close>)
next
  case (add_check name has_check err)
  then show ?thesis
    using assms(1) by (auto simp: add_readiness_check_def Let_def readiness_inv_def split: if_splits)
qed (use assms(1) in \<open>auto simp: readiness_inv_def set_readiness_cache_ttl_def\<close>)

interpretation readiness_steps: step_invariant readiness_step readiness_inv
  by unfold_locales (rule readiness_step_inv)

text \<open>
  C9. A service is reported ready only on evidence: however probes, late checks, new checks and
  changes of the cache time interleave, a probe that answers from the cache or after an
  evaluation says ready only if some evaluation, finished now or less than the cache time
  ago, received a result from every check registered when it ran, and every one was nil,
  neither an error, nor a panic, nor a missing function; and at no time are more checks
  running than are registered, however many probes come in while one hangs.
\<close>

theorem readiness_needs_evidence:
  assumes reach: "readiness_step\<^sup>*\<^sup>* new_readiness r"
  shows "rd_in_flight r \<le> length (rd_checks r) \<and>
    (cached_verdict ttl now r = Some True \<longrightarrow>
      (\<exists>v \<in> set (rd_log r). evidence_ok v \<and> time_sub now (fst v) < ttl)) \<and>
    (\<forall>events finished r'. probe_slow ttl now events finished r = (True, r') \<longrightarrow>
      (\<exists>v \<in> set (rd_log r'). evidence_ok v \<and> (fst v = finished \<or> time_sub now (fst v) < ttl)))"
proof -
  have inv: "readiness_inv r"
    by (rule readiness_steps.steps_keep [OF reach]) (simp add: readiness_inv_def new_readiness_def)
  have fresh: "\<exists>v \<in> set (rd_log r). evidence_ok v \<and> time_sub now (fst v) < ttl"
    if "cached_verdict ttl now r = Some True"
    using that inv
    by (auto simp: cached_verdict_def is_zero_time_def readiness_inv_def evidence_at_def split: if_splits)
  moreover have "\<exists>v \<in> set (rd_log r'). evidence_ok v \<and> (fst v = finished \<or> time_sub now (fst v) < ttl)"
    if "probe_slow ttl now events finished r = (True, r')" for events finished r'
    using that by (rule probe_slow_cases) (use fresh in \<open>auto simp: evidence_okI\<close>)
  ultimately show ?thesis
    using inv by (auto simp: readiness_inv_def)
qed

text \<open>
  A failure that is not the last result is not remembered, so the next probe evaluates
  again as soon as the checks have returned.
\<close>

lemma failed_verdict_not_cached:
  assumes "cached_verdict ttl now r = None" and "rd_checks r = [a, b]" and "rd_in_flight r = 0"
    and "run_readiness_check c \<noteq> None"
  shows "probe_slow ttl now [CheckDone c, ContextDone] finished r = (False, r\<lparr>rd_in_flight := 2\<rparr>)"
  using assms by (simp add: probe_slow_def Let_def numeral_2_eq_2)

definition demo_ready :: readiness where
  "demo_ready = new_readiness\<lparr>rd_checks := [''db''], rd_in_flight := 1, rd_cached_at := 7,
    rd_cached_ok := True, rd_log := [(7, [''db''], [None])]\<rparr>"

theorem readiness_needs_evidence_witness:
  "cached_verdict (2 * second) 9 demo_ready = Some True \<and>
   (\<exists>v \<in> set (rd_log demo_ready). evidence_ok v \<and> time_sub 9 (fst v) < 2 * second)"
proof -
  have trim: "trim_space ''db'' = ''db''" by code_simp
  have "add_readiness_check ''db'' True new_readiness = (None, new_readiness\<lparr>rd_checks := [''db'']\<rparr>)"
    using trim by (simp add: add_readiness_check_def new_readiness_def)
  from add_check [OF this]
  have "readiness_step new_readiness (new_readiness\<lparr>rd_checks := [''db'']\<rparr>)" .
  moreover have "probe_slow second 6 [CheckDone (CheckReturns None)] 7 (new_readiness\<lparr>rd_checks := [''db'']\<rparr>)
      = (True, demo_ready)"
    by (simp add: probe_slow_def cached_verdict_def new_readiness_def is_zero_time_def demo_ready_def Let_def
        run_readiness_check_def store_readiness_cache_def)
  then have "readiness_step (new_readiness\<lparr>rd_checks := [''db'']\<rparr>) demo_ready"
    by (rule slow_probe [rotated]) (simp add: second_def)
  ultimately have reach: "readiness_step\<^sup>*\<^sup>* new_readiness demo_ready" by auto
  moreover have "cached_verdict (2 * second) 9 demo_ready = Some True"
    by (simp add: cached_verdict_def demo_ready_def second_def is_zero_time_def time_sub_def clamp64_def
        min_int64_def max_int64_def)
  ultimately show ?thesis
    using readiness_needs_evidence [OF reach, of "2 * second" 9] by blast
qed

end
