(* ===== verification/Lifecycle.thy ===== *)
theory Lifecycle
  imports Components Config
begin

text \<open>
  The life of an application, \<open>boot/app.go\<close>: the resources \<open>New\<close> opens, \<open>Run\<close> with every way
  it can fail, \<open>shutdown\<close> and \<open>Close\<close>. What the outside answers (listeners, databases, the
  registry, callbacks) is given by an environment; what the program does to its resources is
  kept as a trace. The goroutines of a shutdown are listed in the order of the code.
\<close>

subsection \<open>Addresses and servers\<close>

definition default_int :: "int \<Rightarrow> int \<Rightarrow> int" where
  "default_int value fallback = (if value > 0 then value else fallback)"

record http_server =
  hs_addr :: string
  hs_read_header_timeout :: duration
  hs_read_timeout :: duration
  hs_write_timeout :: duration
  hs_idle_timeout :: duration
  hs_max_header_bytes :: int

definition new_http_server :: "server_config \<Rightarrow> http_server" where
  "new_http_server cfg = \<lparr>hs_addr = sv_addr cfg,
    hs_read_header_timeout = wrap64 (default_int (sv_read_header_timeout cfg) 5 * second),
    hs_read_timeout = wrap64 (default_int (sv_read_timeout cfg) 15 * second),
    hs_write_timeout = wrap64 (default_int (sv_write_timeout cfg) 30 * second),
    hs_idle_timeout = wrap64 (default_int (sv_idle_timeout cfg) 60 * second),
    hs_max_header_bytes = default_int (sv_max_header_bytes cfg) 1048576\<rparr>"

definition first_nonempty :: "string list \<Rightarrow> string" where
  "first_nonempty xs = (case find (\<lambda>s. s \<noteq> []) xs of Some s \<Rightarrow> s | None \<Rightarrow> [])"

definition advertise_ip_from_env :: "(string \<Rightarrow> string) \<Rightarrow> string" where
  "advertise_ip_from_env getenv = first_nonempty (map getenv [''MF_ADVERTISE_IP'', ''POD_IP''])"

definition resolve_advertise_addr :: "(string \<Rightarrow> string) \<Rightarrow> string \<Rightarrow> string \<Rightarrow> string \<Rightarrow> string" where
  "resolve_advertise_addr getenv local_ip listen advertise =
    (if advertise \<noteq> [] then advertise
     else (case split_host_port listen of
         Inl e \<Rightarrow> listen
       | Inr (host, port) \<Rightarrow>
          if port = [] then listen
          else if advertise_ip_from_env getenv \<noteq> [] then join_host_port (advertise_ip_from_env getenv) port
          else if host \<in> {[], ''0.0.0.0'', ''::'', ''[::]''} then join_host_port local_ip port
          else listen))"

subsection \<open>Resources and the trace\<close>

datatype resource =
  ResTelemetry | ResDb string | ResRedis | ResRegistry
| ResHttpPort | ResGrpcPort | ResDiagPort | ResRegistration | ResWatcher

text \<open>
  \<open>Closed r\<close>: the call that releases \<open>r\<close> was made and succeeded. \<open>CloseFailed r\<close>: the program is done with
  \<open>r\<close>, but the call failed, timed out or could not be made, so \<open>r\<close> may still be open.
\<close>

datatype life_event =
  Opened resource | Closed resource | CloseFailed resource | StartCallback | CloseCallback
| ComponentsStarted | ComponentsStopped | WatcherCancelled | ReadySet bool

datatype callback = CallbackNil | CallbackReturns | CallbackPanics

definition call_lifecycle :: "callback \<Rightarrow> goerr option" where
  "call_lifecycle fn = (case fn of CallbackPanics \<Rightarrow> Some (Errorf ''panic: %v'') | _ \<Rightarrow> None)"

datatype setup_outcome = SetupReturns "goerr option" | SetupPanics

text \<open>
  What the outside answers. \<open>en_close\<close> is what the release of a resource returns: \<open>Deregister\<close> for the
  registration, \<open>Shutdown\<close> or \<open>Close\<close> for the others; \<open>en_db_handle\<close> is what \<open>db.DB()\<close> returns when a
  database is to be closed. \<open>en_watcher_stops\<close> says that the watcher ends while \<open>shutdown\<close> waits for it,
  \<open>en_watcher_late\<close> that it has ended when \<open>Close\<close> has waited too.
\<close>

record app_env =
  en_trusted_proxies :: "goerr option"
  en_grpc_tls :: "goerr option"
  en_telemetry :: "goerr option"
  en_open_db :: "string \<Rightarrow> goerr option"
  en_open_redis :: "goerr option"
  en_open_registry :: "goerr option"
  en_setup :: setup_outcome
  en_listen :: "resource \<Rightarrow> goerr option"
  en_diag_tls :: "goerr option"
  en_instance :: string
  en_register :: "goerr option"
  en_stopped_by :: "goerr option"
  en_grpc_graceful :: bool
  en_watcher_stops :: bool
  en_watcher_late :: bool
  en_db_handle :: "string \<Rightarrow> goerr option"
  en_close :: "resource \<Rightarrow> goerr option"

record app_options =
  ao_name :: string
  ao_dbs :: "string list"
  ao_redis :: bool
  ao_grpc :: bool
  ao_grpc_tls :: bool
  ao_registry :: bool
  ao_diag :: bool
  ao_watch :: bool

text \<open>
  The fields for resources say what the program holds and has not tried to release;
  \<open>ap_watch_cancel\<close> that \<open>watchCancel\<close> is set and was not called.
\<close>

record app =
  ap_options :: app_options
  ap_dbs :: "string list"
  ap_redis :: bool
  ap_registry :: bool
  ap_telemetry :: bool
  ap_http_port :: bool
  ap_grpc_port :: bool
  ap_diag_port :: bool
  ap_instance :: string
  ap_registered :: bool
  ap_watch_cancel :: bool
  ap_watching :: bool
  ap_on_start :: "callback list"
  ap_on_close :: "callback list"
  ap_callbacks_done :: bool
  ap_components :: component_app
  ap_ready :: bool
  ap_closed :: bool
  ap_close_err :: "goerr option"
  ap_trace :: "life_event list"

definition emit :: "life_event list \<Rightarrow> app \<Rightarrow> app" where
  "emit es app = app\<lparr>ap_trace := ap_trace app @ es\<rparr>"

subsection \<open>Opening: \<open>New\<close>\<close>

definition fresh_app :: "app_options \<Rightarrow> app" where
  "fresh_app opts = \<lparr>ap_options = opts, ap_dbs = [], ap_redis = False, ap_registry = False,
    ap_telemetry = False, ap_http_port = False, ap_grpc_port = False, ap_diag_port = False,
    ap_instance = [], ap_registered = False, ap_watch_cancel = False, ap_watching = False, ap_on_start = [], ap_on_close = [],
    ap_callbacks_done = False,
    ap_components = \<lparr>ca_components = [], ca_started = [], ca_checks = [], ca_stopped = False,
      ca_trace = []\<rparr>,
    ap_ready = False, ap_closed = False, ap_close_err = None, ap_trace = []\<rparr>"

text \<open>
  A database whose \<open>db.DB()\<close> fails is not closed at all. Stopping the gRPC server always frees its
  port: when the graceful stop takes too long, \<open>Stop\<close> closes the listener.
\<close>

definition close_fails :: "app_env \<Rightarrow> resource \<Rightarrow> bool" where
  "close_fails env r =
    (case r of
       ResDb n \<Rightarrow> en_db_handle env n \<noteq> None \<or> en_close env r \<noteq> None
     | ResGrpcPort \<Rightarrow> False
     | ResWatcher \<Rightarrow> \<not> en_watcher_late env
     | _ \<Rightarrow> en_close env r \<noteq> None)"

definition let_go :: "app_env \<Rightarrow> resource \<Rightarrow> life_event" where
  "let_go env r = (if close_fails env r then CloseFailed r else Closed r)"

definition close_telemetry :: "app_env \<Rightarrow> app \<Rightarrow> app" where
  "close_telemetry env app = emit [let_go env ResTelemetry] (app\<lparr>ap_telemetry := False\<rparr>)"

definition close_dbs :: "app_env \<Rightarrow> app \<Rightarrow> app" where
  "close_dbs env app = emit (map (\<lambda>n. let_go env (ResDb n)) (ap_dbs app)) (app\<lparr>ap_dbs := []\<rparr>)"

text \<open>\<open>OpenAllDBs\<close>; the names are listed in the order the map is iterated.\<close>

fun open_all_dbs :: "app_env \<Rightarrow> string list \<Rightarrow> app \<Rightarrow> goerr option \<times> app" where
  "open_all_dbs env [] app = (None, app)"
| "open_all_dbs env (n # ns) app =
    (case en_open_db env n of
       Some err \<Rightarrow> (Some (Wrapf ''db[%s]: %w'' err), close_dbs env app)
     | None \<Rightarrow> open_all_dbs env ns (emit [Opened (ResDb n)] (app\<lparr>ap_dbs := ap_dbs app @ [n]\<rparr>)))"

definition new_app_dbs :: "app_env \<Rightarrow> app \<Rightarrow> goerr option \<times> app" where
  "new_app_dbs env app =
    (case open_all_dbs env (ao_dbs (ap_options app)) app of
       (Some err, app) \<Rightarrow> (Some err, close_telemetry env app)
     | (None, app) \<Rightarrow> (None, app))"

definition new_app_redis :: "app_env \<Rightarrow> app \<Rightarrow> goerr option \<times> app" where
  "new_app_redis env app =
    (if \<not> ao_redis (ap_options app) then (None, app)
     else (case en_open_redis env of
         Some err \<Rightarrow> (Some err, close_telemetry env (close_dbs env app))
       | None \<Rightarrow> (None, emit [Opened ResRedis] (app\<lparr>ap_redis := True\<rparr>))))"

definition close_redis :: "app_env \<Rightarrow> app \<Rightarrow> app" where
  "close_redis env app = (if ap_redis app then emit [let_go env ResRedis] (app\<lparr>ap_redis := False\<rparr>) else app)"

definition new_app_registry :: "app_env \<Rightarrow> app \<Rightarrow> goerr option \<times> app" where
  "new_app_registry env app =
    (if \<not> ao_registry (ap_options app) then (None, app)
     else (case en_open_registry env of
         Some err \<Rightarrow> (Some (Wrapf ''registry init: %w'' err), close_telemetry env (close_redis env (close_dbs env app)))
       | None \<Rightarrow> (None, emit [Opened ResRegistry] (app\<lparr>ap_registry := True\<rparr>))))"

fun run_stages :: "(app \<Rightarrow> goerr option \<times> app) list \<Rightarrow> app \<Rightarrow> goerr option \<times> app" where
  "run_stages [] app = (None, app)"
| "run_stages (f # fs) app =
    (case f app of (Some err, app) \<Rightarrow> (Some err, app) | (None, app) \<Rightarrow> run_stages fs app)"

definition new_app :: "app_env \<Rightarrow> app_options \<Rightarrow> goerr option \<times> app" where
  "new_app env opts =
    (let app = fresh_app opts
     in if ao_grpc opts \<and> ao_grpc_tls opts \<and> en_grpc_tls env \<noteq> None
        then (map_option (Wrapf ''grpc TLS: %w'') (en_grpc_tls env), app)
        else if en_trusted_proxies env \<noteq> None
        then (map_option (Wrapf ''gin trusted proxies: %w'') (en_trusted_proxies env), app)
        else if en_telemetry env \<noteq> None
        then (map_option (Wrapf ''telemetry init: %w'') (en_telemetry env), app)
        else run_stages [new_app_dbs env, new_app_redis env, new_app_registry env]
               (emit [Opened ResTelemetry] (app\<lparr>ap_telemetry := True\<rparr>)))"

subsection \<open>Closing\<close>

definition stop_components_once :: "app \<Rightarrow> goerr option \<times> app" where
  "stop_components_once app =
    (let c = ap_components app; (err, c') = stop_components c
     in (err, emit (if ca_started c \<noteq> [] \<and> \<not> ca_stopped c then [ComponentsStopped] else [])
          (app\<lparr>ap_components := c'\<rparr>)))"

definition cancel_watcher :: "app \<Rightarrow> app" where
  "cancel_watcher app =
    (if ap_watch_cancel app then emit [WatcherCancelled] (app\<lparr>ap_watch_cancel := False\<rparr>) else app)"

text \<open>The wait for the watcher after its context was cancelled, at most three seconds.\<close>

definition wait_watcher :: "bool \<Rightarrow> app \<Rightarrow> goerr option \<times> app" where
  "wait_watcher stops app =
    (if \<not> ap_watching app then (None, app)
     else if stops then (None, emit [Closed ResWatcher] (app\<lparr>ap_watching := False\<rparr>))
     else (Some (Errorf ''remote config watcher did not stop in time''), app))"

text \<open>\<open>Close\<close> waits a last time; a watcher that still runs is left running.\<close>

definition last_wait :: "app_env \<Rightarrow> app \<Rightarrow> goerr option \<times> app" where
  "last_wait env app =
    (case wait_watcher (en_watcher_late env) app of
       (err, app) \<Rightarrow> (err, if ap_watching app
         then emit [CloseFailed ResWatcher] (app\<lparr>ap_watching := False\<rparr>) else app))"

definition close_registry :: "app_env \<Rightarrow> app \<Rightarrow> app" where
  "close_registry env app =
    (if ap_registry app then emit [let_go env ResRegistry] (app\<lparr>ap_registry := False\<rparr>) else app)"

definition close_db_err :: "app_env \<Rightarrow> string \<Rightarrow> goerr option" where
  "close_db_err env n = (if en_db_handle env n = None then en_close env (ResDb n) else None)"

text \<open>\<open>Close\<close>, which works once and then returns the error it kept.\<close>

definition close_app :: "app_env \<Rightarrow> app \<Rightarrow> goerr option \<times> app" where
  "close_app env app =
    (if ap_closed app then (ap_close_err app, app)
     else
      (let (component_err, app) = stop_components_once app;
           (watch_err, app) = last_wait env (cancel_watcher app);
           component_err = err_join [component_err, watch_err];
           errs = err_join (map (\<lambda>n. map_option (Wrapf ''close db %s: %w'') (close_db_err env n)) (ap_dbs app) @
             [if ap_registry app then en_close env ResRegistry else None,
              if ap_redis app then en_close env ResRedis else None,
              if ap_telemetry app then en_close env ResTelemetry else None]);
           app = close_redis env (close_registry env (close_dbs env app));
           app = (if ap_telemetry app then close_telemetry env app else app);
           err = err_join [component_err, errs]
       in (err, app\<lparr>ap_closed := True, ap_close_err := err\<rparr>)))"

definition deregister_service :: "app_env \<Rightarrow> app \<Rightarrow> app" where
  "deregister_service env app =
    (if ap_registry app \<and> ap_instance app \<noteq> [] \<and> ao_name (ap_options app) \<noteq> []
     then emit [let_go env ResRegistration] (app\<lparr>ap_registered := False\<rparr>) else app)"

definition stop_servers :: "app_env \<Rightarrow> app \<Rightarrow> goerr option list \<times> app" where
  "stop_servers env app =
    ([if ap_http_port app then en_close env ResHttpPort else None,
      if ap_grpc_port app \<and> \<not> en_grpc_graceful env
      then Some (Errorf ''grpc graceful shutdown timed out after %s'') else None,
      if ap_diag_port app then en_close env ResDiagPort else None],
     emit ((if ap_http_port app then [let_go env ResHttpPort] else []) @
           (if ap_grpc_port app then [let_go env ResGrpcPort] else []) @
           (if ap_diag_port app then [let_go env ResDiagPort] else []))
       (app\<lparr>ap_http_port := False, ap_grpc_port := False, ap_diag_port := False\<rparr>))"

definition not_cancelled :: "goerr option \<Rightarrow> goerr option" where
  "not_cancelled err =
    (case err of Some e \<Rightarrow> if err_is e ''context canceled'' then None else Some e | None \<Rightarrow> None)"

definition shutdown :: "app_env \<Rightarrow> app \<Rightarrow> goerr option \<times> app" where
  "shutdown env app =
    (let app = emit [ReadySet False] (app\<lparr>ap_ready := False\<rparr>);
         app = deregister_service env (cancel_watcher app);
         (component_err, app) = stop_components_once app;
         (server_errs, app) = stop_servers env app;
         (watch_err, app) = wait_watcher (en_watcher_stops env) app;
         callbacks = (if ap_callbacks_done app then [] else ap_on_close app);
         callback_errs = map (\<lambda>fn. map_option (Wrapf ''on-close callback: %w'') (call_lifecycle fn)) callbacks;
         app = emit (map (\<lambda>fn. CloseCallback) callbacks) (app\<lparr>ap_callbacks_done := True\<rparr>);
         (close_err, app) = close_app env app
     in (err_join [component_err, err_join (map not_cancelled server_errs @ [watch_err] @ callback_errs),
           close_err], app))"

subsection \<open>Running\<close>

definition register_stage :: "app_env \<Rightarrow> app \<Rightarrow> goerr option \<times> app" where
  "register_stage env app =
    (if ap_registry app
     then (map_option (Wrapf ''service registration: %w'') (en_register env),
           emit [Opened ResRegistration] (app\<lparr>ap_instance := en_instance env, ap_registered := True\<rparr>))
     else (None, app))"

definition diag_stage :: "app_env \<Rightarrow> app \<Rightarrow> goerr option \<times> app" where
  "diag_stage env app =
    (if \<not> ao_diag (ap_options app) then (None, app)
     else (case en_listen env ResDiagPort of
         Some err \<Rightarrow> (Some (Wrapf ''pprof listen %s: %w'' err), app)
       | None \<Rightarrow>
          (case en_diag_tls env of
             Some err \<Rightarrow> (Some err, emit [Opened ResDiagPort, let_go env ResDiagPort] app)
           | None \<Rightarrow> (None, emit [Opened ResDiagPort] (app\<lparr>ap_diag_port := True\<rparr>)))))"

definition watch_stage :: "app \<Rightarrow> goerr option \<times> app" where
  "watch_stage app =
    (if ao_watch (ap_options app) then (None, emit [Opened ResWatcher] (app\<lparr>ap_watch_cancel := True, ap_watching := True\<rparr>))
     else (None, app))"

fun start_callbacks :: "callback list \<Rightarrow> app \<Rightarrow> goerr option \<times> app" where
  "start_callbacks [] app = (None, app)"
| "start_callbacks (fn # fns) app =
    (case call_lifecycle fn of
       Some err \<Rightarrow> (Some (Wrapf ''on-start callback: %w'' err), emit [StartCallback] app)
     | None \<Rightarrow> start_callbacks fns (emit [StartCallback] app))"

definition start_stage :: "app \<Rightarrow> goerr option \<times> app" where
  "start_stage app = start_callbacks (ap_on_start app) app"

definition components_stage :: "app \<Rightarrow> goerr option \<times> app" where
  "components_stage app =
    (case start_components (ap_components app) of
       (Some err, c) \<Rightarrow> (Some (Wrapf ''component start: %w'' err), app\<lparr>ap_components := c\<rparr>)
     | (None, c) \<Rightarrow> (None, emit (if ca_started c \<noteq> [] then [ComponentsStarted] else [])
         (app\<lparr>ap_components := c\<rparr>)))"

definition ready_stage :: "app \<Rightarrow> goerr option \<times> app" where
  "ready_stage app = (None, emit [ReadySet True] (app\<lparr>ap_ready := True\<rparr>))"

text \<open>
  \<open>Run\<close>: the setup and the two listeners, whose failure closes the application; then the
  stages, whose failure shuts it down; then the wait for a signal or a failing server.
\<close>

definition run_stages_of :: "app_env \<Rightarrow> (app \<Rightarrow> goerr option \<times> app) list" where
  "run_stages_of env =
    [diag_stage env, register_stage env, watch_stage, start_stage, components_stage, ready_stage]"

text \<open>What a setup registers: \<open>OnStart\<close>, \<open>OnClose\<close> and \<open>AddComponent\<close>.\<close>

definition setup_app :: "callback list \<times> callback list \<times> component list \<Rightarrow> app \<Rightarrow> app" where
  "setup_app = (\<lambda>(starts, closes, comps) app. app\<lparr>ap_on_start := starts, ap_on_close := closes,
    ap_components := (ap_components app)\<lparr>ca_components := comps\<rparr>\<rparr>)"

text \<open>A setup that panics is not recovered: the panic leaves \<open>Run\<close> and nothing is closed.\<close>

datatype run_result = Returned "goerr option" | Panicked

definition serve_app :: "app_env \<Rightarrow> app \<Rightarrow> goerr option \<times> app" where
  "serve_app env app =
    (case en_listen env ResHttpPort of
       Some err \<Rightarrow> (Some (Wrapf ''http listen %s: %w'' err), snd (close_app env app))
     | None \<Rightarrow>
        (let app = emit [Opened ResHttpPort] (app\<lparr>ap_http_port := True\<rparr>)
         in if ao_grpc (ap_options app) \<and> en_listen env ResGrpcPort \<noteq> None
            then (map_option (Wrapf ''grpc listen %s: %w'') (en_listen env ResGrpcPort),
                  snd (close_app env (emit [let_go env ResHttpPort] (app\<lparr>ap_http_port := False\<rparr>))))
            else (let app = (if ao_grpc (ap_options app)
                       then emit [Opened ResGrpcPort] (app\<lparr>ap_grpc_port := True\<rparr>) else app);
                      (stage_err, app) = run_stages (run_stages_of env) app;
                      (down_err, app) = shutdown env app
                  in (case stage_err of Some err \<Rightarrow> Some err
                      | None \<Rightarrow> (case en_stopped_by env of Some err \<Rightarrow> Some err | None \<Rightarrow> down_err),
                      app))))"

definition run_app :: "app_env \<Rightarrow> (app \<Rightarrow> app) option \<Rightarrow> app \<Rightarrow> run_result \<times> app" where
  "run_app env setup_fn app =
    (case setup_fn of
       None \<Rightarrow> (Returned (Some (Errorf ''setup is nil'')), snd (close_app env app))
     | Some f \<Rightarrow>
        (let app = f app
         in case en_setup env of
              SetupPanics \<Rightarrow> (Panicked, app)
            | SetupReturns (Some err) \<Rightarrow> (Returned (Some (Wrapf ''setup: %w'' err)), snd (close_app env app))
            | SetupReturns None \<Rightarrow> (case serve_app env app of (err, app) \<Rightarrow> (Returned err, app))))"

subsection \<open>Nothing leaks\<close>

text \<open>
  Replaying a trace fails when a resource is opened while it is held or closed while it is
  not; a trace that replays to the empty set closes everything exactly once.
\<close>

fun replay :: "life_event list \<Rightarrow> resource set \<Rightarrow> resource set option" where
  "replay [] held = Some held"
| "replay (Opened r # es) held = (if r \<in> held then None else replay es (insert r held))"
| "replay (Closed r # es) held = (if r \<in> held then replay es (held - {r}) else None)"
| "replay (CloseFailed r # es) held = (if r \<in> held then replay es (held - {r}) else None)"
| "replay (WatcherCancelled # es) held = replay es held"
| "replay (StartCallback # es) held = replay es held"
| "replay (CloseCallback # es) held = replay es held"
| "replay (ComponentsStarted # es) held = replay es held"
| "replay (ComponentsStopped # es) held = replay es held"
| "replay (ReadySet b # es) held = replay es held"

lemma replay_append: "replay (xs @ ys) held = Option.bind (replay xs held) (replay ys)"
  by (induction xs held rule: replay.induct) auto

definition held :: "app \<Rightarrow> resource set" where
  "held app = ResDb ` set (ap_dbs app) \<union>
    {r. r = ResTelemetry \<and> ap_telemetry app \<or> r = ResRedis \<and> ap_redis app \<or>
        r = ResRegistry \<and> ap_registry app \<or> r = ResHttpPort \<and> ap_http_port app \<or>
        r = ResGrpcPort \<and> ap_grpc_port app \<or> r = ResDiagPort \<and> ap_diag_port app \<or>
        r = ResRegistration \<and> ap_registered app \<or> r = ResWatcher \<and> ap_watching app}"

definition tidy :: "app_env \<Rightarrow> app \<Rightarrow> bool" where
  "tidy env app \<longleftrightarrow> replay (ap_trace app) {} = Some (held app) \<and> distinct (ap_dbs app) \<and>
    (\<forall>r. CloseFailed r \<in> set (ap_trace app) \<longrightarrow> close_fails env r)"

lemma let_go_simps [simp]:
  "replay (let_go env r # es) S = (if r \<in> S then replay es (S - {r}) else None)"
  "CloseFailed q = let_go env r \<longleftrightarrow> q = r \<and> close_fails env r"
  "let_go env r \<noteq> Opened q" "let_go env r \<noteq> ReadySet b" "ReadySet b \<noteq> let_go env r"
  by (auto simp: let_go_def)

lemma tidy_emit:
  assumes "tidy env app" and "replay es (held app) = Some (held app')" and "distinct (ap_dbs app')"
    and "ap_trace app' = ap_trace app" and "\<forall>r. CloseFailed r \<in> set es \<longrightarrow> close_fails env r"
  shows "tidy env (emit es app')"
  using assms by (simp add: tidy_def emit_def replay_append ball_Un) (auto simp: held_def)

lemma tidy_same: "tidy env app \<Longrightarrow> ap_trace app' = ap_trace app \<Longrightarrow> held app' = held app \<Longrightarrow>
    ap_dbs app' = ap_dbs app \<Longrightarrow> tidy env app'"
  by (simp add: tidy_def)

lemma emit_fields [simp]:
  "ap_options (emit es app) = ap_options app" "ap_dbs (emit es app) = ap_dbs app"
  "ap_redis (emit es app) = ap_redis app" "ap_registry (emit es app) = ap_registry app"
  "ap_telemetry (emit es app) = ap_telemetry app" "ap_http_port (emit es app) = ap_http_port app"
  "ap_grpc_port (emit es app) = ap_grpc_port app" "ap_diag_port (emit es app) = ap_diag_port app"
  "ap_instance (emit es app) = ap_instance app" "ap_registered (emit es app) = ap_registered app"
  "ap_watching (emit es app) = ap_watching app" "ap_watch_cancel (emit es app) = ap_watch_cancel app" "ap_on_start (emit es app) = ap_on_start app"
  "ap_on_close (emit es app) = ap_on_close app" "ap_components (emit es app) = ap_components app"
  "ap_callbacks_done (emit es app) = ap_callbacks_done app"
  "ap_ready (emit es app) = ap_ready app" "ap_closed (emit es app) = ap_closed app"
  "ap_trace (emit es app) = ap_trace app @ es"
  by (simp_all add: emit_def)

lemma replay_close_dbs:
  "distinct ns \<Longrightarrow> ResDb ` set ns \<subseteq> S \<Longrightarrow>
    replay (map (\<lambda>n. let_go env (ResDb n)) ns) S = Some (S - ResDb ` set ns)"
proof (induction ns arbitrary: S)
  case (Cons a ns)
  then have "replay (map (\<lambda>n. let_go env (ResDb n)) ns) (S - {ResDb a}) = Some (S - {ResDb a} - ResDb ` set ns)"
    by (intro Cons.IH) auto
  with Cons.prems show ?case by (auto simp: set_diff_eq)
qed simp

lemma tidy_close_dbs [intro]: "tidy env app \<Longrightarrow> tidy env (close_dbs env app)"
  unfolding close_dbs_def
  by (rule tidy_emit) (auto simp: tidy_def replay_close_dbs held_def)

lemma tidy_close_telemetry [intro]: "tidy env app \<Longrightarrow> ap_telemetry app \<Longrightarrow> tidy env (close_telemetry env app)"
  unfolding close_telemetry_def by (rule tidy_emit) (auto simp: tidy_def held_def)

lemma tidy_close_redis [intro]: "tidy env app \<Longrightarrow> tidy env (close_redis env app)"
  unfolding close_redis_def by (simp, intro impI tidy_emit) (auto simp: tidy_def held_def)

lemma tidy_close_registry [intro]: "tidy env app \<Longrightarrow> tidy env (close_registry env app)"
  unfolding close_registry_def by (simp, intro impI tidy_emit) (auto simp: tidy_def held_def)

lemma tidy_cancel_watcher [intro]: "tidy env app \<Longrightarrow> tidy env (cancel_watcher app)"
  unfolding cancel_watcher_def by (simp, intro impI tidy_emit) (auto simp: tidy_def held_def)

lemma open_all_dbs_tidy:
  "open_all_dbs env ns app = (err, app') \<Longrightarrow> tidy env app \<Longrightarrow> distinct (ap_dbs app @ ns) \<Longrightarrow>
    tidy env app' \<and> held app' - range ResDb = held app - range ResDb \<and>
    ap_telemetry app' = ap_telemetry app \<and> ap_redis app' = ap_redis app \<and>
    ap_registry app' = ap_registry app \<and> ap_options app' = ap_options app \<and>
    (err \<noteq> None \<longrightarrow> ap_dbs app' = [])"
proof (induction ns arbitrary: app)
  case (Cons n ns)
  show ?case
  proof (cases "en_open_db env n")
    case None
    let ?app = "emit [Opened (ResDb n)] (app\<lparr>ap_dbs := ap_dbs app @ [n]\<rparr>)"
    have "tidy env ?app"
      by (rule tidy_emit [OF Cons.prems(2)]) (use Cons.prems(3) in \<open>auto simp: held_def\<close>)
    moreover have "held ?app - range ResDb = held app - range ResDb" by (auto simp: held_def)
    ultimately show ?thesis
      using Cons.IH [of ?app] Cons.prems None by simp
  next
    case (Some e)
    then show ?thesis
      using Cons.prems by (auto simp: close_dbs_def tidy_close_dbs [unfolded close_dbs_def]) (auto simp: held_def)
  qed
qed auto

lemma open_all_dbs_ok:
  "open_all_dbs env ns app = (None, app') \<Longrightarrow> app' = app\<lparr>ap_dbs := ap_dbs app @ ns,
    ap_trace := ap_trace app @ map (\<lambda>n. Opened (ResDb n)) ns\<rparr>"
proof (induction ns arbitrary: app)
  case (Cons n ns)
  then have "open_all_dbs env ns (emit [Opened (ResDb n)] (app\<lparr>ap_dbs := ap_dbs app @ [n]\<rparr>)) = (None, app')"
    by (simp split: option.splits)
  from Cons.IH [OF this] show ?case by (simp add: emit_def)
qed simp

definition opened_by_new :: "app_options \<Rightarrow> resource list" where
  "opened_by_new opts = ResTelemetry # map ResDb (ao_dbs opts) @
    (if ao_redis opts then [ResRedis] else []) @ (if ao_registry opts then [ResRegistry] else [])"

definition opened_app :: "app_options \<Rightarrow> app" where
  "opened_app opts = (fresh_app opts)\<lparr>ap_telemetry := True, ap_dbs := ao_dbs opts, ap_redis := ao_redis opts,
    ap_registry := ao_registry opts, ap_trace := map Opened (opened_by_new opts)\<rparr>"

lemma new_app_ok:
  assumes "new_app env opts = (None, app)"
  shows "app = opened_app opts"
  using assms
  by (auto simp: new_app_def new_app_dbs_def new_app_redis_def new_app_registry_def Let_def emit_def
      opened_app_def opened_by_new_def fresh_app_def dest!: open_all_dbs_ok
      split: if_splits option.splits prod.splits)

lemma held_fresh: "held (fresh_app opts) = {}"
  by (simp add: held_def fresh_app_def)

lemma tidy_fresh: "tidy env (fresh_app opts)"
  by (simp add: tidy_def held_fresh) (simp add: fresh_app_def)

lemma close_fields [simp]:
  "ap_telemetry (close_dbs env app) = ap_telemetry app" "ap_telemetry (close_redis env app) = ap_telemetry app"
  "held (close_telemetry env app) = held app - {ResTelemetry}" "held (close_redis env app) = held app - {ResRedis}"
  "held (close_dbs env app) = held app - range ResDb"
  by (auto simp: close_dbs_def close_redis_def close_telemetry_def held_def)

lemma new_app_failed:
  assumes new: "new_app env opts = (Some err, app)" and distinct: "distinct (ao_dbs opts)"
  shows "tidy env app \<and> held app = {}"
proof -
  let ?app = "emit [Opened ResTelemetry] ((fresh_app opts)\<lparr>ap_telemetry := True\<rparr>)"
  have start: "tidy env ?app" "held ?app = {ResTelemetry}" "ap_dbs ?app = []" "ap_options ?app = opts"
    by (rule tidy_emit [OF tidy_fresh]) (auto simp: held_def fresh_app_def)
  obtain err1 app1 where dbs: "open_all_dbs env (ao_dbs opts) ?app = (err1, app1)" by fastforce
  note facts = open_all_dbs_tidy [OF dbs start(1)]
  have dbs': "tidy env app1" "held app1 - range ResDb = {ResTelemetry}" "ap_telemetry app1" "ap_options app1 = opts"
    "err1 \<noteq> None \<Longrightarrow> ap_dbs app1 = []"
    using facts distinct start by (auto simp: emit_def)
  have one: "tidy env (close_telemetry env app1) \<and> held (close_telemetry env app1) = {}" if "err1 \<noteq> None"
  proof -
    have "held app1 \<inter> range ResDb = {}" using dbs'(5) [OF that] by (auto simp: held_def)
    with dbs'(2) have "held app1 = {ResTelemetry}" by blast
    with dbs'(1,3) show ?thesis by auto
  qed
  have two: "tidy env (close_telemetry env (close_dbs env app1)) \<and> held (close_telemetry env (close_dbs env app1)) = {}"
    using dbs' by auto
  have three: "tidy env (close_telemetry env (close_redis env (close_dbs env app2))) \<and>
      held (close_telemetry env (close_redis env (close_dbs env app2))) = {}"
    if "app2 = app1 \<or> app2 = emit [Opened ResRedis] (app1\<lparr>ap_redis := True\<rparr>)" for app2
  proof -
    let ?redis = "emit [Opened ResRedis] (app1\<lparr>ap_redis := True\<rparr>)"
    have "ResRedis \<notin> held app1" using dbs'(2) by blast
    moreover have "held ?redis = insert ResRedis (held app1)" by (auto simp: held_def)
    moreover from calculation have "tidy env ?redis"
      using dbs'(1) by (intro tidy_emit [OF dbs'(1)]) (simp_all add: held_def tidy_def)
    ultimately have "tidy env app2" "held app2 \<subseteq> insert ResRedis (held app1)" "ap_telemetry app2"
      using that dbs'(1,3) by auto
    moreover have "insert ResRedis (held app1) - range ResDb - {ResRedis} - {ResTelemetry} = {}"
      using dbs'(2) by auto
    ultimately show ?thesis
      by (intro conjI tidy_close_telemetry tidy_close_redis tidy_close_dbs) auto
  qed
  have cases: "(if err1 \<noteq> None then app = close_telemetry env app1
      else app = close_telemetry env (close_dbs env app1) \<or>
        (\<exists>app2. (app2 = app1 \<or> app2 = emit [Opened ResRedis] (app1\<lparr>ap_redis := True\<rparr>)) \<and>
          app = close_telemetry env (close_redis env (close_dbs env app2)))) \<or> app = fresh_app opts"
    using new dbs dbs'(4) start(4)
    by (auto simp: new_app_def new_app_dbs_def new_app_redis_def new_app_registry_def Let_def
        split: if_splits option.splits prod.splits)
  show ?thesis
  proof (cases "app = fresh_app opts")
    case True
    then show ?thesis using tidy_fresh held_fresh by simp
  next
    case False
    with cases one two three show ?thesis by (cases "err1 = None") (simp_all only: if_True if_False simp_thms, blast+)
  qed
qed

subsection \<open>Order\<close>

text \<open>The place of an event in the life of an application.\<close>

definition release_rank :: "resource \<Rightarrow> nat" where
  "release_rank r = (if r = ResRegistration then 9 else if r \<in> {ResHttpPort, ResGrpcPort, ResDiagPort} then 11
     else if r = ResWatcher then 12 else 13)"

fun rank :: "life_event \<Rightarrow> nat" where
  "rank (Opened r) = (if r \<in> {ResHttpPort, ResGrpcPort, ResDiagPort} then 1
     else if r = ResRegistration then 2 else if r = ResWatcher then 3 else 0)"
| "rank StartCallback = 4"
| "rank ComponentsStarted = 5"
| "rank (ReadySet b) = (if b then 6 else 7)"
| "rank WatcherCancelled = 8"
| "rank (Closed r) = release_rank r"
| "rank (CloseFailed r) = release_rank r"
| "rank ComponentsStopped = 10"
| "rank CloseCallback = 12"

lemma release_rank_simps [simp]:
  "release_rank (ResDb n) = 13" "release_rank ResRedis = 13" "release_rank ResRegistry = 13"
  "release_rank ResTelemetry = 13" "release_rank ResRegistration = 9" "release_rank ResHttpPort = 11"
  "release_rank ResGrpcPort = 11" "release_rank ResDiagPort = 11" "release_rank ResWatcher = 12"
  by (simp_all add: release_rank_def)

lemma rank_let_go [simp]: "rank (let_go env r) = release_rank r"
  by (simp add: let_go_def)

definition ordered_to :: "nat \<Rightarrow> app \<Rightarrow> bool" where
  "ordered_to n app \<longleftrightarrow> sorted (map rank (ap_trace app)) \<and> (\<forall>e \<in> set (ap_trace app). rank e \<le> n)"

lemma ordered_emit:
  "ordered_to n app \<Longrightarrow> n \<le> k \<Longrightarrow> sorted (map rank es) \<Longrightarrow> (\<forall>e \<in> set es. k \<le> rank e \<and> rank e \<le> m) \<Longrightarrow>
    k \<le> m \<Longrightarrow> ap_trace app' = ap_trace app \<Longrightarrow> ordered_to m (emit es app')"
  by (fastforce simp: ordered_to_def sorted_append)

lemma ordered_mono: "ordered_to n app \<Longrightarrow> n \<le> m \<Longrightarrow> ordered_to m app"
  by (auto simp: ordered_to_def)

lemma ordered_same: "ordered_to n app \<Longrightarrow> ap_trace app' = ap_trace app \<Longrightarrow> ordered_to n app'"
  by (simp add: ordered_to_def)

definition stopped :: "app \<Rightarrow> bool" where
  "stopped app \<longleftrightarrow> ca_started (ap_components app) = [] \<or> ca_stopped (ap_components app)"

lemma stop_once_facts:
  "tidy env app \<Longrightarrow> tidy env (snd (stop_components_once app))" "held (snd (stop_components_once app)) = held app"
  "stopped (snd (stop_components_once app))"
  "ap_closed (snd (stop_components_once app)) = ap_closed app"
  "ap_ready (snd (stop_components_once app)) = ap_ready app"
  "ap_on_close (snd (stop_components_once app)) = ap_on_close app"
  "ap_callbacks_done (snd (stop_components_once app)) = ap_callbacks_done app"
  "stopped app \<Longrightarrow> ap_trace (snd (stop_components_once app)) = ap_trace app"
  "ordered_to n app \<Longrightarrow> n \<le> 10 \<Longrightarrow> ordered_to 10 (snd (stop_components_once app))"
proof -
  let ?c = "ap_components app"
  let ?es = "if ca_started ?c \<noteq> [] \<and> \<not> ca_stopped ?c then [ComponentsStopped] else []"
  have snd: "snd (stop_components_once app) = emit ?es (app\<lparr>ap_components := snd (stop_components ?c)\<rparr>)"
    by (simp add: stop_components_once_def Let_def split_def)
  show "held (snd (stop_components_once app)) = held app" by (simp add: snd held_def)
  show "tidy env (snd (stop_components_once app))" if "tidy env app"
    unfolding snd by (rule tidy_emit [OF that]) (use that in \<open>simp_all add: tidy_def held_def\<close>)
  show "ordered_to n app \<Longrightarrow> n \<le> 10 \<Longrightarrow> ordered_to 10 (snd (stop_components_once app))"
    unfolding snd by (rule ordered_emit [where k = 10]) auto
qed (auto simp: stop_components_once_def Let_def split_def stopped_def stop_components_def)

lemma closing_facts:
  "ap_closed (close_dbs env app) = ap_closed app" "ap_closed (close_redis env app) = ap_closed app"
  "ap_closed (close_registry env app) = ap_closed app" "ap_closed (close_telemetry env app) = ap_closed app"
  "ap_ready (close_dbs env app) = ap_ready app" "ap_ready (close_redis env app) = ap_ready app"
  "ap_ready (close_registry env app) = ap_ready app" "ap_ready (close_telemetry env app) = ap_ready app"
  "ap_telemetry (close_registry env app) = ap_telemetry app"
  by (simp_all add: close_dbs_def close_redis_def close_registry_def close_telemetry_def)

lemma held_close_registry: "held (close_registry env app) = held app - {ResRegistry}"
  by (auto simp: close_registry_def held_def)

lemma sorted_map_const: "sorted (map (\<lambda>x. c) xs)"
  by (induction xs) auto

lemma closing_ordered:
  assumes "ordered_to 13 app"
  shows "ordered_to 13 (close_dbs env app)" "ordered_to 13 (close_redis env app)"
    "ordered_to 13 (close_registry env app)" "ordered_to 13 (close_telemetry env app)"
proof -
  have emits: "ordered_to 13 (emit es app')"
    if "sorted (map rank es)" "\<forall>e \<in> set es. rank e = 13" "ap_trace app' = ap_trace app" for es app'
    by (rule ordered_emit [OF assms, where k = 13]) (use that in auto)
  show "ordered_to 13 (close_dbs env app)"
    unfolding close_dbs_def by (rule emits) (auto simp: comp_def sorted_map_const)
  show "ordered_to 13 (close_redis env app)" "ordered_to 13 (close_registry env app)"
    "ordered_to 13 (close_telemetry env app)"
    using assms by (simp_all add: close_redis_def close_registry_def close_telemetry_def emits)
qed

lemma closing_trace:
  "set (ap_trace app) \<subseteq> set (ap_trace (close_dbs env app))" "set (ap_trace app) \<subseteq> set (ap_trace (close_redis env app))"
  "set (ap_trace app) \<subseteq> set (ap_trace (close_registry env app))"
  "set (ap_trace app) \<subseteq> set (ap_trace (close_telemetry env app))"
  "set (ap_trace app) \<subseteq> set (ap_trace (snd (stop_components_once app)))"
  "set (ap_trace app) \<subseteq> set (ap_trace (cancel_watcher app))"
  by (auto simp: close_dbs_def close_redis_def close_registry_def close_telemetry_def
      stop_components_once_def cancel_watcher_def Let_def split_def)

text \<open>The last wait gives the watcher up, whether it has stopped or not.\<close>

lemma last_wait_facts:
  "tidy env app \<Longrightarrow> tidy env (snd (last_wait env app))" "held (snd (last_wait env app)) = held app - {ResWatcher}"
  "ordered_to 12 app \<Longrightarrow> ordered_to 12 (snd (last_wait env app))"
  "ap_closed (snd (last_wait env app)) = ap_closed app" "ap_ready (snd (last_wait env app)) = ap_ready app"
  "set (ap_trace app) \<subseteq> set (ap_trace (snd (last_wait env app)))"
proof -
  let ?es = "if ap_watching app then [let_go env ResWatcher] else []"
  have snd: "snd (last_wait env app) = emit ?es (app\<lparr>ap_watching := False\<rparr>)"
    by (cases app) (auto simp: last_wait_def wait_watcher_def let_go_def close_fails_def emit_def)
  show "held (snd (last_wait env app)) = held app - {ResWatcher}" unfolding snd by (auto simp: held_def)
  show "tidy env (snd (last_wait env app))" if "tidy env app"
    unfolding snd by (rule tidy_emit [OF that]) (use that in \<open>auto simp: tidy_def held_def\<close>)
  show "ordered_to 12 (snd (last_wait env app))" if "ordered_to 12 app"
    unfolding snd by (rule ordered_emit [OF that, where k = 12]) (auto simp: release_rank_def)
qed (auto simp: last_wait_def wait_watcher_def)

lemma close_app_closes:
  assumes "tidy env app" and open_app: "\<not> ap_closed app" and stop: "stopped app"
    and rest: "held app \<subseteq> {ResTelemetry, ResRedis, ResRegistry, ResWatcher} \<union> range ResDb"
    and cancelled: "\<not> ap_watch_cancel app"
  shows "tidy env (snd (close_app env app)) \<and> held (snd (close_app env app)) = {} \<and>
    ap_closed (snd (close_app env app)) \<and> ap_ready (snd (close_app env app)) = ap_ready app \<and>
    (ordered_to 12 app \<longrightarrow> ordered_to 13 (snd (close_app env app))) \<and>
    set (ap_trace app) \<subseteq> set (ap_trace (snd (close_app env app)))"
proof -
  let ?app0 = "snd (stop_components_once app)"
  let ?app1 = "snd (last_wait env ?app0)"
  let ?app2 = "close_redis env (close_registry env (close_dbs env ?app1))"
  let ?app3 = "if ap_telemetry ?app2 then close_telemetry env ?app2 else ?app2"
  have "cancel_watcher ?app0 = ?app0"
    using cancelled by (simp add: cancel_watcher_def stop_components_once_def Let_def split_def)
  then have result: "\<exists>err. snd (close_app env app) = ?app3\<lparr>ap_closed := True, ap_close_err := err\<rparr>"
    using open_app by (auto simp: close_app_def Let_def split_def)
  have "ap_telemetry ?app2 \<longleftrightarrow> ResTelemetry \<in> held ?app2" by (auto simp: held_def)
  then have held3: "held ?app3 = {}"
    using rest by (auto simp: closing_facts held_close_registry stop_once_facts(2) last_wait_facts(2))
  have tidy3: "tidy env ?app3"
    using tidy_close_redis [OF tidy_close_registry [OF tidy_close_dbs [OF last_wait_facts(1) [OF stop_once_facts(1) [OF assms(1)]]]]]
      tidy_close_telemetry by (simp only: split: if_split) blast
  have ordered3: "ordered_to 13 ?app3" if "ordered_to 12 app"
  proof -
    have "ordered_to 12 ?app0"
      by (rule ordered_same [OF that stop_once_facts(8) [OF stop]])
    then have "ordered_to 13 ?app1" by (intro ordered_mono [OF last_wait_facts(3)]) simp_all
    then show ?thesis by (simp add: closing_ordered)
  qed
  have trace3: "set (ap_trace app) \<subseteq> set (ap_trace ?app3)"
    using closing_trace last_wait_facts(6) [of ?app0 env] by (auto split: if_split) (meson subsetD)+
  have ready3: "ap_ready ?app3 = ap_ready app" by (simp add: closing_facts stop_once_facts last_wait_facts)
  obtain err where err: "snd (close_app env app) = ?app3\<lparr>ap_closed := True, ap_close_err := err\<rparr>"
    using result by blast
  have mark: "tidy env (z\<lparr>ap_closed := True, ap_close_err := err\<rparr>) = tidy env z"
    "held (z\<lparr>ap_closed := True, ap_close_err := err\<rparr>) = held z"
    "ordered_to 13 (z\<lparr>ap_closed := True, ap_close_err := err\<rparr>) = ordered_to 13 z"
    "ap_closed (z\<lparr>ap_closed := True, ap_close_err := err\<rparr>)"
    "ap_ready (z\<lparr>ap_closed := True, ap_close_err := err\<rparr>) = ap_ready z"
    "ap_trace (z\<lparr>ap_closed := True, ap_close_err := err\<rparr>) = ap_trace z" for z
    by (simp_all add: tidy_def held_def ordered_to_def)
  have marked: "let z' = z\<lparr>ap_closed := True, ap_close_err := err\<rparr> in
      tidy env z' \<and> held z' = {} \<and> ap_closed z' \<and> ap_ready z' = ap_ready app \<and>
      (ordered_to 12 app \<longrightarrow> ordered_to 13 z') \<and> set (ap_trace app) \<subseteq> set (ap_trace z')"
    if "tidy env z" "held z = {}" "ordered_to 12 app \<Longrightarrow> ordered_to 13 z"
      "set (ap_trace app) \<subseteq> set (ap_trace z)" "ap_ready z = ap_ready app" for z
    unfolding Let_def mark using that by simp
  show ?thesis
    unfolding err by (rule marked [unfolded Let_def, OF tidy3 held3 ordered3 trace3 ready3])
qed

text \<open>The steps of a shutdown, each with what it lets go and its place in the order.\<close>

definition step_ok :: "app_env \<Rightarrow> resource set \<Rightarrow> nat \<Rightarrow> nat \<Rightarrow> app \<Rightarrow> app \<Rightarrow> bool" where
  "step_ok env gone n m app app' \<longleftrightarrow> (tidy env app \<longrightarrow> tidy env app') \<and> held app' = held app - gone \<and>
    (ordered_to n app \<longrightarrow> ordered_to m app') \<and> ap_closed app' = ap_closed app \<and>
    set (ap_trace app) \<subseteq> set (ap_trace app')"

lemma step_okD:
  assumes "step_ok env gone n m app app'"
  shows "tidy env app \<Longrightarrow> tidy env app'" "held app' = held app - gone" "ordered_to n app \<Longrightarrow> ordered_to m app'"
    "ap_closed app' = ap_closed app" "set (ap_trace app) \<subseteq> set (ap_trace app')"
  using assms by (auto simp: step_ok_def)

lemma step_ok_trans:
  "step_ok env a n m x y \<Longrightarrow> step_ok env b m k y z \<Longrightarrow> step_ok env (a \<union> b) n k x z"
  unfolding step_ok_def by (auto simp: subset_iff)

lemma step_ok_emit:
  assumes "replay es (held app) = Some (held app')" and "held app' = held app - gone"
    and "sorted (map rank es)" and "\<forall>e \<in> set es. n \<le> rank e \<and> rank e \<le> m" and "n \<le> m"
    and "ap_trace app' = ap_trace app" and "ap_dbs app' = ap_dbs app" and "ap_closed app' = ap_closed app"
    and "\<forall>r. CloseFailed r \<in> set es \<longrightarrow> close_fails env r"
  shows "step_ok env gone n m app (emit es app')"
proof -
  have "held (emit es app') = held app'" by (simp add: held_def)
  moreover have "tidy env (emit es app')" if "tidy env app"
    using that assms by (intro tidy_emit [OF that]) (simp_all add: tidy_def)
  moreover have "ordered_to m (emit es app')" if "ordered_to n app"
    by (rule ordered_emit [OF that order_refl]) (use assms in auto)
  ultimately show ?thesis
    using assms by (auto simp: step_ok_def)
qed

lemma step_ok_refl: "gone \<inter> held app = {} \<Longrightarrow> n \<le> m \<Longrightarrow> step_ok env gone n m app app"
  by (auto simp: step_ok_def intro: ordered_mono)

lemma not_ready_step: "step_ok env {} 7 7 app (emit [ReadySet False] (app\<lparr>ap_ready := False\<rparr>))"
  by (rule step_ok_emit) (simp_all add: held_def)

lemma cancel_watcher_step: "step_ok env {} 7 8 app (cancel_watcher app)"
  unfolding cancel_watcher_def
  by (cases "ap_watch_cancel app") (auto intro!: step_ok_emit step_ok_refl simp: held_def)

lemma deregister_step:
  "ap_registered app \<Longrightarrow> ap_registry app \<and> ap_instance app \<noteq> [] \<and> ao_name (ap_options app) \<noteq> [] \<Longrightarrow>
    step_ok env {ResRegistration} 8 9 app (deregister_service env app)"
  unfolding deregister_service_def by (auto intro!: step_ok_emit simp: held_def)

lemma stop_once_step: "step_ok env {} 9 10 app (snd (stop_components_once app))"
  using stop_once_facts(1) [of env app] stop_once_facts(2,4) [of app] stop_once_facts(9) [of 9 app]
    closing_trace(5) by (auto simp: step_ok_def)

definition registration_ok :: "app \<Rightarrow> bool" where
  "registration_ok app \<longleftrightarrow> (ap_registered app \<longleftrightarrow> ap_instance app \<noteq> []) \<and>
    (ap_registered app \<longrightarrow> ap_registry app \<and> ao_name (ap_options app) \<noteq> [])"

lemma deregister_any_step: "registration_ok app \<Longrightarrow> step_ok env {ResRegistration} 8 9 app (deregister_service env app)"
proof (cases "ap_registered app")
  case False
  moreover assume "registration_ok app"
  ultimately have "deregister_service env app = app" "ResRegistration \<notin> held app"
    by (auto simp: registration_ok_def deregister_service_def held_def)
  then show ?thesis by (simp add: step_ok_refl)
qed (simp add: registration_ok_def deregister_step)

lemma stop_servers_step:
  "step_ok env {ResHttpPort, ResGrpcPort, ResDiagPort} 10 11 app (snd (stop_servers env app))"
  unfolding stop_servers_def snd_conv
  by (rule step_ok_emit) (cases "ap_http_port app"; cases "ap_grpc_port app"; cases "ap_diag_port app";
      auto simp: held_def)+

lemma wait_watcher_step:
  "step_ok env (if stops then {ResWatcher} else {}) 11 12 app (snd (wait_watcher stops app))"
  unfolding wait_watcher_def
  by (cases "ap_watching app"; cases stops)
    (auto intro!: step_ok_emit step_ok_refl simp: held_def release_rank_def)

lemma replay_quiet: "(\<forall>e \<in> set es. \<forall>r. e \<noteq> Opened r \<and> e \<noteq> Closed r \<and> e \<noteq> CloseFailed r) \<Longrightarrow> replay es S = Some S"
  by (induction es S rule: replay.induct) auto

lemma callbacks_step:
  "step_ok env {} 12 12 app (emit (map (\<lambda>fn. CloseCallback) fns) (app\<lparr>ap_callbacks_done := True\<rparr>))"
  by (rule step_ok_emit) (auto simp: held_def sorted_map_const comp_def replay_quiet)

definition closed_down :: "app_env \<Rightarrow> app \<Rightarrow> app \<Rightarrow> bool" where
  "closed_down env app app' \<longleftrightarrow> tidy env app' \<and> held app' = {} \<and> ap_closed app' \<and> \<not> ap_ready app' \<and>
    set (ap_trace app) \<subseteq> set (ap_trace app')"

lemma shutdown_keeps:
  "registration_ok (emit es (app\<lparr>ap_ready := b\<rparr>)) = registration_ok app"
  "registration_ok (cancel_watcher app) = registration_ok app"
  "\<not> ap_watch_cancel (cancel_watcher app)"
  "ap_watch_cancel (deregister_service env app) = ap_watch_cancel app"
  "ap_watch_cancel (snd (stop_components_once app)) = ap_watch_cancel app"
  "ap_watch_cancel (snd (stop_servers env app)) = ap_watch_cancel app"
  "ap_watch_cancel (snd (wait_watcher stops app)) = ap_watch_cancel app"
  "stopped (snd (wait_watcher stops app)) = stopped app"
  "ap_ready (snd (wait_watcher stops app)) = ap_ready app"
  "ap_ready (cancel_watcher app) = ap_ready app" "ap_ready (deregister_service env app) = ap_ready app"
  "stopped (snd (stop_servers env app)) = stopped app" "ap_ready (snd (stop_servers env app)) = ap_ready app"
  "stopped (emit es (app\<lparr>ap_callbacks_done := True\<rparr>)) = stopped app"
  by (simp_all add: registration_ok_def cancel_watcher_def deregister_service_def stop_servers_def stopped_def
      wait_watcher_def stop_components_once_def Let_def split_def)

lemma shutdown_closes:
  assumes "tidy env app" and "\<not> ap_closed app" and "registration_ok app"
  shows "closed_down env app (snd (shutdown env app)) \<and>
    (ordered_to 7 app \<longrightarrow> ordered_to 13 (snd (shutdown env app)))"
proof -
  let ?one = "emit [ReadySet False] (app\<lparr>ap_ready := False\<rparr>)"
  let ?two = "deregister_service env (cancel_watcher ?one)"
  let ?three = "snd (stop_components_once ?two)"
  let ?four = "snd (stop_servers env ?three)"
  let ?wait = "snd (wait_watcher (en_watcher_stops env) ?four)"
  define fns where "fns = (if ap_callbacks_done ?wait then [] else ap_on_close ?wait)"
  let ?five = "emit (map (\<lambda>fn. CloseCallback) fns) (?wait\<lparr>ap_callbacks_done := True\<rparr>)"
  have down: "snd (shutdown env app) = snd (close_app env ?five)"
    by (simp add: shutdown_def Let_def split_def fns_def)
  have "registration_ok (cancel_watcher ?one)" using assms(3) by (simp add: shutdown_keeps)
  note steps = not_ready_step [of env app] cancel_watcher_step [of env ?one] deregister_any_step [OF this, of env]
    stop_once_step [of env ?two] stop_servers_step [of env ?three]
    wait_watcher_step [of env "en_watcher_stops env" ?four] callbacks_step [of env ?wait fns]
  note path = step_ok_trans [OF steps(1) step_ok_trans [OF steps(2) step_ok_trans [OF steps(3)
    step_ok_trans [OF steps(4) step_ok_trans [OF steps(5) step_ok_trans [OF steps(6) steps(7)]]]]]]
  have rest: "held ?five \<subseteq> {ResTelemetry, ResRedis, ResRegistry, ResWatcher} \<union> range ResDb"
    unfolding step_okD(2) [OF path] using resource.exhaust by blast
  have stop: "stopped ?five" by (simp add: shutdown_keeps stop_once_facts)
  have ready: "\<not> ap_ready ?five" by (simp add: shutdown_keeps stop_once_facts)
  have "\<not> ap_closed ?five" unfolding step_okD(4) [OF path] by (rule assms(2))
  moreover have "\<not> ap_watch_cancel ?five" by (simp add: shutdown_keeps)
  ultimately have "\<not> ap_closed ?five" "\<not> ap_watch_cancel ?five" by blast+
  from close_app_closes [OF step_okD(1) [OF path assms(1)] this(1) stop rest this(2)] show ?thesis
    unfolding down closed_down_def using step_okD(3,5) [OF path] ready by blast
qed

subsection \<open>The stages of a run\<close>

text \<open>An application on its way up that holds none of the given resources yet.\<close>

definition rising :: "app_env \<Rightarrow> resource set \<Rightarrow> app \<Rightarrow> bool" where
  "rising env rs app \<longleftrightarrow> tidy env app \<and> \<not> ap_closed app \<and> registration_ok app \<and> held app \<inter> rs = {} \<and>
    ao_name (ap_options app) \<noteq> []"

definition stage_keeps :: "app_env \<Rightarrow> resource set \<Rightarrow> resource set \<Rightarrow> (app \<Rightarrow> goerr option \<times> app) \<Rightarrow> bool" where
  "stage_keeps env rs rs' f \<longleftrightarrow> rs' \<subseteq> rs \<and> (\<forall>app. rising env rs app \<longrightarrow> rising env rs' (snd (f app)))"

definition stage_orders :: "nat \<Rightarrow> nat \<Rightarrow> (app \<Rightarrow> goerr option \<times> app) \<Rightarrow> bool" where
  "stage_orders n m f \<longleftrightarrow> n \<le> m \<and> (\<forall>app. ordered_to n app \<longrightarrow> ordered_to m (snd (f app)))"

lemma rising_mono: "rising env rs app \<Longrightarrow> rs' \<subseteq> rs \<Longrightarrow> rising env rs' app"
  by (auto simp: rising_def)

lemma stages_nil: "stage_keeps env rs rs (run_stages [])" "stage_orders n n (run_stages [])"
  by (auto simp: stage_keeps_def stage_orders_def)

lemma stages_cons:
  "stage_keeps env rs rs1 f \<Longrightarrow> stage_keeps env rs1 rs2 (run_stages fs) \<Longrightarrow> stage_keeps env rs rs2 (run_stages (f # fs))"
  "stage_orders n k f \<Longrightarrow> stage_orders k m (run_stages fs) \<Longrightarrow> stage_orders n m (run_stages (f # fs))"
proof -
  have unfold: "snd (run_stages (f # fs) app) = (if fst (f app) = None
      then snd (run_stages fs (snd (f app))) else snd (f app))" for app
    by (simp split: prod.splits option.splits)
  show "stage_keeps env rs rs1 f \<Longrightarrow> stage_keeps env rs1 rs2 (run_stages fs) \<Longrightarrow> stage_keeps env rs rs2 (run_stages (f # fs))"
    unfolding stage_keeps_def unfold using rising_mono by (simp split: if_split) blast
  show "stage_orders n k f \<Longrightarrow> stage_orders k m (run_stages fs) \<Longrightarrow> stage_orders n m (run_stages (f # fs))"
    unfolding stage_orders_def unfold using ordered_mono by (simp split: if_split) (meson order_trans)
qed

lemma watch_cancel_update [simp]:
  "held (app\<lparr>ap_watch_cancel := b\<rparr>) = held app" "tidy env (app\<lparr>ap_watch_cancel := b\<rparr>) = tidy env app"
  by (simp_all add: tidy_def held_def)

lemma held_updates [simp]:
  "held (app\<lparr>ap_watching := True\<rparr>) = insert ResWatcher (held app)"
  "held (app\<lparr>ap_diag_port := True\<rparr>) = insert ResDiagPort (held app)"
  "held (app\<lparr>ap_http_port := True\<rparr>) = insert ResHttpPort (held app)"
  "held (app\<lparr>ap_grpc_port := True\<rparr>) = insert ResGrpcPort (held app)"
  "held (app\<lparr>ap_instance := i, ap_registered := True\<rparr>) = insert ResRegistration (held app)"
  "held (app\<lparr>ap_ready := b\<rparr>) = held app" "held (app\<lparr>ap_components := c\<rparr>) = held app"
  "held (emit es app) = held app"
  by (auto simp: held_def)

text \<open>What a stage may do to the fields the invariant reads.\<close>

definition same_base :: "app \<Rightarrow> app \<Rightarrow> bool" where
  "same_base app app' \<longleftrightarrow> ap_trace app' = ap_trace app \<and> ap_dbs app' = ap_dbs app \<and>
    ap_closed app' = ap_closed app \<and> ap_options app' = ap_options app \<and> registration_ok app'"

lemma rising_emit:
  assumes "rising env rs app" and "same_base app app'" and "replay es (held app) = Some (held app')"
    and "held app' \<inter> rs' = {}" and "\<forall>r. CloseFailed r \<in> set es \<longrightarrow> close_fails env r"
  shows "rising env rs' (emit es app')"
proof -
  have "tidy env (emit es app')"
    by (rule tidy_emit [of env app]) (use assms in \<open>simp_all add: rising_def tidy_def same_base_def\<close>)
  moreover have "registration_ok (emit es app') = registration_ok app'" by (simp add: registration_ok_def)
  ultimately show ?thesis using assms by (simp add: rising_def same_base_def)
qed

lemma rising_opens:
  assumes "rising env (insert r rs) app" and "r \<notin> rs" and "held app' = insert r (held app)" and "same_base app app'"
  shows "rising env rs (emit [Opened r] app')"
  by (rule rising_emit [OF assms(1,4)]) (use assms(1-3) in \<open>auto simp: rising_def\<close>)

lemma ready_keeps: "stage_keeps env rs rs ready_stage"
  unfolding stage_keeps_def ready_stage_def snd_conv
  by (intro conjI allI impI subset_refl rising_emit) (auto simp: rising_def same_base_def registration_ok_def)

lemma watch_keeps: "ResWatcher \<notin> rs \<Longrightarrow> stage_keeps env (insert ResWatcher rs) rs watch_stage"
  unfolding stage_keeps_def watch_stage_def
  by (auto intro: rising_mono) (rule rising_opens, auto simp: rising_def same_base_def registration_ok_def)

lemma register_keeps:
  assumes "en_instance env \<noteq> []" and "ResRegistration \<notin> rs"
  shows "stage_keeps env (insert ResRegistration rs) rs (register_stage env)"
  unfolding stage_keeps_def register_stage_def
  using assms by (auto intro: rising_mono)
    (rule rising_opens, auto simp: rising_def same_base_def registration_ok_def)

lemma diag_keeps:
  assumes "ResDiagPort \<notin> rs"
  shows "stage_keeps env (insert ResDiagPort rs) rs (diag_stage env)"
  unfolding stage_keeps_def
proof (intro conjI allI impI)
  fix app assume rise: "rising env (insert ResDiagPort rs) app"
  then have reg: "registration_ok app" "held app \<inter> rs = {}" "ResDiagPort \<notin> held app" by (auto simp: rising_def)
  have "rising env rs (emit [Opened ResDiagPort, let_go env ResDiagPort] app)"
    by (rule rising_emit [OF rise]) (use reg in \<open>auto simp: same_base_def\<close>)
  moreover have "rising env rs (emit [Opened ResDiagPort] (app\<lparr>ap_diag_port := True\<rparr>))"
    by (rule rising_opens [OF rise assms]) (use reg in \<open>auto simp: same_base_def registration_ok_def\<close>)
  moreover have "rising env rs app" by (rule rising_mono [OF rise]) auto
  ultimately show "rising env rs (snd (diag_stage env app))" by (simp add: diag_stage_def split: option.split)
qed auto

lemma emit_nil [simp]: "emit [] app = app"
  by (simp add: emit_def)

lemma start_callbacks_emits: "\<exists>k. snd (start_callbacks fns app) = emit (replicate k StartCallback) app"
proof (induction fns arbitrary: app)
  case Nil
  show ?case by (rule exI [of _ 0]) simp
next
  case (Cons fn fns)
  from Cons.IH [of "emit [StartCallback] app"] obtain k where
    "snd (start_callbacks fns (emit [StartCallback] app)) = emit (replicate (Suc k) StartCallback) app"
    by (auto simp: emit_def)
  moreover have "emit [StartCallback] app = emit (replicate 1 StartCallback) app" by simp
  ultimately show ?case by (cases "call_lifecycle fn") (auto simp del: replicate.simps)
qed

lemma start_keeps: "stage_keeps env rs rs start_stage"
  unfolding stage_keeps_def start_stage_def
proof (intro conjI allI impI subset_refl)
  fix app assume rise: "rising env rs app"
  obtain k where "snd (start_callbacks (ap_on_start app) app) = emit (replicate k StartCallback) app"
    using start_callbacks_emits by blast
  moreover have "rising env rs (emit (replicate k StartCallback) app)"
    by (rule rising_emit [OF rise]) (use rise in \<open>auto simp: rising_def same_base_def replay_quiet\<close>)
  ultimately show "rising env rs (snd (start_callbacks (ap_on_start app) app))" by simp
qed

lemma components_keeps: "stage_keeps env rs rs components_stage"
  unfolding stage_keeps_def
proof (intro conjI allI impI subset_refl)
  fix app assume rise: "rising env rs app"
  have "rising env rs (emit es (app\<lparr>ap_components := c\<rparr>))" if "es = [] \<or> es = [ComponentsStarted]" for c es
    by (rule rising_emit [OF rise]) (use rise that in \<open>auto simp: rising_def same_base_def registration_ok_def\<close>)
  from this [of "[]"] this [of "[ComponentsStarted]"] show "rising env rs (snd (components_stage app))"
    by (auto simp: components_stage_def split: prod.split option.split)
qed

lemma orders_emit:
  assumes "n \<le> k" and "k \<le> m" and "\<And>app. \<exists>es app'. snd (f app) = emit es app' \<and> ap_trace app' = ap_trace app \<and>
    sorted (map rank es) \<and> (\<forall>e \<in> set es. k \<le> rank e \<and> rank e \<le> m)"
  shows "stage_orders n m f"
  unfolding stage_orders_def
proof (intro conjI allI impI)
  fix app assume ordered: "ordered_to n app"
  obtain es app' where "snd (f app) = emit es app'" "ap_trace app' = ap_trace app"
    "sorted (map rank es)" "\<forall>e \<in> set es. k \<le> rank e \<and> rank e \<le> m"
    using assms(3) by blast
  with ordered_emit [OF ordered assms(1)] assms(2) show "ordered_to m (snd (f app))" by simp
qed (use assms in simp)

lemma emit_some: "\<exists>es app'. emit fs app0 = emit es app' \<and> ap_trace app' = ap_trace app \<and> sorted (map rank es) \<and>
      (\<forall>e \<in> set es. k \<le> rank e \<and> rank e \<le> m)"
  if "ap_trace app0 = ap_trace app" "sorted (map rank fs)" "\<forall>e \<in> set fs. k \<le> rank e \<and> rank e \<le> m"
  using that by blast

lemma emit_none: "\<exists>es app'. app0 = emit es app' \<and> ap_trace app' = ap_trace app \<and> sorted (map rank es) \<and>
      (\<forall>e \<in> set es. k \<le> rank e \<and> rank e \<le> m)"
  if "ap_trace app0 = ap_trace app"
  by (rule exI [of _ "[]"]) (use that in auto)

lemma stages_ordered:
  "en_diag_tls env = None \<Longrightarrow> stage_orders 1 1 (diag_stage env)"
  "stage_orders 1 2 (register_stage env)" "stage_orders 2 3 watch_stage" "stage_orders 3 4 start_stage"
  "stage_orders 4 5 components_stage" "stage_orders 5 6 ready_stage"
proof -
  show "stage_orders 1 1 (diag_stage env)" if "en_diag_tls env = None"
    by (rule orders_emit [of 1 1]) (use that in \<open>auto simp: diag_stage_def split: option.split intro!: emit_some intro: emit_none\<close>)
  show "stage_orders 1 2 (register_stage env)"
    by (rule orders_emit [of 1 2]) (auto simp: register_stage_def intro!: emit_some intro: emit_none)
  show "stage_orders 2 3 watch_stage"
    by (rule orders_emit [of 2 3]) (auto simp: watch_stage_def intro!: emit_some intro: emit_none)
  show "stage_orders 3 4 start_stage"
  proof (rule orders_emit [of 3 4])
    fix app
    obtain n where "snd (start_stage app) = emit (replicate n StartCallback) app"
      unfolding start_stage_def using start_callbacks_emits by blast
    moreover have "sorted (map rank (replicate n StartCallback))" by (induction n) auto
    ultimately show "\<exists>es app'. snd (start_stage app) = emit es app' \<and> ap_trace app' = ap_trace app \<and>
        sorted (map rank es) \<and> (\<forall>e \<in> set es. 4 \<le> rank e \<and> rank e \<le> 4)"
      by (metis emit_some in_set_replicate order_refl rank.simps(2))
  qed auto
  show "stage_orders 4 5 components_stage"
    by (rule orders_emit [of 4 5]) (auto simp: components_stage_def split: prod.split option.split
        intro!: emit_some intro: emit_none)
  show "stage_orders 5 6 ready_stage"
    by (rule orders_emit [of 5 6]) (auto simp: ready_stage_def intro!: emit_some)
qed


lemma run_stages_keep:
  assumes "en_instance env \<noteq> []"
  shows "stage_keeps env {ResDiagPort, ResRegistration, ResWatcher} {} (run_stages (run_stages_of env))"
  unfolding run_stages_of_def
  using stages_cons(1) [OF diag_keeps stages_cons(1) [OF register_keeps [OF assms] stages_cons(1) [OF watch_keeps
    stages_cons(1) [OF start_keeps stages_cons(1) [OF components_keeps stages_cons(1) [OF ready_keeps stages_nil(1)]]]]]]
  by simp

lemma run_stages_order:
  "en_diag_tls env = None \<Longrightarrow> stage_orders 1 6 (run_stages (run_stages_of env))"
  unfolding run_stages_of_def
  by (intro stages_cons(2) [OF stages_ordered(1)] stages_cons(2) [OF stages_ordered(2)]
      stages_cons(2) [OF stages_ordered(3)] stages_cons(2) [OF stages_ordered(4)]
      stages_cons(2) [OF stages_ordered(5)] stages_cons(2) [OF stages_ordered(6)] stages_nil(2))

lemma run_stages_ready:
  "run_stages (fs @ [ready_stage]) app = (None, app') \<Longrightarrow> ReadySet True \<in> set (ap_trace app')"
proof (induction fs arbitrary: app)
  case Nil
  then show ?case by (auto simp: ready_stage_def)
next
  case (Cons f fs)
  then show ?case by (auto split: prod.splits option.splits)
qed

lemma opened_app_facts:
  assumes "distinct (ao_dbs opts)"
  shows "tidy env (opened_app opts)" "\<not> ap_closed (opened_app opts)" "registration_ok (opened_app opts)"
    "held (opened_app opts) \<subseteq> {ResTelemetry, ResRedis, ResRegistry} \<union> range ResDb"
    "stopped (opened_app opts)" "\<not> ap_ready (opened_app opts)" "ordered_to 0 (opened_app opts)"
    "ap_options (opened_app opts) = opts" "\<not> ap_watch_cancel (opened_app opts)"
proof -
  have "replay (map Opened rs) S = Some (set rs \<union> S)" if "distinct rs" "set rs \<inter> S = {}" for rs S
    using that by (induction rs arbitrary: S) auto
  moreover have "distinct (opened_by_new opts)" "set (opened_by_new opts) = held (opened_app opts)"
    using assms by (auto simp: opened_by_new_def opened_app_def fresh_app_def held_def distinct_map inj_on_def)
  ultimately show "tidy env (opened_app opts)"
    using assms by (simp add: tidy_def) (auto simp: opened_app_def)
  have "rank (Opened r) = 0" if "r \<in> set (opened_by_new opts)" for r
    using that by (auto simp: opened_by_new_def split: if_splits)
  moreover have "sorted (map f xs)" if "\<forall>x \<in> set xs. f x = (0 :: nat)" for f and xs :: "resource list"
    using that by (induction xs) auto
  ultimately have "sorted (map (\<lambda>r. rank (Opened r)) (opened_by_new opts))"
    "\<forall>r \<in> set (opened_by_new opts). rank (Opened r) = 0" by auto
  then show "ordered_to 0 (opened_app opts)"
    by (simp add: ordered_to_def opened_app_def comp_def del: rank.simps)
qed (auto simp: opened_app_def fresh_app_def registration_ok_def held_def stopped_def)


lemma run_app_returns:
  "en_setup env = SetupReturns x \<Longrightarrow>
    \<exists>err. run_app env s app = (Returned err, snd (run_app env s app))"
  by (cases x) (auto simp: run_app_def Let_def split: option.split prod.split)

lemma setup_panic_closes_nothing:
  "en_setup env = SetupPanics \<Longrightarrow> run_app env (Some f) app = (Panicked, f app)"
  by (simp add: run_app_def)

text \<open>The two ends of \<open>Run\<close>: closed before it serves, or shut down after.\<close>

lemma close_before_serving:
  assumes "tidy env app" and "\<not> ap_closed app" and "stopped app" and "\<not> ap_ready app"
    and "held app \<subseteq> {ResTelemetry, ResRedis, ResRegistry} \<union> range ResDb" and "\<not> ap_watch_cancel app"
  shows "closed_down env app (snd (close_app env app)) \<and> (ordered_to 12 app \<longrightarrow> ordered_to 13 (snd (close_app env app)))"
  using close_app_closes [OF assms(1-3) _ assms(6)] assms(4,5) by (auto simp: closed_down_def)

lemma set_up_facts:
  assumes "distinct (ao_dbs opts)" and "app = setup_app s (opened_app opts)"
  shows "tidy env app" "\<not> ap_closed app" "registration_ok app" "stopped app" "\<not> ap_ready app"
    "held app \<subseteq> {ResTelemetry, ResRedis, ResRegistry} \<union> range ResDb" "ordered_to 0 app" "ap_options app = opts"
    "\<not> ap_watch_cancel app"
proof -
  have "tidy env (setup_app s z) = tidy env z" "registration_ok (setup_app s z) = registration_ok z"
    "stopped (setup_app s z) = stopped z" "held (setup_app s z) = held z" "ordered_to n (setup_app s z) = ordered_to n z"
    "ap_closed (setup_app s z) = ap_closed z" "ap_ready (setup_app s z) = ap_ready z"
    "ap_options (setup_app s z) = ap_options z" "ap_watch_cancel (setup_app s z) = ap_watch_cancel z" for z n
    by (simp_all add: setup_app_def tidy_def registration_ok_def stopped_def held_def ordered_to_def split_def)
  then show "tidy env app" "\<not> ap_closed app" "registration_ok app" "stopped app" "\<not> ap_ready app"
    "held app \<subseteq> {ResTelemetry, ResRedis, ResRegistry} \<union> range ResDb" "ordered_to 0 app" "ap_options app = opts"
    "\<not> ap_watch_cancel app"
    unfolding assms(2) using opened_app_facts [OF assms(1)] by simp_all
qed

lemma shutdown_after_stages:
  assumes "rising env {ResDiagPort, ResRegistration, ResWatcher} app" and "en_instance env \<noteq> []" and "ordered_to 1 app"
    and "run_stages (run_stages_of env) app = (err, app1)"
  shows "closed_down env app1 (snd (shutdown env app1)) \<and> (en_diag_tls env = None \<longrightarrow> ordered_to 13 (snd (shutdown env app1)))"
proof -
  have "rising env {} app1"
    using run_stages_keep [OF assms(2)] assms(1,4) unfolding stage_keeps_def by force
  then have "closed_down env app1 (snd (shutdown env app1)) \<and> (ordered_to 7 app1 \<longrightarrow> ordered_to 13 (snd (shutdown env app1)))"
    by (intro shutdown_closes) (simp_all add: rising_def)
  moreover have "ordered_to 7 app1" if "en_diag_tls env = None"
  proof -
    have "ordered_to 6 app1"
      using run_stages_order [OF that] assms(3,4) unfolding stage_orders_def by force
    then show ?thesis by (rule ordered_mono) simp
  qed
  ultimately show ?thesis by blast
qed


lemma run_closes:
  assumes new: "new_app env opts = (None, app)" and distinct: "distinct (ao_dbs opts)"
    and names: "ao_name opts \<noteq> []" "en_instance env \<noteq> []"
    and run: "run_app env (map_option setup_app s) app = (Returned err, app')"
  shows "tidy env app' \<and> held app' = {} \<and> ap_closed app' \<and> \<not> ap_ready app' \<and>
    (en_diag_tls env = None \<longrightarrow> ordered_to 13 app') \<and>
    (err = None \<longrightarrow> ReadySet True \<in> set (ap_trace app') \<and> en_stopped_by env = None)"
proof -
  let ?goal = "\<lambda>app'. closed_down env app app' \<and> (en_diag_tls env = None \<longrightarrow> ordered_to 13 app')"
  have app: "app = opened_app opts" by (rule new_app_ok [OF new])
  show ?thesis
  proof (cases s)
    case None
    have "app' = snd (close_app env app)" "err \<noteq> None" using run None by (auto simp: run_app_def)
    with close_before_serving [of env app] opened_app_facts [OF distinct, folded app] show ?thesis
      by (auto simp: closed_down_def intro: ordered_mono)
  next
    case (Some regs)
    define up where "up = setup_app regs app"
    note up = set_up_facts [OF distinct up_def [unfolded app], folded app]
    define ports where "ports = emit [Opened ResHttpPort] (up\<lparr>ap_http_port := True\<rparr>)"
    define both where "both = (if ao_grpc (ap_options ports)
      then emit [Opened ResGrpcPort] (ports\<lparr>ap_grpc_port := True\<rparr>) else ports)"
    define undone where "undone = emit [let_go env ResHttpPort] (ports\<lparr>ap_http_port := False\<rparr>)"
    let ?rs = "{ResDiagPort, ResRegistration, ResWatcher}"
    have "rising env (insert ResHttpPort (insert ResGrpcPort ?rs)) up"
      using up names by (auto simp: rising_def)
    then have ports: "rising env (insert ResGrpcPort ?rs) ports"
      unfolding ports_def by (rule rising_opens) (use up in \<open>auto simp: same_base_def registration_ok_def\<close>)
    then have "rising env ?rs (emit [Opened ResGrpcPort] (ports\<lparr>ap_grpc_port := True\<rparr>))"
      by (rule rising_opens) (use ports in \<open>auto simp: rising_def same_base_def registration_ok_def\<close>)
    with rising_mono [OF ports, of ?rs] have both: "rising env ?rs both" by (auto simp: both_def)
    have undone: "undone = emit [Opened ResHttpPort, let_go env ResHttpPort] up"
    proof -
      have "\<not> ap_http_port up" using up(6) by (auto simp: held_def)
      then show ?thesis by (cases up) (simp add: undone_def ports_def emit_def)
    qed
    have undone_facts: "closed_down env undone (snd (close_app env undone)) \<and> ordered_to 13 (snd (close_app env undone))"
    proof -
      have "tidy env undone"
        unfolding undone by (rule tidy_emit [OF up(1)]) (use up in \<open>auto simp: tidy_def\<close>)
      moreover have "ordered_to 12 undone"
        unfolding undone by (rule ordered_emit [OF up(7), of 1]) auto
      ultimately show ?thesis
        using close_before_serving [of env undone] up by (simp add: undone stopped_def)
    qed
    have up_facts: "closed_down env up (snd (close_app env up)) \<and> ordered_to 13 (snd (close_app env up))"
      using close_before_serving [of env up] up by (auto intro: ordered_mono)
    obtain serr app1 where stages: "run_stages (run_stages_of env) both = (serr, app1)" by fastforce
    have ports_order: "ordered_to 1 ports"
      unfolding ports_def by (rule ordered_emit [OF up(7), of 1]) simp_all
    have "ordered_to 1 (emit [Opened ResGrpcPort] (ports\<lparr>ap_grpc_port := True\<rparr>))"
      by (rule ordered_emit [OF ports_order, of 1]) simp_all
    with ports_order have "ordered_to 1 both" by (simp add: both_def)
    note down = shutdown_after_stages [OF both names(2) this stages]
    have "app' = snd (close_app env up) \<and> err \<noteq> None \<or> app' = snd (close_app env undone) \<and> err \<noteq> None \<or>
      app' = snd (shutdown env app1) \<and> (err = None \<longrightarrow> serr = None \<and> en_stopped_by env = None)"
      using run Some stages unfolding run_app_def serve_app_def
      by (auto simp: Let_def up_def [symmetric] ports_def [symmetric] both_def undone_def split: option.splits setup_outcome.splits if_splits prod.splits)
    then show ?thesis
      using up_facts undone_facts down run_stages_ready [of "butlast (run_stages_of env)" both app1] stages
      by (auto simp: closed_down_def run_stages_of_def)
  qed
qed


text \<open>What was opened and is not held at the end was closed, or its release failed.\<close>

lemma replay_released:
  "replay es S = Some T \<Longrightarrow> r \<in> S \<or> Opened r \<in> set es \<Longrightarrow> r \<in> T \<or> Closed r \<in> set es \<or> CloseFailed r \<in> set es"
  by (induction es S rule: replay.induct) (auto split: if_splits)

text \<open>C2. Once \<open>New\<close> has succeeded, every way \<open>Run\<close> returns (a nil or failing setup, a port that
  is taken, a failing registration, a panicking callback, a component that does not start, a signal,
  a failing server) releases every resource it held exactly once. A resource it opened is closed at
  the end unless its own release failed: the deregistration, the \<open>Close\<close> or \<open>Shutdown\<close> of the resource,
  a \<open>db.DB()\<close> without a handle, a watcher that outlives both waits.\<close>

theorem run_releases_everything:
  assumes "new_app env opts = (None, app)" and "distinct (ao_dbs opts)"
    and "ao_name opts \<noteq> []" and "en_instance env \<noteq> []"
    and "run_app env (map_option setup_app s) app = (Returned err, app')"
  shows "replay (ap_trace app') {} = Some {} \<and> ap_closed app' \<and> \<not> ap_ready app' \<and>
    (\<forall>r. Opened r \<in> set (ap_trace app') \<longrightarrow>
      Closed r \<in> set (ap_trace app') \<or> CloseFailed r \<in> set (ap_trace app') \<and> close_fails env r)"
  using run_closes [OF assms] replay_released [of "ap_trace app'" "{}" "{}"] by (auto simp: tidy_def)

definition full_options :: app_options where
  "full_options = \<lparr>ao_name = ''orders'', ao_dbs = [''main'', ''audit''], ao_redis = True, ao_grpc = True,
    ao_grpc_tls = False, ao_registry = True, ao_diag = True, ao_watch = True\<rparr>"

definition rejected_env :: app_env where
  "rejected_env = \<lparr>en_trusted_proxies = None, en_grpc_tls = None, en_telemetry = None,
    en_open_db = (\<lambda>n. None), en_open_redis = None, en_open_registry = None, en_setup = SetupReturns None,
    en_listen = (\<lambda>r. None), en_diag_tls = None, en_instance = ''orders-1'',
    en_register = Some (Errorf ''registry unreachable''), en_stopped_by = None,
    en_grpc_graceful = True, en_watcher_stops = True, en_watcher_late = True,
    en_db_handle = (\<lambda>n. if n = ''audit'' then Some (Errorf ''invalid db'') else None),
    en_close = (\<lambda>r. if r = ResRegistration then Some (Errorf ''registry unreachable'') else None)\<rparr>"

lemmas open_rejected = rejected_env_def full_options_def new_app_def new_app_dbs_def new_app_redis_def
  new_app_registry_def fresh_app_def Let_def

theorem run_releases_everything_witness:
  "\<exists>app'. snd (run_app rejected_env (map_option setup_app (Some ([], [CallbackPanics], [])))
      (snd (new_app rejected_env full_options))) = app' \<and> replay (ap_trace app') {} = Some {} \<and>
    (Opened ResRedis \<in> set (ap_trace app') \<longrightarrow> Closed ResRedis \<in> set (ap_trace app'))"
proof -
  let ?s = "map_option setup_app (Some ([], [CallbackPanics], []))" and ?app = "snd (new_app rejected_env full_options)"
  obtain err where run: "run_app rejected_env ?s ?app = (Returned err, snd (run_app rejected_env ?s ?app))"
    using run_app_returns [of rejected_env None ?s ?app] by (auto simp: rejected_env_def)
  have "new_app rejected_env full_options = (None, ?app)" by (simp add: open_rejected)
  from run_releases_everything [OF this _ _ _ run] show ?thesis
    by (force simp: full_options_def rejected_env_def close_fails_def)
qed

text \<open>The life of an application is in order: the ports are bound before the service is
  registered, callbacks and components start before it is ready, and on the way down readiness goes
  first, then the watcher and the registration, then components, servers, callbacks and
  resources.\<close>

theorem lifecycle_in_order:
  assumes "new_app env opts = (None, app)" and "distinct (ao_dbs opts)"
    and "ao_name opts \<noteq> []" and "en_instance env \<noteq> []" and "en_diag_tls env = None"
    and "run_app env (map_option setup_app s) app = (Returned err, app')"
  shows "sorted (map rank (ap_trace app'))"
  using run_closes [OF assms(1-4,6)] assms(5) by (simp add: ordered_to_def)

theorem lifecycle_in_order_witness:
  "sorted (map rank (ap_trace (snd (run_app rejected_env
    (map_option setup_app (Some ([CallbackReturns], [CallbackPanics], [])))
    (snd (new_app rejected_env full_options))))))"
proof -
  let ?s = "map_option setup_app (Some ([CallbackReturns], [CallbackPanics], []))"
    and ?app = "snd (new_app rejected_env full_options)"
  obtain err where run: "run_app rejected_env ?s ?app = (Returned err, snd (run_app rejected_env ?s ?app))"
    using run_app_returns [of rejected_env None ?s ?app] by (auto simp: rejected_env_def)
  have "new_app rejected_env full_options = (None, ?app)" by (simp add: open_rejected)
  from lifecycle_in_order [OF this _ _ _ _ run] show ?thesis
    by (simp add: full_options_def rejected_env_def)
qed

text \<open>A \<open>New\<close> that fails leaves nothing behind: what it had opened before the failure is closed,
  each resource once.\<close>

theorem failed_new_holds_nothing:
  assumes "new_app env opts = (Some err, app)" and "distinct (ao_dbs opts)"
  shows "replay (ap_trace app) {} = Some {}"
  using new_app_failed [OF assms] by (simp add: tidy_def)

theorem failed_new_holds_nothing_witness:
  "replay (ap_trace (snd (new_app (rejected_env\<lparr>en_open_redis := Some (Errorf ''redis: %w'')\<rparr>) full_options))) {} = Some {}"
proof -
  have "new_app (rejected_env\<lparr>en_open_redis := Some (Errorf ''redis: %w'')\<rparr>) full_options =
    (Some (Errorf ''redis: %w''), snd (new_app (rejected_env\<lparr>en_open_redis := Some (Errorf ''redis: %w'')\<rparr>) full_options))"
    by (simp add: open_rejected)
  from failed_new_holds_nothing [OF this] show ?thesis by (simp add: full_options_def)
qed

end
