(* ===== verification/Http_Client.thy ===== *)
theory Http_Client
  imports Retry Request_Metadata Byte_Reader
begin

text \<open>
  The outbound HTTP client, \<open>clientx/http.go\<close>: its configuration, one attempt, and \<open>Do\<close>,
  which buffers the body when an attempt may be repeated and runs the attempts through the
  retry loop and the circuit breaker of the same package. The \<open>http.Client\<close>, the context and
  the timer are parameters that act on a world \<open>'w\<close>, and so is the tracer: of a span, what the
  propagator writes into the headers of the attempt is modelled.
\<close>

subsection \<open>Configuration\<close>

record 'w http_config =
  hf_timeout :: duration
  hf_retry :: "'w retry_config"
  hf_telemetry :: bool
  hf_service :: string
  hf_retry_non_idempotent :: bool
  hf_max_body :: int
  hf_max_response :: int

record 'w http_client =
  hc_timeout :: duration
  hc_retry :: "'w retry_config"
  hc_telemetry :: bool
  hc_service :: string
  hc_retry_non_idempotent :: bool
  hc_max_body :: int
  hc_max_response :: int

fun http_status_of :: "goerr \<Rightarrow> int option" where
  "http_status_of (HTTPStatusErr code status) = Some code"
| "http_status_of e = None"

fun net_error_of :: "goerr \<Rightarrow> string option" where
  "net_error_of (NetErr text) = Some text"
| "net_error_of e = None"

text \<open>The default of \<open>Retryable\<close>; a deadline error is itself a \<open>net.Error\<close>.\<close>

definition http_retryable :: "goerr \<Rightarrow> bool" where
  "http_retryable err =
    (case err_as http_status_of err of
       Some code \<Rightarrow> code = 429 \<or> code \<ge> 500
     | None \<Rightarrow> \<not> err_is err ''context canceled'' \<and>
         (err_as net_error_of err \<noteq> None \<or> err_is err ''context deadline exceeded''))"

definition body_limit :: "int \<Rightarrow> int" where
  "body_limit n = at_most (256 * 2 ^ 20) (default_pos n (10 * 2 ^ 20))"

definition new_http_client :: "'w retry_env \<Rightarrow> 'w http_config \<Rightarrow> 'w http_client" where
  "new_http_client env cfg =
    (let timeout = default_pos (hf_timeout cfg) (10 * second);
         retry = hf_retry cfg;
         retry = retry\<lparr>rc_retryable := Some (case rc_retryable retry of Some f \<Rightarrow> f | None \<Rightarrow> http_retryable)\<rparr>;
         retry = normalize_retry env retry;
         retry = (if rc_budget retry \<le> 0
           then retry\<lparr>rc_budget := wrap64 (timeout * rc_max_attempts retry)\<rparr> else retry)
     in \<lparr>hc_timeout = timeout, hc_retry = retry,
         hc_telemetry = hf_telemetry cfg, hc_service = trim_space (hf_service cfg),
         hc_retry_non_idempotent = hf_retry_non_idempotent cfg,
         hc_max_body = body_limit (hf_max_body cfg), hc_max_response = body_limit (hf_max_response cfg)\<rparr>)"

subsection \<open>Requests and responses\<close>

text \<open>
  A request body is the bytes it delivers and the error, if any, a read after them returns;
  \<open>None\<close> is the nil body.
\<close>

record http_request =
  hq_method :: string
  hq_header :: http_header
  hq_body :: "(string \<times> goerr option) option"

record 's raw_response =
  rr_status :: int
  rr_text :: string
  rr_body :: 's

record 's http_response =
  rp_status :: int
  rp_body :: "'s limited_body"

text \<open>
  The library: one exchange under a context with the given timeout, what the cancellation of that
  context does to the stream of the response body, and the start of a span for the method with the
  pairs \<open>Propagator().Inject\<close> sets for it, keys in canonical form.
\<close>

record ('w, 's) http_lib =
  ht_do :: "duration \<Rightarrow> http_request \<Rightarrow> 'w \<Rightarrow> (goerr + 's raw_response) \<times> 'w"
  ht_cancel :: "'s \<Rightarrow> 's"
  ht_trace :: "string \<Rightarrow> 'w \<Rightarrow> (string \<times> string) list \<times> 'w"

record ('w, 's) http_world =
  hw_world :: 'w
  hw_result :: "'s http_response option"
  hw_sent :: "http_request list"
  hw_labels :: "string list"

definition is_idempotent :: "string \<Rightarrow> bool" where
  "is_idempotent verb \<longleftrightarrow> to_upper verb \<in> {''GET'', ''HEAD'', ''PUT'', ''DELETE'', ''OPTIONS'', ''TRACE''}"

definition attempt_request :: "meta_ctx \<Rightarrow> http_request \<Rightarrow> string option \<Rightarrow> http_request" where
  "attempt_request ctx req body = req\<lparr>hq_header := inject_http ctx (hq_header req),
    hq_body := (case body of Some bytes \<Rightarrow> Some (bytes, None) | None \<Rightarrow> hq_body req)\<rparr>"

text \<open>\<open>propagationHeaderCarrier.Set\<close> for each pair, in the order of the calls.\<close>

definition with_trace :: "(string \<times> string) list \<Rightarrow> http_request \<Rightarrow> http_request" where
  "with_trace pairs req = req\<lparr>hq_header := fold (\<lambda>(k, v) h. h(k := v)) pairs (hq_header req)\<rparr>"

text \<open>
  \<open>single\<close>: one attempt. Its context is cancelled when it returns, the response of a
  success included. The last component of the world collects the status labels of
  \<open>metrics.ObserveDependency\<close>.
\<close>

definition http_single ::
  "('w, 's) http_lib \<Rightarrow> 'w http_client \<Rightarrow> meta_ctx \<Rightarrow> http_request \<Rightarrow> string option \<Rightarrow>
   ('w, 's) http_world \<Rightarrow> goerr option \<times> ('w, 's) http_world" where
  "http_single lib c ctx req body w =
    (let attempt = attempt_request ctx req body;
         (pairs, world) = (if hc_telemetry c then ht_trace lib (hq_method attempt) (hw_world w) else ([], hw_world w));
         attempt = with_trace pairs attempt;
         w = w\<lparr>hw_world := world, hw_sent := hw_sent w @ [attempt]\<rparr>
     in case ht_do lib (hc_timeout c) attempt (hw_world w) of
          (Inl err, world) \<Rightarrow>
            (Some err, w\<lparr>hw_world := world, hw_labels := hw_labels w @
              [if err_is err ''context deadline exceeded'' then ''timeout'' else ''error'']\<rparr>)
        | (Inr raw, world) \<Rightarrow>
            if rr_status raw < 200 \<or> rr_status raw \<ge> 300
            then (Some (HTTPStatusErr (rr_status raw) (rr_text raw)),
                  w\<lparr>hw_world := world, hw_labels := hw_labels w @ [format_int (rr_status raw)]\<rparr>)
            else (None, w\<lparr>hw_world := world, hw_labels := hw_labels w @ [''ok''],
                  hw_result := Some \<lparr>rp_status = rr_status raw,
                    rp_body = \<lparr>lb_reader = ht_cancel lib (rr_body raw), lb_remaining = hc_max_response c\<rparr>\<rparr>\<rparr>))"

subsection \<open>\<open>Do\<close>\<close>

text \<open>The retry loop of the package runs in the world of the caller.\<close>

definition in_world :: "('w \<Rightarrow> 'a \<times> 'w) \<Rightarrow> ('w, 's) http_world \<Rightarrow> 'a \<times> ('w, 's) http_world" where
  "in_world f w = (case f (hw_world w) of (x, world) \<Rightarrow> (x, w\<lparr>hw_world := world\<rparr>))"

definition lift_env :: "'w retry_env \<Rightarrow> ('w, 's) http_world retry_env" where
  "lift_env env = \<lparr>re_ctx_err = (\<lambda>w. re_ctx_err env (hw_world w)),
    re_with_timeout = (\<lambda>d w. w\<lparr>hw_world := re_with_timeout env d (hw_world w)\<rparr>),
    re_rand = in_world (re_rand env), re_retryable = re_retryable env,
    re_sleep = (\<lambda>w d. in_world (\<lambda>v. re_sleep env v d) w)\<rparr>"

definition lift_config :: "'w retry_config \<Rightarrow> ('w, 's) http_world retry_config" where
  "lift_config cfg = \<lparr>rc_max_attempts = rc_max_attempts cfg, rc_budget = rc_budget cfg,
    rc_initial = rc_initial cfg, rc_max = rc_max cfg, rc_multiplier = rc_multiplier cfg,
    rc_retryable = rc_retryable cfg,
    rc_sleep = map_option (\<lambda>f w d. in_world (\<lambda>v. f v d) w) (rc_sleep cfg),
    rc_jitter = rc_jitter cfg, rc_disable_jitter = rc_disable_jitter cfg\<rparr>"

definition do_with_response ::
  "(rat \<Rightarrow> rat) \<Rightarrow> 'w retry_env \<Rightarrow> ('w, 's) http_lib \<Rightarrow> 'w http_client \<Rightarrow> meta_ctx \<Rightarrow> http_request \<Rightarrow>
   string option \<Rightarrow> ('w, 's) http_world \<Rightarrow> goerr option \<times> ('w, 's) http_world" where
  "do_with_response fl env lib c ctx req body w =
    (if \<not> hc_retry_non_idempotent c \<and> \<not> is_idempotent (hq_method req)
     then http_single lib c ctx req body w
     else retry_do fl (lift_env env) (lift_config (hc_retry c)) (Some (http_single lib c ctx req body)) w)"

definition err_request_body_too_large :: goerr where
  "err_request_body_too_large = Sentinel ''clientx: request body exceeds configured limit''"

text \<open>
  \<open>io.ReadAll(io.LimitReader(body, max+1))\<close> and the checks after it, for a body that fails in
  a read of its own.
\<close>

definition buffer_body :: "int \<Rightarrow> string \<times> goerr option \<Rightarrow> goerr + string" where
  "buffer_body limit body =
    (if int (length (fst body)) > limit then Inl err_request_body_too_large
     else case snd body of Some err \<Rightarrow> Inl err | None \<Rightarrow> Inr (fst body))"

definition buffers_body :: "'w http_client \<Rightarrow> http_request \<Rightarrow> bool" where
  "buffers_body c req \<longleftrightarrow> hq_body req \<noteq> None \<and> rc_max_attempts (hc_retry c) > 1 \<and>
    (hc_retry_non_idempotent c \<or> is_idempotent (hq_method req))"

text \<open>\<open>Breaker.Do\<close> around a call that acts on the world.\<close>

definition through_breaker ::
  "(goerr \<Rightarrow> bool) \<Rightarrow> goerr option \<Rightarrow> instant \<Rightarrow> instant \<Rightarrow> ('w \<Rightarrow> goerr option \<times> 'w) \<Rightarrow> 'w \<Rightarrow> breaker \<Rightarrow>
   goerr option \<times> 'w \<times> breaker" where
  "through_breaker sc ctx_err now_before now_after call w br =
    (case ctx_err of
       Some e \<Rightarrow> (Some e, w, br)
     | None \<Rightarrow>
        (case breaker_before now_before br of
           (Inl e, br) \<Rightarrow> (Some e, w, br)
         | (Inr permit, br) \<Rightarrow>
            (let (err, w) = call w in (err, w, breaker_after sc now_after permit err br))))"

lemma through_breaker_is_breaker_do:
  "through_breaker sc ctx_err now_before now_after call w br = (err, w', br') \<Longrightarrow>
    breaker_do sc ctx_err (Some (\<lambda>_. Returned (fst (call w)))) now_before now_after br = (Returned err, br') \<and>
    w' = (if ctx_err = None \<and> \<not> isl (fst (breaker_before now_before br)) then snd (call w) else w)"
  by (auto simp: through_breaker_def breaker_do_def split_def Let_def split: option.splits prod.splits sum.splits)

text \<open>
  \<open>Do\<close>; the breaker, if the client has one, is given the instants before and after the call.
\<close>

definition http_do ::
  "(rat \<Rightarrow> rat) \<Rightarrow> (goerr \<Rightarrow> bool) \<Rightarrow> 'w retry_env \<Rightarrow> ('w, 's) http_lib \<Rightarrow> 'w http_client \<Rightarrow> meta_ctx \<Rightarrow>
   http_request \<Rightarrow> instant \<Rightarrow> instant \<Rightarrow> breaker option \<Rightarrow> 'w \<Rightarrow>
   goerr option \<times> ('w, 's) http_world \<times> breaker option" where
  "http_do fl sc env lib c ctx req now_before now_after b world =
    (let w = \<lparr>hw_world = world, hw_result = None, hw_sent = [], hw_labels = []\<rparr>;
         buffered = (if buffers_body c req
           then (case buffer_body (default_pos (hc_max_body c) (10 * 2 ^ 20)) (the (hq_body req)) of
                   Inl err \<Rightarrow> Inl err | Inr bytes \<Rightarrow> Inr (Some bytes))
           else Inr None)
     in case buffered of
          Inl err \<Rightarrow> (Some err, w, b)
        | Inr body \<Rightarrow>
           (case b of
              None \<Rightarrow> (let (err, w) = do_with_response fl env lib c ctx req body w in (err, w, None))
            | Some br \<Rightarrow>
               (let (err, w, br) = through_breaker sc (re_ctx_err env world) now_before now_after
                   (do_with_response fl env lib c ctx req body) w br
                in (err, w, Some br))))"

subsection \<open>What an exchange does\<close>

lemma with_trace_fields [simp]:
  "hq_method (with_trace pairs req) = hq_method req" "hq_body (with_trace pairs req) = hq_body req"
  "with_trace [] req = req"
  by (simp_all add: with_trace_def)

lemma with_trace_header: "k \<notin> fst ` set pairs \<Longrightarrow> hq_header (with_trace pairs req) k = hq_header req k"
proof -
  have "k \<notin> fst ` set pairs \<Longrightarrow> fold (\<lambda>(k, v) h. h(k := v)) pairs h k = h k" for h
    by (induction pairs arbitrary: h) auto
  then show "k \<notin> fst ` set pairs \<Longrightarrow> ?thesis" by (simp add: with_trace_def)
qed

text \<open>What an attempt sends: the request with the pairs the tracer gave in some world, if there is one.\<close>

definition sent_as :: "('w, 's) http_lib \<Rightarrow> 'w http_client \<Rightarrow> http_request \<Rightarrow> http_request \<Rightarrow> bool" where
  "sent_as lib c attempt sent \<longleftrightarrow>
    (if hc_telemetry c then \<exists>v. sent = with_trace (fst (ht_trace lib (hq_method attempt) v)) attempt
     else sent = attempt)"

lemma single_sent:
  "\<exists>x. sent_as lib c (attempt_request ctx req body) x \<and>
    hw_sent (snd (http_single lib c ctx req body w)) = hw_sent w @ [x]"
proof (cases "hc_telemetry c")
  case True
  obtain pairs world where "ht_trace lib (hq_method (attempt_request ctx req body)) (hw_world w) = (pairs, world)"
    by fastforce
  with True show ?thesis
    by (intro exI [of _ "with_trace pairs (attempt_request ctx req body)"])
      (auto simp: http_single_def sent_as_def Let_def intro!: exI [of _ "hw_world w"] split: sum.splits prod.splits)
qed (auto simp: http_single_def sent_as_def Let_def split: sum.splits prod.splits)

lemma single_failed:
  "http_single lib c ctx req body w = (Some e, w') \<Longrightarrow> hw_result w' = hw_result w"
  by (auto simp: http_single_def Let_def split: sum.splits prod.splits if_splits)

lemma single_ok:
  assumes "http_single lib c ctx req body w = (None, w')"
  shows "\<exists>raw d q v. fst (ht_do lib d q v) = Inr raw \<and> 200 \<le> rr_status raw \<and> rr_status raw < 300 \<and>
    hw_result w' = Some \<lparr>rp_status = rr_status raw,
      rp_body = \<lparr>lb_reader = ht_cancel lib (rr_body raw), lb_remaining = hc_max_response c\<rparr>\<rparr>"
proof -
  obtain pairs world where trace: "(if hc_telemetry c
      then ht_trace lib (hq_method (attempt_request ctx req body)) (hw_world w) else ([], hw_world w)) = (pairs, world)"
    by fastforce
  let ?q = "with_trace pairs (attempt_request ctx req body)"
  obtain raw world' where "ht_do lib (hc_timeout c) ?q world = (Inr raw, world')" "200 \<le> rr_status raw"
    "rr_status raw < 300" "hw_result w' = Some \<lparr>rp_status = rr_status raw,
      rp_body = \<lparr>lb_reader = ht_cancel lib (rr_body raw), lb_remaining = hc_max_response c\<rparr>\<rparr>"
    using assms unfolding http_single_def Let_def trace
    by (auto split: sum.splits prod.splits if_splits)
  then show ?thesis by (metis fst_conv)
qed

lemma lifted_sleep:
  "rc_sleep cfg \<noteq> None \<Longrightarrow>
    hw_sent (snd (the (rc_sleep (lift_config cfg)) w d)) = hw_sent w \<and>
    hw_result (snd (the (rc_sleep (lift_config cfg)) w d)) = hw_result w"
  by (auto simp: lift_config_def in_world_def split: prod.splits)

lemma lifted_rand:
  "hw_sent (snd (re_rand (lift_env env) w)) = hw_sent w"
  "hw_result (snd (re_rand (lift_env env) w)) = hw_result w"
  by (simp_all add: lift_env_def in_world_def split: prod.splits)

text \<open>The configuration of a new client is normalised, and \<open>Do\<close> leaves its attempts alone.\<close>

lemma new_client_retry:
  "1 \<le> rc_max_attempts (hc_retry (new_http_client env cfg)) \<and>
   rc_max_attempts (hc_retry (new_http_client env cfg)) \<le> 5 \<and>
   rc_sleep (hc_retry (new_http_client env cfg)) \<noteq> None"
proof -
  let ?r = "(hf_retry cfg)\<lparr>rc_retryable := Some (case rc_retryable (hf_retry cfg) of Some f \<Rightarrow> f | None \<Rightarrow> http_retryable)\<rparr>"
  let ?n = "normalize_retry env ?r"
  have "retry_ok ?n" by (rule retry_normal.clean_acceptable)
  then have "1 \<le> rc_max_attempts ?n \<and> rc_max_attempts ?n \<le> 5 \<and> rc_sleep ?n \<noteq> None"
    by (simp add: retry_ok_def)
  moreover have "rc_max_attempts (hc_retry (new_http_client env cfg)) = rc_max_attempts ?n"
    "rc_sleep (hc_retry (new_http_client env cfg)) = rc_sleep ?n"
    by (simp_all add: new_http_client_def Let_def)
  ultimately show ?thesis by simp
qed

lemma normalized_lift:
  assumes "1 \<le> rc_max_attempts cfg" and "rc_max_attempts cfg \<le> 5" and "rc_sleep cfg \<noteq> None"
  shows "rc_max_attempts (normalize_retry e (lift_config cfg)) = rc_max_attempts cfg"
    "rc_sleep (normalize_retry e (lift_config cfg)) = rc_sleep (lift_config cfg)"
  using assms by (auto simp: normalize_retry_def Let_def lift_config_def default_pos_def at_most_def)

text \<open>What a call through the retry loop leaves in the world.\<close>

lemma do_with_response_facts:
  fixes w w' :: "('w, 's) http_world"
  assumes "c = new_http_client env cfg"
    and run: "do_with_response fl env lib c ctx req body w = (err, w')"
  shows "\<exists>xs. hw_sent w' = hw_sent w @ xs \<and> list_all (sent_as lib c (attempt_request ctx req body)) xs \<and>
      int (length xs) \<le> (if hc_retry_non_idempotent c \<or> is_idempotent (hq_method req) then rc_max_attempts (hc_retry c) else 1)"
    and "err \<noteq> None \<Longrightarrow> hw_result w' = hw_result w"
    and "err = None \<Longrightarrow> \<exists>v. http_single lib c ctx req body v = (None, w')"
proof -
  let ?once = "\<not> hc_retry_non_idempotent c \<and> \<not> is_idempotent (hq_method req)"
  let ?fn = "http_single lib c ctx req body" and ?env = "lift_env env :: ('w, 's) http_world retry_env"
  let ?cfg = "normalize_retry ?env (lift_config (hc_retry c))"
  note attempts = new_client_retry [of env cfg, folded assms(1)]
  then have cfg: "rc_max_attempts ?cfg = rc_max_attempts (hc_retry c)"
    "rc_sleep ?cfg = rc_sleep (lift_config (hc_retry c))"
    by (simp_all add: normalized_lift)
  define v where "v = (if rc_budget ?cfg > 0 then re_with_timeout ?env (rc_budget ?cfg) w else w)"
  have v: "hw_sent v = hw_sent w" "hw_result v = hw_result w" by (simp_all add: v_def lift_env_def)
  let ?loop = "retry_loop fl ?env ?cfg ?fn 1 (rc_initial ?cfg) None v"
  have loop: "?loop = (err, w')" if "\<not> ?once"
    using run that by (simp add: do_with_response_def retry_do_def Let_def v_def)
  have once: "?fn w = (err, w')" if ?once
    using run that by (simp add: do_with_response_def)
  have sleeps: "hw_sent (snd (the (rc_sleep ?cfg) z d)) = hw_sent z"
    "hw_result (snd (the (rc_sleep ?cfg) z d)) = hw_result z" for z d
    using lifted_sleep [of "hc_retry c" z d] attempts by (simp_all add: cfg)
  show "\<exists>xs. hw_sent w' = hw_sent w @ xs \<and> list_all (sent_as lib c (attempt_request ctx req body)) xs \<and>
      int (length xs) \<le> (if hc_retry_non_idempotent c \<or> is_idempotent (hq_method req) then rc_max_attempts (hc_retry c) else 1)"
  proof (cases ?once)
    case True
    then show ?thesis
      using single_sent [of lib c ctx req body w] once by auto
  next
    case False
    from retry_loop_trace [where T = hw_sent and fn = ?fn and env = ?env and cfg = ?cfg and attempt = 1,
        OF single_sent lifted_rand(1) sleeps(1)]
    obtain xs where "list_all (sent_as lib c (attempt_request ctx req body)) xs"
      "length xs \<le> nat (rc_max_attempts ?cfg + 1 - 1)" "hw_sent (snd ?loop) = hw_sent v @ xs" by blast
    then show ?thesis
      using False attempts loop [OF False] v cfg by (intro exI [of _ xs]) auto
  qed
  show "hw_result w' = hw_result w" if failing: "err \<noteq> None"
  proof (cases ?once)
    case True
    then show ?thesis using once failing by (auto intro: single_failed)
  next
    case False
    obtain e where e: "err = Some e" using failing by auto
    have "hw_result w' = hw_result v"
      by (rule retry_loop_failed [where R = hw_result, OF single_failed lifted_rand(2) sleeps(2) loop [OF False, unfolded e]])
    then show ?thesis using v by simp
  qed
  show "\<exists>v. ?fn v = (None, w')" if "err = None"
  proof (cases ?once)
    case False
    from retry_loop_last [OF loop [OF False, unfolded that]] show ?thesis using attempts cfg by auto
  qed (use once that in auto)
qed

subsection \<open>Properties\<close>

text \<open>What a call ends with: nothing was sent, or the call through the retry loop returned.\<close>

lemma http_do_cases:
  assumes "http_do fl sc env lib c ctx req now_before now_after b world = (err, w, b')"
  obtains (nosend) "hw_sent w = []" "err \<noteq> None" "hw_result w = None"
  | (sent) body w0 where "hw_sent w0 = []" "hw_result w0 = None"
      "do_with_response fl env lib c ctx req body w0 = (err, w)"
      "if buffers_body c req
       then buffer_body (default_pos (hc_max_body c) (10 * 2 ^ 20)) (the (hq_body req)) = Inr (the body) \<and> body \<noteq> None
       else body = None"
proof -
  let ?w0 = "\<lparr>hw_world = world, hw_result = None, hw_sent = [], hw_labels = []\<rparr>"
  let ?buffer = "buffer_body (default_pos (hc_max_body c) (10 * 2 ^ 20)) (the (hq_body req))"
  define buffered where "buffered = (if buffers_body c req
    then (case ?buffer of Inl err \<Rightarrow> Inl err | Inr bytes \<Rightarrow> Inr (Some bytes)) else Inr None)"
  show thesis
  proof (cases buffered)
    case (Inl e)
    then have "err \<noteq> None \<and> w = ?w0" using assms by (auto simp: http_do_def buffered_def [symmetric])
    then show thesis using nosend by simp
  next
    case (Inr body)
    then have body: "if buffers_body c req then ?buffer = Inr (the body) \<and> body \<noteq> None else body = None"
      by (auto simp: buffered_def split: if_splits sum.splits)
    obtain e' w' where run: "do_with_response fl env lib c ctx req body ?w0 = (e', w')" by fastforce
    have "w = ?w0 \<and> err \<noteq> None \<or> w = w' \<and> err = e'"
    proof (cases b)
      case None
      then show ?thesis using assms Inr run by (simp add: http_do_def buffered_def [symmetric])
    next
      case (Some br)
      then show ?thesis
        using assms Inr run
        by (auto simp: http_do_def buffered_def [symmetric] through_breaker_def Let_def split: option.splits sum.splits prod.splits)
    qed
    then show thesis using nosend sent [OF _ _ _ body, of ?w0] run by auto
  qed
qed

text \<open>
  C7. A call sends one request or repeats it: a method that is not idempotent goes out at most once
  unless the client allows otherwise, any other at most five times. Without telemetry the repeated
  requests are exactly the same; with it they differ only in the headers the propagator sets for
  the span of the attempt. A request goes out more than once only when it has no body or its whole
  body, within the limit, was read before, so that every attempt carries all of it.
\<close>

theorem http_attempts:
  assumes client: "c = new_http_client env cfg"
    and run: "http_do fl sc env lib c ctx req now_before now_after b world = (err, w, b')"
  shows "\<exists>body. list_all (\<lambda>sent. \<exists>pairs. sent = with_trace pairs (attempt_request ctx req body) \<and>
      (if hf_telemetry cfg then \<exists>v. pairs = fst (ht_trace lib (hq_method req) v) else pairs = [])) (hw_sent w) \<and>
    length (hw_sent w) \<le> (if hf_retry_non_idempotent cfg \<or> is_idempotent (hq_method req) then 5 else 1) \<and>
    (length (hw_sent w) \<le> 1 \<or> (case hq_body req of None \<Rightarrow> body = None
       | Some (bytes, e) \<Rightarrow> e = None \<and> body = Some bytes \<and> int (length bytes) \<le> body_limit (hf_max_body cfg)))"
  using run
proof (cases rule: http_do_cases)
  case nosend
  then show ?thesis by simp
next
  case (sent body w0)
  have fields: "hc_telemetry c = hf_telemetry cfg" "hc_retry_non_idempotent c = hf_retry_non_idempotent cfg" "hc_max_body c = body_limit (hf_max_body cfg)"
    by (simp_all add: client new_http_client_def Let_def)
  then have limit: "default_pos (hc_max_body c) (10 * 2 ^ 20) = body_limit (hf_max_body cfg)"
    by (simp add: body_limit_def default_pos_def at_most_def)
  note attempts = new_client_retry [of env cfg, folded client]
  obtain xs where xs: "hw_sent w = xs" "list_all (sent_as lib c (attempt_request ctx req body)) xs"
    "int (length xs) \<le> (if hc_retry_non_idempotent c \<or> is_idempotent (hq_method req) then rc_max_attempts (hc_retry c) else 1)"
    using do_with_response_facts(1) [OF client sent(3)] sent(1) by auto
  have "length xs \<le> 1 \<or> (case hq_body req of None \<Rightarrow> body = None
     | Some (bytes, e) \<Rightarrow> e = None \<and> body = Some bytes \<and> int (length bytes) \<le> body_limit (hf_max_body cfg))"
  proof (cases "buffers_body c req")
    case True
    then show ?thesis
      using sent(4) limit by (auto simp: buffers_body_def buffer_body_def split: if_splits option.splits)
  next
    case False
    then show ?thesis
      using sent(4) xs(3) by (cases "hq_body req") (auto simp: buffers_body_def split: if_splits)
  qed
  moreover have "list_all (\<lambda>sent. \<exists>pairs. sent = with_trace pairs (attempt_request ctx req body) \<and>
      (if hf_telemetry cfg then \<exists>v. pairs = fst (ht_trace lib (hq_method req) v) else pairs = [])) xs"
    using xs(2) fields(1) by (auto simp: list_all_iff sent_as_def attempt_request_def split: if_splits)
  ultimately show ?thesis
    using xs attempts fields by (intro exI [of _ body]) (auto split: if_splits)
qed

definition demo_http_env :: "nat retry_env" where
  "demo_http_env = \<lparr>re_ctx_err = (\<lambda>w. None), re_with_timeout = (\<lambda>d w. w), re_rand = (\<lambda>w. (0, w)),
    re_retryable = (\<lambda>e. True), re_sleep = (\<lambda>w d. (None, w))\<rparr>"

definition demo_http_config :: "nat http_config" where
  "demo_http_config = \<lparr>hf_timeout = 0,
    hf_retry = \<lparr>rc_max_attempts = 0, rc_budget = 0, rc_initial = 0, rc_max = 0, rc_multiplier = 0,
      rc_retryable = None, rc_sleep = None, rc_jitter = 0, rc_disable_jitter = True\<rparr>,
    hf_telemetry = True, hf_service = ''user'', hf_retry_non_idempotent = False, hf_max_body = 0, hf_max_response = 0\<rparr>"

text \<open>A server that answers 503 twice and then 200 with a body that has not arrived yet.\<close>

definition demo_http_lib :: "(nat, bool \<times> string) http_lib" where
  "demo_http_lib = \<lparr>ht_do = (\<lambda>d q n. (Inr \<lparr>rr_status = if n < 2 then 503 else 200, rr_text = [],
      rr_body = (False, ''data'')\<rparr>, n + 1)), ht_cancel = (\<lambda>s. (True, [])),
    ht_trace = (\<lambda>verb n. ([(''Traceparent'', replicate (Suc n) CHR ''a'')], n))\<rparr>"

definition demo_http_get :: http_request where
  "demo_http_get = \<lparr>hq_method = ''GET'', hq_header = (\<lambda>h. []), hq_body = Some (''q'', None)\<rparr>"

definition demo_ctx :: meta_ctx where
  "demo_ctx = \<lparr>mx_values = no_values, mx_log_trace = []\<rparr>"

definition demo_call :: "goerr option \<times> (nat, bool \<times> string) http_world \<times> breaker option" where
  "demo_call = http_do (\<lambda>x. x) (\<lambda>e. True) demo_http_env demo_http_lib
    (new_http_client demo_http_env demo_http_config) demo_ctx demo_http_get 1 2 None 0"

lemmas demo_http_defs = demo_http_env_def demo_http_config_def demo_http_lib_def demo_http_get_def demo_ctx_def

lemma demo_call_runs: "fst demo_call = None \<and> length (hw_sent (fst (snd demo_call))) = 3"
  unfolding demo_call_def demo_http_defs by code_simp

theorem http_attempts_witness:
  "\<exists>body. list_all (\<lambda>sent. \<exists>n. sent = with_trace [(''Traceparent'', replicate (Suc n) CHR ''a'')]
      (attempt_request demo_ctx demo_http_get body)) (hw_sent (fst (snd demo_call))) \<and> body = Some ''q''"
proof -
  have "http_do (\<lambda>x. x) (\<lambda>e. True) demo_http_env demo_http_lib (new_http_client demo_http_env demo_http_config)
      demo_ctx demo_http_get 1 2 None 0 = (fst demo_call, fst (snd demo_call), snd (snd demo_call))"
    by (simp add: demo_call_def)
  from http_attempts [OF refl this] demo_call_runs show ?thesis
    by (fastforce simp: list_all_iff demo_http_config_def demo_http_lib_def demo_http_get_def)
qed

text \<open>
  The response of a successful call cannot be read beyond what has already arrived:
  the attempt's context is cancelled before \<open>Do\<close> returns the response, so, with a library
  whose body stream ends in the error of a cancelled context unless it has arrived in full,
  a caller who reads the body of a response still under way gets \<open>context canceled\<close> (or the
  error of the size limit), never the end of the body.
\<close>

theorem http_body_cancelled:
  assumes run: "http_do fl sc env lib (new_http_client env cfg) ctx req now_before now_after b world = (None, w, b')"
    and reader: "byte_reader read valid content final"
    and streams: "\<And>s. valid (ht_cancel lib s)"
    and cancelled: "\<And>s. \<not> arrived s \<Longrightarrow> final (ht_cancel lib s) = ctx_canceled"
    and sizes: "\<forall>n \<in> set ns. 0 < n" "\<And>s. length (content (ht_cancel lib s)) < length ns"
  shows "\<exists>resp stream. hw_result w = Some resp \<and> 200 \<le> rp_status resp \<and> rp_status resp < 300 \<and>
    (\<exists>d q v raw. fst (ht_do lib d q v) = Inr raw \<and> rr_body raw = stream) \<and>
    (\<not> arrived stream \<longrightarrow> snd (read_all (limited_read read) ns (rp_body resp)) \<in>
      {Some ctx_canceled, Some err_response_body_too_large})"
  using run
proof (cases rule: http_do_cases)
  case (sent body w0)
  let ?c = "new_http_client env cfg"
  from do_with_response_facts(3) [OF refl sent(3)]
  obtain v where "http_single lib ?c ctx req body v = (None, w)" by auto
  from single_ok [OF this] obtain raw d q u where
    raw: "fst (ht_do lib d q u) = Inr raw"
      "200 \<le> rr_status raw" "rr_status raw < 300"
    and resp: "hw_result w = Some \<lparr>rp_status = rr_status raw,
      rp_body = \<lparr>lb_reader = ht_cancel lib (rr_body raw), lb_remaining = hc_max_response ?c\<rparr>\<rparr>"
    by blast
  have "0 \<le> hc_max_response ?c"
    by (simp add: new_http_client_def Let_def body_limit_def at_most_def default_pos_def)
  from read_all_limited [OF reader streams this sizes, of "rr_body raw"] cancelled [of "rr_body raw"]
  show ?thesis using raw resp by (intro exI conjI) auto
qed simp

text \<open>The body stream of the server above: cut off by the cancellation.\<close>

definition demo_net_read :: "nat \<Rightarrow> bool \<times> string \<Rightarrow> read_result \<times> (bool \<times> string)" where
  "demo_net_read n s = (case s of (cancelled, bytes) \<Rightarrow>
    if cancelled then (([], Some ctx_canceled), s)
    else ((take n bytes, if bytes = [] then Some io_eof else None), (cancelled, drop n bytes)))"

interpretation demo_net: byte_reader demo_net_read "\<lambda>s. True" "\<lambda>s. if fst s then [] else snd s"
    "\<lambda>s. if fst s then ctx_canceled else io_eof"
  by unfold_locales (auto simp: demo_net_read_def split: prod.splits if_splits)

theorem http_body_cancelled_witness:
  "\<exists>resp. hw_result (fst (snd demo_call)) = Some resp \<and>
    snd (read_all (limited_read demo_net_read) [512] (rp_body resp)) \<in>
      {Some ctx_canceled, Some err_response_body_too_large}"
proof -
  let ?c = "new_http_client demo_http_env demo_http_config"
  have ends: "ht_cancel demo_http_lib s = (True, [])" for s by (simp add: demo_http_lib_def)
  have call: "http_do (\<lambda>x. x) (\<lambda>e. True) demo_http_env demo_http_lib ?c demo_ctx demo_http_get 1 2 None 0 =
      (None, fst (snd demo_call), snd (snd demo_call))"
    using demo_call_runs by (simp add: demo_call_def prod_eq_iff)
  have body: "rr_body raw = (False, ''data'')" if "fst (ht_do demo_http_lib d q v) = Inr raw" for d q v raw
    using that by (auto simp: demo_http_lib_def)
  from http_body_cancelled [where arrived = "\<lambda>s. snd s = []", OF call demo_net.byte_reader_axioms, of "[512]"] body
  show ?thesis by (fastforce simp: ends)
qed

end
