(* ===== verification/Metrics.thy ===== *)
theory Metrics
  imports Diagnostics Go_Utf8 "HOL-Library.Multiset"
begin

text \<open>
  The Prometheus metrics of a service, \<open>metrics/metrics.go\<close>: labels, the observations of
  requests, dependencies, breakers and connection pools, and the access control of the
  scrape endpoint. The collectors are counters, gauges and histograms by metric name and
  label values; a counter is the number of its increments.
\<close>

subsection \<open>Labels\<close>

definition bounded_label :: "string \<Rightarrow> string" where
  "bounded_label value =
    (let value = trim_space value
     in if value = [] then ''unknown'' else if length value > 128 then take 128 value else value)"

record metrics =
  mt_service :: "string option"
  mt_counts :: "(string \<times> string list) multiset"
  mt_gauges :: "string \<times> string list \<Rightarrow> rat"
  mt_observed :: "(string \<times> string list \<times> duration) multiset"

definition init_collectors :: metrics where
  "init_collectors = \<lparr>mt_service = None, mt_counts = {#}, mt_gauges = (\<lambda>k. 0), mt_observed = {#}\<rparr>"

definition metrics_init :: "string \<Rightarrow> metrics \<Rightarrow> metrics" where
  "metrics_init name m =
    (let name = trim_space name; name = (if name = [] then ''unknown'' else name)
     in m\<lparr>mt_service := Some (bounded_label name)\<rparr>)"

definition service_label :: "metrics \<Rightarrow> string" where
  "service_label m = (case mt_service m of Some name \<Rightarrow> name | None \<Rightarrow> ''unknown'')"

definition count_up :: "string \<Rightarrow> string list \<Rightarrow> metrics \<Rightarrow> metrics" where
  "count_up metric labels m = m\<lparr>mt_counts := add_mset (metric, labels) (mt_counts m)\<rparr>"

definition observe :: "string \<Rightarrow> string list \<Rightarrow> duration \<Rightarrow> metrics \<Rightarrow> metrics" where
  "observe metric labels d m = m\<lparr>mt_observed := add_mset (metric, labels, d) (mt_observed m)\<rparr>"

definition set_gauge :: "string \<Rightarrow> string list \<Rightarrow> rat \<Rightarrow> metrics \<Rightarrow> metrics" where
  "set_gauge metric labels v m = m\<lparr>mt_gauges := (mt_gauges m)((metric, labels) := v)\<rparr>"

definition add_gauge :: "string \<Rightarrow> string list \<Rightarrow> rat \<Rightarrow> metrics \<Rightarrow> metrics" where
  "add_gauge metric labels v m = set_gauge metric labels (mt_gauges m (metric, labels) + v) m"

subsection \<open>Observations\<close>

definition observe_dependency :: "string \<Rightarrow> string \<Rightarrow> string \<Rightarrow> duration \<Rightarrow> metrics \<Rightarrow> metrics" where
  "observe_dependency dependency operation status d m =
    (let dependency = (if dependency = [] then ''unknown'' else dependency);
         operation = (if operation = [] then ''unknown'' else operation);
         status = (if status = [] then ''error'' else status);
         d = (if d < 0 then 0 else d)
     in observe ''dependency_request_duration_seconds''
          [service_label m, bounded_label dependency, bounded_label operation] d
          (count_up ''dependency_requests_total''
            [service_label m, bounded_label dependency, bounded_label operation, bounded_label status] m))"

definition breaker_states :: "string list" where
  "breaker_states = [''closed'', ''open'', ''half_open'']"

definition observe_circuit_breaker :: "string \<Rightarrow> string \<Rightarrow> metrics \<Rightarrow> metrics" where
  "observe_circuit_breaker name state m =
    (let name = (if name = [] then ''default'' else name)
     in fold (\<lambda>candidate m. set_gauge ''circuit_breaker_state'' [service_label m, bounded_label name, candidate]
          (if candidate = state then 1 else 0) m) breaker_states m)"

record db_stats =
  ds_open :: int
  ds_in_use :: int
  ds_idle :: int
  ds_wait_count :: int
  ds_wait_duration :: duration

definition observe_db_pool :: "string \<Rightarrow> db_stats \<Rightarrow> metrics \<Rightarrow> metrics" where
  "observe_db_pool name stats m =
    (let name = (if name = [] then ''default'' else name)
     in fold (\<lambda>(state, v) m. set_gauge ''db_pool_stats'' [service_label m, bounded_label name, state] v m)
          [(''open'', of_int (ds_open stats)), (''in_use'', of_int (ds_in_use stats)),
           (''idle'', of_int (ds_idle stats)), (''wait_count'', of_int (ds_wait_count stats)),
           (''wait_duration_seconds'', of_int (ds_wait_duration stats) / of_int second)] m)"

subsection \<open>HTTP and gRPC servers\<close>

text \<open>
  The Gin middleware before and after the handlers; the part after them is deferred, so it
  runs when they panic too. \<open>None\<close> is a path that is not measured, otherwise the service label
  the request started under.
\<close>

definition unmeasured_paths :: "string list" where
  "unmeasured_paths = [''/metrics'', ''/health'', ''/ready'', ''/api/health'']"

definition gin_begin :: "string \<Rightarrow> metrics \<Rightarrow> string option \<times> metrics" where
  "gin_begin path m =
    (if path \<in> set unmeasured_paths then (None, m)
     else (Some (service_label m), add_gauge ''http_requests_in_flight'' [service_label m] 1 m))"

text \<open>
  The deferred end of a request. \<open>WithLabelValues\<close> panics on a label that is not valid UTF-8, after
  the gauge has been lowered; the result says so.
\<close>

definition gin_end :: "string \<Rightarrow> string \<Rightarrow> string \<Rightarrow> int \<Rightarrow> duration \<Rightarrow> metrics \<Rightarrow> bool \<times> metrics" where
  "gin_end service verb full_path status d m =
    (let path = (if full_path = [] then ''unknown'' else full_path);
         m = add_gauge ''http_requests_in_flight'' [service] (- 1) m;
         labels = [service, bounded_label verb, bounded_label path, bounded_label (format_int status)]
     in if \<not> list_all utf8_valid labels then (True, m)
        else (False, observe ''http_request_duration_seconds'' [service, bounded_label verb, bounded_label path] d
          (count_up ''http_requests_total'' labels m)))"

text \<open>The gRPC interceptors observe a call only when the handler returns.\<close>

definition grpc_observed :: "string \<Rightarrow> string \<Rightarrow> duration \<Rightarrow> metrics \<Rightarrow> metrics" where
  "grpc_observed full_method code d m =
    observe ''grpc_server_request_duration_seconds'' [service_label m, bounded_label full_method] d
      (count_up ''grpc_server_requests_total'' [service_label m, bounded_label full_method, code] m)"

subsection \<open>The scrape endpoint\<close>

definition metrics_split_cidrs :: "string \<Rightarrow> string list" where
  "metrics_split_cidrs value = filter (\<lambda>p. p \<noteq> []) (map trim_space (split_on (CHR '','') value))"

fun metrics_parse_cidrs :: "('ip, 'net) net_lib \<Rightarrow> string list \<Rightarrow> 'net list \<Rightarrow> bool \<Rightarrow> 'net list \<times> bool" where
  "metrics_parse_cidrs lib [] allowed invalid = (allowed, invalid)"
| "metrics_parse_cidrs lib (v # vs) allowed invalid =
    (let v = trim_space v
     in if v = [] then metrics_parse_cidrs lib vs allowed True
        else (case nl_parse_cidr lib v of
            None \<Rightarrow> metrics_parse_cidrs lib vs allowed True
          | Some n \<Rightarrow> metrics_parse_cidrs lib vs (allowed @ [n]) invalid))"

definition metrics_access_allowed ::
  "('ip, 'net) net_lib \<Rightarrow> pprof_request \<Rightarrow> string \<Rightarrow> 'net list \<Rightarrow> bool \<Rightarrow> bool" where
  "metrics_access_allowed lib req token allowed invalid =
    (let value = trim_space (pq_authorization req); n = length ''Bearer '';
         got = trim_space (drop n value); remote = pq_remote req
     in if invalid then False
        else if token \<noteq> [] \<and> (length value < n \<or> \<not> equal_fold (take n value) ''Bearer '') then False
        else if token \<noteq> [] \<and> (length got \<noteq> length token \<or> got \<noteq> token) then False
        else if allowed = [] then token \<noteq> []
        else (case nl_parse_ip lib
                (case split_host_port remote of Inl e \<Rightarrow> remote | Inr (host, port) \<Rightarrow> host) of
              None \<Rightarrow> False
            | Some ip \<Rightarrow> list_ex (\<lambda>network. nl_contains lib network ip) allowed))"

definition metrics_served :: "('ip, 'net) net_lib \<Rightarrow> string \<Rightarrow> string list \<Rightarrow> pprof_request \<Rightarrow> bool" where
  "metrics_served lib token cidrs req =
    (let (allowed, invalid) = metrics_parse_cidrs lib cidrs [] False
     in metrics_access_allowed lib req token allowed invalid)"

definition loopback_cidrs :: "string list" where
  "loopback_cidrs = [''127.0.0.0/8'', ''::1/128'']"

definition metrics_from_env :: "('ip, 'net) net_lib \<Rightarrow> (string \<Rightarrow> string) \<Rightarrow> pprof_request \<Rightarrow> bool" where
  "metrics_from_env lib getenv =
    (let token = trim_space (getenv ''METRICS_TOKEN'');
         cidrs = metrics_split_cidrs (getenv ''METRICS_ALLOWED_CIDRS'');
         cidrs = (if token = [] \<and> cidrs = [] then loopback_cidrs else cidrs)
     in metrics_served lib token cidrs)"

subsection \<open>Both endpoints are guarded alike\<close>

lemma metrics_parse_cidrs_acc:
  "metrics_parse_cidrs lib vs allowed invalid =
    (let (networks, bad) = parse_cidrs lib vs in (allowed @ networks, invalid \<or> bad))"
  by (induction lib vs allowed invalid rule: metrics_parse_cidrs.induct)
    (auto simp: Let_def split: option.splits prod.splits)

text \<open>
  The two copies of the access check agree: the scrape endpoint lets a request through
  exactly when the profiler, configured with the same token and networks, would.
\<close>

theorem metrics_guard_agrees:
  "metrics_served lib token cidrs req = pprof_served lib token cidrs req"
proof -
  obtain networks invalid where p: "parse_cidrs lib cidrs = (networks, invalid)" by fastforce
  have "metrics_access_allowed lib req token networks invalid \<longleftrightarrow>
      \<not> (invalid \<or> (networks = [] \<and> token = []) \<or> \<not> source_allowed lib req networks \<or> \<not> token_allowed req token)"
    unfolding metrics_access_allowed_def source_allowed_def token_allowed_def Let_def by simp
  then show ?thesis
    by (simp add: metrics_served_def pprof_served_def metrics_parse_cidrs_acc p)
qed

text \<open>An environment that configures neither leaves the scrape to loopback sources.\<close>

lemma metrics_default_loopback:
  assumes "trim_space (getenv ''METRICS_TOKEN'') = []" and "metrics_split_cidrs (getenv ''METRICS_ALLOWED_CIDRS'') = []"
  shows "metrics_from_env lib getenv req \<longleftrightarrow> pprof_served lib [] loopback_cidrs req"
  using assms by (simp add: metrics_from_env_def metrics_guard_agrees Let_def)

subsection \<open>Requests in flight\<close>

text \<open>
  The interleavings of requests with each other, with changes of the service label and with
  the other observations. The state keeps the service labels of the requests that run and
  the number of those that have ended and were counted.
\<close>

record metered =
  me_metrics :: metrics
  me_running :: "string multiset"
  me_ended :: nat

inductive metered_step :: "metered \<Rightarrow> metered \<Rightarrow> bool" where
  begins: "gin_begin path (me_metrics s) = (Some service, m) \<Longrightarrow>
    metered_step s (s\<lparr>me_metrics := m, me_running := add_mset service (me_running s)\<rparr>)"
| unmeasured: "gin_begin path (me_metrics s) = (None, m) \<Longrightarrow> metered_step s (s\<lparr>me_metrics := m\<rparr>)"
| ends: "service \<in># me_running s \<Longrightarrow>
    gin_end service verb full_path status d (me_metrics s) = (panics, m) \<Longrightarrow>
    metered_step s (s\<lparr>me_metrics := m, me_running := me_running s - {#service#},
      me_ended := (if panics then me_ended s else me_ended s + 1)\<rparr>)"
| renamed: "metered_step s (s\<lparr>me_metrics := metrics_init name (me_metrics s)\<rparr>)"
| dependency: "metered_step s (s\<lparr>me_metrics := observe_dependency dep operation status d (me_metrics s)\<rparr>)"
| breaker: "metered_step s (s\<lparr>me_metrics := observe_circuit_breaker name state (me_metrics s)\<rparr>)"
| pool: "metered_step s (s\<lparr>me_metrics := observe_db_pool name stats (me_metrics s)\<rparr>)"
| grpc: "metered_step s (s\<lparr>me_metrics := grpc_observed full_method code d (me_metrics s)\<rparr>)"

definition http_total :: "metrics \<Rightarrow> nat" where
  "http_total m = size (filter_mset (\<lambda>(metric, labels). metric = ''http_requests_total'') (mt_counts m))"

definition in_flight_gauge :: "metrics \<Rightarrow> string \<Rightarrow> rat" where
  "in_flight_gauge m service = mt_gauges m (''http_requests_in_flight'', [service])"

lemmas meter_defs = http_total_def in_flight_gauge_def count_up_def observe_def add_gauge_def set_gauge_def

lemma meter_frames:
  "http_total (metrics_init name m) = http_total m" "in_flight_gauge (metrics_init name m) = in_flight_gauge m"
  "http_total (observe_dependency dep operation status d m) = http_total m"
  "in_flight_gauge (observe_dependency dep operation status d m) = in_flight_gauge m"
  "http_total (observe_circuit_breaker name state m) = http_total m"
  "in_flight_gauge (observe_circuit_breaker name state m) = in_flight_gauge m"
  "http_total (observe_db_pool name stats m) = http_total m"
  "in_flight_gauge (observe_db_pool name stats m) = in_flight_gauge m"
  "http_total (grpc_observed full_method code d m) = http_total m"
  "in_flight_gauge (grpc_observed full_method code d m) = in_flight_gauge m"
  by (simp_all add: fun_eq_iff meter_defs metrics_init_def observe_dependency_def observe_circuit_breaker_def
      observe_db_pool_def grpc_observed_def breaker_states_def Let_def)

lemma gin_begin_facts:
  "gin_begin path m = (Some service, m') \<Longrightarrow> http_total m' = http_total m \<and>
    in_flight_gauge m' = (in_flight_gauge m)(service := in_flight_gauge m service + 1)"
  "gin_begin path m = (None, m') \<Longrightarrow> m' = m"
  by (auto simp: gin_begin_def meter_defs fun_eq_iff split: if_splits)

lemma gin_end_facts:
  "gin_end service verb full_path status d m = (panics, m') \<Longrightarrow>
    http_total m' = (if panics then http_total m else http_total m + 1)"
  "gin_end service verb full_path status d m = (panics, m') \<Longrightarrow>
    in_flight_gauge m' = (in_flight_gauge m)(service := in_flight_gauge m service - 1)"
  by (auto simp: gin_end_def meter_defs Let_def fun_eq_iff split: if_splits)

definition metered_ok :: "metered \<Rightarrow> bool" where
  "metered_ok s \<longleftrightarrow> http_total (me_metrics s) = me_ended s \<and>
    (\<forall>service. in_flight_gauge (me_metrics s) service = of_nat (count (me_running s) service))"

lemma count_remove: "x \<in># M \<Longrightarrow> rat_of_nat (count (M - {#x#}) x) = rat_of_nat (count M x) - 1"
  by (simp add: of_nat_diff Suc_leI)

lemma metered_step_ok:
  assumes "metered_ok s" and "metered_step s t"
  shows "metered_ok t"
  using assms(2,1)
proof (induction rule: metered_step.induct)
  case (begins path s service m)
  with gin_begin_facts(1) [OF begins.hyps] show ?case by (auto simp: metered_ok_def)
next
  case (unmeasured path s m)
  with gin_begin_facts(2) [OF unmeasured.hyps] show ?case by (simp add: metered_ok_def)
next
  case (ends service s verb full_path status d panics m)
  with gin_end_facts [OF ends.hyps(2)] show ?case by (auto simp: metered_ok_def count_remove)
qed (simp_all add: metered_ok_def meter_frames)

interpretation metered_steps: step_invariant metered_step metered_ok
  by unfold_locales (rule metered_step_ok)

definition metered_start :: metered where
  "metered_start = \<lparr>me_metrics = init_collectors, me_running = {#}, me_ended = 0\<rparr>"

text \<open>
  C36. The gauge of requests in flight is exact: however requests start, return and panic,
  and even when the service label changes while they run, it is the number of running
  requests under each label, and the counter of requests has been raised once for every
  request that ended, unless its route was cut inside a character (\<open>gin_end\<close> panics).
\<close>

theorem in_flight_exact:
  assumes "metered_step\<^sup>*\<^sup>* metered_start s"
  shows "in_flight_gauge (me_metrics s) service = of_nat (count (me_running s) service) \<and>
    http_total (me_metrics s) = me_ended s"
  using metered_steps.steps_keep [OF assms]
  by (simp add: metered_ok_def metered_start_def init_collectors_def http_total_def in_flight_gauge_def)

theorem in_flight_exact_witness:
  "in_flight_gauge (snd (gin_begin ''/users'' init_collectors)) ''unknown'' = 1"
proof -
  let ?m = "snd (gin_begin ''/users'' init_collectors)"
  have "gin_begin ''/users'' (me_metrics metered_start) = (Some ''unknown'', ?m)"
    by (simp add: gin_begin_def metered_start_def init_collectors_def service_label_def unmeasured_paths_def)
  from begins [OF this]
  have "metered_step\<^sup>*\<^sup>* metered_start \<lparr>me_metrics = ?m, me_running = {#''unknown''#}, me_ended = 0\<rparr>"
    by (intro r_into_rtranclp) (simp add: metered_start_def)
  from in_flight_exact [OF this, of "''unknown''"] show ?thesis by simp
qed

text \<open>One state of a breaker is 1 and the others are 0, whichever was published before.\<close>

lemma breaker_gauge_one_hot:
  assumes "state \<in> set breaker_states" and "candidate \<in> set breaker_states"
  shows "mt_gauges (observe_circuit_breaker name state m) (''circuit_breaker_state'',
      [service_label m, bounded_label (if name = [] then ''default'' else name), candidate]) =
    (if candidate = state then 1 else 0)"
proof -
  have "service_label (set_gauge k ls v z) = service_label z" for k ls v z
    by (simp add: service_label_def set_gauge_def)
  then show ?thesis
    using assms by (auto simp: observe_circuit_breaker_def breaker_states_def set_gauge_def service_label_def Let_def)
qed

subsection \<open>Cut labels\<close>

text \<open>
  A label value that is not valid UTF-8 makes the collectors panic, and a cut at 128 bytes can fall
  inside a character.
\<close>

lemma bounded_label_cuts_characters:
  "utf8_valid (concat (replicate 43 msg_unit)) \<and> \<not> utf8_valid (bounded_label (concat (replicate 43 msg_unit)))"
  if "msg_unit = [CHR 0xE6, CHR 0x9C, CHR 0x8D]"
  unfolding that by code_simp

end
