(* ===== verification/Tls_Config.thy ===== *)
theory Tls_Config
  imports Config
begin

text \<open>
  The TLS settings of clients and servers: \<open>boot/tls.go\<close>, \<open>registry/tls.go\<close> and the server
  side of \<open>diagnostics/pprof.go\<close>; and the stores they protect, \<open>boot/redis.go\<close> and the pool
  settings of \<open>boot/db.go\<close>. Files, certificates and the system's pool of roots are
  parameters; a pool is the set of the authorities it trusts.
\<close>

record 'ca tls_lib =
  tf_read_file :: "string \<Rightarrow> goerr + string"
  tf_load_pair :: "string \<Rightarrow> string \<Rightarrow> goerr option"
  tf_system_pool :: "'ca set option"
  tf_parse_pem :: "string \<Rightarrow> 'ca list"

record 'ca tls_settings =
  ts_server_name :: string
  ts_roots :: "'ca set option"
  ts_certificate :: "(string \<times> string) option"
  ts_client_cas :: "'ca set option"
  ts_verify_clients :: bool

subsection \<open>Loading\<close>

text \<open>\<open>SystemCertPool\<close>, or an empty pool without one, and \<open>AppendCertsFromPEM\<close>.\<close>

definition ca_pool :: "'ca tls_lib \<Rightarrow> string \<Rightarrow> 'ca set option" where
  "ca_pool lib data =
    (let pool = (case tf_system_pool lib of Some roots \<Rightarrow> roots | None \<Rightarrow> {})
     in if tf_parse_pem lib data = [] then None else Some (pool \<union> set (tf_parse_pem lib data)))"

definition load_ca :: "'ca tls_lib \<Rightarrow> string \<Rightarrow> goerr + 'ca set option" where
  "load_ca lib ca_file =
    (if ca_file = [] then Inr None
     else (case tf_read_file lib ca_file of
         Inl err \<Rightarrow> Inl (Wrapf ''read CA file: %w'' err)
       | Inr data \<Rightarrow>
          (case ca_pool lib data of None \<Rightarrow> Inl (Errorf ''parse CA file %q'') | Some pool \<Rightarrow> Inr (Some pool))))"

definition load_key_pair :: "'ca tls_lib \<Rightarrow> string \<Rightarrow> string \<Rightarrow> goerr + (string \<times> string) option" where
  "load_key_pair lib cert_file key_file =
    (if cert_file = [] \<and> key_file = [] then Inr None
     else if cert_file = [] \<or> key_file = []
     then Inl (Errorf ''certFile and keyFile must be configured together'')
     else (case tf_load_pair lib cert_file key_file of
         Some err \<Rightarrow> Inl (Wrapf ''load client certificate: %w'' err)
       | None \<Rightarrow> Inr (Some (cert_file, key_file))))"

definition load_tls_config :: "'ca tls_lib \<Rightarrow> boot_tls \<Rightarrow> goerr + 'ca tls_settings option" where
  "load_tls_config lib cfg =
    (if \<not> bt_enable cfg then Inr None
     else (case load_ca lib (bt_ca_file cfg) of
         Inl err \<Rightarrow> Inl err
       | Inr roots \<Rightarrow>
          (case load_key_pair lib (bt_cert_file cfg) (bt_key_file cfg) of
             Inl err \<Rightarrow> Inl err
           | Inr certificate \<Rightarrow> Inr (Some \<lparr>ts_server_name = bt_server_name cfg, ts_roots = roots,
               ts_certificate = certificate, ts_client_cas = None, ts_verify_clients = False\<rparr>))))"

definition load_grpc_server_tls :: "'ca tls_lib \<Rightarrow> boot_tls \<Rightarrow> goerr + 'ca tls_settings option" where
  "load_grpc_server_tls lib cfg =
    (if \<not> bt_enable cfg then Inr None
     else if bt_cert_file cfg = [] \<or> bt_key_file cfg = []
     then Inl (Errorf ''gRPC server certFile and keyFile are required'')
     else (case load_tls_config lib cfg of
         Inl err \<Rightarrow> Inl err
       | Inr None \<Rightarrow> Inr None
       | Inr (Some s) \<Rightarrow>
          if \<not> bt_require_client_cert cfg then Inr (Some s)
          else if ts_roots s = None
          then Inl (Errorf ''gRPC server CAFile is required when client certificate verification is enabled'')
          else Inr (Some (s\<lparr>ts_client_cas := ts_roots s, ts_verify_clients := True\<rparr>))))"

definition registry_client_tls :: "'ca tls_lib \<Rightarrow> tls_config \<Rightarrow> goerr + 'ca tls_settings option" where
  "registry_client_tls lib c =
    (if \<not> tls_enable c then Inr None
     else (case load_ca lib (tls_ca_file c) of
         Inl err \<Rightarrow> Inl err
       | Inr roots \<Rightarrow>
          (case load_key_pair lib (tls_cert_file c) (tls_key_file c) of
             Inl err \<Rightarrow> Inl err
           | Inr certificate \<Rightarrow> Inr (Some \<lparr>ts_server_name = tls_server_name c, ts_roots = roots,
               ts_certificate = certificate, ts_client_cas = None, ts_verify_clients = False\<rparr>))))"

definition pprof_server_tls :: "'ca tls_lib \<Rightarrow> pprof_tls \<Rightarrow> goerr + 'ca tls_settings option" where
  "pprof_server_tls lib t =
    (if \<not> pt_enable t then Inr None
     else if pt_cert_file t = [] \<or> pt_key_file t = []
     then Inl (Errorf ''diagnostics: tls certFile and keyFile are required'')
     else (case tf_load_pair lib (pt_cert_file t) (pt_key_file t) of
         Some err \<Rightarrow> Inl (Wrapf ''diagnostics: load TLS certificate: %w'' err)
       | None \<Rightarrow>
          (let s = \<lparr>ts_server_name = [], ts_roots = None, ts_certificate = Some (pt_cert_file t, pt_key_file t),
             ts_client_cas = None, ts_verify_clients = False\<rparr>
           in if \<not> pt_require_client_cert t then Inr (Some s)
              else if pt_ca_file t = []
              then Inl (Errorf ''diagnostics: tls caFile is required when requireClientCert is enabled'')
              else (case tf_read_file lib (pt_ca_file t) of
                  Inl err \<Rightarrow> Inl (Wrapf ''diagnostics: read TLS CA file: %w'' err)
                | Inr data \<Rightarrow>
                   (case ca_pool lib data of
                      None \<Rightarrow> Inl (Errorf ''diagnostics: parse TLS CA file %q'')
                    | Some pool \<Rightarrow> Inr (Some (s\<lparr>ts_client_cas := Some pool, ts_verify_clients := True\<rparr>)))))))"

subsection \<open>Stores\<close>

record pool_settings =
  ps_max_idle :: int
  ps_max_open :: int
  ps_lifetime :: duration
  ps_idle_time :: duration
  ps_slow :: duration
  ps_prepare :: bool
  ps_ping :: bool

definition open_db_settings :: "database_config \<Rightarrow> pool_settings" where
  "open_db_settings cfg =
    (let week = 7 * 24 * 60 * 60;
         max_idle = at_most 10000 (default_pos (dbc_max_idle cfg) 10);
         max_open = at_most 10000 (default_pos (dbc_max_open cfg) 50);
         max_idle = (if max_idle > max_open then max_open else max_idle)
     in \<lparr>ps_max_idle = max_idle, ps_max_open = max_open,
         ps_lifetime = at_most week (default_pos (dbc_max_lifetime cfg) 3600) * second,
         ps_idle_time = at_most week (default_pos (dbc_max_idle_time cfg) 300) * second,
         ps_slow = wrap64 (default_pos (dbc_slow_threshold cfg) 200 * millisecond),
         ps_prepare = (dbc_prepare_stmt cfg \<noteq> Some False), ps_ping = (dbc_ping_on_open cfg \<noteq> Some False)\<rparr>)"

text \<open>
  \<open>OpenDB\<close> and \<open>OpenRedis\<close> with what the drivers answer; the boolean says whether a
  connection is left open.
\<close>

definition open_db ::
  "goerr option \<Rightarrow> goerr option \<Rightarrow> goerr option \<Rightarrow> database_config \<Rightarrow> (goerr + pool_settings) \<times> bool" where
  "open_db open_err sql_err ping_err cfg =
    (case open_err of
       Some err \<Rightarrow> (Inl (Wrapf ''open db: %w'' err), False)
     | None \<Rightarrow>
        (case sql_err of
           Some err \<Rightarrow> (Inl (Wrapf ''get sql.DB: %w'' err), False)
         | None \<Rightarrow>
            (case (if ps_ping (open_db_settings cfg) then ping_err else None) of
               Some err \<Rightarrow> (Inl (Wrapf ''db ping: %w'' err), False)
             | None \<Rightarrow> (Inr (open_db_settings cfg), True))))"

definition open_redis ::
  "'ca tls_lib \<Rightarrow> goerr option \<Rightarrow> redis_config \<Rightarrow> (goerr + 'ca tls_settings option) option \<times> bool" where
  "open_redis lib ping_err cfg =
    (if rd_addr cfg = [] then (None, False)
     else (case (if bt_enable (rd_tls cfg) then load_tls_config lib (rd_tls cfg) else Inr None) of
         Inl err \<Rightarrow> (Some (Inl (Wrapf ''redis TLS: %w'' err)), False)
       | Inr tls \<Rightarrow>
          (case ping_err of
             Some err \<Rightarrow> (Some (Inl (Wrapf ''redis ping: %w'' err)), False)
           | None \<Rightarrow> (Some (Inr tls), True))))"

subsection \<open>Properties\<close>

text \<open>The two loaders of client settings agree.\<close>

lemma client_tls_agrees:
  assumes "bt_enable b = tls_enable r" "bt_ca_file b = tls_ca_file r" "bt_cert_file b = tls_cert_file r"
    "bt_key_file b = tls_key_file r" "bt_server_name b = tls_server_name r"
  shows "load_tls_config lib b = registry_client_tls lib r"
  unfolding load_tls_config_def registry_client_tls_def assms by (rule refl)

text \<open>The pool of connections is bounded and consistent whatever the configuration says.\<close>

lemma pool_settings_bounded:
  "let s = open_db_settings cfg in 1 \<le> ps_max_idle s \<and> ps_max_idle s \<le> ps_max_open s \<and> ps_max_open s \<le> 10000 \<and>
    0 < ps_lifetime s \<and> ps_lifetime s \<le> 168 * hour \<and> 0 < ps_idle_time s \<and> ps_idle_time s \<le> 168 * hour"
  by (auto simp: open_db_settings_def Let_def at_most_def default_pos_def duration_units)

lemma load_ca_pool:
  "load_ca lib ca_file = Inr (Some pool) \<Longrightarrow> \<exists>data. tf_read_file lib ca_file = Inr data \<and> tf_parse_pem lib data \<noteq> [] \<and>
    pool = (case tf_system_pool lib of Some roots \<Rightarrow> roots | None \<Rightarrow> {}) \<union> set (tf_parse_pem lib data)"
  by (auto simp: load_ca_def ca_pool_def Let_def split: if_splits sum.splits option.splits)

text \<open>
  Verification of client certificates on the gRPC listener and on the profiling listener
  trusts more than the configured authority: the pool that client certificates are checked
  against holds every root of the system as well, so a certificate that any public authority
  issued is accepted.
\<close>

theorem client_certs_trust_system_roots:
  assumes roots: "tf_system_pool lib = Some roots"
    and server: "bt_require_client_cert cfg \<and> load_grpc_server_tls lib cfg = Inr (Some s) \<or>
      pt_require_client_cert t \<and> pprof_server_tls lib t = Inr (Some s)"
  shows "ts_verify_clients s \<and> (\<exists>configured. ts_client_cas s = Some (roots \<union> configured))"
  using server
proof
  assume grpc: "bt_require_client_cert cfg \<and> load_grpc_server_tls lib cfg = Inr (Some s)"
  then obtain s0 pool where "load_tls_config lib cfg = Inr (Some s0)" "ts_roots s0 = Some pool"
    "s = s0\<lparr>ts_client_cas := Some pool, ts_verify_clients := True\<rparr>"
    by (auto simp: load_grpc_server_tls_def split: if_splits sum.splits option.splits)
  moreover from this have "load_ca lib (bt_ca_file cfg) = Inr (Some pool)"
    by (auto simp: load_tls_config_def split: if_splits sum.splits)
  ultimately show ?thesis using load_ca_pool roots by fastforce
next
  assume "pt_require_client_cert t \<and> pprof_server_tls lib t = Inr (Some s)"
  then show ?thesis
    using roots by (auto simp: pprof_server_tls_def ca_pool_def Let_def split: if_splits sum.splits option.splits)
qed

definition demo_tls_lib :: "string tls_lib" where
  "demo_tls_lib = \<lparr>tf_read_file = (\<lambda>f. Inr f), tf_load_pair = (\<lambda>c k. None),
    tf_system_pool = Some {''public root''}, tf_parse_pem = (\<lambda>data. [data])\<rparr>"

definition demo_server_tls :: boot_tls where
  "demo_server_tls = \<lparr>bt_enable = True, bt_ca_file = ''internal ca'', bt_cert_file = ''crt'', bt_key_file = ''key'',
    bt_server_name = [], bt_require_client_cert = True\<rparr>"

theorem client_certs_trust_system_roots_witness:
  "\<exists>s. load_grpc_server_tls demo_tls_lib demo_server_tls = Inr (Some s) \<and>
    (\<exists>cas. ts_client_cas s = Some cas \<and> ''public root'' \<in> cas)"
proof -
  obtain s where s: "load_grpc_server_tls demo_tls_lib demo_server_tls = Inr (Some s)"
    by (simp add: load_grpc_server_tls_def load_tls_config_def load_ca_def ca_pool_def load_key_pair_def
        demo_tls_lib_def demo_server_tls_def)
  with client_certs_trust_system_roots [of demo_tls_lib "{''public root''}" demo_server_tls s]
  show ?thesis by (auto simp: demo_tls_lib_def demo_server_tls_def)
qed

end
