(* ===== verification/Notify.thy ===== *)
theory Notify
  imports Config
begin

text \<open>
  The event notifier, \<open>notify/notify.go\<close>: what endpoint it accepts, the global notifier, and
  which requests it sends. The URL parser, \<open>json.Marshal\<close>, \<open>url.JoinPath\<close> and the HTTP client
  are parameters; a payload is anything \<open>Marshal\<close> is given.
\<close>

subsection \<open>Notifiers\<close>

record notifier_config =
  nf_base_url :: string
  nf_token :: string
  nf_client_timeout :: "duration option"
  nf_require_tls :: bool
  nf_timeout :: duration
  nf_max_payload :: int

record notifier =
  no_base_url :: string
  no_token :: string
  no_client_timeout :: duration
  no_timeout :: duration
  no_max_payload :: int

definition new_notifier :: "('ip, 'net) net_lib \<Rightarrow> notifier_config \<Rightarrow> goerr + notifier" where
  "new_notifier lib cfg =
    (let base = trim_right_chars (trim_space (nf_base_url cfg)) ''/''
     in if base = [] then Inl (Errorf ''notify: empty base URL'')
        else (case nl_parse_url lib base of
            None \<Rightarrow> Inl (Errorf ''notify: invalid base URL %q'')
          | Some u \<Rightarrow>
             if (u_scheme u \<noteq> ''http'' \<and> u_scheme u \<noteq> ''https'') \<or> u_host u = [] \<or> u_has_user u \<or>
               u_raw_query u \<noteq> [] \<or> u_fragment u \<noteq> []
             then Inl (Errorf ''notify: invalid base URL %q'')
             else if nf_require_tls cfg \<and> u_scheme u \<noteq> ''https''
             then Inl (Errorf ''notify: TLS is required for the notifier endpoint'')
             else Inr \<lparr>no_base_url = base, no_token = nf_token cfg,
               no_client_timeout = (case nf_client_timeout cfg of Some t \<Rightarrow> t | None \<Rightarrow> 3 * second),
               no_timeout = default_pos (nf_timeout cfg) (3 * second),
               no_max_payload = at_most (16 * 2 ^ 20) (default_pos (nf_max_payload cfg) (2 ^ 20))\<rparr>))"

text \<open>The global notifier: \<open>Init\<close> drops it on an error, \<open>InitConfig\<close> keeps the one before.\<close>

definition plain_config :: "string \<Rightarrow> notifier_config" where
  "plain_config url = \<lparr>nf_base_url = url, nf_token = [], nf_client_timeout = None, nf_require_tls = False,
    nf_timeout = 0, nf_max_payload = 0\<rparr>"

definition notify_init :: "('ip, 'net) net_lib \<Rightarrow> string \<Rightarrow> notifier option" where
  "notify_init lib url =
    (if url = [] then None
     else (case new_notifier lib (plain_config url) of Inl err \<Rightarrow> None | Inr n \<Rightarrow> Some n))"

definition notify_init_config ::
  "('ip, 'net) net_lib \<Rightarrow> notifier_config \<Rightarrow> notifier option \<Rightarrow> goerr option \<times> notifier option" where
  "notify_init_config lib cfg global =
    (if nf_base_url cfg = [] then (None, None)
     else (case new_notifier lib cfg of Inl err \<Rightarrow> (Some err, global) | Inr n \<Rightarrow> (None, Some n)))"

subsection \<open>Sending\<close>

definition resource_char :: "char \<Rightarrow> bool" where
  "resource_char c \<longleftrightarrow> is_lower c \<or> is_upper c \<or> is_digit c \<or> c = CHR ''-'' \<or> c = CHR ''_''"

definition valid_resource :: "string \<Rightarrow> bool" where
  "valid_resource res \<longleftrightarrow> res \<noteq> [] \<and> length res \<le> 100 \<and> list_all resource_char res"

record notify_request =
  nq_target :: string
  nq_body :: string
  nq_authorization :: string
  nq_trace :: string
  nq_timeout :: "duration option"

text \<open>
  What is used of the libraries: \<open>JoinPath\<close>, \<open>Marshal\<close>, \<open>NewRequestWithContext\<close> and the
  exchange, which gives an error or a status.
\<close>

record ('p, 'w) notify_lib =
  nt_join_path :: "string \<Rightarrow> string list \<Rightarrow> goerr + string"
  nt_marshal :: "'p \<Rightarrow> goerr + string"
  nt_new_request :: "string \<Rightarrow> goerr option"
  nt_do :: "notify_request \<Rightarrow> 'w \<Rightarrow> (goerr + int) \<times> 'w"

text \<open>
  \<open>SendContext\<close> of a notifier; a context is whether it has a deadline and its trace
  identifier. The requests that were sent are the second result.
\<close>

definition send_context ::
  "('p, 'w) notify_lib \<Rightarrow> notifier option \<Rightarrow> bool \<Rightarrow> string \<Rightarrow> string \<Rightarrow> 'p \<Rightarrow> 'w \<Rightarrow>
   goerr option \<times> notify_request list \<times> 'w" where
  "send_context lib n has_deadline trace res payload w =
    (case n of
       None \<Rightarrow> (Some (Errorf ''notify: notifier is nil''), [], w)
     | Some n \<Rightarrow>
        if \<not> valid_resource res then (Some (Errorf ''notify: invalid resource %q''), [], w)
        else (case nt_join_path lib (no_base_url n) [''internal'', ''notify'', res] of
            Inl err \<Rightarrow> (Some (Wrapf ''notify: build URL: %w'' err), [], w)
          | Inr target \<Rightarrow>
             (case nt_marshal lib payload of
                Inl err \<Rightarrow> (Some (Wrapf ''notify: marshal: %w'' err), [], w)
              | Inr body \<Rightarrow>
                 if int (length body) > no_max_payload n
                 then (Some (Errorf ''notify: payload exceeds %d bytes''), [], w)
                 else (case nt_new_request lib target of
                     Some err \<Rightarrow> (Some (Wrapf ''notify: request: %w'' err), [], w)
                   | None \<Rightarrow>
                      (let q = \<lparr>nq_target = target, nq_body = body,
                         nq_authorization = (if no_token n \<noteq> [] then ''Bearer '' @ no_token n else []),
                         nq_trace = trace,
                         nq_timeout = (if \<not> has_deadline \<and> no_timeout n > 0 then Some (no_timeout n) else None)\<rparr>
                       in case nt_do lib q w of
                            (Inl err, w) \<Rightarrow> (Some (Wrapf ''notify: send: %w'' err), [q], w)
                          | (Inr status, w) \<Rightarrow>
                             (if status < 200 \<or> status \<ge> 300
                              then Some (Errorf ''notify: unexpected HTTP status %d'') else None, [q], w))))))"

definition send_context_e ::
  "('p, 'w) notify_lib \<Rightarrow> notifier option \<Rightarrow> bool \<Rightarrow> string \<Rightarrow> string \<Rightarrow> 'p \<Rightarrow> 'w \<Rightarrow>
   goerr option \<times> notify_request list \<times> 'w" where
  "send_context_e lib global has_deadline trace res payload w =
    (if global = None then (Some (Errorf ''notify: not initialized''), [], w)
     else send_context lib global has_deadline trace res payload w)"

text \<open>The package functions that only log a failure; \<open>Send\<close> has no context.\<close>

definition send_quietly ::
  "('p, 'w) notify_lib \<Rightarrow> notifier option \<Rightarrow> bool \<Rightarrow> string \<Rightarrow> string \<Rightarrow> 'p \<Rightarrow> 'w \<Rightarrow> notify_request list \<times> 'w" where
  "send_quietly lib global has_deadline trace res payload w =
    (if global = None then ([], w) else snd (send_context lib global has_deadline trace res payload w))"

definition notify_send :: "('p, 'w) notify_lib \<Rightarrow> notifier option \<Rightarrow> string \<Rightarrow> 'p \<Rightarrow> 'w \<Rightarrow> notify_request list \<times> 'w" where
  "notify_send lib global = send_quietly lib global False []"

subsection \<open>Properties\<close>

lemma new_notifier_ok:
  "new_notifier lib cfg = Inr n \<Longrightarrow> \<exists>u. nl_parse_url lib (no_base_url n) = Some u \<and>
    (u_scheme u = ''https'' \<or> u_scheme u = ''http'' \<and> \<not> nf_require_tls cfg) \<and> u_host u \<noteq> [] \<and>
    \<not> u_has_user u \<and> u_raw_query u = [] \<and> u_fragment u = [] \<and>
    0 < no_timeout n \<and> 0 < no_max_payload n \<and> no_max_payload n \<le> 16 * 2 ^ 20 \<and> no_token n = nf_token cfg"
  by (auto simp: new_notifier_def Let_def default_pos_def at_most_def second_def split: if_splits option.splits)

text \<open>
  A notifier sends at most one request for an event, and only a checked one: it goes to
  the configured endpoint, over https when TLS is required, with a resource that is a single
  path segment of letters, digits, dashes and underscores, a body within the limit of at most
  16 MiB, and always under a deadline.
\<close>

theorem notify_sends_checked:
  assumes new: "new_notifier nlib cfg = Inr n"
    and send: "send_context lib (Some n) has_deadline trace res payload w = (err, sent, w')"
  shows "length sent \<le> 1 \<and> (\<forall>q \<in> set sent.
    (\<exists>u. nl_parse_url nlib (no_base_url n) = Some u \<and> (nf_require_tls cfg \<longrightarrow> u_scheme u = ''https'')) \<and>
    nt_join_path lib (no_base_url n) [''internal'', ''notify'', res] = Inr (nq_target q) \<and>
    res \<noteq> [] \<and> list_all resource_char res \<and> int (length (nq_body q)) \<le> 16 * 2 ^ 20 \<and>
    (has_deadline \<or> nq_timeout q \<noteq> None))"
  using new_notifier_ok [OF new] send
  by (auto simp: send_context_def valid_resource_def Let_def split: if_splits sum.splits option.splits prod.splits)

text \<open>No error means that the endpoint answered with a success.\<close>

lemma notify_delivered:
  "send_context lib n has_deadline trace res payload w = (None, sent, w') \<Longrightarrow>
    \<exists>q status. sent = [q] \<and> nt_do lib q w = (Inr status, w') \<and> 200 \<le> status \<and> status < 300"
  by (auto simp: send_context_def Let_def split: if_splits sum.splits option.splits prod.splits)

definition demo_notify_lib :: "(string, unit) notify_lib" where
  "demo_notify_lib = \<lparr>nt_join_path = (\<lambda>base parts. Inr (base @ ''/'' @ join ''/'' parts)), nt_marshal = Inr,
    nt_new_request = (\<lambda>t. None), nt_do = (\<lambda>q w. (Inr 200, w))\<rparr>"

definition demo_url_lib :: "(string, string) net_lib" where
  "demo_url_lib = \<lparr>nl_parse_ip = Some, nl_loopback = (\<lambda>ip. False), nl_parse_cidr = Some, nl_contains = (=),
    nl_parse_url = (\<lambda>s. Some \<lparr>u_scheme = ''https'', u_host = ''ws'', u_has_user = False, u_raw_query = [],
      u_fragment = []\<rparr>)\<rparr>"

definition demo_notifier :: notifier where
  "demo_notifier = \<lparr>no_base_url = ''https://ws'', no_token = [], no_client_timeout = 3 * second,
    no_timeout = 3 * second, no_max_payload = 2 ^ 20\<rparr>"

theorem notify_sends_checked_witness:
  "\<exists>q. fst (snd (send_context demo_notify_lib (Some demo_notifier) False [] ''env'' ''{}'' ())) = [q] \<and>
    nq_target q = ''https://ws/internal/notify/env'' \<and> nq_timeout q \<noteq> None"
proof -
  let ?call = "send_context demo_notify_lib (Some demo_notifier) False [] ''env'' ''{}'' ()"
  have new: "new_notifier demo_url_lib (plain_config ''https://ws/'') = Inr demo_notifier"
    unfolding demo_url_lib_def demo_notifier_def plain_config_def by code_simp
  have sent: "\<exists>q. fst (snd ?call) = [q]"
    unfolding demo_notify_lib_def demo_notifier_def by (simp add: send_context_def valid_resource_def
        resource_char_def is_lower_def less_eq_char_def Let_def)
  obtain err qs w' where call: "?call = (err, qs, w')" by (metis surj_pair)
  from notify_sends_checked [OF new call] sent call show ?thesis
    by (auto simp: demo_notify_lib_def demo_notifier_def)
qed

end
