(* ===== verification/Go_Files.thy ===== *)
theory Go_Files
  imports Go_Strings Go_Errors
begin

text \<open>
  File names and disks: paths are cleaned and joined as \<open>path/filepath\<close> does on Unix, and a
  disk is its regular files and its directories.
\<close>

subsection \<open>Paths\<close>

definition clean_seg :: "bool \<Rightarrow> string \<Rightarrow> string list \<Rightarrow> string list" where
  "clean_seg rooted s acc =
    (if s = [] \<or> s = ''.'' then acc
     else if s = ''..'' then
       (case acc of
          t # ts \<Rightarrow> if t = ''..'' then s # acc else ts
        | [] \<Rightarrow> if rooted then [] else [s])
     else s # acc)"

definition clean_segs :: "bool \<Rightarrow> string list \<Rightarrow> string list \<Rightarrow> string list" where
  "clean_segs rooted acc ss = fold (clean_seg rooted) ss acc"

definition is_rooted :: "string \<Rightarrow> bool" where
  "is_rooted p \<longleftrightarrow> prefix ''/'' p"

definition path_segs :: "string \<Rightarrow> string list" where
  "path_segs p = rev (clean_segs (is_rooted p) [] (split_on CHR ''/'' p))"

definition clean_path :: "string \<Rightarrow> string" where
  "clean_path p =
    (if is_rooted p then ''/'' @ join ''/'' (path_segs p)
     else if path_segs p = [] then ''.'' else join ''/'' (path_segs p))"

definition join_path :: "string list \<Rightarrow> string" where
  "join_path ps =
    (let qs = filter (\<lambda>p. p \<noteq> []) ps in if qs = [] then [] else clean_path (join ''/'' qs))"

subsection \<open>Disks\<close>

record disk =
  files :: "string \<Rightarrow> string option"
  dirs :: "string \<Rightarrow> bool"

subsection \<open>Lemmas on paths\<close>

definition regular_seg :: "string \<Rightarrow> bool" where
  "regular_seg s \<longleftrightarrow> s \<noteq> [] \<and> s \<noteq> ''.'' \<and> s \<noteq> ''..''"

definition regular_path :: "string \<Rightarrow> bool" where
  "regular_path p \<longleftrightarrow> list_all regular_seg (split_on CHR ''/'' p)"

definition path_base :: "string \<Rightarrow> string" where
  "path_base root =
    (if is_rooted root then ''/'' else []) @ (if path_segs root = [] then [] else join ''/'' (path_segs root) @ ''/'')"

lemma regular_seg_char: "c \<in> set w \<Longrightarrow> c \<noteq> CHR ''.'' \<Longrightarrow> regular_seg w"
  by (auto simp: regular_seg_def)

lemma clean_segs_append:
  "clean_segs r acc (xs @ ys) = clean_segs r (clean_segs r acc xs) ys"
  by (simp add: clean_segs_def)

lemma clean_seg_regular: "regular_seg s \<Longrightarrow> clean_seg r s acc = s # acc"
  by (simp add: clean_seg_def regular_seg_def)

lemma clean_segs_regular: "list_all regular_seg ss \<Longrightarrow> clean_segs r acc ss = rev ss @ acc"
  by (induction ss arbitrary: acc) (simp_all add: clean_segs_def clean_seg_regular)

lemma clean_seg_no_empty: "[] \<notin> set acc \<Longrightarrow> [] \<notin> set (clean_seg r s acc)"
  by (auto simp: clean_seg_def split: list.split)

lemma clean_segs_no_empty: "[] \<notin> set acc \<Longrightarrow> [] \<notin> set (clean_segs r acc ss)"
  unfolding clean_segs_def by (induction ss arbitrary: acc) (simp_all add: clean_seg_no_empty)

lemma path_segs_no_empty: "[] \<notin> set (path_segs p)"
  by (simp add: path_segs_def clean_segs_no_empty)

lemma split_on_concat: "split_on sep (p @ sep # q) = split_on sep p @ split_on sep q"
  by (induction p) (auto split: list.split)

lemma join_append: "xs \<noteq> [] \<Longrightarrow> ys \<noteq> [] \<Longrightarrow> join sep (xs @ ys) = join sep xs @ sep @ join sep ys"
  by (induction xs rule: induct_list012) (simp_all add: join_Cons)

lemma join_neq_Nil: "ps \<noteq> [] \<Longrightarrow> [] \<notin> set ps \<Longrightarrow> join sep ps \<noteq> []"
  by (induction ps rule: induct_list012) simp_all

lemma clean_path_neq_Nil [simp]: "clean_path p \<noteq> []"
  using path_segs_no_empty [of p] by (simp add: clean_path_def join_neq_Nil)

lemma regular_path_neq_Nil: "regular_path p \<Longrightarrow> p \<noteq> []"
  by (auto simp: regular_path_def regular_seg_def)

lemma regular_not_rooted: "regular_path p \<Longrightarrow> \<not> is_rooted p"
  by (cases p) (auto simp: regular_path_def regular_seg_def is_rooted_def)

lemma regular_path_append:
  "regular_path (p @ CHR ''/'' # q) \<longleftrightarrow> regular_path p \<and> regular_path q"
  by (simp add: regular_path_def split_on_concat)

lemma path_segs_append:
  assumes "root \<noteq> []" and "regular_path p"
  shows "path_segs (root @ CHR ''/'' # p) = path_segs root @ split_on CHR ''/'' p"
proof -
  have "is_rooted (root @ CHR ''/'' # p) = is_rooted root"
    using assms(1) by (cases root) (simp_all add: is_rooted_def)
  then show ?thesis
    using assms(2)
    by (simp add: path_segs_def split_on_concat clean_segs_append clean_segs_regular regular_path_def)
qed

text \<open>A joined path is the cleaned root followed by the path, when the path has only proper names.\<close>

lemma join_path_regular:
  assumes "root \<noteq> []" and "regular_path p"
  shows "join_path [root, p] = path_base root @ p"
proof -
  have "is_rooted (root @ CHR ''/'' # p) = is_rooted root"
    using assms(1) by (cases root) (simp_all add: is_rooted_def)
  moreover have "p \<noteq> []"
    by (rule regular_path_neq_Nil [OF assms(2)])
  ultimately show ?thesis
    using assms join_split_on [of "CHR ''/''" p]
    by (simp add: join_path_def clean_path_def path_base_def path_segs_append join_append)
qed

lemma path_segs_regular: "regular_path p \<Longrightarrow> path_segs p = split_on CHR ''/'' p"
  by (simp add: path_segs_def clean_segs_regular regular_path_def)

lemma path_base_regular: "regular_path p \<Longrightarrow> path_base p = p @ ''/''"
  using join_split_on [of "CHR ''/''" p]
  by (simp add: path_base_def regular_not_rooted path_segs_regular)

lemma clean_path_regular: "regular_path p \<Longrightarrow> clean_path p = p"
  using join_split_on [of "CHR ''/''" p]
  by (simp add: clean_path_def regular_not_rooted path_segs_regular)

lemma regular_path_word:
  "CHR ''/'' \<notin> set w \<Longrightarrow> CHR ''.'' \<notin> set w \<Longrightarrow> w \<noteq> [] \<Longrightarrow> regular_path w"
  by (auto simp: regular_path_def regular_seg_def split_on_no_sep)

end
