(* ===== verification/Go_Flags.thy ===== *)
theory Go_Flags
  imports Go_Strings Go_Errors
begin

text \<open>
  Command-line flags as package \<open>flag\<close> parses them, for flags that take a value.
\<close>

text \<open>The flags a program declares: for a name, how its value changes the options, or an error.\<close>

type_synonym 'a flag_set = "string \<Rightarrow> (string \<Rightarrow> 'a \<Rightarrow> goerr + 'a) option"

definition string_flag :: "(string \<Rightarrow> 'a \<Rightarrow> 'a) \<Rightarrow> string \<Rightarrow> 'a \<Rightarrow> goerr + 'a" where
  "string_flag upd v opts = Inr (upd v opts)"

definition int_flag :: "(string \<Rightarrow> int option) \<Rightarrow> (int \<Rightarrow> 'a \<Rightarrow> 'a) \<Rightarrow> string \<Rightarrow> 'a \<Rightarrow> goerr + 'a" where
  "int_flag parse upd v opts =
    (case parse v of Some n \<Rightarrow> Inr (upd n opts) | None \<Rightarrow> Inl (Errorf ''invalid value %q for flag -%s: %v''))"

definition unknown_flag :: "string \<Rightarrow> goerr" where
  "unknown_flag name =
    (if name = ''help'' \<or> name = ''h'' then Sentinel ''flag: help requested''
     else Errorf ''flag provided but not defined: -%s'')"

text \<open>\<open>FlagSet.Parse\<close>: the options and the arguments after the flags.\<close>

function parse_flags :: "'a flag_set \<Rightarrow> string list \<Rightarrow> 'a \<Rightarrow> goerr + 'a \<times> string list" where
  "parse_flags fs [] opts = Inr (opts, [])"
| "parse_flags fs (a # args) opts =
    (if length a < 2 \<or> hd a \<noteq> CHR ''-'' then Inr (opts, a # args)
     else if a = ''--'' then Inr (opts, args)
     else (let name = drop (if prefix ''--'' a then 2 else 1) a in
       if name = [] \<or> hd name = CHR ''-'' \<or> hd name = CHR ''='' then Inl (Errorf ''bad flag syntax: %s'')
       else (let f = hd name # takeWhile (\<lambda>c. c \<noteq> CHR ''='') (tl name) in
         case fs f of
           None \<Rightarrow> Inl (unknown_flag f)
         | Some set_value \<Rightarrow>
            if length f < length name then
              (case set_value (drop (length f + 1) name) opts of
                 Inl err \<Rightarrow> Inl err | Inr opts \<Rightarrow> parse_flags fs args opts)
            else (case args of
                [] \<Rightarrow> Inl (Errorf ''flag needs an argument: -%s'')
              | v # args \<Rightarrow>
                 (case set_value v opts of Inl err \<Rightarrow> Inl err | Inr opts \<Rightarrow> parse_flags fs args opts)))))"
  by pat_completeness auto
termination by (relation "measure (\<lambda>(fs, args, opts). length args)") simp_all

end
