(* ===== verification/Scaffold.thy ===== *)
theory Scaffold
  imports Go_Files Go_Flags
begin

text \<open>
  The scaffolding command, \<open>cmd/dilu/main.go\<close>: its arguments, the names it accepts, the files it
  generates and how it writes them. The faults of the file system, the listing of a directory
  and the \<open>buf\<close> program are parameters.
\<close>

subsection \<open>Names\<close>

definition name_char :: "char \<Rightarrow> bool" where
  "name_char c \<longleftrightarrow> is_lower c \<or> is_digit c \<or> c = CHR ''-''"

definition valid_name :: "string \<Rightarrow> bool" where
  "valid_name name = (case name of [] \<Rightarrow> False | c # cs \<Rightarrow> is_lower c \<and> list_all name_char cs)"

definition validate_name :: "string \<Rightarrow> goerr option" where
  "validate_name name =
    (if \<not> valid_name name
     then Some (Errorf ''name %q must contain lowercase letters, digits, or hyphens and start with a letter'')
     else None)"

text \<open>The names that reach \<open>pascalName\<close> are valid, so its runes are bytes.\<close>

definition capitalize :: "string \<Rightarrow> string" where
  "capitalize part = (case part of [] \<Rightarrow> [] | c # cs \<Rightarrow> upper_char c # cs)"

fun name_parts :: "string \<Rightarrow> string list" where
  "name_parts [] = []"
| "name_parts (c # cs) =
    (if c = CHR ''-'' \<or> c = CHR ''_'' then name_parts cs
     else (case cs of
             d # ds \<Rightarrow>
               if d = CHR ''-'' \<or> d = CHR ''_'' then [c] # name_parts cs
               else (case name_parts cs of [] \<Rightarrow> [[c]] | p # ps \<Rightarrow> (c # p) # ps)
           | [] \<Rightarrow> [[c]]))"

definition pascal_name :: "string \<Rightarrow> string" where
  "pascal_name value = concat (map capitalize (name_parts value))"

subsection \<open>Generated files\<close>

text \<open>A text of whole lines; \<open>''-''\<close> becomes \<open>''_''\<close> in package names.\<close>

definition text_lines :: "string list \<Rightarrow> string" where
  "text_lines ls = concat (map (\<lambda>l. l @ [CHR 0x0A]) ls)"

definition go_package :: "string \<Rightarrow> string" where
  "go_package name = map (\<lambda>c. if c = CHR ''-'' then CHR ''_'' else c) name"

definition proto_text :: "string \<Rightarrow> string \<Rightarrow> string" where
  "proto_text name module = (let pkg = go_package name; service_type = pascal_name name in text_lines [
    ''syntax = \"proto3\";'', [], ''package '' @ pkg @ ''.v1;'', [],
    ''option go_package = \"'' @ module @ ''/gen/'' @ name @ ''/v1;'' @ pkg @ ''v1\";'', [],
    ''import \"google/api/annotations.proto\";'', [], ''service '' @ service_type @ ''Service {'',
    ''  rpc Get(GetRequest) returns (GetResponse) {'',
    ''    option (google.api.http) = { get: \"/v1/'' @ pkg @ ''\" };'', ''  }'', ''}'', [],
    ''message GetRequest {}'', ''message GetResponse { string message = 1; }''])"

definition main_text :: string where
  "main_text = text_lines [
    ''package main'', [], ''import ('', ''    \"log\"'', ''    \"github.com/baowk/dilu-go-kit/boot\"'',
    '')'', [], ''func main() {'', ''    app, err := boot.New(\"configs/config.yaml\")'',
    ''    if err != nil { log.Fatal(err) }'',
    ''    if err := app.Run(func(*boot.App) error { return nil }); err != nil { log.Fatal(err) }'',
    ''}'']"

definition config_text :: "string \<Rightarrow> string" where
  "config_text name = text_lines [
    ''server:'', ''  name: '' @ name, ''  addr: \":8080\"'', ''  mode: debug'', [], ''security:'',
    ''  requireTLS: false'', [], ''database: {}'', ''redis:'', ''  addr: \"\"'', ''grpc:'',
    ''  enable: false'', ''registry:'', ''  enable: false'']"

definition buf_text :: string where
  "buf_text = text_lines [
    ''version: v2'', [], ''modules:'', ''  - path: api'', ''    name: buf.build/local/service'',
    ''deps:'', ''  - buf.build/googleapis/googleapis'', [], ''lint:'', ''  use: [STANDARD]'',
    ''breaking:'', ''  use: [FILE]'']"

definition buf_lock_text :: string where
  "buf_lock_text = text_lines [
    ''# Generated by buf. DO NOT EDIT.'', ''version: v2'', ''deps:'',
    ''  - name: buf.build/googleapis/googleapis'', ''    commit: c17df5b2beca46928cc87d5656bd5343'',
    ''    digest: b5:648a01e0170d4512dea7d564016165decd1ed6e34bef79fe54753e51ad7e27545709ad9157d7551270147d551155c595a2fb0bf5bb33b1c83040ddbce915c604'']"

definition buf_gen_text :: string where
  "buf_gen_text = text_lines [
    ''version: v2'', [], ''plugins:'', ''  - remote: buf.build/protocolbuffers/go'', ''    out: gen'',
    ''    opt: [paths=source_relative]'', ''  - remote: buf.build/grpc/go'', ''    out: gen'',
    ''    opt: [paths=source_relative]'', ''  - remote: buf.build/grpc-ecosystem/gateway'',
    ''    out: gen'', ''    opt: [paths=source_relative]'',
    ''  - remote: buf.build/grpc-ecosystem/openapiv2'', ''    out: gen/openapi'', ''    opt:'',
    ''      - allow_merge=true'', ''      - merge_file_name=openapi'']"

definition makefile_text :: string where
  "makefile_text = text_lines [
    ''SHELL := /bin/sh'', [], ''.PHONY: proto-lint proto-generate'', [], ''proto-lint:'',
    [CHR 0x09] @ ''@buf lint'', [], ''proto-generate:'', [CHR 0x09] @ ''@buf generate'']"

definition service_files :: "string \<Rightarrow> string \<Rightarrow> (string \<times> string) list" where
  "service_files name module =
    (let pkg = go_package name in
     [(''go.mod'', text_lines [''module '' @ module, [], ''go 1.27.0'', [],
        ''require github.com/baowk/dilu-go-kit v0.15.0'']),
      (''api/'' @ pkg @ ''/v1/'' @ pkg @ ''.proto'', proto_text name module),
      (''cmd/'' @ name @ ''/main.go'', main_text),
      (''configs/config.yaml'', config_text name),
      (''internal/'' @ name @ ''/biz/README.md'',
        text_lines [''# Business logic'', [], ''Keep use cases and domain rules here.'']),
      (''internal/'' @ name @ ''/data/README.md'',
        text_lines [''# Data access'', [], ''Keep database and external clients here.'']),
      (''internal/'' @ name @ ''/service/README.md'',
        text_lines [''# Transport service'', [], ''Map generated API requests to biz use cases here.'']),
      (''internal/'' @ name @ ''/server/README.md'',
        text_lines [''# Servers'', [], ''Register HTTP/gRPC transports here.'']),
      (''buf.yaml'', buf_text), (''buf.lock'', buf_lock_text), (''buf.gen.yaml'', buf_gen_text),
      (''Makefile'', makefile_text)])"

definition resource_files :: "string \<Rightarrow> string \<Rightarrow> (string \<times> string) list" where
  "resource_files module res =
    (let base = join_path [''internal'', module]; go_name = pascal_name res in
     [(base @ ''/model/'' @ res @ ''.go'', text_lines [''package model'', [],
        ''// '' @ go_name @ '' is the persistence model for the '' @ res @ '' table.'',
        ''type '' @ go_name @ '' struct {'',
        [CHR 0x09] @ ''ID int64 `gorm:\"column:id;primaryKey;autoIncrement\" json:\"id\"`'',
        ''}'', [],
        ''func ('' @ go_name @ '') TableName() string { return \"'' @ res @ ''\" }'']),
      (base @ ''/store/'' @ res @ ''_pg.go'', text_lines [''package store'', [],
        ''// '' @ go_name @ ''Store contains persistence operations for '' @ res @ ''.'',
        ''type '' @ go_name @ ''Store interface {}'']),
      (base @ ''/service/'' @ res @ ''.go'', text_lines [''package service'', [],
        ''// '' @ go_name @ ''Service contains the '' @ res @ '' use cases.'',
        ''type '' @ go_name @ ''Service struct{}'']),
      (base @ ''/service/dto/'' @ res @ ''.go'', text_lines [''package dto'', [],
        ''// '' @ go_name @ ''Request is the '' @ res @ '' request DTO.'',
        ''type '' @ go_name @ ''Request struct{}'']),
      (base @ ''/apis/'' @ res @ ''_api.go'', text_lines [''package apis'', [],
        ''// '' @ go_name @ ''API exposes the '' @ res @ '' HTTP endpoints.'',
        ''type '' @ go_name @ ''API struct{}''])])"

subsection \<open>Writing files\<close>

text \<open>
  The faults of the disk: \<open>Stat\<close> may fail, \<open>MkdirAll\<close> creates
  directories and may fail after some of them, and a \<open>WriteFile\<close> that fails may leave the file
  absent or in part.
\<close>

record os_lib =
  os_stat_fault :: "disk \<Rightarrow> string \<Rightarrow> goerr option"
  os_mkdir_all :: "disk \<Rightarrow> string \<Rightarrow> goerr option \<times> (string \<Rightarrow> bool)"
  os_write_fault :: "disk \<Rightarrow> string \<Rightarrow> string \<Rightarrow> (goerr \<times> string option) option"
  os_read_dir :: "disk \<Rightarrow> string \<Rightarrow> goerr + (string \<times> bool) list"
  os_look_path :: "string \<Rightarrow> goerr option"
  os_exec :: "string \<Rightarrow> string list \<Rightarrow> string \<Rightarrow> disk \<Rightarrow> goerr option \<times> disk"

abbreviation err_not_exist :: goerr where
  "err_not_exist \<equiv> Sentinel ''file does not exist''"

definition os_stat :: "os_lib \<Rightarrow> disk \<Rightarrow> string \<Rightarrow> goerr option" where
  "os_stat lib d p =
    (case os_stat_fault lib d p of
       Some err \<Rightarrow> Some err
     | None \<Rightarrow> if files d p \<noteq> None \<or> dirs d p then None else Some err_not_exist)"

definition write_file :: "os_lib \<Rightarrow> string \<Rightarrow> string \<Rightarrow> disk \<Rightarrow> goerr option \<times> disk" where
  "write_file lib p s d =
    (case os_write_fault lib d p s of
       Some (err, left) \<Rightarrow> (Some err, d\<lparr>files := (files d)(p := left)\<rparr>)
     | None \<Rightarrow> (None, d\<lparr>files := (files d)(p := Some s)\<rparr>))"

definition dir_path :: "string \<Rightarrow> string" where
  "dir_path p =
    (let segs = split_on CHR ''/'' p in clean_path (join ''/'' (butlast segs) @ (if 1 < length segs then ''/'' else [])))"

fun check_absent :: "os_lib \<Rightarrow> string \<Rightarrow> string list \<Rightarrow> disk \<Rightarrow> goerr option" where
  "check_absent lib root [] d = None"
| "check_absent lib root (p # ps) d =
    (case os_stat lib d (join_path [root, p]) of
       None \<Rightarrow> Some (Errorf ''refusing to overwrite %s'')
     | Some err \<Rightarrow>
        if \<not> err_is err ''file does not exist'' then Some err else check_absent lib root ps d)"

fun write_all :: "os_lib \<Rightarrow> string \<Rightarrow> (string \<times> string) list \<Rightarrow> string list \<Rightarrow> disk \<Rightarrow> goerr option \<times> disk" where
  "write_all lib root fs [] d = (None, d)"
| "write_all lib root fs (p # ps) d =
    (let full = join_path [root, p] in
     case os_mkdir_all lib d (dir_path full) of
       (Some err, ds) \<Rightarrow> (Some (Wrapf ''create %s: %w'' err), d\<lparr>dirs := ds\<rparr>)
     | (None, ds) \<Rightarrow>
        (case write_file lib full (the (map_of fs p)) (d\<lparr>dirs := ds\<rparr>) of
           (Some err, d) \<Rightarrow> (Some (Wrapf ''write %s: %w'' err), d)
         | (None, d) \<Rightarrow> write_all lib root fs ps d))"

definition write_files :: "os_lib \<Rightarrow> string \<Rightarrow> (string \<times> string) list \<Rightarrow> disk \<Rightarrow> goerr option \<times> disk" where
  "write_files lib root fs d =
    (let ps = sort (map fst fs) in
     case check_absent lib root ps d of
       Some err \<Rightarrow> (Some err, d)
     | None \<Rightarrow> write_all lib root fs ps d)"

subsection \<open>Commands\<close>

text \<open>The two flags, as a pair of the directory and the module.\<close>

definition project_flags :: "(string \<times> string) flag_set" where
  "project_flags name =
    (if name = ''dir'' then Some (string_flag (\<lambda>v fl. (v, snd fl)))
     else if name = ''module'' then Some (string_flag (\<lambda>v fl. (fst fl, v)))
     else None)"

definition parse_project_flags :: "string list \<Rightarrow> string \<Rightarrow> string \<Rightarrow> goerr + (string \<times> string)" where
  "parse_project_flags args dir module =
    (case parse_flags project_flags args (dir, module) of
       Inl err \<Rightarrow> Inl err
     | Inr (fl, rest) \<Rightarrow> if rest \<noteq> [] then Inl (Errorf ''unexpected arguments: %s'') else Inr fl)"

definition new_service :: "os_lib \<Rightarrow> string list \<Rightarrow> disk \<Rightarrow> goerr option \<times> disk" where
  "new_service lib args d =
    (case args of
       [] \<Rightarrow> (Some (Errorf ''service name is required''), d)
     | name # args \<Rightarrow>
        (case validate_name name of
           Some err \<Rightarrow> (Some err, d)
         | None \<Rightarrow>
            (case parse_project_flags args ''.'' (''example.com/'' @ name) of
               Inl err \<Rightarrow> (Some err, d)
             | Inr (dir, module) \<Rightarrow> write_files lib (clean_path dir) (service_files name module) d)))"

definition detect_single_module :: "os_lib \<Rightarrow> disk \<Rightarrow> string \<Rightarrow> goerr + string" where
  "detect_single_module lib d root =
    (case os_read_dir lib d root of
       Inl err \<Rightarrow> Inl (Wrapf ''read %s: pass --module explicitly: %w'' err)
     | Inr entries \<Rightarrow>
        (case [name. (name, is_dir) \<leftarrow> entries, is_dir \<and> name \<noteq> ''common''] of
           [name] \<Rightarrow> Inr name
         | names \<Rightarrow> Inl (Errorf ''could not infer internal module (found %v); pass --module MODULE'')))"

definition add_resource :: "os_lib \<Rightarrow> string list \<Rightarrow> disk \<Rightarrow> goerr option \<times> disk" where
  "add_resource lib args d =
    (case args of
       [] \<Rightarrow> (Some (Errorf ''resource name is required''), d)
     | res # args \<Rightarrow>
        (case validate_name res of
           Some err \<Rightarrow> (Some err, d)
         | None \<Rightarrow>
            (case parse_project_flags args ''.'' [] of
               Inl err \<Rightarrow> (Some err, d)
             | Inr (dir, module) \<Rightarrow>
                (case (if module = [] then detect_single_module lib d (join_path [dir, ''internal'']) else Inr module) of
                   Inl err \<Rightarrow> (Some err, d)
                 | Inr module \<Rightarrow>
                    (case validate_name module of
                       Some err \<Rightarrow> (Some (Wrapf ''internal module: %w'' err), d)
                     | None \<Rightarrow> write_files lib (clean_path dir) (resource_files module res) d)))))"

text \<open>
  A command that is run in a directory: the system resolves a relative program path against the
  directory of the command, not against the one of the caller.
\<close>

definition run_in_dir :: "os_lib \<Rightarrow> string \<Rightarrow> string list \<Rightarrow> string \<Rightarrow> disk \<Rightarrow> goerr option \<times> disk" where
  "run_in_dir lib prog args dir d =
    os_exec lib (if CHR ''/'' \<in> set prog \<and> \<not> is_rooted prog then join_path [dir, prog] else prog) args dir d"

definition generate :: "os_lib \<Rightarrow> string list \<Rightarrow> disk \<Rightarrow> goerr option \<times> disk" where
  "generate lib args d =
    (case parse_project_flags args ''.'' [] of
       Inl err \<Rightarrow> (Some err, d)
     | Inr (dir, module) \<Rightarrow>
        (let root = clean_path dir; local_buf = join_path [root, ''bin'', ''buf''];
             buf_path = (if os_look_path lib ''buf'' \<noteq> None \<and> os_stat lib d local_buf = None then local_buf else ''buf'')
         in case run_in_dir lib buf_path [''generate''] root d of
              (Some err, d) \<Rightarrow> (Some (Wrapf ''buf generate: %w (install Buf or run `make buf-install`)'' err), d)
            | (None, d) \<Rightarrow> (None, d)))"

definition usage_error :: goerr where
  "usage_error = Errorf ''usage: dilu new service NAME | dilu add resource NAME | dilu generate''"

definition run_dilu :: "os_lib \<Rightarrow> string list \<Rightarrow> disk \<Rightarrow> goerr option \<times> disk" where
  "run_dilu lib args d =
    (case args of
       [] \<Rightarrow> (Some usage_error, d)
     | a # args \<Rightarrow>
        if a = ''new'' then
          (if args = [] \<or> hd args \<noteq> ''service''
           then (Some (Errorf ''usage: dilu new service NAME [--dir DIR] [--module MODULE]''), d)
           else new_service lib (tl args) d)
        else if a = ''add'' then
          (if args = [] \<or> hd args \<noteq> ''resource''
           then (Some (Errorf ''usage: dilu add resource NAME [--dir DIR] [--module MODULE]''), d)
           else add_resource lib (tl args) d)
        else if a = ''generate'' then generate lib args d
        else if a = ''help'' \<or> a = ''-h'' \<or> a = ''--help'' then (Some usage_error, d)
        else (Some (Errorf ''unknown command %q; use `dilu help`''), d))"

subsection \<open>Lemmas on writing\<close>

lemma valid_name_chars:
  assumes "valid_name w"
  shows "CHR ''/'' \<notin> set w" "CHR ''.'' \<notin> set w" "w \<noteq> []"
  using assms
  by (auto simp: valid_name_def name_char_def is_lower_def is_digit_def list_all_iff less_eq_char_def split: list.splits)

definition honest_stat :: "os_lib \<Rightarrow> bool" where
  "honest_stat lib \<longleftrightarrow>
    (\<forall>d p err. os_stat_fault lib d p = Some err \<longrightarrow> \<not> err_is err ''file does not exist'')"

lemma os_stat_absent:
  "honest_stat lib \<Longrightarrow> os_stat lib d p = Some err \<Longrightarrow> err_is err ''file does not exist'' \<Longrightarrow> files d p = None"
  by (auto simp: honest_stat_def os_stat_def split: option.splits if_splits)

lemma check_absent_None:
  assumes "honest_stat lib"
  shows "check_absent lib root ps d = None \<Longrightarrow> p \<in> set ps \<Longrightarrow> files d (join_path [root, p]) = None"
  by (induction ps) (auto intro: os_stat_absent [OF assms] split: option.splits if_splits)

lemma write_file_other: "write_file lib p s d = (r, d') \<Longrightarrow> q \<noteq> p \<Longrightarrow> files d' q = files d q"
  by (auto simp: write_file_def split: option.splits prod.splits)

lemma write_file_ok: "write_file lib p s d = (None, d') \<Longrightarrow> files d' p = Some s"
  by (auto simp: write_file_def split: option.splits prod.splits)

lemma write_all_other:
  "write_all lib root fs ps d = (r, d') \<Longrightarrow> \<forall>p\<in>set ps. q \<noteq> join_path [root, p] \<Longrightarrow> files d' q = files d q"
proof (induction ps arbitrary: d)
  case (Cons p ps)
  then show ?case
    by (fastforce simp: Let_def dest: write_file_other [where q = q] split: prod.splits option.splits)
qed simp

lemma write_all_ok:
  assumes "inj_on (\<lambda>p. join_path [root, p]) (set ps)" and "distinct ps"
  shows "write_all lib root fs ps d = (None, d') \<Longrightarrow> p \<in> set ps \<Longrightarrow>
    files d' (join_path [root, p]) = Some (the (map_of fs p))"
  using assms
proof (induction ps arbitrary: d)
  case (Cons x ps)
  obtain ds d1 where mk: "os_mkdir_all lib d (dir_path (join_path [root, x])) = (None, ds)"
    and wr: "write_file lib (join_path [root, x]) (the (map_of fs x)) (d\<lparr>dirs := ds\<rparr>) = (None, d1)"
    and rest: "write_all lib root fs ps d1 = (None, d')"
    using Cons.prems(1) by (auto simp: Let_def split: prod.splits option.splits)
  show ?case
  proof (cases "p = x")
    case True
    have "\<forall>y\<in>set ps. join_path [root, x] \<noteq> join_path [root, y]"
      using Cons.prems(3,4) by (auto simp: inj_on_def)
    then show ?thesis
      using write_all_other [OF rest] write_file_ok [OF wr] True by simp
  next
    case False
    then show ?thesis
      using Cons.IH [OF rest] Cons.prems(2-4) by (simp add: inj_on_def)
  qed
qed simp

text \<open>What a write of generated files does, whatever the outcome.\<close>

lemma write_files_keeps:
  assumes "write_files lib root fs d = (r, d')" and "honest_stat lib" and "files d q = Some c"
  shows "files d' q = Some c"
proof (cases "check_absent lib root (sort (map fst fs)) d")
  case None
  then have "\<forall>p\<in>set (sort (map fst fs)). q \<noteq> join_path [root, p]"
    using check_absent_None [OF assms(2) None] assms(3) by fastforce
  then show ?thesis
    using write_all_other assms(1,3) None by (simp add: write_files_def)
next
  case (Some err)
  then show ?thesis
    using assms(1,3) by (simp add: write_files_def)
qed

lemma write_files_other:
  assumes "write_files lib root fs d = (r, d')" and "\<forall>p\<in>set (map fst fs). q \<noteq> join_path [root, p]"
  shows "files d' q = files d q"
proof -
  from assms(2) have "\<forall>p\<in>set (sort (map fst fs)). q \<noteq> join_path [root, p]"
    by simp
  then show ?thesis
    using write_all_other assms(1) by (fastforce simp: write_files_def Let_def split: option.splits)
qed

lemma write_files_ok:
  assumes "write_files lib root fs d = (None, d')" and "root \<noteq> []"
    and "distinct (map fst fs)" and "list_all regular_path (map fst fs)" and "(p, s) \<in> set fs"
  shows "files d' (join_path [root, p]) = Some s"
proof -
  have inj: "inj_on (\<lambda>p. join_path [root, p]) (set (sort (map fst fs)))"
    using assms(4) by (auto simp: inj_on_def list_all_iff join_path_regular [OF assms(2)])
  have w: "write_all lib root fs (sort (map fst fs)) d = (None, d')"
    using assms(1) by (simp add: write_files_def Let_def split: option.splits)
  have p: "p \<in> set (sort (map fst fs))"
    using assms(5) by force
  have "map_of fs p = Some s"
    using assms(3,5) by simp
  then show ?thesis
    using write_all_ok [OF inj _ w p] assms(3) by simp
qed

subsection \<open>What the commands write\<close>

lemma regular_valid_name: "valid_name w \<Longrightarrow> regular_path w"
  by (simp add: regular_path_word valid_name_chars)

lemma resource_base:
  assumes "valid_name module"
  shows "join_path [''internal'', module] = ''internal/'' @ module"
proof -
  have "regular_path ''internal''"
    by code_simp
  then show ?thesis
    by (simp add: join_path_regular regular_valid_name [OF assms] path_base_regular)
qed

lemma project_module:
  assumes "valid_name module"
  shows "join_path [clean_path dir, ''internal'', module] = path_base (clean_path dir) @ ''internal/'' @ module"
proof -
  have "regular_path ''internal''"
    by code_simp
  then have "regular_path (''internal'' @ CHR ''/'' # module)"
    unfolding regular_path_append using regular_valid_name [OF assms] by blast
  moreover have "join_path [clean_path dir, ''internal'', module] =
      join_path [clean_path dir, ''internal'' @ CHR ''/'' # module]"
    using valid_name_chars(3) [OF assms] by (simp add: join_path_def)
  ultimately show ?thesis
    by (simp add: join_path_regular)
qed

lemma regular_path_file:
  assumes "valid_name w" and "set e \<inter> {CHR ''/''} = {}" and "length e > 1"
  shows "regular_path (w @ e)"
proof -
  have "length (w @ e) > 2"
    using valid_name_chars(3) [OF assms(1)] assms(3) by (cases w) simp_all
  then have "regular_seg (w @ e)"
    by (auto simp: regular_seg_def simp del: length_append)
  then show ?thesis
    using valid_name_chars(1) [OF assms(1)] assms(2)
    by (simp add: regular_path_def split_on_no_sep)
qed

lemma resource_paths:
  assumes "valid_name module" and "valid_name res"
  shows "list_all regular_path (map fst (resource_files module res))"
proof -
  have words: "regular_path ''internal''" "regular_path ''model''" "regular_path ''store''"
    "regular_path ''service''" "regular_path ''dto''" "regular_path ''apis''"
    by code_simp+
  have base: "regular_path (''internal/'' @ module)"
    using regular_path_append [of "''internal''" module] words(1) regular_valid_name [OF assms(1)] by simp
  have below: "regular_path ((''internal/'' @ module) @ CHR ''/'' # p)" if "regular_path p" for p
    using base that by (simp only: regular_path_append)
  have in_dir: "regular_path (w @ CHR ''/'' # res @ e)"
    if "regular_path w" and "set e \<inter> {CHR ''/''} = {}" and "length e > 1" for w e
    using that regular_path_file [OF assms(2)] by (simp only: regular_path_append)
  show ?thesis
    using below [OF in_dir [OF words(2), of "''.go''"]] below [OF in_dir [OF words(3), of "''_pg.go''"]]
      below [OF in_dir [OF words(4), of "''.go''"]] below [OF in_dir [OF words(6), of "''_api.go''"]]
      below [of "''service/dto/'' @ res @ ''.go''"] in_dir [OF words(5), of "''.go''"]
      regular_path_append [of "''service''" "''dto/'' @ res @ ''.go''"] words(4)
    by (simp add: resource_files_def resource_base [OF assms(1)] Let_def)
qed

lemma resource_below:
  assumes "valid_name module" and "p \<in> set (map fst (resource_files module res))"
  shows "prefix (''internal/'' @ module @ ''/'') p"
  using assms(2) by (auto simp: resource_files_def resource_base [OF assms(1)] Let_def)

lemma resource_paths_distinct:
  assumes "valid_name module" and "valid_name res"
  shows "distinct (map fst (resource_files module res))"
proof -
  have "res @ ''.go'' \<noteq> ''dto/'' @ res @ ''.go''"
    using arg_cong [of "res @ ''.go''" "''dto/'' @ res @ ''.go''" length] by auto
  then show ?thesis
    by (simp add: resource_files_def resource_base [OF assms(1)] Let_def)
qed

text \<open>The scaffolding commands never change a file that exists: whatever the arguments,
  the faults of the file system and the outcome, after \<open>dilu new\<close> and \<open>dilu add\<close> every file that
  was there has the contents it had.\<close>

theorem scaffold_keeps_files:
  assumes "run_dilu lib args d = (r, d')" and "args = [] \<or> hd args \<noteq> ''generate''"
    and "honest_stat lib" and "files d p = Some c"
  shows "files d' p = Some c"
  using assms
  by (auto simp: run_dilu_def new_service_def add_resource_def
      split: list.splits if_splits option.splits sum.splits intro: write_files_keeps)

text \<open>A resource is written where it belongs: when the command succeeds each of its five
  files has the generated text, and whether it succeeds or not no file outside
  \<open>internal/MODULE\<close> of the project directory changes, whatever module the flags name.\<close>

theorem resource_scaffold:
  assumes "add_resource lib (res # flags) d = (r, d')"
    and "parse_project_flags flags ''.'' [] = Inr (dir, module)" and "module \<noteq> []"
  shows "(r = None \<longrightarrow> (\<forall>(p, s)\<in>set (resource_files module res).
            files d' (join_path [clean_path dir, p]) = Some s)) \<and>
    (\<forall>q. files d' q \<noteq> files d q \<longrightarrow>
       prefix (join_path [clean_path dir, ''internal'', module] @ ''/'') q)"
proof (cases "valid_name module \<and> valid_name res")
  case False
  then have "r \<noteq> None" "d' = d"
    using assms by (auto simp: add_resource_def validate_name_def split: if_splits)
  then show ?thesis by blast
next
  case True
  then have w: "write_files lib (clean_path dir) (resource_files module res) d = (r, d')"
    using assms by (simp add: add_resource_def validate_name_def)
  note paths = resource_paths [OF conjunct1 [OF True] conjunct2 [OF True]]
  note base = project_module [OF conjunct1 [OF True], of dir]
  have "prefix (join_path [clean_path dir, ''internal'', module] @ ''/'') q"
    if changed: "files d' q \<noteq> files d q" for q
  proof -
    obtain p where p: "p \<in> set (map fst (resource_files module res))" "q = join_path [clean_path dir, p]"
      using write_files_other [OF w, of q] changed by metis
    moreover have "regular_path p"
      using paths p(1) by (simp only: list_all_iff)
    moreover have "prefix (''internal/'' @ module @ ''/'') p"
      by (rule resource_below [OF conjunct1 [OF True] p(1)])
    ultimately show ?thesis
      unfolding base by (simp add: join_path_regular)
  qed
  moreover have "\<forall>(p, s)\<in>set (resource_files module res). files d' (join_path [clean_path dir, p]) = Some s"
    if ok: "r = None"
  proof -
    have ww: "write_files lib (clean_path dir) (resource_files module res) d = (None, d')"
      using w ok by simp
    show ?thesis
      using write_files_ok [OF ww _ resource_paths_distinct paths] True by auto
  qed
  ultimately show ?thesis by blast
qed

text \<open>\<open>dilu generate --dir DIR\<close> does not find the \<open>buf\<close> program that \<open>make buf-install\<close> put
  into the project: for a directory below the current one it checks that \<open>DIR/bin/buf\<close> is there
  and then runs that relative path inside \<open>DIR\<close>, which is \<open>DIR/DIR/bin/buf\<close>, so the command
  fails although the program it checked exists.\<close>

theorem generate_misses_local_buf:
  assumes "regular_path dir" and "os_look_path lib ''buf'' \<noteq> None"
    and "files d (dir @ ''/bin/buf'') = Some b" and "os_stat_fault lib d (dir @ ''/bin/buf'') = None"
    and missing: "\<And>prog args wd. CHR ''/'' \<in> set prog \<Longrightarrow> files d prog = None \<Longrightarrow>
      \<exists>err. os_exec lib prog args wd d = (Some err, d)"
    and "files d (dir @ ''/'' @ dir @ ''/bin/buf'') = None"
  shows "\<exists>err. generate lib [''--dir'', dir] d =
    (Some (Wrapf ''buf generate: %w (install Buf or run `make buf-install`)'' err), d)"
proof -
  have bin: "regular_path ''bin/buf''"
    by code_simp
  have dir: "dir \<noteq> []"
    by (rule regular_path_neq_Nil [OF assms(1)])
  have local_buf: "join_path [dir, ''bin'', ''buf''] = dir @ ''/bin/buf''"
    using join_path_regular [OF dir bin] path_base_regular [OF assms(1)] dir
    by (simp add: join_path_def)
  have reg: "regular_path (dir @ ''/bin/buf'')"
    using bin assms(1) regular_path_append [of dir "''bin/buf''"] by simp
  then have "join_path [dir, dir @ ''/bin/buf''] = dir @ ''/'' @ dir @ ''/bin/buf''"
    using join_path_regular [OF dir reg] path_base_regular [OF assms(1)] by simp
  moreover obtain err where
    "os_exec lib (dir @ ''/'' @ dir @ ''/bin/buf'') [''generate''] dir d = (Some err, d)"
    using missing [of "dir @ ''/'' @ dir @ ''/bin/buf''" "[''generate'']" dir] assms(6) by auto
  ultimately show ?thesis
    using assms(1-4) regular_not_rooted [OF reg]
    by (auto simp: generate_def parse_project_flags_def project_flags_def string_flag_def clean_path_regular local_buf os_stat_def run_in_dir_def Let_def)
qed

text \<open>
  Two resources whose names differ only in where the hyphens are get different files that declare
  the same Go types in the same package.
\<close>

lemma resource_types_collide:
  "pascal_name ''a-b'' = pascal_name ''a--b''" "valid_name ''a-b''" "valid_name ''a--b''"
  by code_simp+

subsection \<open>Witnesses\<close>

text \<open>A disk on which nothing fails and no program is installed.\<close>

definition demo_os :: os_lib where
  "demo_os = \<lparr>os_stat_fault = \<lambda>d p. None, os_mkdir_all = \<lambda>d p. (None, (dirs d)(p := True)),
    os_write_fault = \<lambda>d p s. None, os_read_dir = \<lambda>d p. Inr [(''common'', True), (''orders'', True)],
    os_look_path = \<lambda>prog. Some (Errorf ''executable file not found in $PATH''),
    os_exec = \<lambda>prog args wd d.
      (if files d prog = None then (Some (Errorf ''fork/exec %s: no such file or directory''), d) else (None, d))\<rparr>"

definition demo_disk :: disk where
  "demo_disk = \<lparr>files = [''go.mod'' \<mapsto> ''module orders'', ''svc/bin/buf'' \<mapsto> ''ELF''], dirs = \<lambda>p. p = ''.''\<rparr>"

lemma demo_honest: "honest_stat demo_os"
  by (simp add: honest_stat_def demo_os_def)

definition demo_flags :: "string list" where
  "demo_flags = [''--module'', ''orders'']"

lemma demo_parse: "parse_project_flags demo_flags ''.'' [] = Inr (''.'', ''orders'')"
  by code_simp

lemma scaffold_keeps_files_witness:
  "files (snd (run_dilu demo_os [''add'', ''resource'', ''task''] demo_disk)) ''go.mod'' = Some ''module orders''"
  by (rule scaffold_keeps_files [OF prod.collapse [symmetric] _ demo_honest])
    (simp_all add: demo_disk_def)

lemma demo_add: "fst (add_resource demo_os (''task'' # demo_flags) demo_disk) = None"
  by code_simp

lemma resource_scaffold_witness:
  "files (snd (add_resource demo_os (''task'' # demo_flags) demo_disk)) ''internal/orders/apis/task_api.go'' =
   map_of (resource_files ''orders'' ''task'') ''internal/orders/apis/task_api.go''"
proof -
  have found: "map_of (resource_files ''orders'' ''task'') ''internal/orders/apis/task_api.go'' \<noteq> None"
    and path: "join_path [clean_path ''.'', ''internal/orders/apis/task_api.go''] = ''internal/orders/apis/task_api.go''"
    by code_simp+
  then obtain s where s: "map_of (resource_files ''orders'' ''task'') ''internal/orders/apis/task_api.go'' = Some s"
    by blast
  note written = resource_scaffold [OF prod.collapse [symmetric] demo_parse, of demo_os "''task''" demo_disk]
  have "files (snd (add_resource demo_os (''task'' # demo_flags) demo_disk))
      (join_path [clean_path ''.'', ''internal/orders/apis/task_api.go'']) = Some s"
    using written demo_add map_of_SomeD [OF s] by blast
  then show ?thesis
    unfolding path s .
qed

lemma generate_misses_local_buf_witness:
  "\<exists>err. generate demo_os [''--dir'', ''svc''] demo_disk =
    (Some (Wrapf ''buf generate: %w (install Buf or run `make buf-install`)'' err), demo_disk)"
proof (rule generate_misses_local_buf [where b = "''ELF''"])
  show "regular_path ''svc''"
    by code_simp
qed (auto simp: demo_os_def demo_disk_def)

end
