(* ===== verification/Telemetry.thy ===== *)
theory Telemetry
  imports Metrics Request_Metadata
begin

text \<open>
  Tracing: the provider of \<open>telemetry/telemetry.go\<close> and \<open>telemetry/trace.go\<close>, the exporter of
  \<open>contrib/telemetry/otlphttp\<close> and the instrumentation of Gin, GORM and Redis
  (\<open>contrib/telemetry/gorm\<close>, \<open>contrib/telemetry/redis\<close>). The SDK (resource detection, the
  tracer, the exporter's transport) is a parameter: an exporter is what its factory gives,
  a span the calls the code makes on it.
\<close>

subsection \<open>Exporters\<close>

type_synonym 'e exporter_factory = "telemetry_config \<Rightarrow> goerr + 'e"
type_synonym 'e exporters = "string \<Rightarrow> 'e exporter_factory option"

definition register_exporter ::
  "string \<Rightarrow> 'e exporter_factory option \<Rightarrow> 'e exporters \<Rightarrow> goerr option \<times> 'e exporters" where
  "register_exporter name factory exps =
    (let name = to_lower (trim_space name)
     in if name = [] \<or> factory = None then (Some (Errorf ''telemetry: invalid exporter registration''), exps)
        else (None, exps(name := factory)))"

definition exporter_for :: "string \<Rightarrow> 'e exporters \<Rightarrow> 'e exporter_factory option" where
  "exporter_for name exps = exps (to_lower (trim_space name))"

datatype otlp_option = EndpointURL string | EndpointHost string | Insecure

definition otlp_env_insecure :: "(string \<Rightarrow> string) \<Rightarrow> bool" where
  "otlp_env_insecure getenv \<longleftrightarrow> equal_fold (trim_space (getenv ''OTEL_EXPORTER_OTLP_INSECURE'')) ''true''"

definition new_otlp ::
  "(otlp_option list \<Rightarrow> goerr + 'e) \<Rightarrow> (string \<Rightarrow> string) \<Rightarrow> 'e exporter_factory" where
  "new_otlp sdk_new getenv cfg =
    (let endpoint = trim_space (tc_endpoint cfg);
         options = (if endpoint = [] then []
           else if prefix ''http://'' endpoint \<or> prefix ''https://'' endpoint then [EndpointURL endpoint]
           else [EndpointHost endpoint]);
         env_insecure = otlp_env_insecure getenv
     in if prefix ''http://'' endpoint \<and> \<not> tc_insecure cfg \<and> \<not> env_insecure
        then Inl (Errorf ''telemetry: insecure HTTP endpoint requires Insecure=true or OTEL_EXPORTER_OTLP_INSECURE=true'')
        else sdk_new (if tc_insecure cfg \<or> env_insecure then options @ [Insecure] else options))"

subsection \<open>The provider\<close>

definition normalize_sample_ratio :: "go_float \<Rightarrow> go_float" where
  "normalize_sample_ratio r =
    (case r of
       Finite q \<Rightarrow> if q < 0 \<or> q > 1 then Finite (1/10) else r
     | Infinite neg \<Rightarrow> Finite (1/10)
     | NotANumber \<Rightarrow> r)"

definition not_positive :: "go_float \<Rightarrow> bool" where
  "not_positive r = (case r of Finite q \<Rightarrow> q \<le> 0 | Infinite neg \<Rightarrow> neg | NotANumber \<Rightarrow> False)"

record trace_env =
  te_getenv :: "string \<Rightarrow> string"
  te_parse_float :: "string \<Rightarrow> go_float option"
  te_resource :: "(string \<times> string) list \<Rightarrow> goerr option"

definition disabled_by_env :: "trace_env \<Rightarrow> bool" where
  "disabled_by_env env \<longleftrightarrow>
    equal_fold (trim_space (te_getenv env ''OTEL_SDK_DISABLED'')) ''true'' \<or>
    equal_fold (trim_space (te_getenv env ''OTEL_TRACES_EXPORTER'')) ''none''"

definition trace_endpoint :: "trace_env \<Rightarrow> telemetry_config \<Rightarrow> string" where
  "trace_endpoint env cfg =
    (let endpoint = trim_space (tc_endpoint cfg)
     in if endpoint = [] then trim_space (te_getenv env ''OTEL_EXPORTER_OTLP_TRACES_ENDPOINT'') else endpoint)"

definition resource_attrs :: "trace_env \<Rightarrow> telemetry_config \<Rightarrow> (string \<times> string) list" where
  "resource_attrs env cfg =
    (let name = trim_space (tc_service_name cfg);
         name = (if name = [] then trim_space (te_getenv env ''OTEL_SERVICE_NAME'') else name);
         name = (if name = [] then ''dilu-service'' else name);
         version = trim_space (tc_service_version cfg); deployment = trim_space (tc_environment cfg)
     in [(''service.name'', name)] @
        (if version \<noteq> [] then [(''service.version'', version)] else []) @
        (if deployment \<noteq> [] then [(''deployment.environment'', deployment)] else []))"

definition sample_ratio :: "trace_env \<Rightarrow> telemetry_config \<Rightarrow> go_float" where
  "sample_ratio env cfg =
    (let name = to_lower (trim_space (te_getenv env ''OTEL_TRACES_SAMPLER''))
     in if name = ''always_off'' then Finite 0
        else if name = ''always_on'' then Finite 1
        else if not_positive (tc_sample_ratio cfg) \<and> \<not> tc_sample_ratio_set cfg
        then (case te_parse_float env (trim_space (te_getenv env ''OTEL_TRACES_SAMPLER_ARG'')) of
                Some r \<Rightarrow> r | None \<Rightarrow> Finite (1/10))
        else tc_sample_ratio cfg)"

text \<open>
  A provider: its exporter, resource and sampling ratio when it owns one, and the result of
  its shutdown once that was called.
\<close>

record 'e provider =
  pv_enabled :: bool
  pv_exporter :: "'e option"
  pv_resource :: "(string \<times> string) list"
  pv_sampler :: go_float
  pv_shutdown :: "goerr option option"

definition noop_provider :: "'e provider" where
  "noop_provider = \<lparr>pv_enabled = False, pv_exporter = None, pv_resource = [], pv_sampler = Finite 0,
    pv_shutdown = None\<rparr>"

definition telemetry_init ::
  "trace_env \<Rightarrow> 'e exporters \<Rightarrow> telemetry_config \<Rightarrow> goerr + 'e provider" where
  "telemetry_init env exps cfg =
    (if disabled_by_env env then Inr noop_provider
     else (let endpoint = trace_endpoint env cfg
       in if \<not> tc_enabled cfg \<and> endpoint = [] then Inr noop_provider
          else (case te_resource env (resource_attrs env cfg) of
              Some err \<Rightarrow> Inl err
            | None \<Rightarrow>
               (let cfg = (if endpoint \<noteq> [] then cfg\<lparr>tc_endpoint := endpoint\<rparr> else cfg)
                in case exporter_for ''otlphttp'' exps of
                     None \<Rightarrow> Inl (Errorf ''telemetry: exporter %q is not registered; import contrib/telemetry/otlphttp'')
                   | Some factory \<Rightarrow>
                      (case factory cfg of
                         Inl err \<Rightarrow> Inl err
                       | Inr e \<Rightarrow> Inr \<lparr>pv_enabled = True, pv_exporter = Some e, pv_resource = resource_attrs env cfg,
                           pv_sampler = normalize_sample_ratio (sample_ratio env cfg), pv_shutdown = None\<rparr>)))))"

text \<open>\<open>Shutdown\<close>: the second result counts the calls of the SDK's own shutdown.\<close>

definition provider_shutdown :: "goerr option \<Rightarrow> 'e provider option \<Rightarrow> goerr option \<times> nat \<times> 'e provider option" where
  "provider_shutdown sdk_err p =
    (case p of
       None \<Rightarrow> (None, 0, None)
     | Some p \<Rightarrow>
        (case pv_shutdown p of
           Some err \<Rightarrow> (err, 0, Some p)
         | None \<Rightarrow>
            (let err = (if pv_enabled p then sdk_err else None)
             in (err, if pv_enabled p then 1 else 0, Some (p\<lparr>pv_shutdown := Some err\<rparr>)))))"

subsection \<open>Spans\<close>

record span =
  sp_name :: string
  sp_attrs :: "(string \<times> string) list"
  sp_errors :: "goerr list"
  sp_failed :: "string option"
  sp_ended :: bool

definition start_span :: "string \<Rightarrow> span" where
  "start_span name = \<lparr>sp_name = name, sp_attrs = [], sp_errors = [], sp_failed = None, sp_ended = False\<rparr>"

definition set_attrs :: "(string \<times> string) list \<Rightarrow> span \<Rightarrow> span" where
  "set_attrs attrs s = s\<lparr>sp_attrs := sp_attrs s @ attrs\<rparr>"

definition record_error :: "goerr option \<Rightarrow> string option \<Rightarrow> span \<Rightarrow> span" where
  "record_error err status s =
    (case err of
       None \<Rightarrow> s
     | Some e \<Rightarrow> s\<lparr>sp_errors := sp_errors s @ [e], sp_failed := (if status = None then sp_failed s else status)\<rparr>)"

definition end_span :: "span \<Rightarrow> span" where
  "end_span s = s\<lparr>sp_ended := True\<rparr>"

text \<open>\<open>InSpan\<close> runs a function; a nil provider runs it without a span.\<close>

definition in_span ::
  "bool \<Rightarrow> string \<Rightarrow> (string \<times> string) list \<Rightarrow> ('w \<Rightarrow> goerr option \<times> 'w) option \<Rightarrow> 'w \<Rightarrow> goerr option \<times> span option \<times> 'w" where
  "in_span has_provider name attrs fn w =
    (case fn of
       None \<Rightarrow> (None, None, w)
     | Some fn \<Rightarrow>
        if \<not> has_provider then (let (err, w) = fn w in (err, None, w))
        else (let s = set_attrs attrs (start_span name); (err, w) = fn w
              in (err, Some (end_span (record_error err None s)), w)))"

text \<open>
  The Gin middleware around the rest of the chain, which gives a status, the errors of the
  context and whether it panics; the span is returned as it ends.
\<close>

definition traced_ctx :: "string option \<Rightarrow> meta_ctx \<Rightarrow> meta_ctx" where
  "traced_ctx trace_id ctx = (case trace_id of Some t \<Rightarrow> ctx\<lparr>mx_log_trace := t\<rparr> | None \<Rightarrow> ctx)"

definition gin_span :: "string \<Rightarrow> string \<Rightarrow> (int \<times> goerr list) option \<Rightarrow> span" where
  "gin_span meth route outcome =
    (let s = start_span (''HTTP '' @ meth)
     in case outcome of
          None \<Rightarrow> end_span s
        | Some (status, errs) \<Rightarrow>
           (let s = set_attrs [(''http.response.status_code'', format_int status)] s;
                s = (if status \<ge> 500
                     then s\<lparr>sp_failed := Some ''http server error'', sp_errors := sp_errors s @ errs\<rparr> else s);
                s = (if route \<noteq> [] then set_attrs [(''http.route'', route)] (s\<lparr>sp_name := meth @ '' '' @ route\<rparr>)
                     else s)
            in end_span s))"

definition redis_process :: "bool \<Rightarrow> string \<Rightarrow> ('w \<Rightarrow> goerr option \<times> 'w) \<Rightarrow> 'w \<Rightarrow> goerr option \<times> span option \<times> 'w" where
  "redis_process has_provider cmd next_hook w =
    (if \<not> has_provider then (let (err, w) = next_hook w in (err, None, w))
     else (let s = set_attrs [(''db.system'', ''redis''), (''db.operation.name'', to_upper cmd)]
                     (start_span (''redis '' @ to_upper cmd));
               (err, w) = next_hook w
           in (err, Some (end_span (record_error err (Some ''redis error'') s)), w)))"

definition redis_pipeline :: "bool \<Rightarrow> nat \<Rightarrow> ('w \<Rightarrow> goerr option \<times> 'w) \<Rightarrow> 'w \<Rightarrow> goerr option \<times> span option \<times> 'w" where
  "redis_pipeline has_provider n next_hook w =
    (if \<not> has_provider then (let (err, w) = next_hook w in (err, None, w))
     else (let s = set_attrs [(''db.system'', ''redis''), (''db.redis.pipeline.length'', format_int (int n))]
                     (start_span ''redis pipeline'');
               (err, w) = next_hook w
           in (err, Some (end_span (record_error err (Some ''redis error'') s)), w)))"

subsection \<open>The GORM plugin\<close>

text \<open>
  The callbacks a plugin registers, in order: for each operation one before and one after it.
  A registration may fail, and the rest is then not registered.
\<close>

definition gorm_operations :: "string list" where
  "gorm_operations = [''query'', ''row'', ''create'', ''update'', ''delete'', ''raw'']"

definition gorm_callbacks :: "string list" where
  "gorm_callbacks = concat (map (\<lambda>op. [''dilu:otel:start:'' @ op, ''dilu:otel:end:'' @ op]) gorm_operations)"

fun register_callbacks :: "(string \<Rightarrow> goerr option) \<Rightarrow> string list \<Rightarrow> goerr option \<times> string list" where
  "register_callbacks reg [] = (None, [])"
| "register_callbacks reg (cb # cbs) =
    (case reg cb of
       Some err \<Rightarrow> (Some err, [])
     | None \<Rightarrow> (let (err, registered) = register_callbacks reg cbs in (err, cb # registered)))"

definition gorm_initialize :: "(string \<Rightarrow> goerr option) \<Rightarrow> goerr option \<times> string list" where
  "gorm_initialize reg = register_callbacks reg gorm_callbacks"

definition gorm_start :: "bool \<Rightarrow> string \<Rightarrow> string \<Rightarrow> span option" where
  "gorm_start has_provider operation table =
    (if \<not> has_provider then None
     else (let s = set_attrs [(''db.system'', ''postgresql''), (''db.operation.name'', to_upper operation)]
                     (start_span (''db '' @ operation))
           in Some (if table \<noteq> [] then set_attrs [(''db.collection.name'', table)] s else s)))"

text \<open>
  The end of an operation at a time: the error of the statement goes to its span, and the
  statistics of the pool are observed at most once per second. \<open>None\<close> for the pool is a
  statement without a \<open>sql.DB\<close>.
\<close>

record gorm_plugin =
  gp_last_pool_sample :: instant

definition gorm_end ::
  "instant \<Rightarrow> goerr option \<Rightarrow> string option \<Rightarrow> db_stats option \<Rightarrow> span option \<Rightarrow> gorm_plugin \<Rightarrow> metrics \<Rightarrow>
   span option \<times> bool \<times> gorm_plugin \<times> metrics" where
  "gorm_end now err db_name stats sp p m =
    (case sp of
       None \<Rightarrow> (None, False, p, m)
     | Some s \<Rightarrow>
        (let s = record_error err (Some ''database error'') s;
             sampled = (wrap64 (now - gp_last_pool_sample p) \<ge> second);
             p = (if sampled then p\<lparr>gp_last_pool_sample := now\<rparr> else p);
             name = (case db_name of Some n \<Rightarrow> if n \<noteq> [] then n else ''default'' | None \<Rightarrow> ''default'');
             m = (case stats of Some st \<Rightarrow> if sampled then observe_db_pool name st m else m | None \<Rightarrow> m)
         in (Some (end_span s), sampled, p, m)))"

subsection \<open>What the provider promises\<close>

definition ratio_ok :: "go_float \<Rightarrow> bool" where
  "ratio_ok r = (case r of Finite q \<Rightarrow> 0 \<le> q \<and> q \<le> 1 | Infinite _ \<Rightarrow> False | NotANumber \<Rightarrow> True)"

lemma normalize_sample_ratio_ok: "ratio_ok (normalize_sample_ratio r)"
  by (simp add: normalize_sample_ratio_def ratio_ok_def split: go_float.split)

lemma normalize_sample_ratio_id: "0 \<le> q \<Longrightarrow> q \<le> 1 \<Longrightarrow> normalize_sample_ratio (Finite q) = Finite q"
  by (simp add: normalize_sample_ratio_def)

text \<open>\<open>normalizeSampleRatio\<close> does not stop a NaN, which \<open>OTEL_TRACES_SAMPLER_ARG\<close> may hold.\<close>

lemma nan_ratio_passes: "normalize_sample_ratio NotANumber = NotANumber"
  by (simp add: normalize_sample_ratio_def)

lemma new_otlp_plaintext:
  "new_otlp sdk getenv cfg = Inr e \<Longrightarrow> prefix ''http://'' (trim_space (tc_endpoint cfg)) \<Longrightarrow>
    tc_insecure cfg \<or> otlp_env_insecure getenv"
  by (simp add: new_otlp_def Let_def split: if_splits)

lemma trim_space_trace_endpoint: "trim_space (trace_endpoint env cfg) = trace_endpoint env cfg"
  by (simp add: trace_endpoint_def Let_def)

definition traces_wanted :: "trace_env \<Rightarrow> telemetry_config \<Rightarrow> bool" where
  "traces_wanted env cfg \<longleftrightarrow> \<not> disabled_by_env env \<and> (tc_enabled cfg \<or> trace_endpoint env cfg \<noteq> [])"

lemma otlp_name: "to_lower (trim_space ''otlphttp'') = ''otlphttp''"
  by code_simp

lemma telemetry_init_noop: "\<not> traces_wanted env cfg \<Longrightarrow> telemetry_init env exps cfg = Inr noop_provider"
  by (auto simp: traces_wanted_def telemetry_init_def)

lemma telemetry_init_active:
  assumes "telemetry_init env exps cfg = Inr p" and "traces_wanted env cfg"
  obtains factory c e where
    "exps ''otlphttp'' = Some factory" "factory c = Inr e"
    "tc_insecure c = tc_insecure cfg"
    "trim_space (tc_endpoint c) = trace_endpoint env cfg"
    "pv_enabled p" "pv_sampler p = normalize_sample_ratio (sample_ratio env cfg)"
proof -
  let ?c = "if trace_endpoint env cfg \<noteq> [] then cfg\<lparr>tc_endpoint := trace_endpoint env cfg\<rparr> else cfg"
  have ratio: "sample_ratio env ?c = sample_ratio env cfg"
    by (cases "trace_endpoint env cfg = []") (simp_all add: sample_ratio_def Let_def)
  have empty: "trace_endpoint env cfg = [] \<Longrightarrow> trim_space (tc_endpoint cfg) = []"
    by (auto simp: trace_endpoint_def Let_def split: if_splits)
  have "exporter_for ''otlphttp'' exps = exps ''otlphttp''"
    by (simp only: exporter_for_def otlp_name)
  then obtain factory e where f: "exps ''otlphttp'' = Some factory" "factory ?c = Inr e"
    "pv_enabled p" "pv_sampler p = normalize_sample_ratio (sample_ratio env ?c)"
    using assms by (auto simp: telemetry_init_def traces_wanted_def Let_def split: option.splits sum.splits if_splits)
  show ?thesis
    by (rule that [OF f(1,2) _ _ f(3)]) (use f(4) ratio empty in \<open>auto simp: trim_space_trace_endpoint\<close>)
qed

text \<open>Tracing is opt-in: with the OTLP exporter registered, a service that started traces
  only when no environment variable disables it and the configuration enables it or an endpoint
  is set; it then samples a ratio between 0 and 1 (or a NaN from the environment), exactly the
  configured one when that is positive and the environment names no sampler; and spans leave in
  plain HTTP only where the configuration or the environment asks for that.\<close>

theorem tracing_is_opt_in:
  assumes "telemetry_init env (exps(''otlphttp'' := Some (new_otlp sdk (te_getenv env)))) cfg = Inr p"
  shows "(pv_enabled p \<longleftrightarrow>
      \<not> disabled_by_env env \<and> (tc_enabled cfg \<or> trace_endpoint env cfg \<noteq> [])) \<and>
    (pv_enabled p \<longrightarrow> ratio_ok (pv_sampler p)) \<and>
    (\<forall>q. pv_enabled p \<and> tc_sample_ratio cfg = Finite q \<and> 0 < q \<and> q \<le> 1 \<and>
        te_getenv env ''OTEL_TRACES_SAMPLER'' = [] \<longrightarrow> pv_sampler p = Finite q) \<and>
    (pv_enabled p \<and> prefix ''http://'' (trace_endpoint env cfg) \<longrightarrow>
      tc_insecure cfg \<or> otlp_env_insecure (te_getenv env))"
proof (cases "traces_wanted env cfg")
  case False
  have "Inr p = (Inr noop_provider :: goerr + 'a provider)"
    unfolding assms [symmetric] by (rule telemetry_init_noop [OF False])
  then have "p = noop_provider"
    by simp
  then show ?thesis
    using False by (simp add: noop_provider_def traces_wanted_def)
next
  case True
  obtain c e where c: "new_otlp sdk (te_getenv env) c = Inr e" and same: "tc_insecure c = tc_insecure cfg"
    "trim_space (tc_endpoint c) = trace_endpoint env cfg" and p: "pv_enabled p"
    "pv_sampler p = normalize_sample_ratio (sample_ratio env cfg)"
    by (rule telemetry_init_active [OF assms True]) auto
  have "sample_ratio env cfg = Finite q"
    if "tc_sample_ratio cfg = Finite q" "0 < q" "te_getenv env ''OTEL_TRACES_SAMPLER'' = []" for q
  proof -
    have "to_lower (trim_space []) = []"
      by code_simp
    then show ?thesis
      using that by (simp add: sample_ratio_def not_positive_def Let_def)
  qed
  then show ?thesis
    using True p new_otlp_plaintext [OF c] normalize_sample_ratio_ok unfolding same
    by (auto simp: traces_wanted_def normalize_sample_ratio_id)
qed

lemma shutdown_once:
  assumes "provider_shutdown err p = (r, n, p')"
  shows "provider_shutdown err' p' = (r, 0, p')"
  using assms by (auto simp: provider_shutdown_def Let_def split: option.splits)

subsection \<open>Sampling the pool\<close>

text \<open>The ends of the operations of a plugin, and the times at which it observed the pool.\<close>

fun gorm_samples ::
  "(instant \<times> goerr option \<times> string option \<times> db_stats option \<times> span option) list \<Rightarrow>
   gorm_plugin \<Rightarrow> metrics \<Rightarrow> instant list" where
  "gorm_samples [] p m = []"
| "gorm_samples ((now, err, db_name, stats, sp) # ends) p m =
    (case gorm_end now err db_name stats sp p m of
       (_, sampled, p, m) \<Rightarrow> if sampled then now # gorm_samples ends p m else gorm_samples ends p m)"

lemma gorm_end_sampled:
  assumes "gorm_end now err db_name stats sp p m = (sp', sampled, p', m')"
    and "0 \<le> gp_last_pool_sample p" and "gp_last_pool_sample p \<le> max_int64" and "0 \<le> now" and "now \<le> max_int64"
  shows "if sampled then gp_last_pool_sample p + second \<le> now \<and> gp_last_pool_sample p' = now else p' = p"
proof -
  have "wrap64 (now - gp_last_pool_sample p) = now - gp_last_pool_sample p"
    using assms(2-5) by (simp add: wrap64_def max_int64_def)
  then show ?thesis
    using assms(1) by (auto simp: gorm_end_def Let_def split: option.splits if_splits)
qed

text \<open>The GORM plugin observes its connection pool at most once per second: whatever
  statements end, and even when the clock goes back, each observation is at least a second
  later than the one before.\<close>

theorem pool_sampled_once_per_second:
  assumes "\<forall>(now, _)\<in>set ends. 0 \<le> now \<and> now \<le> max_int64"
    and "0 \<le> gp_last_pool_sample p" and "gp_last_pool_sample p \<le> max_int64"
  shows "sorted_wrt (\<lambda>t u. t + second \<le> u) (gp_last_pool_sample p # gorm_samples ends p m)"
  using assms
proof (induction ends arbitrary: p m)
  case (Cons e ends)
  obtain now err db_name stats sp where e: "e = (now, err, db_name, stats, sp)"
    by (metis prod_cases5)
  obtain sp' sampled p' m' where g: "gorm_end now err db_name stats sp p m = (sp', sampled, p', m')"
    by (metis prod_cases4)
  have now: "0 \<le> now" "now \<le> max_int64" and rest: "\<forall>(now, _)\<in>set ends. 0 \<le> now \<and> now \<le> max_int64"
    using Cons.prems(1) e by auto
  note step = gorm_end_sampled [OF g Cons.prems(2,3) now]
  show ?case
  proof (cases sampled)
    case True
    then have "gp_last_pool_sample p + second \<le> now" "gp_last_pool_sample p' = now"
      using step by simp_all
    moreover have "sorted_wrt (\<lambda>t u. t + second \<le> u) (gp_last_pool_sample p' # gorm_samples ends p' m')"
      by (rule Cons.IH) (use rest now calculation in auto)
    moreover have "0 \<le> second"
      by (simp add: second_def)
    ultimately show ?thesis
      using True e g by fastforce
  next
    case False
    then show ?thesis
      using step e g Cons.IH [OF rest Cons.prems(2,3)] by simp
  qed
qed simp

subsection \<open>Witnesses\<close>

definition demo_trace_env :: trace_env where
  "demo_trace_env = \<lparr>te_getenv = (\<lambda>v. if v = ''OTEL_EXPORTER_OTLP_INSECURE'' then ''true'' else []),
    te_parse_float = (\<lambda>s. None), te_resource = (\<lambda>attrs. None)\<rparr>"

definition demo_tracing :: telemetry_config where
  "demo_tracing = \<lparr>tc_enabled = True, tc_service_name = ''orders'', tc_service_version = [], tc_environment = [],
    tc_endpoint = ''http://127.0.0.1:4318/v1/traces'', tc_insecure = False, tc_sample_ratio = Finite (1/2),
    tc_sample_ratio_set = False\<rparr>"

definition demo_provider :: "otlp_option list provider" where
  "demo_provider = \<lparr>pv_enabled = True,
    pv_exporter = Some [EndpointURL ''http://127.0.0.1:4318/v1/traces'', Insecure],
    pv_resource = [(''service.name'', ''orders'')], pv_sampler = Finite (1/2), pv_shutdown = None\<rparr>"

lemma demo_telemetry_init:
  "telemetry_init demo_trace_env
     ((\<lambda>n. None)(''otlphttp'' := Some (new_otlp Inr (te_getenv demo_trace_env)))) demo_tracing = Inr demo_provider"
  by code_simp

lemma tracing_is_opt_in_witness:
  "traces_wanted demo_trace_env demo_tracing \<and> pv_sampler demo_provider = Finite (1/2)"
  using tracing_is_opt_in [OF demo_telemetry_init]
  by (simp add: traces_wanted_def demo_provider_def)

definition demo_end :: "instant \<Rightarrow> instant \<times> goerr option \<times> string option \<times> db_stats option \<times> span option" where
  "demo_end t = (t, None, None, None, gorm_start True ''query'' ''users'')"

lemma pool_sampled_once_per_second_witness:
  "sorted_wrt (\<lambda>t u. t + second \<le> u)
     (0 # gorm_samples (map demo_end [5 * second, 5 * second + 1, 4 * second, 7 * second])
            \<lparr>gp_last_pool_sample = 0\<rparr> init_collectors)"
  using pool_sampled_once_per_second [of "map demo_end [5 * second, 5 * second + 1, 4 * second, 7 * second]"
      "\<lparr>gp_last_pool_sample = 0\<rparr>" init_collectors]
  by (simp add: demo_end_def second_def max_int64_def)

end
