(* ===== verification/Migrations.thy ===== *)
theory Migrations
  imports Go_Files Go_Conv
begin

text \<open>
  Database migrations, \<open>contrib/migrate/postgres/migrate.go\<close>: the operations that delegate to
  golang-migrate, whose handle is a parameter, and the creation of paired files with increasing
  versions on a disk that may fail.
\<close>

subsection \<open>Migrator\<close>

record migrator =
  mg_dsn :: string
  mg_dir :: string

definition new_migrator :: "string \<Rightarrow> string \<Rightarrow> migrator" where
  "new_migrator dsn dir = \<lparr>mg_dsn = dsn, mg_dir = dir\<rparr>"

text \<open>\<open>url.URL.String\<close> escapes the bytes of a path that are neither unreserved nor one of \<open>$&+,/:;=@\<close>.\<close>

definition path_byte :: "char \<Rightarrow> bool" where
  "path_byte c \<longleftrightarrow> is_lower c \<or> is_upper c \<or> is_digit c \<or> c \<in> set ''-_.~$&+,/:;=@''"

definition hex_digit :: "nat \<Rightarrow> char" where
  "hex_digit n = ''0123456789ABCDEF'' ! n"

definition escape_path :: "string \<Rightarrow> string" where
  "escape_path p =
    concat (map (\<lambda>c. if path_byte c then [c]
      else [CHR ''%'', hex_digit (of_char c div 16), hex_digit (of_char c mod 16)]) p)"

definition source_url :: "(string \<Rightarrow> goerr + string) \<Rightarrow> string \<Rightarrow> goerr + string" where
  "source_url abs_path dir =
    (if dir = [] then Inl (Errorf ''migratex: empty migration dir'')
     else if prefix ''file://'' dir then Inr dir
     else (case abs_path dir of
         Inl err \<Rightarrow> Inl (Wrapf ''migratex: abs dir: %w'' err)
       | Inr p \<Rightarrow>
          (let p = (if \<not> prefix ''/'' p then ''/'' @ p else p)
           in Inr (''file://'' @ escape_path p))))"

text \<open>The handle of the library and the world it changes.\<close>

record ('m, 'w) migrate_lib =
  ml_abs :: "string \<Rightarrow> goerr + string"
  ml_new :: "string \<Rightarrow> string \<Rightarrow> 'w \<Rightarrow> (goerr + 'm) \<times> 'w"
  ml_up :: "'m \<Rightarrow> 'w \<Rightarrow> goerr option \<times> 'w"
  ml_steps :: "'m \<Rightarrow> int \<Rightarrow> 'w \<Rightarrow> goerr option \<times> 'w"
  ml_version :: "'m \<Rightarrow> 'w \<Rightarrow> (nat \<times> bool \<times> goerr option) \<times> 'w"
  ml_force :: "'m \<Rightarrow> int \<Rightarrow> 'w \<Rightarrow> goerr option \<times> 'w"
  ml_close :: "'m \<Rightarrow> 'w \<Rightarrow> 'w"

definition open_migrator :: "('m, 'w) migrate_lib \<Rightarrow> migrator \<Rightarrow> 'w \<Rightarrow> (goerr + 'm) \<times> 'w" where
  "open_migrator lib m w =
    (if mg_dsn m = [] then (Inl (Errorf ''migratex: empty dsn''), w)
     else (case source_url (ml_abs lib) (mg_dir m) of
         Inl err \<Rightarrow> (Inl err, w)
       | Inr src \<Rightarrow>
          (case ml_new lib src (mg_dsn m) w of
             (Inl err, w) \<Rightarrow> (Inl (Wrapf ''migratex: open: %w'' err), w)
           | (Inr mm, w) \<Rightarrow> (Inr mm, w))))"

definition unless_is :: "string \<Rightarrow> goerr option \<Rightarrow> goerr option" where
  "unless_is target err = (case err of Some e \<Rightarrow> if err_is e target then None else err | None \<Rightarrow> None)"

definition migrate_up :: "('m, 'w) migrate_lib \<Rightarrow> migrator \<Rightarrow> 'w \<Rightarrow> goerr option \<times> 'w" where
  "migrate_up lib m w =
    (case open_migrator lib m w of
       (Inl err, w) \<Rightarrow> (Some err, w)
     | (Inr mm, w) \<Rightarrow> (let (err, w) = ml_up lib mm w in (unless_is ''no change'' err, ml_close lib mm w)))"

definition migrate_down :: "('m, 'w) migrate_lib \<Rightarrow> migrator \<Rightarrow> int \<Rightarrow> 'w \<Rightarrow> goerr option \<times> 'w" where
  "migrate_down lib m steps w =
    (if steps \<le> 0 then (Some (Errorf ''migratex: steps must be positive''), w)
     else (case open_migrator lib m w of
         (Inl err, w) \<Rightarrow> (Some err, w)
       | (Inr mm, w) \<Rightarrow>
          (let (err, w) = ml_steps lib mm (- steps) w in (unless_is ''no change'' err, ml_close lib mm w))))"

definition migrate_version :: "('m, 'w) migrate_lib \<Rightarrow> migrator \<Rightarrow> 'w \<Rightarrow> (nat \<times> bool \<times> goerr option) \<times> 'w" where
  "migrate_version lib m w =
    (case open_migrator lib m w of
       (Inl err, w) \<Rightarrow> ((0, False, Some err), w)
     | (Inr mm, w) \<Rightarrow>
        (let ((version, dirty, err), w) = ml_version lib mm w;
             w = ml_close lib mm w
         in (if err \<noteq> None \<and> unless_is ''no migration'' err = None then (0, False, None)
             else (version, dirty, err), w)))"

definition migrate_force :: "('m, 'w) migrate_lib \<Rightarrow> migrator \<Rightarrow> int \<Rightarrow> 'w \<Rightarrow> goerr option \<times> 'w" where
  "migrate_force lib m version w =
    (case open_migrator lib m w of
       (Inl err, w) \<Rightarrow> (Some err, w)
     | (Inr mm, w) \<Rightarrow> (let (err, w) = ml_force lib mm version w in (err, ml_close lib mm w)))"

subsection \<open>New migrations\<close>

definition slug_char :: "char \<Rightarrow> bool" where
  "slug_char c \<longleftrightarrow> is_lower c \<or> is_upper c \<or> is_digit c \<or> c = CHR ''_''"

fun replace_runs :: "bool \<Rightarrow> string \<Rightarrow> string" where
  "replace_runs in_run [] = []"
| "replace_runs in_run (c # cs) =
    (if slug_char c then c # replace_runs False cs
     else if in_run then replace_runs True cs else CHR ''_'' # replace_runs True cs)"

definition slug_name :: "string \<Rightarrow> string" where
  "slug_name name = trim_chars (replace_runs False (trim_space (to_lower name))) ''_''"

text \<open>
  The version counter: the time in nanoseconds, or one more than the last version when the
  clock has not passed it. The compare-and-swap makes this one step of the counter.
\<close>

definition next_migration_version :: "instant \<Rightarrow> int \<Rightarrow> int" where
  "next_migration_version now previous = (if now \<le> previous then wrap64 (previous + 1) else now)"

text \<open>
  The disk's faults: an open that fails creates nothing, a write that fails leaves a part of
  the text in the file it created.
\<close>

record migrate_os =
  mo_mkdir_all :: "disk \<Rightarrow> string \<Rightarrow> goerr option \<times> (string \<Rightarrow> bool)"
  mo_open_fault :: "disk \<Rightarrow> string \<Rightarrow> goerr option"
  mo_write_fault :: "disk \<Rightarrow> string \<Rightarrow> (goerr \<times> string) option"
  mo_remove_fault :: "disk \<Rightarrow> string \<Rightarrow> bool"

definition migration_text :: string where
  "migration_text = ''-- Write your SQL here.'' @ [CHR 0x0A]"

definition write_new_file :: "migrate_os \<Rightarrow> string \<Rightarrow> disk \<Rightarrow> goerr option \<times> disk" where
  "write_new_file os p d =
    (case (if files d p \<noteq> None \<or> dirs d p then Some (Sentinel ''file already exists'') else mo_open_fault os d p) of
       Some err \<Rightarrow> (Some (Wrapf ''migratex: create %s: %w'' err), d)
     | None \<Rightarrow>
        (case mo_write_fault os d p of
           Some (err, part) \<Rightarrow> (Some err, d\<lparr>files := (files d)(p := Some part)\<rparr>)
         | None \<Rightarrow> (None, d\<lparr>files := (files d)(p := Some migration_text)\<rparr>)))"

definition remove_file :: "migrate_os \<Rightarrow> string \<Rightarrow> disk \<Rightarrow> disk" where
  "remove_file os p d = (if mo_remove_fault os d p then d else d\<lparr>files := (files d)(p := None)\<rparr>)"

definition migration_file :: "string \<Rightarrow> int \<Rightarrow> string \<Rightarrow> string \<Rightarrow> string" where
  "migration_file dir version slug ext = join_path [dir, format_int version @ ''_'' @ slug @ ext]"

definition create_migration ::
  "migrate_os \<Rightarrow> string \<Rightarrow> string \<Rightarrow> instant \<Rightarrow> int \<Rightarrow> disk \<Rightarrow> (goerr + string \<times> string) \<times> int \<times> disk" where
  "create_migration os dir name now previous d =
    (let slug = slug_name name
     in if dir = [] then (Inl (Errorf ''migratex: empty migration dir''), previous, d)
        else if slug = [] then (Inl (Errorf ''migratex: empty migration name''), previous, d)
        else (case mo_mkdir_all os d dir of
            (Some err, ds) \<Rightarrow> (Inl (Wrapf ''migratex: mkdir: %w'' err), previous, d\<lparr>dirs := ds\<rparr>)
          | (None, ds) \<Rightarrow>
             (let d = d\<lparr>dirs := ds\<rparr>;
                  version = next_migration_version now previous;
                  up = migration_file dir version slug ''.up.sql'';
                  down = migration_file dir version slug ''.down.sql''
              in case write_new_file os up d of
                   (Some err, d) \<Rightarrow> (Inl err, version, d)
                 | (None, d) \<Rightarrow>
                    (case write_new_file os down d of
                       (Some err, d) \<Rightarrow> (Inl err, version, remove_file os up d)
                     | (None, d) \<Rightarrow> (Inr (up, down), version, d)))))"

subsection \<open>Names of files\<close>

definition slug_ok :: "string \<Rightarrow> bool" where
  "slug_ok s \<longleftrightarrow> s \<noteq> [] \<and> list_all slug_char s \<and> hd s \<noteq> CHR ''_'' \<and> last s \<noteq> CHR ''_''"

lemma replace_runs_chars: "list_all slug_char (replace_runs r s)"
  by (induction r s rule: replace_runs.induct) (auto simp: slug_char_def)

lemma slug_name_ok:
  assumes "slug_name name \<noteq> []"
  shows "slug_ok (slug_name name)"
proof -
  define t where "t = replace_runs False (trim_space (to_lower name))"
  define u where "u = dropWhile (\<lambda>c. c \<in> set ''_'') t"
  have s: "slug_name name = trim_right_chars u ''_''"
    by (simp add: slug_name_def trim_chars_def t_def u_def)
  have pre: "prefix (slug_name name) u"
    unfolding s by (rule trim_right_chars_prefix)
  then obtain v where v: "u = slug_name name @ v" ..
  have "hd u = hd (slug_name name)" "u \<noteq> []"
    using assms v by simp_all
  then have "hd (slug_name name) \<noteq> CHR ''_''"
    using hd_dropWhile [of "\<lambda>c. c \<in> set ''_''" t] by (simp add: u_def)
  moreover have "last (slug_name name) \<noteq> CHR ''_''"
    using trim_right_chars_last [of u "''_''"] assms s by simp
  moreover have "set (slug_name name) \<subseteq> set t"
    using set_mono_prefix [OF pre] set_dropWhileD [of _ "\<lambda>c. c \<in> set ''_''" t] by (auto simp: u_def)
  moreover have "list_all slug_char t"
    unfolding t_def by (rule replace_runs_chars)
  ultimately show ?thesis
    using assms by (auto simp: slug_ok_def list_all_iff)
qed

lemma format_int_chars: "c \<in> set (format_int i) \<Longrightarrow> is_digit c \<or> c = CHR ''-''"
  by (auto simp: format_int_def dest: nat_digits_digits split: if_splits)

lemma migration_file_path:
  assumes "dir \<noteq> []" and "slug_ok slug" and "CHR ''/'' \<notin> set ext"
  shows "migration_file dir version slug ext = path_base dir @ format_int version @ ''_'' @ slug @ ext"
proof -
  have "CHR ''/'' \<notin> set slug"
    using assms(2)
    by (auto simp: slug_ok_def list_all_iff slug_char_def is_lower_def is_upper_def is_digit_def less_eq_char_def)
  moreover have "CHR ''/'' \<notin> set (format_int version)"
    using format_int_chars [of "CHR ''/''" version] by (auto simp: is_digit_def less_eq_char_def)
  moreover have "regular_seg (format_int version @ ''_'' @ slug @ ext)"
    by (rule regular_seg_char [of "CHR ''_''"]) simp_all
  ultimately have "regular_path (format_int version @ ''_'' @ slug @ ext)"
    using assms(3) by (simp add: regular_path_def split_on_no_sep)
  then show ?thesis
    unfolding migration_file_def by (rule join_path_regular [OF assms(1)])
qed

lemma next_migration_version_increases:
  assumes "min_int64 \<le> previous" and "previous < max_int64"
  shows "previous < next_migration_version now previous" "now \<le> next_migration_version now previous"
proof -
  have "wrap64 (previous + 1) = previous + 1"
    using assms by (simp add: wrap64_def min_int64_def max_int64_def)
  then show "previous < next_migration_version now previous" "now \<le> next_migration_version now previous"
    by (simp_all add: next_migration_version_def)
qed

lemma write_new_file_ok:
  "write_new_file os p d = (None, d') \<Longrightarrow>
    files d p = None \<and> files d' = (files d)(p := Some migration_text) \<and> dirs d' = dirs d"
  by (auto simp: write_new_file_def split: option.splits if_splits prod.splits)

subsection \<open>Properties\<close>

text \<open>A migration that \<open>Create\<close> reports is a pair of new files: the up and the down file did
  not exist, have the same version and a slug of letters, digits and inner underscores, lie
  directly in the directory, and are all that changes; and its version is above every version
  created before.\<close>

theorem migration_pair_created:
  assumes "create_migration os dir name now previous d = (Inr (up, down), version, d')"
    and "min_int64 \<le> previous" and "previous < max_int64"
  shows "\<exists>slug. slug_ok slug \<and>
    up = path_base dir @ format_int version @ ''_'' @ slug @ ''.up.sql'' \<and>
    down = path_base dir @ format_int version @ ''_'' @ slug @ ''.down.sql'' \<and>
    files d up = None \<and> files d down = None \<and>
    files d' = (files d)(up := Some migration_text, down := Some migration_text) \<and>
    previous < version \<and> now \<le> version"
proof -
  let ?slug = "slug_name name"
  from assms(1) have dir: "dir \<noteq> []" and slug: "?slug \<noteq> []"
    by (auto simp: create_migration_def Let_def split: if_splits)
  obtain ds where mk: "mo_mkdir_all os d dir = (None, ds)"
    using assms(1) dir slug by (auto simp: create_migration_def Let_def split: prod.splits option.splits)
  let ?d = "d\<lparr>dirs := ds\<rparr>"
  have v: "version = next_migration_version now previous"
    and u: "up = migration_file dir version ?slug ''.up.sql''"
    and w: "down = migration_file dir version ?slug ''.down.sql''"
    using assms(1) dir slug mk
    by (auto simp: create_migration_def Let_def split: prod.splits option.splits)
  obtain d1 where w1: "write_new_file os up ?d = (None, d1)" and w2: "write_new_file os down d1 = (None, d')"
    using assms(1) dir slug mk v u w
    by (auto simp: create_migration_def Let_def split: prod.splits option.splits)
  note ok = slug_name_ok [OF slug]
  have up: "up = path_base dir @ format_int version @ ''_'' @ ?slug @ ''.up.sql''"
    unfolding u by (rule migration_file_path [OF dir ok]) simp
  have down: "down = path_base dir @ format_int version @ ''_'' @ ?slug @ ''.down.sql''"
    unfolding w by (rule migration_file_path [OF dir ok]) simp
  have "up \<noteq> down"
    by (simp add: up down)
  then show ?thesis
    using write_new_file_ok [OF w1] write_new_file_ok [OF w2] ok up down
      next_migration_version_increases [OF assms(2,3)] v
    by (intro exI [of _ ?slug]) auto
qed

text \<open>A creation that fails leaves a file behind: when the text of the up file cannot be
  written (a full disk), \<open>Create\<close> returns the error and the empty or partial up file stays
  without its down file.\<close>

theorem failed_create_leaves_file:
  assumes "dir \<noteq> []" and "slug_name name \<noteq> []" and "mo_mkdir_all os d dir = (None, ds)"
    and "up = migration_file dir (next_migration_version now previous) (slug_name name) ''.up.sql''"
    and "files d up = None" and "\<not> ds up" and "mo_open_fault os (d\<lparr>dirs := ds\<rparr>) up = None"
    and "mo_write_fault os (d\<lparr>dirs := ds\<rparr>) up = Some (err, part)"
  shows "\<exists>version d'. create_migration os dir name now previous d = (Inl err, version, d') \<and>
    files d' = (files d)(up := Some part)"
  using assms by (simp add: create_migration_def write_new_file_def Let_def)

subsection \<open>Witnesses\<close>

definition demo_migrate_os :: migrate_os where
  "demo_migrate_os = \<lparr>mo_mkdir_all = \<lambda>d p. (None, (dirs d)(p := True)), mo_open_fault = \<lambda>d p. None,
    mo_write_fault = \<lambda>d p. None, mo_remove_fault = \<lambda>d p. False\<rparr>"

definition empty_disk :: disk where
  "empty_disk = \<lparr>files = (\<lambda>p. None), dirs = (\<lambda>p. False)\<rparr>"

definition demo_create :: "migrate_os \<Rightarrow> (goerr + string \<times> string) \<times> int \<times> disk" where
  "demo_create os = create_migration os ''db'' ''Add users!'' 7 9 empty_disk"

lemma demo_create_result:
  "fst (demo_create demo_migrate_os) = Inr (''db/10_add_users.up.sql'', ''db/10_add_users.down.sql'')"
  "fst (snd (demo_create demo_migrate_os)) = 10"
  by code_simp+

lemma migration_pair_created_witness:
  "files (snd (snd (demo_create demo_migrate_os))) =
     [''db/10_add_users.up.sql'' \<mapsto> migration_text, ''db/10_add_users.down.sql'' \<mapsto> migration_text]"
proof -
  have "create_migration demo_migrate_os ''db'' ''Add users!'' 7 9 empty_disk =
      (Inr (''db/10_add_users.up.sql'', ''db/10_add_users.down.sql''), 10, snd (snd (demo_create demo_migrate_os)))"
    using demo_create_result unfolding demo_create_def by (metis prod.collapse)
  from migration_pair_created [OF this] show ?thesis
    by (auto simp: empty_disk_def min_int64_def max_int64_def)
qed

lemma failed_create_leaves_file_witness:
  "\<exists>version d'. create_migration (demo_migrate_os\<lparr>mo_write_fault := \<lambda>d p. Some (Errorf ''no space left on device'', [])\<rparr>)
      ''db'' ''users'' 7 0 empty_disk = (Inl (Errorf ''no space left on device''), version, d') \<and>
    files d' = [''db/7_users.up.sql'' \<mapsto> []]"
proof -
  have slug: "slug_name ''users'' \<noteq> []"
    and up: "''db/7_users.up.sql'' = migration_file ''db'' (next_migration_version 7 0) (slug_name ''users'') ''.up.sql''"
    by code_simp+
  show ?thesis
    using failed_create_leaves_file [OF _ slug _ up, where d = empty_disk]
    by (simp add: demo_migrate_os_def empty_disk_def)
qed

end
