(* ===== verification/Access_Log.thy ===== *)
theory Access_Log
  imports Go_Strings
begin

text \<open>
  What the access log records of a request's URL, \<open>mid/logger.go\<close>: the query is parsed, the
  values of sensitive keys are replaced and the rest is written again. Queries are parsed and
  encoded as \<open>net/url\<close> does; a parsed query lists each key once, in the order of first
  appearance, with its values.
\<close>

subsection \<open>Escaping\<close>

definition hex_digits :: string where
  "hex_digits = ''0123456789ABCDEF''"

definition upper_hex :: "nat \<Rightarrow> char" where
  "upper_hex n = hex_digits ! n"

definition unreserved :: "char \<Rightarrow> bool" where
  "unreserved c \<longleftrightarrow> is_lower c \<or> is_upper c \<or> is_digit c \<or> c \<in> set ''-_.~''"

definition escape_byte :: "char \<Rightarrow> string" where
  "escape_byte c =
    (if unreserved c then [c]
     else if c = CHR '' '' then ''+''
     else [CHR ''%'', upper_hex (of_char c div 16), upper_hex (of_char c mod 16)])"

definition query_escape :: "string \<Rightarrow> string" where
  "query_escape s = concat (map escape_byte s)"

definition hex_value :: "char \<Rightarrow> nat option" where
  "hex_value c =
    (if is_digit c then Some (of_char c - 48)
     else if CHR ''a'' \<le> c \<and> c \<le> CHR ''f'' then Some (of_char c - 87)
     else if CHR ''A'' \<le> c \<and> c \<le> CHR ''F'' then Some (of_char c - 55)
     else None)"

text \<open>\<open>QueryUnescape\<close>; \<open>None\<close> is its escape error.\<close>

fun query_unescape :: "string \<Rightarrow> string option" where
  "query_unescape [] = Some []"
| "query_unescape (c # cs) =
    (if c = CHR ''%'' then
       (case cs of
          h # l # rest \<Rightarrow>
            (case (hex_value h, hex_value l) of
               (Some a, Some b) \<Rightarrow> map_option (\<lambda>r. char_of (16 * a + b) # r) (query_unescape rest)
             | _ \<Rightarrow> None)
        | _ \<Rightarrow> None)
     else map_option (\<lambda>r. (if c = CHR ''+'' then CHR '' '' else c) # r) (query_unescape cs))"

subsection \<open>Queries\<close>

type_synonym query_values = "(string \<times> string list) list"

fun add_value :: "string \<Rightarrow> string \<Rightarrow> query_values \<Rightarrow> query_values" where
  "add_value k v [] = [(k, [v])]"
| "add_value k v ((k', vs) # q) = (if k = k' then (k', vs @ [v]) # q else (k', vs) # add_value k v q)"

definition cut :: "char \<Rightarrow> string \<Rightarrow> string \<times> string" where
  "cut sep s = (takeWhile (\<lambda>c. c \<noteq> sep) s, drop 1 (dropWhile (\<lambda>c. c \<noteq> sep) s))"

text \<open>One setting: one with a semicolon, an empty one and one with a bad escape are skipped.\<close>

definition parse_setting :: "string \<Rightarrow> query_values \<Rightarrow> query_values" where
  "parse_setting s q =
    (if CHR '';'' \<in> set s \<or> s = [] then q
     else (case cut (CHR ''='') s of
         (k, v) \<Rightarrow>
          (case (query_unescape k, query_unescape v) of
             (Some k, Some v) \<Rightarrow> add_value k v q
           | _ \<Rightarrow> q)))"

definition parse_query :: "string \<Rightarrow> query_values" where
  "parse_query raw = fold parse_setting (split_on (CHR ''&'') raw) []"

text \<open>\<open>Values.Encode\<close> writes the keys in order, each value as a setting of its own.\<close>

definition encode_settings :: "query_values \<Rightarrow> string list" where
  "encode_settings q = concat (map (\<lambda>(k, vs). map (\<lambda>v. query_escape k @ ''='' @ query_escape v) vs) (sort_key fst q))"

definition encode_query :: "query_values \<Rightarrow> string" where
  "encode_query q = join ''&'' (encode_settings q)"

subsection \<open>The logged path\<close>

definition is_sensitive_query_key :: "string \<Rightarrow> bool" where
  "is_sensitive_query_key key \<longleftrightarrow>
    to_lower key \<in> {''token'', ''access_token'', ''refresh_token'', ''id_token'', ''authorization'', ''auth'', ''jwt''}"

definition redact :: "query_values \<Rightarrow> query_values" where
  "redact q = map (\<lambda>(k, vs). (k, if is_sensitive_query_key k then [''[REDACTED]''] else vs)) q"

definition log_path :: "string \<Rightarrow> string \<Rightarrow> string" where
  "log_path path raw =
    (if raw = [] then path
     else (let encoded = encode_query (redact (parse_query raw))
           in if encoded \<noteq> [] then path @ ''?'' @ encoded else path))"

subsection \<open>Lemmas on escaping\<close>

lemma hex_value_upper_hex: "n < 16 \<Longrightarrow> hex_value (upper_hex n) = Some n"
proof -
  assume "n < 16"
  then have "n \<in> set [0..<16]" by simp
  moreover have "list_all (\<lambda>n. hex_value (upper_hex n) = Some n) [0..<16]"
    by code_simp
  ultimately show ?thesis
    by (simp only: list_all_iff)
qed

lemma char_of_split: "char_of (16 * (of_char c div 16) + of_char c mod 16 :: nat) = c"
  by (simp only: mult_div_mod_eq char_of_char)

lemma unreserved_plain: "unreserved c \<Longrightarrow> c \<noteq> CHR ''%'' \<and> c \<noteq> CHR ''+'' \<and> c \<noteq> CHR ''&'' \<and> c \<noteq> CHR ''='' \<and> c \<noteq> CHR '';''"
  by (auto simp: unreserved_def is_lower_def is_upper_def is_digit_def less_eq_char_def)

lemma upper_hex_plain: "n < 16 \<Longrightarrow> is_upper (upper_hex n) \<or> is_digit (upper_hex n)"
proof -
  assume "n < 16"
  then have "n \<in> set [0..<16]" by simp
  moreover have "list_all (\<lambda>n. is_upper (upper_hex n) \<or> is_digit (upper_hex n)) [0..<16]"
    by code_simp
  ultimately show ?thesis
    by (simp only: list_all_iff)
qed

lemma nibbles: "(of_char c :: nat) div 16 < 16" "(of_char c :: nat) mod 16 < 16"
  using nat_of_char_less_256 [of c] by (simp_all add: less_mult_imp_div_less)

lemma query_unescape_byte: "query_unescape (escape_byte c @ s) = map_option (\<lambda>r. c # r) (query_unescape s)"
  using unreserved_plain [of c] nibbles [of c]
  by (simp add: escape_byte_def hex_value_upper_hex char_of_split)

lemma query_unescape_escape: "query_unescape (query_escape s) = Some s"
  by (induction s) (simp_all add: query_escape_def query_unescape_byte)

definition plain_char :: "char \<Rightarrow> bool" where
  "plain_char c \<longleftrightarrow> c \<noteq> CHR ''&'' \<and> c \<noteq> CHR ''='' \<and> c \<noteq> CHR '';''"

lemma upper_hex_plain_char: "n < 16 \<Longrightarrow> plain_char (upper_hex n)"
  using upper_hex_plain [of n]
  by (auto simp: plain_char_def is_upper_def is_digit_def less_eq_char_def)

lemma escape_byte_plain: "list_all plain_char (escape_byte c)"
  using unreserved_plain [of c] nibbles [of c]
  by (simp add: escape_byte_def upper_hex_plain_char) (simp add: plain_char_def)

lemma query_escape_plain: "list_all plain_char (query_escape s)"
  using escape_byte_plain by (induction s) (simp_all add: query_escape_def)

lemma query_escape_chars:
  "CHR ''&'' \<notin> set (query_escape s)" "CHR ''='' \<notin> set (query_escape s)" "CHR '';'' \<notin> set (query_escape s)"
  using query_escape_plain [of s] by (auto simp: list_all_iff plain_char_def)

subsection \<open>Lemmas on queries\<close>

lemma cut_at: "sep \<notin> set k \<Longrightarrow> cut sep (k @ sep # v) = (k, v)"
  by (induction k) (auto simp: cut_def)

lemma parse_setting_encoded:
  "parse_setting (query_escape k @ ''='' @ query_escape v) q = add_value k v q"
  using query_escape_chars [of k] query_escape_chars [of v]
  by (simp add: parse_setting_def cut_at query_unescape_escape)

definition values_ok :: "query_values \<Rightarrow> bool" where
  "values_ok q \<longleftrightarrow> distinct (map fst q) \<and> [] \<notin> snd ` set q"

lemma add_value_keys: "set (map fst (add_value k v q)) = insert k (set (map fst q))"
  by (induction k v q rule: add_value.induct) auto

lemma add_value_ok: "values_ok q \<Longrightarrow> values_ok (add_value k v q)"
proof (induction k v q rule: add_value.induct)
  case (2 k v k' vs q)
  then show ?case
    using add_value_keys [of k v q] by (auto simp: values_ok_def)
qed (simp add: values_ok_def)

lemma parse_setting_ok: "values_ok q \<Longrightarrow> values_ok (parse_setting s q)"
  by (simp add: parse_setting_def add_value_ok split: prod.split option.split)

lemma parse_query_ok: "values_ok (parse_query raw)"
proof -
  have "values_ok (fold parse_setting ss q)" if "values_ok q" for ss q
    using that by (induction ss arbitrary: q) (simp_all add: parse_setting_ok)
  then show ?thesis
    by (simp add: parse_query_def values_ok_def)
qed

lemma add_value_last: "k \<notin> fst ` set q \<Longrightarrow> add_value k v (q @ [(k, us)]) = q @ [(k, us @ [v])]"
  by (induction q) auto

lemma add_value_new: "k \<notin> fst ` set q \<Longrightarrow> add_value k v q = q @ [(k, [v])]"
  by (induction q) auto

lemma fold_add_more:
  "k \<notin> fst ` set q \<Longrightarrow> fold (add_value k) vs (q @ [(k, us)]) = q @ [(k, us @ vs)]"
  by (induction vs arbitrary: us) (simp_all add: add_value_last)

lemma fold_add_values:
  "k \<notin> fst ` set q \<Longrightarrow> vs \<noteq> [] \<Longrightarrow> fold (add_value k) vs q = q @ [(k, vs)]"
  by (cases vs) (simp_all add: add_value_new fold_add_more)

lemma fold_parse_encoded:
  "fold parse_setting (map (\<lambda>v. query_escape k @ ''='' @ query_escape v) vs) q = fold (add_value k) vs q"
  using parse_setting_encoded [of k] by (induction vs arbitrary: q) simp_all

lemma fold_parse_settings:
  assumes "values_ok (q0 @ q)"
  shows "fold parse_setting (concat (map (\<lambda>(k, vs). map (\<lambda>v. query_escape k @ ''='' @ query_escape v) vs) q)) q0 =
    q0 @ q"
  using assms
proof (induction q arbitrary: q0)
  case (Cons e q)
  obtain k vs where e: "e = (k, vs)" by fastforce
  have "fold (add_value k) vs q0 = q0 @ [(k, vs)]"
    using Cons.prems e by (intro fold_add_values) (force simp: values_ok_def)+
  moreover have "values_ok ((q0 @ [(k, vs)]) @ q)"
    using Cons.prems e by simp
  ultimately show ?case
    using Cons.IH [of "q0 @ [(k, vs)]"] e fold_parse_encoded [of k vs q0] by simp
qed simp

lemma values_ok_sorted: "values_ok q \<Longrightarrow> values_ok (sort_key fst q)"
  by (simp add: values_ok_def distinct_map)

lemma setting_no_amp: "s \<in> set (encode_settings q) \<Longrightarrow> CHR ''&'' \<notin> set s"
  using query_escape_chars by (auto simp: encode_settings_def)

text \<open>Encoding and parsing again gives the same values, sorted by key.\<close>

lemma parse_encode_query:
  assumes "values_ok q"
  shows "parse_query (encode_query q) = sort_key fst q"
proof -
  have all: "fold parse_setting (encode_settings q) [] = sort_key fst q"
    unfolding encode_settings_def using fold_parse_settings [of "[]"] values_ok_sorted [OF assms] by simp
  show ?thesis
  proof (cases "encode_settings q = []")
    case True
    then show ?thesis
      using all by (simp add: parse_query_def encode_query_def parse_setting_def)
  next
    case False
    then have "split_on (CHR ''&'') (encode_query q) = encode_settings q"
      unfolding encode_query_def using setting_no_amp by (intro split_on_join) auto
    then show ?thesis
      using all by (simp add: parse_query_def)
  qed
qed

lemma redact_ok: "values_ok q \<Longrightarrow> values_ok (redact q)"
  by (force simp: values_ok_def redact_def comp_def case_prod_beta split: if_splits)

lemma map_of_redact:
  "map_of (redact q) k = map_option (\<lambda>vs. if is_sensitive_query_key k then [''[REDACTED]''] else vs) (map_of q k)"
  by (induction q) (auto simp: redact_def)

lemma map_of_sort_key: "distinct (map fst q) \<Longrightarrow> map_of (sort_key fst q) = map_of q"
  by (subst map_of_inject_set) (simp_all add: distinct_map)

text \<open>C32. The access log keeps secrets out of the logged URL: what it logs is the path, or the
  path and a query that parses to the values of the request's query with the value of every
  sensitive key replaced, and all other values unchanged.\<close>

theorem log_path_redacts:
  "\<exists>suffix. log_path path raw = path @ suffix \<and> take 1 suffix \<in> {[], ''?''} \<and>
    (\<forall>k. map_of (parse_query (drop 1 suffix)) k =
       map_option (\<lambda>vs. if is_sensitive_query_key k then [''[REDACTED]''] else vs) (map_of (parse_query raw) k))"
proof -
  let ?q = "redact (parse_query raw)" 
  let ?suffix = "if encode_query ?q = [] then [] else ''?'' @ encode_query ?q"
  have ok: "values_ok ?q"
    by (rule redact_ok [OF parse_query_ok])
  have "parse_query (drop 1 ?suffix) = parse_query (encode_query ?q)"
    by simp
  then have "parse_query (drop 1 ?suffix) = sort_key fst ?q"
    using parse_encode_query [OF ok] by simp
  then have "map_of (parse_query (drop 1 ?suffix)) = map_of ?q"
    using ok by (simp add: map_of_sort_key values_ok_def)
  moreover have "log_path path raw = path @ ?suffix"
  proof (cases "raw = []")
    case True
    have "encode_query (redact (parse_query [])) = []"
      by code_simp
    with True show ?thesis by (simp add: log_path_def)
  next
    case False
    then show ?thesis by (simp add: log_path_def Let_def)
  qed
  ultimately show ?thesis
    by (intro exI [of _ ?suffix]) (simp add: map_of_redact)
qed

end
