(* ===== verification/Key_Watch.thy ===== *)
theory Key_Watch
  imports Remote_Config
begin

text \<open>
  Watching one key of a configuration store: \<open>Get\<close> and \<open>WatchKey\<close> of
  \<open>contrib/registry/etcd/registry.go\<close> and \<open>contrib/registry/consul/registry.go\<close>, and the
  watches of \<open>boot/remote.go\<close> over them. What a store answers is a sequence of replies; the
  model of a store is its history, the event of the key (if any) at each revision.
\<close>

subsection \<open>Stores\<close>

type_synonym key_history = "nat \<Rightarrow> string option option"

text \<open>\<open>Some None\<close> is a deletion. The value at a revision is what the last event before wrote.\<close>

fun value_at :: "key_history \<Rightarrow> nat \<Rightarrow> string option" where
  "value_at ev 0 = None"
| "value_at ev (Suc r) = (case ev (Suc r) of Some v \<Rightarrow> v | None \<Rightarrow> value_at ev r)"

definition events_between :: "key_history \<Rightarrow> nat \<Rightarrow> nat \<Rightarrow> string option list" where
  "events_between ev a b = List.map_filter ev [a..<Suc b]"

subsection \<open>etcd\<close>

definition etcd_get :: "goerr + string list \<Rightarrow> goerr + string" where
  "etcd_get reply =
    (case reply of
       Inl err \<Rightarrow> Inl (Wrapf ''registry: etcd get %q: %w'' err)
     | Inr [] \<Rightarrow> Inl err_key_not_found
     | Inr (v # vs) \<Rightarrow> Inr v)"

text \<open>An event of a watch: a deletion, or a put with its pair, which may be missing.\<close>

datatype etcd_key_event = KeyDeleted | KeyPut "string option"

text \<open>The copy of a value that reaches the callback: \<open>append\<close> to nil gives nil for an empty one.\<close>

definition clone_bytes :: "string \<Rightarrow> string option" where
  "clone_bytes v = (if v = [] then None else Some v)"

definition key_event_call :: "etcd_key_event \<Rightarrow> string option list" where
  "key_event_call e = (case e of KeyDeleted \<Rightarrow> [None] | KeyPut None \<Rightarrow> [] | KeyPut (Some v) \<Rightarrow> [clone_bytes v])"

datatype etcd_key_reply =
  GetFailed
| GotKey nat "string list"
| WatchFailed
| WatchReply nat "etcd_key_event list"
| WatchClosed

text \<open>
  The loop's state is the revision to watch from, 0 when the key must be read first, and the
  calls of the callback, \<open>None\<close> for a missing key.
\<close>

record etcd_key_watch =
  kw_revision :: nat
  kw_calls :: "string option list"

definition etcd_watch_key :: "etcd_key_reply \<Rightarrow> etcd_key_watch \<Rightarrow> etcd_key_watch" where
  "etcd_watch_key reply s =
    (case reply of
       GetFailed \<Rightarrow> s
     | GotKey r kvs \<Rightarrow>
        s\<lparr>kw_revision := r + 1,
          kw_calls := kw_calls s @ [case kvs of [] \<Rightarrow> None | v # vs \<Rightarrow> clone_bytes v]\<rparr>
     | WatchFailed \<Rightarrow> s\<lparr>kw_revision := 0\<rparr>
     | WatchReply h evs \<Rightarrow>
        s\<lparr>kw_revision := (if h > 0 then h + 1 else kw_revision s),
          kw_calls := kw_calls s @ concat (map key_event_call evs)\<rparr>
     | WatchClosed \<Rightarrow> s)"

text \<open>
  A watcher of the store: a state of the loop and the revision up to which the store has sent
  the key's events. A response carries the events up to some revision, not beyond the one in
  its header; a stream that ends without an error has sent all up to the last header.
\<close>

definition put_or_delete :: "string option \<Rightarrow> etcd_key_event" where
  "put_or_delete v = (case v of None \<Rightarrow> KeyDeleted | Some s \<Rightarrow> KeyPut (Some s))"

inductive etcd_key_step :: "key_history \<Rightarrow> etcd_key_watch \<times> nat \<Rightarrow> etcd_key_watch \<times> nat \<Rightarrow> bool" for ev where
  get_failed: "kw_revision s = 0 \<Longrightarrow> etcd_key_step ev (s, pos) (etcd_watch_key GetFailed s, pos)"
| got: "kw_revision s = 0 \<Longrightarrow>
    etcd_key_step ev (s, pos)
      (etcd_watch_key (GotKey r (case value_at ev r of None \<Rightarrow> [] | Some v \<Rightarrow> [v])) s, r)"
| failed: "kw_revision s \<noteq> 0 \<Longrightarrow> etcd_key_step ev (s, pos) (etcd_watch_key WatchFailed s, pos)"
| response: "kw_revision s \<noteq> 0 \<Longrightarrow> pos \<le> r \<Longrightarrow> r \<le> h \<Longrightarrow>
    etcd_key_step ev (s, pos)
      (etcd_watch_key (WatchReply h (map put_or_delete (events_between ev (Suc pos) r))) s, r)"
| closed: "kw_revision s = pos + 1 \<Longrightarrow> etcd_key_step ev (s, pos) (etcd_watch_key WatchClosed s, pos)"

subsection \<open>Consul\<close>

definition consul_get :: "goerr + string option \<Rightarrow> goerr + string" where
  "consul_get reply =
    (case reply of
       Inl err \<Rightarrow> Inl (Wrapf ''registry: consul get %q: %w'' err)
     | Inr None \<Rightarrow> Inl err_key_not_found
     | Inr (Some v) \<Rightarrow> Inr v)"

record consul_key_watch =
  ck_index :: nat
  ck_calls :: "string option list"

text \<open>One blocking query: an error, or the index of the answer (without metadata: none) and the value.\<close>

definition consul_watch_key :: "goerr + nat option \<times> string option \<Rightarrow> consul_key_watch \<Rightarrow> consul_key_watch" where
  "consul_watch_key reply s =
    (case reply of
       Inr (Some index, v) \<Rightarrow>
         if index \<noteq> ck_index s then s\<lparr>ck_index := index, ck_calls := ck_calls s @ [Option.bind v clone_bytes]\<rparr> else s
     | _ \<Rightarrow> s)"

inductive consul_key_step :: "key_history \<Rightarrow> consul_key_watch \<Rightarrow> consul_key_watch \<Rightarrow> bool" for ev where
  query_failed: "consul_key_step ev s (consul_watch_key (Inl err) s)"
| answered: "consul_key_step ev s (consul_watch_key (Inr (Some index, value_at ev index)) s)"

subsection \<open>Remote configuration\<close>

text \<open>
  \<open>WatchRemoteConfig\<close> and \<open>WatchRemoteConfigFromStore\<close> over a watch that makes the given calls
  and ends; the second result is the calls of their own callback.
\<close>

definition watch_remote_config ::
  "env_lib \<Rightarrow> boot_registry_config \<Rightarrow> string \<Rightarrow> bool \<Rightarrow> goerr option \<Rightarrow> (string \<Rightarrow> goerr option \<times> string option list) \<Rightarrow>
   goerr option \<times> string option list" where
  "watch_remote_config env reg service_name has_callback open_err watch =
    (let service_name = trim_space service_name
     in case validate_remote_inputs env reg service_name of
          Some err \<Rightarrow> (Some err, [])
        | None \<Rightarrow>
           if \<not> has_callback then (Some (Sentinel ''remote config: onChange callback is required''), [])
           else (case open_err of
               Some err \<Rightarrow> (Some err, [])
             | None \<Rightarrow> watch (resolve_config_key reg service_name)))"

definition watch_remote_config_from_store ::
  "env_lib \<Rightarrow> boot_registry_config \<Rightarrow> string \<Rightarrow> bool \<Rightarrow> (string \<Rightarrow> goerr option \<times> string option list) option \<Rightarrow>
   goerr option \<times> string option list" where
  "watch_remote_config_from_store env reg service_name has_callback watch =
    (let service_name = trim_space service_name
     in case validate_remote_inputs env reg service_name of
          Some err \<Rightarrow> (Some err, [])
        | None \<Rightarrow>
           (case watch of
              None \<Rightarrow> (Some (Sentinel ''remote config: KV store is nil''), [])
            | Some watch \<Rightarrow>
               if \<not> has_callback then (Some (Sentinel ''remote config: onChange callback is required''), [])
               else (let (err, calls) = watch (resolve_config_key reg service_name)
                     in (err, filter (\<lambda>c. case c of None \<Rightarrow> True | Some data \<Rightarrow> \<not> length data > max_remote_config_bytes) calls))))"

subsection \<open>Mirroring\<close>

definition last_call :: "string option list \<Rightarrow> string option" where
  "last_call calls = (if calls = [] then None else last calls)"

lemma last_call_append: "last_call (xs @ ys) = (if ys = [] then last_call xs else last ys)"
  by (simp add: last_call_def)

abbreviation seen :: "string option \<Rightarrow> string option" where
  "seen v \<equiv> Option.bind v clone_bytes"

lemma key_event_call_put_or_delete: "key_event_call (put_or_delete v) = [seen v]"
  by (simp add: key_event_call_def put_or_delete_def split: option.split)

lemma calls_of_events: "concat (map (key_event_call \<circ> put_or_delete) vs) = map seen vs"
  by (induction vs) (simp_all add: key_event_call_put_or_delete)

lemma events_between_Suc:
  "a \<le> Suc b \<Longrightarrow> events_between ev a (Suc b) = events_between ev a b @ (case ev (Suc b) of Some v \<Rightarrow> [v] | None \<Rightarrow> [])"
  by (simp add: events_between_def map_filter_def split: option.split)

text \<open>Following the events of a stretch of history leads from the value at its start to the one at its end.\<close>

lemma last_event_value:
  "pos \<le> r \<Longrightarrow> (if events_between ev (Suc pos) r = [] then value_at ev pos else last (events_between ev (Suc pos) r)) =
    value_at ev r"
proof (induction r)
  case 0
  then show ?case by (simp add: events_between_def map_filter_def)
next
  case (Suc r)
  show ?case
  proof (cases "pos = Suc r")
    case True
    then show ?thesis by (simp add: events_between_def map_filter_def)
  next
    case False
    then show ?thesis
      using Suc by (auto simp: events_between_Suc split: option.split)
  qed
qed

definition etcd_key_ok :: "key_history \<Rightarrow> etcd_key_watch \<times> nat \<Rightarrow> bool" where
  "etcd_key_ok ev st = (case st of (s, pos) \<Rightarrow>
    kw_revision s \<noteq> 0 \<longrightarrow> kw_calls s \<noteq> [] \<and> last_call (kw_calls s) = seen (value_at ev pos))"

lemma etcd_key_ok_step:
  assumes "etcd_key_step ev s t" and "etcd_key_ok ev s"
  shows "etcd_key_ok ev t"
  using assms
proof cases
  case (response w pos r h)
  then show ?thesis
    using last_event_value [of pos r ev] assms(2)
    by (auto simp: etcd_key_ok_def etcd_watch_key_def calls_of_events last_call_append last_map split: if_splits)
qed (auto simp: etcd_key_ok_def etcd_watch_key_def last_call_append split: option.splits)

interpretation etcd_key: step_invariant "etcd_key_step ev" "etcd_key_ok ev" for ev
  by unfold_locales (rule etcd_key_ok_step)

definition consul_key_ok :: "key_history \<Rightarrow> consul_key_watch \<Rightarrow> bool" where
  "consul_key_ok ev s \<longleftrightarrow> last_call (ck_calls s) = seen (value_at ev (ck_index s)) \<and>
    (ck_index s \<noteq> 0 \<longrightarrow> ck_calls s \<noteq> [])"

interpretation consul_key: step_invariant "consul_key_step ev" "consul_key_ok ev" for ev
proof
  fix s t
  assume "consul_key_ok ev s" and "consul_key_step ev s t"
  from this(2,1) show "consul_key_ok ev t"
    by cases (auto simp: consul_key_ok_def consul_watch_key_def last_call_append)
qed

text \<open>C29. Both key watches mirror the store: whatever errors, partial responses and interruptions
  come between, whenever the etcd watch is streaming the callback was last called with the
  value that the key has at the revision the store has sent, and whenever Consul has answered
  it was last called with the value at the index of the last answer; a missing key and an empty
  value are both seen as nil.\<close>

theorem key_watches_mirror:
  assumes "(etcd_key_step ev)\<^sup>*\<^sup>* (\<lparr>kw_revision = 0, kw_calls = []\<rparr>, 0) (s, pos)"
    and "(consul_key_step ev)\<^sup>*\<^sup>* \<lparr>ck_index = 0, ck_calls = []\<rparr> c"
  shows "(kw_revision s \<noteq> 0 \<longrightarrow> kw_calls s \<noteq> [] \<and> last (kw_calls s) = seen (value_at ev pos)) \<and>
    (ck_index c \<noteq> 0 \<longrightarrow> ck_calls c \<noteq> [] \<and> last (ck_calls c) = seen (value_at ev (ck_index c)))"
  using etcd_key.steps_keep [OF assms(1)] consul_key.steps_keep [OF assms(2)]
  by (auto simp: etcd_key_ok_def consul_key_ok_def last_call_def)

text \<open>
  A payload above the limit is kept from the callback when the store is injected, but not when
  the registry is opened from the configuration.
\<close>

lemma oversized_payload_passed:
  assumes "validate_remote_inputs env reg (trim_space svc) = None" and "length data > max_remote_config_bytes"
  shows "snd (watch_remote_config env reg svc True None (\<lambda>k. (None, [Some data]))) = [Some data]"
    and "snd (watch_remote_config_from_store env reg svc True (Some (\<lambda>k. (None, [Some data])))) = []"
  using assms by (simp_all add: watch_remote_config_def watch_remote_config_from_store_def)

subsection \<open>Witness\<close>

text \<open>A key that is written at revision 2 and removed at revision 5.\<close>

definition demo_history :: key_history where
  "demo_history r = (if r = 2 then Some (Some ''a: 1'') else if r = 5 then Some None else None)"

definition demo_key_watch :: etcd_key_watch where
  "demo_key_watch = etcd_watch_key (WatchReply 7 [KeyDeleted])
    (etcd_watch_key (GotKey 3 [''a: 1'']) \<lparr>kw_revision = 0, kw_calls = []\<rparr>)"

lemma demo_values: "value_at demo_history 3 = Some ''a: 1''" "events_between demo_history 4 6 = [None]"
  by code_simp+

lemma demo_etcd_steps:
  "(etcd_key_step demo_history)\<^sup>*\<^sup>* (\<lparr>kw_revision = 0, kw_calls = []\<rparr>, 0) (demo_key_watch, 6)"
proof -
  let ?s0 = "\<lparr>kw_revision = 0, kw_calls = []\<rparr>" and ?s1 = "etcd_watch_key (GotKey 3 [''a: 1'']) \<lparr>kw_revision = 0, kw_calls = []\<rparr>"
  have "etcd_key_step demo_history (?s0, 0) (?s1, 3)"
    using etcd_key_step.got [of ?s0 demo_history 0 3] by (simp add: demo_values)
  moreover have "etcd_key_step demo_history (?s1, 3) (demo_key_watch, 6)"
    using etcd_key_step.response [of ?s1 3 6 7 demo_history]
    by (simp add: demo_key_watch_def demo_values put_or_delete_def etcd_watch_key_def)
  ultimately show ?thesis
    by (meson r_into_rtranclp rtranclp.rtrancl_into_rtrancl)
qed

lemma key_watches_mirror_witness:
  "last (kw_calls demo_key_watch) = seen (value_at demo_history 6) \<and> kw_calls demo_key_watch = [Some ''a: 1'', None]"
proof -
  have "kw_revision demo_key_watch \<noteq> 0" "kw_calls demo_key_watch = [Some ''a: 1'', None]"
    by code_simp+
  then show ?thesis
    using key_watches_mirror [OF demo_etcd_steps rtranclp.rtrancl_refl] by simp
qed

end
