(* ===== verification/Logging.thy ===== *)
theory Logging
  imports Request_Metadata
begin

text \<open>
  The logger of \<open>log/log.go\<close>, \<open>log/slog.go\<close> and \<open>log/trace.go\<close>: the output it selects, what a
  record carries, and the life of its log file. A file output (a lumberjack logger) is a number;
  formatting and writing are left out.
\<close>

subsection \<open>Files\<close>

record file_config =
  fc_path :: string
  fc_max_size :: int
  fc_max_age :: int
  fc_max_backups :: int
  fc_compress :: bool

definition file_max_size :: "file_config \<Rightarrow> int" where
  "file_max_size f = default_pos (fc_max_size f) 100"

definition file_max_age :: "file_config \<Rightarrow> int" where
  "file_max_age f = default_pos (fc_max_age f) 7"

definition file_max_backups :: "file_config \<Rightarrow> int" where
  "file_max_backups f = default_pos (fc_max_backups f) 5"

record log_rotation =
  lj_path :: string
  lj_max_size :: int
  lj_max_age :: int
  lj_max_backups :: int
  lj_compress :: bool

definition rotation_of :: "file_config \<Rightarrow> log_rotation" where
  "rotation_of f = \<lparr>lj_path = fc_path f, lj_max_size = file_max_size f, lj_max_age = file_max_age f,
    lj_max_backups = file_max_backups f, lj_compress = fc_compress f\<rparr>"

subsection \<open>Loggers\<close>

datatype log_writer = Stdout | ToFile nat log_rotation | StdoutAndFile nat log_rotation

datatype log_level = LevelDebug | LevelInfo

record slog_logger =
  sl_writer :: log_writer
  sl_json :: bool
  sl_level :: log_level
  sl_attrs :: "(string \<times> string) list"
  sl_closer :: "nat option"

text \<open>\<open>newSlogLogger\<close>; the number is the file output it creates if it creates one.\<close>

definition new_slog_logger :: "nat \<Rightarrow> string \<Rightarrow> string \<Rightarrow> string \<Rightarrow> file_config option \<Rightarrow> slog_logger" where
  "new_slog_logger n mode service_name output f =
    (let usable = (case f of None \<Rightarrow> False | Some f \<Rightarrow> fc_path f \<noteq> []);
         (w, closer) =
           (if output = ''file'' \<and> usable then (ToFile n (rotation_of (the f)), Some n)
            else if output = ''both'' \<and> usable then (StdoutAndFile n (rotation_of (the f)), Some n)
            else (Stdout, None));
         production = (mode = ''release'' \<or> mode = ''production'')
     in \<lparr>sl_writer = w, sl_json = production, sl_level = (if production then LevelInfo else LevelDebug),
         sl_attrs = (if service_name \<noteq> [] then [(''service'', service_name)] else []), sl_closer = closer\<rparr>)"

definition slog_with :: "(string \<times> string) list \<Rightarrow> slog_logger \<Rightarrow> slog_logger" where
  "slog_with attrs l = l\<lparr>sl_attrs := sl_attrs l @ attrs\<rparr>"

text \<open>The trace handler: the trace of the context, when there is one, and a time.\<close>

record log_record =
  lr_time :: instant
  lr_attrs :: "(string \<times> string) list"

definition trace_handle :: "meta_ctx option \<Rightarrow> instant \<Rightarrow> log_record \<Rightarrow> log_record" where
  "trace_handle ctx now r =
    (let trace = (case ctx of None \<Rightarrow> [] | Some ctx \<Rightarrow> mx_log_trace ctx);
         r = (if trace \<noteq> [] then r\<lparr>lr_attrs := lr_attrs r @ [(''trace_id'', trace)]\<rparr> else r)
     in if is_zero_time (lr_time r) then r\<lparr>lr_time := now\<rparr> else r)"

subsection \<open>The global logger\<close>

text \<open>The outputs created so far are the numbers below \<open>lw_next\<close>; each close is recorded.\<close>

datatype 'c logger = Slog slog_logger | Custom 'c

record 'c log_world =
  lw_global :: "'c logger"
  lw_next :: nat
  lw_closed :: "nat list"

definition closer_of :: "'c logger \<Rightarrow> nat option" where
  "closer_of l = (case l of Slog s \<Rightarrow> sl_closer s | Custom c \<Rightarrow> None)"

definition close_output :: "'c log_world \<Rightarrow> 'c log_world" where
  "close_output w = (case closer_of (lw_global w) of
    Some n \<Rightarrow> w\<lparr>lw_closed := lw_closed w @ [n]\<rparr> | None \<Rightarrow> w)"

definition log_init :: "string \<Rightarrow> string \<Rightarrow> string \<Rightarrow> file_config option \<Rightarrow> 'c log_world \<Rightarrow> 'c log_world" where
  "log_init mode service_name output f w =
    (let w = close_output w; l = new_slog_logger (lw_next w) mode service_name output f
     in w\<lparr>lw_global := Slog l, lw_next := (if sl_closer l = None then lw_next w else lw_next w + 1)\<rparr>)"

definition set_logger :: "'c logger option \<Rightarrow> 'c log_world \<Rightarrow> goerr option \<times> 'c log_world" where
  "set_logger l w =
    (case l of
       None \<Rightarrow> (Some (Errorf ''log: logger cannot be nil''), w)
     | Some l \<Rightarrow> (None, w\<lparr>lw_global := l\<rparr>))"

definition log_with :: "(string \<times> string) list \<Rightarrow> ('c \<Rightarrow> 'c) \<Rightarrow> 'c log_world \<Rightarrow> 'c logger" where
  "log_with attrs custom_with w =
    (case lw_global w of Slog s \<Rightarrow> Slog (slog_with attrs s) | Custom c \<Rightarrow> Custom (custom_with c))"

definition log_close :: "(nat \<Rightarrow> goerr option) \<Rightarrow> 'c log_world \<Rightarrow> goerr option \<times> 'c log_world" where
  "log_close close_err w =
    ((case closer_of (lw_global w) of Some n \<Rightarrow> close_err n | None \<Rightarrow> None), close_output w)"

subsection \<open>Files are released\<close>

definition outputs_released :: "'c log_world \<Rightarrow> bool" where
  "outputs_released w \<longleftrightarrow>
    (\<forall>n < lw_next w. n \<in> set (lw_closed w) \<or> closer_of (lw_global w) = Some n)"

inductive log_step :: "'c log_world \<Rightarrow> 'c log_world \<Rightarrow> bool" where
  init: "log_step w (log_init mode service_name output f w)"
| closed: "log_step w (snd (log_close close_err w))"
| refused: "log_step w (snd (set_logger None w))"

lemma new_slog_closer: "sl_closer (new_slog_logger n mode svc output f) \<in> {None, Some n}"
  by (auto simp: new_slog_logger_def Let_def split: option.split)

interpretation log_files: step_invariant log_step outputs_released
proof
  fix s t :: "'c log_world"
  assume ok: "outputs_released s" and "log_step s t"
  from this(2) show "outputs_released t"
  proof cases
    case (init mode svc out f)
    then show ?thesis
      using ok new_slog_closer [of "lw_next s" mode svc out f]
      by (auto simp: outputs_released_def log_init_def close_output_def closer_of_def Let_def less_Suc_eq
          split: option.splits)
  next
    case (closed close_err)
    then show ?thesis
      using ok by (auto simp: outputs_released_def log_close_def close_output_def split: option.split)
  next
    case refused
    then show ?thesis
      using ok by (simp add: set_logger_def)
  qed
qed

text \<open>
  Whatever sequence of \<open>Init\<close> and \<open>Close\<close> a program goes through, every file output it created
  was closed, except possibly the one in use.
\<close>

lemma log_files_released:
  "log_step\<^sup>*\<^sup>* w w' \<Longrightarrow> outputs_released w \<Longrightarrow> outputs_released w'"
  by (rule log_files.steps_keep)

text \<open>\<open>SetLogger\<close> is the exception: it drops a logger without closing its file, which no later call closes.\<close>

lemma set_logger_leaks:
  assumes "closer_of (lw_global w) = Some n" and "n < lw_next w" and "n \<notin> set (lw_closed w)" and "closer_of l = None"
  shows "\<not> outputs_released (snd (set_logger (Some l) w))"
  using assms by (auto simp: outputs_released_def set_logger_def)

end
