(* ===== verification/Operational.thy ===== *)
theory Operational
  imports Go_Prelude
begin

text \<open>
  The routes every service answers on: \<open>ensureOperationalRoutesWithReady\<close> of \<open>boot/app.go\<close>, and
  the build metadata of \<open>buildinfo/buildinfo.go\<close> and \<open>buildinfo/http.go\<close>. JSON encoding is a
  parameter.
\<close>

subsection \<open>Health, startup and readiness\<close>

datatype 'h route_handler = AnswerOk string | AnswerReady | UserHandler 'h

type_synonym 'h routes = "(string \<times> string \<times> 'h route_handler) list"

definition has_route :: "'h routes \<Rightarrow> string \<Rightarrow> string \<Rightarrow> bool" where
  "has_route rs meth path = list_ex (\<lambda>(m, p, h). m = meth \<and> p = path) rs"

definition ensure_route :: "string \<Rightarrow> 'h route_handler \<Rightarrow> 'h routes \<Rightarrow> 'h routes" where
  "ensure_route path h rs = (if \<not> has_route rs ''GET'' path then rs @ [(''GET'', path, h)] else rs)"

definition ensure_operational_routes :: "'h routes \<Rightarrow> 'h routes" where
  "ensure_operational_routes rs =
    ensure_route ''/ready'' AnswerReady
      (ensure_route ''/startup'' (AnswerOk ''started'') (ensure_route ''/health'' (AnswerOk ''ok'') rs))"

text \<open>The answers; without a readiness function the service counts as ready.\<close>

definition operational_answer :: "bool option \<Rightarrow> 'h route_handler \<Rightarrow> (int \<times> string) option" where
  "operational_answer ready h =
    (case h of
       AnswerOk status \<Rightarrow> Some (200, status)
     | AnswerReady \<Rightarrow>
        (let is_ready = (case ready of Some b \<Rightarrow> b | None \<Rightarrow> True)
         in Some (if \<not> is_ready then (503, ''not-ready'') else (200, ''ok'')))
     | UserHandler u \<Rightarrow> None)"

definition count_route :: "string \<Rightarrow> 'h routes \<Rightarrow> nat" where
  "count_route path rs = length (filter (\<lambda>(m, p, h). m = ''GET'' \<and> p = path) rs)"

text \<open>
  Each of the three routes is registered once, by the service or here, so registration cannot
  panic on a duplicate, and the routes of the service stay in front.
\<close>

lemma has_route_count: "has_route rs ''GET'' path \<longleftrightarrow> count_route path rs \<noteq> 0"
  by (induction rs) (auto simp: has_route_def count_route_def)

lemma count_ensure_route:
  "count_route path (ensure_route p h rs) =
    (if p = path then max 1 (count_route path rs) else count_route path rs)"
  by (auto simp: ensure_route_def has_route_count) (auto simp: count_route_def)

lemma operational_routes_once:
  assumes "path \<in> {''/health'', ''/startup'', ''/ready''}" and "count_route path rs \<le> 1"
  shows "count_route path (ensure_operational_routes rs) = 1"
  using assms by (auto simp: ensure_operational_routes_def count_ensure_route)

lemma operational_routes_prefix: "\<exists>new. ensure_operational_routes rs = rs @ new"
  by (simp add: ensure_operational_routes_def ensure_route_def)

text \<open>
  The guard \<open>App.Run\<close> installs before the service registers its routes, \<open>boot/app.go\<close>: a request
  for \<open>/ready\<close> of a process that is not ready is answered here. A request is then served by the
  first route for its path.
\<close>

definition ready_guard :: "bool \<Rightarrow> bool \<Rightarrow> string \<Rightarrow> (int \<times> string) option" where
  "ready_guard ready_flag readiness_ok path =
    (if path = ''/ready'' \<and> (\<not> ready_flag \<or> \<not> readiness_ok) then Some (503, ''not-ready'') else None)"

definition route_for :: "'h routes \<Rightarrow> string \<Rightarrow> string \<Rightarrow> 'h route_handler option" where
  "route_for rs meth path = map_option (\<lambda>(m, p, h). h) (List.find (\<lambda>(m, p, h). m = meth \<and> p = path) rs)"

definition serve_operational ::
  "('h \<Rightarrow> int \<times> string) \<Rightarrow> bool \<Rightarrow> bool \<Rightarrow> 'h routes \<Rightarrow> string \<Rightarrow> (int \<times> string) option" where
  "serve_operational user ready_flag readiness_ok rs path =
    (case ready_guard ready_flag readiness_ok path of
       Some r \<Rightarrow> Some r
     | None \<Rightarrow>
        (case route_for (ensure_operational_routes rs) ''GET'' path of
           None \<Rightarrow> None
         | Some h \<Rightarrow>
            (case operational_answer (Some (ready_flag \<and> readiness_ok)) h of
               Some r \<Rightarrow> Some r
             | None \<Rightarrow> (case h of UserHandler u \<Rightarrow> Some (user u) | _ \<Rightarrow> None))))"

lemma find_append: "List.find P (xs @ ys) = (case List.find P xs of Some x \<Rightarrow> Some x | None \<Rightarrow> List.find P ys)"
  by (induction xs) auto

lemma route_for_append:
  "route_for (rs @ rs') meth path =
    (case route_for rs meth path of Some h \<Rightarrow> Some h | None \<Rightarrow> route_for rs' meth path)"
  by (simp add: route_for_def find_append split: option.split)

lemma route_for_single: "route_for [(m, p, h)] meth path = (if m = meth \<and> p = path then Some h else None)"
  by (simp add: route_for_def)

lemma has_route_for: "has_route rs meth path \<longleftrightarrow> route_for rs meth path \<noteq> None"
  by (induction rs) (auto simp: has_route_def route_for_def)

lemma route_for_ensure:
  "route_for (ensure_route p h rs) ''GET'' path =
    (case route_for rs ''GET'' path of Some g \<Rightarrow> Some g | None \<Rightarrow> if p = path then Some h else None)"
  by (auto simp: ensure_route_def has_route_for route_for_append route_for_single split: option.splits)

text \<open>
  No service can report itself ready before it is, or while it drains: whatever routes it
  registers, even one of its own for \<open>/ready\<close>, a process that is not ready answers 503 there, and
  one that is ready answers with the route of the service or, without one, 200.
\<close>

theorem ready_cannot_be_faked:
  "serve_operational user ready_flag readiness_ok rs ''/ready'' =
    (if \<not> ready_flag \<or> \<not> readiness_ok then Some (503, ''not-ready'')
     else (case route_for rs ''GET'' ''/ready'' of
         Some (UserHandler u) \<Rightarrow> Some (user u)
       | Some (AnswerOk status) \<Rightarrow> Some (200, status)
       | _ \<Rightarrow> Some (200, ''ok'')))"
  by (auto simp: serve_operational_def ready_guard_def ensure_operational_routes_def route_for_ensure
      operational_answer_def split: option.split route_handler.split)

subsection \<open>Build metadata\<close>

record build_info =
  bi_repository :: string
  bi_tag :: string
  bi_commit :: string
  bi_built_at :: string
  bi_component :: string

definition default_build_info :: build_info where
  "default_build_info = \<lparr>bi_repository = ''unknown'', bi_tag = ''dev'', bi_commit = ''unknown'',
    bi_built_at = ''unknown'', bi_component = ''unknown''\<rparr>"

text \<open>\<open>WriteVersion\<close>: whether it handled the arguments, and what it writes.\<close>

definition write_version :: "(build_info \<Rightarrow> string) \<Rightarrow> build_info \<Rightarrow> string list \<Rightarrow> string option" where
  "write_version encode info args =
    (if length args \<noteq> 1 \<or> hd args \<noteq> ''--version'' then None else Some (encode info @ [CHR 0x0A]))"

record version_answer =
  va_status :: int
  va_header :: "string \<Rightarrow> string"
  va_body :: string

definition version_handler :: "(build_info \<Rightarrow> string) \<Rightarrow> build_info \<Rightarrow> string \<Rightarrow> version_answer" where
  "version_handler encode info meth =
    (let header = (\<lambda>h. [])(''Cache-Control'' := ''no-store'')
     in if meth \<noteq> ''GET'' \<and> meth \<noteq> ''HEAD''
        then \<lparr>va_status = 405, va_header = header(''Allow'' := ''GET, HEAD'',
               ''Content-Type'' := ''text/plain; charset=utf-8'', ''X-Content-Type-Options'' := ''nosniff''),
               va_body = ''method not allowed'' @ [CHR 0x0A]\<rparr>
        else \<lparr>va_status = 200, va_header = header(''Content-Type'' := ''application/json; charset=utf-8''),
               va_body = (if meth = ''HEAD'' then [] else encode info @ [CHR 0x0A])\<rparr>)"

lemma version_only_alone: "write_version encode info args \<noteq> None \<longleftrightarrow> args = [''--version'']"
  by (cases args) (auto simp: write_version_def)

lemma version_never_cached: "va_header (version_handler encode info meth) ''Cache-Control'' = ''no-store''"
  by (simp add: version_handler_def Let_def)

end
