(* ===== verification/Migrate_Cli.thy ===== *)
theory Migrate_Cli
  imports Migrations Go_Flags
begin

text \<open>
  The command line of the migration tool, \<open>contrib/migrate/postgres/cmd/migrate/main.go\<close>: the
  command may stand anywhere among the flags. \<open>ParseInt\<close> with base 0 is a parameter.
\<close>

record cli_options =
  cl_dsn :: string
  cl_dir :: string
  cl_steps :: int
  cl_version :: int
  cl_name :: string

definition value_flags :: "string list" where
  "value_flags = [''-dsn'', ''-dir'', ''-steps'', ''-version'', ''-name'']"

definition cli_commands :: "string list" where
  "cli_commands = [''create'', ''up'', ''down'', ''version'', ''force'']"

text \<open>The first loop: the command with its index, skipping the values of the known flags.\<close>

function find_command :: "nat \<Rightarrow> string list \<Rightarrow> (string \<times> nat) option \<Rightarrow> goerr + (string \<times> nat) option" where
  "find_command i [] found = Inr found"
| "find_command i (a # args) found =
    (if a \<in> set value_flags then find_command (i + 2) (drop 1 args) found
     else if a \<in> set cli_commands
     then (if found \<noteq> None then Inl (Errorf ''multiple commands: %s and %s'') else find_command (i + 1) args (Some (a, i)))
     else find_command (i + 1) args found)"
  by pat_completeness auto
termination by (relation "measure (\<lambda>(i, args, found). length args)") auto

definition cli_flags :: "(string \<Rightarrow> int option) \<Rightarrow> cli_options flag_set" where
  "cli_flags parse_int0 name =
    (if name = ''dsn'' then Some (string_flag (\<lambda>v o'. o'\<lparr>cl_dsn := v\<rparr>))
     else if name = ''dir'' then Some (string_flag (\<lambda>v o'. o'\<lparr>cl_dir := v\<rparr>))
     else if name = ''steps'' then Some (int_flag parse_int0 (\<lambda>n o'. o'\<lparr>cl_steps := n\<rparr>))
     else if name = ''version'' then Some (int_flag parse_int0 (\<lambda>n o'. o'\<lparr>cl_version := n\<rparr>))
     else if name = ''name'' then Some (string_flag (\<lambda>v o'. o'\<lparr>cl_name := v\<rparr>))
     else None)"

definition default_options :: "string \<Rightarrow> cli_options" where
  "default_options dsn_env = \<lparr>cl_dsn = dsn_env, cl_dir = ''migrations'', cl_steps = 1, cl_version = 0, cl_name = []\<rparr>"

definition parse_args :: "(string \<Rightarrow> int option) \<Rightarrow> string \<Rightarrow> string list \<Rightarrow> goerr + string \<times> cli_options" where
  "parse_args parse_int0 dsn_env args =
    (case find_command 0 args None of
       Inl err \<Rightarrow> Inl err
     | Inr None \<Rightarrow> Inl (Errorf ''missing command'')
     | Inr (Some (command, i)) \<Rightarrow>
        (case parse_flags (cli_flags parse_int0) (take i args @ drop (i + 1) args) (default_options dsn_env) of
           Inl err \<Rightarrow> Inl err
         | Inr (opts, rest) \<Rightarrow>
            if rest \<noteq> [] then Inl (Errorf ''unexpected arguments: %v'') else Inr (command, opts)))"

text \<open>
  The program: what it prints and its exit status. The state is the world of the migration
  library, the version counter and the disk.
\<close>

datatype cli_output = Printed "string list" | PrintedVersion nat bool | Quiet

definition exit_of :: "goerr option \<Rightarrow> cli_output \<Rightarrow> int \<times> cli_output" where
  "exit_of err out = (case err of Some e \<Rightarrow> (1, Quiet) | None \<Rightarrow> (0, out))"

definition migrate_main ::
  "('m, 'w) migrate_lib \<Rightarrow> migrate_os \<Rightarrow> (string \<Rightarrow> int option) \<Rightarrow> string \<Rightarrow> instant \<Rightarrow> string list \<Rightarrow> 'w \<Rightarrow> disk \<Rightarrow>
   (int \<times> cli_output) \<times> 'w \<times> disk" where
  "migrate_main lib os parse_int0 dsn_env now args w d =
    (case parse_args parse_int0 dsn_env args of
       Inl err \<Rightarrow> ((2, Quiet), w, d)
     | Inr (command, opts) \<Rightarrow>
        (let m = new_migrator (cl_dsn opts) (cl_dir opts) in
         if command = ''create'' then
           (case create_migration os (cl_dir opts) (cl_name opts) now 0 d of
              (Inl err, version, d) \<Rightarrow> ((1, Quiet), w, d)
            | (Inr (up, down), version, d) \<Rightarrow> ((0, Printed [up, down]), w, d))
         else if command = ''up'' then (let (err, w) = migrate_up lib m w in (exit_of err Quiet, w, d))
         else if command = ''down'' then (let (err, w) = migrate_down lib m (cl_steps opts) w in (exit_of err Quiet, w, d))
         else if command = ''version'' then
           (let ((v, dirty, err), w) = migrate_version lib m w in (exit_of err (PrintedVersion v dirty), w, d))
         else (let (err, w) = migrate_force lib m (cl_version opts) w in (exit_of err Quiet, w, d))))"

subsection \<open>The command may stand anywhere\<close>

text \<open>Flags written with one dash and their values.\<close>

definition flag_args :: "(string \<times> string) list \<Rightarrow> string list" where
  "flag_args ps = concat (map (\<lambda>(name, v). [CHR ''-'' # name, v]) ps)"

definition known_flags :: "(string \<times> string) list \<Rightarrow> bool" where
  "known_flags ps \<longleftrightarrow> (\<forall>(name, v)\<in>set ps. CHR ''-'' # name \<in> set value_flags)"

lemma known_flags_Cons: "known_flags ((name, v) # ps) \<longleftrightarrow> CHR ''-'' # name \<in> set value_flags \<and> known_flags ps"
  by (simp add: known_flags_def)

lemma find_command_flags:
  "known_flags ps \<Longrightarrow> find_command i (flag_args ps @ args) found = find_command (i + length (flag_args ps)) args found"
proof (induction ps arbitrary: i)
  case (Cons p ps)
  then show ?case
    by (cases p) (simp add: flag_args_def known_flags_Cons add.assoc)
qed (simp add: flag_args_def)

lemma find_command_at:
  assumes "known_flags ps" and "known_flags qs" and "command \<in> set cli_commands"
  shows "find_command 0 (flag_args ps @ command # flag_args qs) None = Inr (Some (command, length (flag_args ps)))"
proof -
  have "command \<notin> set value_flags"
    using assms(3) by (auto simp: cli_commands_def value_flags_def)
  then show ?thesis
    using assms find_command_flags [OF assms(1), of 0 "command # flag_args qs" None]
      find_command_flags [OF assms(2), of _ "[]"] by simp
qed

text \<open>Where the command stands does not matter: with every flag written with one dash and
  its value as the next argument, even a value that is the name of a command, the command line
  means the same as with the command first.\<close>

theorem command_anywhere:
  assumes "known_flags ps" and "known_flags qs" and "command \<in> set cli_commands"
  shows "parse_args parse_int0 env (flag_args ps @ command # flag_args qs) =
    parse_args parse_int0 env (command # flag_args ps @ flag_args qs)"
proof -
  have pq: "known_flags (ps @ qs)" "flag_args (ps @ qs) = flag_args ps @ flag_args qs"
    using assms(1,2) by (auto simp: known_flags_def flag_args_def)
  have "known_flags []" "flag_args [] = []"
    by (simp_all add: known_flags_def flag_args_def)
  then have "find_command 0 (command # flag_args ps @ flag_args qs) None = Inr (Some (command, 0))"
    using find_command_at [of "[]" "ps @ qs", OF _ pq(1) assms(3)] pq(2) by simp
  then show ?thesis
    using find_command_at [OF assms] by (simp add: parse_args_def)
qed

text \<open>
  With two dashes the value is taken for a second command, although package \<open>flag\<close> treats both
  spellings alike.
\<close>

lemma double_dash_value_taken_for_command:
  "parse_args (\<lambda>s. None) [] [''create'', ''-name'', ''up''] =
    Inr (''create'', (default_options [])\<lparr>cl_name := ''up''\<rparr>)"
  "parse_args (\<lambda>s. None) [] [''create'', ''--name'', ''up''] = Inl (Errorf ''multiple commands: %s and %s'')"
  by code_simp+

lemma command_anywhere_witness:
  "parse_args (\<lambda>s. None) [] [''-dir'', ''db'', ''create'', ''-name'', ''up''] =
    Inr (''create'', (default_options [])\<lparr>cl_dir := ''db'', cl_name := ''up''\<rparr>)"
proof -
  have "parse_args (\<lambda>s. None) [] (''create'' # flag_args [(''dir'', ''db'')] @ flag_args [(''name'', ''up'')]) =
      Inr (''create'', (default_options [])\<lparr>cl_dir := ''db'', cl_name := ''up''\<rparr>)"
    by code_simp
  moreover have "known_flags [(''dir'', ''db'')]" "known_flags [(''name'', ''up'')]" "''create'' \<in> set cli_commands"
    by (simp_all add: known_flags_def value_flags_def cli_commands_def)
  ultimately show ?thesis
    using command_anywhere [of "[(''dir'', ''db'')]" "[(''name'', ''up'')]" "''create''" "\<lambda>s. None" "[]"]
    by (simp add: flag_args_def)
qed

end
