(* ===== verification/Registry_Open.thy ===== *)
theory Registry_Open
  imports Tls_Config
begin

text \<open>
  Opening the registry backends: \<open>NewEtcd\<close> of \<open>contrib/registry/etcd/registry.go\<close> and \<open>NewConsul\<close>
  with its configurations of \<open>contrib/registry/consul/registry.go\<close>. The clients are parameters:
  whether a client can be made, and what each server answers to the probe.
\<close>

subsection \<open>etcd\<close>

record 'ca etcd_client_config =
  ec_endpoints :: "string list"
  ec_dial_timeout :: duration
  ec_tls :: "'ca tls_settings option"
  ec_username :: string
  ec_password :: string

text \<open>
  The status loop stops at the first endpoint that answers; the last error counts otherwise. All
  its requests share one context: a request is given the deadline and the time, and returns
  its error and the time it ends.
\<close>

type_synonym status_request = "string \<Rightarrow> instant \<Rightarrow> instant \<Rightarrow> goerr option \<times> instant"

fun etcd_status :: "status_request \<Rightarrow> instant \<Rightarrow> instant \<Rightarrow> goerr option \<Rightarrow> string list \<Rightarrow> goerr option" where
  "etcd_status status deadline now err [] = err"
| "etcd_status status deadline now err (e # es) =
    (case status e deadline now of
       (None, now) \<Rightarrow> None
     | (Some err, now) \<Rightarrow> etcd_status status deadline now (Some err) es)"

text \<open>The result, and the configuration of a client that is left open.\<close>

definition open_etcd ::
  "'ca tls_lib \<Rightarrow> ('ca etcd_client_config \<Rightarrow> goerr option) \<Rightarrow> status_request \<Rightarrow> registry_config \<Rightarrow> instant \<Rightarrow>
   goerr option \<times> 'ca etcd_client_config option" where
  "open_etcd lib connect status cfg now =
    (if rg_endpoints cfg = [] then (Some (Errorf ''registry: no etcd endpoints configured''), None)
     else (case registry_client_tls lib (rg_tls cfg) of
         Inl err \<Rightarrow> (Some (Wrapf ''registry: etcd TLS: %w'' err), None)
       | Inr tls \<Rightarrow>
          (let client = \<lparr>ec_endpoints = rg_endpoints cfg, ec_dial_timeout = registry_dial_timeout cfg,
             ec_tls = tls, ec_username = rg_username cfg, ec_password = rg_password cfg\<rparr>
           in case connect client of
                Some err \<Rightarrow> (Some (Wrapf ''registry: etcd connect: %w'' err), None)
              | None \<Rightarrow>
                 (case etcd_status status (now + registry_dial_timeout cfg) now None (rg_endpoints cfg) of
                    Some err \<Rightarrow> (Some (Wrapf ''registry: etcd status: %w'' err), None)
                  | None \<Rightarrow> (None, Some client)))))"

subsection \<open>Consul\<close>

record consul_client_config =
  cc_address :: string
  cc_token :: string
  cc_scheme :: string
  cc_tls_address :: string
  cc_ca_file :: string
  cc_cert_file :: string
  cc_key_file :: string
  cc_http_timeout :: "duration option"

text \<open>
  \<open>DefaultConfig\<close> reads the environment of the process; \<open>http_client\<close> is \<open>NewHttpClient\<close>, which
  fails on certificates it cannot read. Without a client of its own the configuration gets the
  library's default.
\<close>

definition consul_config ::
  "consul_client_config \<Rightarrow> (consul_client_config \<Rightarrow> goerr option) \<Rightarrow> string \<Rightarrow> string \<Rightarrow> tls_config option \<Rightarrow>
   consul_client_config" where
  "consul_config defaults http_client addr token tls =
    (let cfg = defaults\<lparr>cc_address := addr\<rparr>;
         cfg = (if token \<noteq> [] then cfg\<lparr>cc_token := token\<rparr> else cfg);
         cfg = (case tls of
             None \<Rightarrow> cfg
           | Some t \<Rightarrow>
              if tls_enable t then cfg\<lparr>cc_scheme := ''https'',
                cc_tls_address := (if tls_server_name t \<noteq> [] then tls_server_name t else addr),
                cc_ca_file := tls_ca_file t, cc_cert_file := tls_cert_file t, cc_key_file := tls_key_file t\<rparr>
              else cfg)
     in if http_client cfg = None then cfg\<lparr>cc_http_timeout := Some (60 * second)\<rparr> else cfg)"

definition consul_probe_config ::
  "consul_client_config \<Rightarrow> (consul_client_config \<Rightarrow> goerr option) \<Rightarrow> string \<Rightarrow> string \<Rightarrow> tls_config \<Rightarrow> duration \<Rightarrow>
   goerr + consul_client_config" where
  "consul_probe_config defaults http_client addr token tls timeout =
    (let cfg = consul_config defaults http_client addr token (Some tls)
     in case http_client cfg of Some err \<Rightarrow> Inl err | None \<Rightarrow> Inr (cfg\<lparr>cc_http_timeout := Some timeout\<rparr>))"

definition open_consul ::
  "consul_client_config \<Rightarrow> (consul_client_config \<Rightarrow> goerr option) \<Rightarrow> (consul_client_config \<Rightarrow> goerr option) \<Rightarrow>
   (consul_client_config \<Rightarrow> goerr option) \<Rightarrow> registry_config \<Rightarrow> goerr + consul_client_config" where
  "open_consul defaults http_client new_client self cfg =
    (let addr = (if rg_address cfg = [] \<and> rg_endpoints cfg \<noteq> [] then hd (rg_endpoints cfg) else rg_address cfg)
     in if addr = [] then Inl (Errorf ''registry: no consul address configured'')
        else (case consul_check_type cfg of
            Inl err \<Rightarrow> Inl err
          | Inr _ \<Rightarrow>
             (case consul_probe_config defaults http_client addr (rg_token cfg) (rg_tls cfg) (registry_dial_timeout cfg) of
                Inl err \<Rightarrow> Inl (Wrapf ''registry: consul probe client: %w'' err)
              | Inr probe \<Rightarrow>
                 (case new_client probe of
                    Some err \<Rightarrow> Inl (Wrapf ''registry: consul client: %w'' err)
                  | None \<Rightarrow>
                     (case self probe of
                        Some err \<Rightarrow> Inl (Wrapf ''registry: consul connect: %w'' err)
                      | None \<Rightarrow>
                         (let c = consul_config defaults http_client addr (rg_token cfg) (Some (rg_tls cfg))
                          in case new_client c of
                               Some err \<Rightarrow> Inl (Wrapf ''registry: consul client: %w'' err)
                             | None \<Rightarrow> Inr c))))))"

subsection \<open>Properties\<close>

text \<open>A failed \<open>NewEtcd\<close> leaves no client open.\<close>

lemma open_etcd_opens:
  assumes "open_etcd lib connect status cfg now = (err, client)"
  shows "(err = None) = (client \<noteq> None)"
  using assms by (auto simp: open_etcd_def Let_def split: if_splits sum.splits option.splits)

lemma etcd_status_expired:
  assumes "\<And>e now. deadline \<le> now \<Longrightarrow> \<exists>later. status e deadline now = (Some ctx_deadline, later) \<and> deadline \<le> later"
    and "deadline \<le> now" and "err \<noteq> None"
  shows "etcd_status status deadline now err es \<noteq> None"
  using assms(2,3)
proof (induction es arbitrary: now err)
  case (Cons e es)
  then show ?case
    using assms(1) [OF Cons.prems(1), of e] by auto
qed simp

text \<open>
  One endpoint that does not answer is enough to fail: it uses up the deadline that all
  endpoints share, and the requests to the others then fail at once, whatever they would answer.
\<close>

theorem dead_endpoint_blocks_etcd:
  assumes "rg_endpoints cfg = e # es" and "registry_client_tls lib (rg_tls cfg) = Inr tls"
    and "\<And>c. connect c = None"
    and "status e (now + registry_dial_timeout cfg) now = (Some ctx_deadline, later)"
    and "now + registry_dial_timeout cfg \<le> later"
    and expired: "\<And>e deadline now. deadline \<le> now \<Longrightarrow>
      \<exists>later. status e deadline now = (Some ctx_deadline, later) \<and> deadline \<le> later"
  shows "\<exists>err. open_etcd lib connect status cfg now = (Some err, None)"
proof -
  have "etcd_status status (now + registry_dial_timeout cfg) later (Some ctx_deadline) es \<noteq> None"
    by (rule etcd_status_expired) (use assms(5) expired in simp_all)
  then show ?thesis
    using assms(1-4) by (auto simp: open_etcd_def Let_def)
qed

text \<open>With TLS enabled every request to Consul, the probe included, goes over https.\<close>

lemma consul_tls_scheme:
  assumes "tls_enable tls"
  shows "cc_scheme (consul_config defaults http_client addr token (Some tls)) = ''https''"
    and "consul_probe_config defaults http_client addr token tls timeout = Inr probe \<Longrightarrow> cc_scheme probe = ''https''"
proof -
  show https: "cc_scheme (consul_config defaults http_client addr token (Some tls)) = ''https''"
    using assms by (simp add: consul_config_def Let_def)
  show "cc_scheme probe = ''https''"
    if "consul_probe_config defaults http_client addr token tls timeout = Inr probe"
    using that https by (auto simp: consul_probe_config_def Let_def split: option.splits)
qed

lemma open_consul_scheme:
  assumes "open_consul defaults http_client new_client self cfg = Inr c" and "tls_enable (rg_tls cfg)"
  shows "cc_scheme c = ''https''"
  using assms consul_tls_scheme(1) [OF assms(2)]
  by (auto simp: open_consul_def Let_def split: if_splits sum.splits option.splits)

end
