(* ===== verification/Middleware_Chain.thy ===== *)
theory Middleware_Chain
  imports Rate_Limit Access_Log Request_Metadata
begin

text \<open>
  Cross-origin requests, \<open>CORS\<close> and \<open>CORSFromConfig\<close> of \<open>mid/recovery.go\<close>, and the whole chain
  that \<open>mid.Default\<close> installs (\<open>mid/default.go\<close>) run on one request: trace, recovery, error
  handler, access log, CORS and rate limit around a handler that answers or panics. A gin
  response is a writer: the first body fixes the status, later ones are only appended.
\<close>

subsection \<open>Requests and the response writer\<close>

record chain_request =
  cr_method :: string
  cr_path :: string
  cr_raw_query :: string
  cr_header :: http_header
  cr_ip :: string
  cr_span_trace :: string

record 'd writer =
  wr_status :: int
  wr_written :: bool
  wr_headers :: "string \<rightharpoonup> string"
  wr_bodies :: "'d envelope list"

definition new_writer :: "'d writer" where
  "new_writer = \<lparr>wr_status = 200, wr_written = False, wr_headers = Map.empty, wr_bodies = []\<rparr>"

text \<open>\<open>c.Header\<close>: an empty value removes the header.\<close>

definition set_header :: "string \<Rightarrow> string \<Rightarrow> 'd writer \<Rightarrow> 'd writer" where
  "set_header k v w =
    w\<lparr>wr_headers := (if v = [] then (wr_headers w)(k := None) else (wr_headers w)(k \<mapsto> v))\<rparr>"

text \<open>\<open>c.JSON\<close> of a reply, and \<open>c.AbortWithStatus\<close>.\<close>

definition write_reply :: "'d reply \<Rightarrow> 'd writer \<Rightarrow> 'd writer" where
  "write_reply r w =
    w\<lparr>wr_status := (if wr_written w then wr_status w else rep_status r), wr_written := True,
      wr_bodies := wr_bodies w @ [rep_body r]\<rparr>"

definition write_status :: "int \<Rightarrow> 'd writer \<Rightarrow> 'd writer" where
  "write_status status w =
    w\<lparr>wr_status := (if wr_written w then wr_status w else status), wr_written := True\<rparr>"

subsection \<open>CORS\<close>

record cors_cfg =
  co_enable :: bool
  co_mode :: string
  co_whitelist :: "string list"

definition cors_methods :: string where
  "cors_methods = ''GET,HEAD,POST,PUT,PATCH,DELETE,OPTIONS''"

definition cors_request_headers :: string where
  "cors_request_headers = ''Authorization,Content-Type,X-Trace-Id''"

text \<open>A handler gives the writer and whether the chain goes on.\<close>

definition end_preflight :: "int \<Rightarrow> string \<Rightarrow> 'd writer \<Rightarrow> bool \<times> 'd writer" where
  "end_preflight status meth w =
    (if meth = ''OPTIONS'' then (False, write_status status w) else (True, w))"

definition cors_allow_all :: "string \<Rightarrow> 'd writer \<Rightarrow> bool \<times> 'd writer" where
  "cors_allow_all meth w =
    end_preflight 204 meth
      (set_header ''Access-Control-Max-Age'' ''86400''
        (set_header ''Access-Control-Expose-Headers'' ''X-Trace-Id''
          (set_header ''Access-Control-Allow-Headers'' cors_request_headers
            (set_header ''Access-Control-Allow-Methods'' cors_methods
              (set_header ''Access-Control-Allow-Origin'' ''*'' w)))))"

definition cors_whitelist :: "string list \<Rightarrow> string \<Rightarrow> string \<Rightarrow> 'd writer \<Rightarrow> bool \<times> 'd writer" where
  "cors_whitelist allowed meth origin w =
    (let w = set_header ''Vary'' ''Origin'' w;
         w = (if origin \<in> set allowed
              then set_header ''Access-Control-Allow-Credentials'' ''true''
                     (set_header ''Access-Control-Allow-Origin'' origin w)
              else w)
     in end_preflight 204 meth
          (set_header ''Access-Control-Max-Age'' ''86400''
            (set_header ''Access-Control-Expose-Headers'' ''X-Trace-Id,refresh-access-token,refresh-exp''
              (set_header ''Access-Control-Allow-Headers'' cors_request_headers
                (set_header ''Access-Control-Allow-Methods'' cors_methods w)))))"

definition cors_deny :: "string \<Rightarrow> 'd writer \<Rightarrow> bool \<times> 'd writer" where
  "cors_deny meth w = end_preflight 403 meth w"

definition cors :: "string list \<Rightarrow> string \<Rightarrow> string \<Rightarrow> 'd writer \<Rightarrow> bool \<times> 'd writer" where
  "cors allow_origins meth origin w =
    (if allow_origins = [] then cors_allow_all meth w else cors_whitelist allow_origins meth origin w)"

definition cors_from_config :: "cors_cfg \<Rightarrow> string \<Rightarrow> string \<Rightarrow> 'd writer \<Rightarrow> bool \<times> 'd writer" where
  "cors_from_config cfg meth origin w =
    (if \<not> co_enable cfg then (True, w)
     else if co_mode cfg = ''allow-all'' then cors_allow_all meth w
     else if co_mode cfg = ''whitelist'' \<and> co_whitelist cfg \<noteq> []
          then cors_whitelist (co_whitelist cfg) meth origin w
     else cors_deny meth w)"

subsection \<open>The chain\<close>

text \<open>
  What the chain works on: the writer, the request context, the lines of the access log and the
  limiter's memory. A handler changes it and may panic.
\<close>

record log_entry =
  le_method :: string
  le_path :: string
  le_status :: int
  le_ip :: string
  le_trace :: string

record 'd exchange =
  xc_writer :: "'d writer"
  xc_ctx :: meta_ctx
  xc_log :: "log_entry list"
  xc_limiter :: rate_limiter

type_synonym 'd chain_handler = "'d exchange \<Rightarrow> panic_value option \<times> 'd exchange"

definition access_line :: "chain_request \<Rightarrow> 'd exchange \<Rightarrow> log_entry" where
  "access_line rq x =
    \<lparr>le_method = cr_method rq, le_path = log_path (cr_path rq) (cr_raw_query rq),
     le_status = wr_status (xc_writer x), le_ip = cr_ip rq, le_trace = mx_log_trace (xc_ctx x)\<rparr>"

definition catch_panic :: "(panic_value \<Rightarrow> 'd reply) \<Rightarrow> panic_value option \<times> 'd exchange \<Rightarrow> panic_value option \<times> 'd exchange" where
  "catch_panic reply r =
    (case r of
       (None, x) \<Rightarrow> (None, x)
     | (Some v, x) \<Rightarrow> (None, x\<lparr>xc_writer := write_reply (reply v) (xc_writer x)\<rparr>))"

definition cors_entry :: "cors_cfg \<Rightarrow> chain_request \<Rightarrow> 'd chain_handler \<Rightarrow> 'd chain_handler" where
  "cors_entry cfg rq next_handler x =
    (case cors_from_config cfg (cr_method rq) (cr_header rq ''Origin'') (xc_writer x) of
       (go_on, w) \<Rightarrow>
         if go_on then next_handler (x\<lparr>xc_writer := w\<rparr>) else (None, x\<lparr>xc_writer := w\<rparr>))"

definition limit_entry :: "limiter_middleware \<Rightarrow> instant \<Rightarrow> chain_request \<Rightarrow> 'd chain_handler \<Rightarrow> 'd chain_handler" where
  "limit_entry lim now rq next_handler x =
    (case lim of
       RefusingLimiter \<Rightarrow> (None, x\<lparr>xc_writer := write_reply refusing_reply (xc_writer x)\<rparr>)
     | MemoryLimiter _ \<Rightarrow>
        (case rate_middleware now (cr_ip rq) (xc_limiter x) of
           (v, l) \<Rightarrow>
             (let x = x\<lparr>xc_limiter := l\<rparr>
              in case rate_reply v of
                   None \<Rightarrow> next_handler x
                 | Some r \<Rightarrow> (None, x\<lparr>xc_writer := write_reply r (xc_writer x)\<rparr>))))"

fun serve_chain :: "string \<Rightarrow> instant \<Rightarrow> chain_request \<Rightarrow> 'd chain_handler \<Rightarrow> cors_cfg mid_entry list \<Rightarrow> 'd chain_handler" where
  "serve_chain fresh now rq h [] x = h x"
| "serve_chain fresh now rq h (MidTrace # ms) x =
    (case trace_middleware (xc_ctx x) (cr_header rq) (cr_span_trace rq) fresh of
       (ctx, t) \<Rightarrow> serve_chain fresh now rq h ms
                    (x\<lparr>xc_ctx := ctx, xc_writer := set_header ''X-Trace-Id'' t (xc_writer x)\<rparr>))"
| "serve_chain fresh now rq h (MidRecovery # ms) x =
    catch_panic (\<lambda>v. recovery_reply) (serve_chain fresh now rq h ms x)"
| "serve_chain fresh now rq h (MidErrorHandler # ms) x =
    catch_panic error_handler_reply (serve_chain fresh now rq h ms x)"
| "serve_chain fresh now rq h (MidLogger # ms) x =
    (case serve_chain fresh now rq h ms x of
       (None, x) \<Rightarrow> (None, x\<lparr>xc_log := xc_log x @ [access_line rq x]\<rparr>)
     | (Some v, x) \<Rightarrow> (Some v, x))"
| "serve_chain fresh now rq h (MidCORS cfg # ms) x =
    cors_entry cfg rq (serve_chain fresh now rq h ms) x"
| "serve_chain fresh now rq h (MidRateLimit lim # ms) x =
    limit_entry lim now rq (serve_chain fresh now rq h ms) x"

text \<open>A request to an engine with the default chain, whose limiter has the memory \<open>l\<close>.\<close>

definition serve_default ::
  "string \<Rightarrow> instant \<Rightarrow> cors_cfg \<Rightarrow> access_limit_cfg \<Rightarrow> chain_request \<Rightarrow> 'd chain_handler \<Rightarrow> meta_ctx \<Rightarrow>
    rate_limiter \<Rightarrow> panic_value option \<times> 'd exchange" where
  "serve_default fresh now cc ac rq h ctx l =
    serve_chain fresh now rq h (mid_default (co_enable cc, cc) ac)
      \<lparr>xc_writer = new_writer, xc_ctx = ctx, xc_log = [], xc_limiter = l\<rparr>"

subsection \<open>CORS lemmas\<close>

lemma set_header_simps [simp]:
  "wr_headers (set_header k v w) k' =
    (if k' = k then (if v = [] then None else Some v) else wr_headers w k')"
  "wr_status (set_header k v w) = wr_status w" "wr_written (set_header k v w) = wr_written w"
  "wr_bodies (set_header k v w) = wr_bodies w"
  by (simp_all add: set_header_def)

lemma write_headers [simp]:
  "wr_headers (write_reply r w) = wr_headers w" "wr_headers (write_status s w) = wr_headers w"
  by (simp_all add: write_reply_def write_status_def)

lemma end_preflight_simps [simp]:
  "fst (end_preflight s meth w) \<longleftrightarrow> meth \<noteq> ''OPTIONS''"
  "wr_headers (snd (end_preflight s meth w)) = wr_headers w"
  by (simp_all add: end_preflight_def)

lemmas cors_modes = cors_allow_all_def cors_whitelist_def cors_deny_def cors_methods_def
  cors_request_headers_def

text \<open>
  C17. Cross-origin access is granted only as configured. A response allows credentials only when the
  mode is the whitelist and the origin of the request is on it, and then it names exactly that
  origin; every origin at once is allowed only in the mode that says so, and never with
  credentials; a mode that is mistyped, or a whitelist without entries, sends none of the headers
  and refuses preflights; an answered preflight never reaches the handler.
\<close>

theorem cors_grants_configured:
  "(let (go_on, w) = cors_from_config cfg meth origin new_writer in
     (wr_headers w ''Access-Control-Allow-Credentials'' \<noteq> None \<longrightarrow>
        co_enable cfg \<and> co_mode cfg = ''whitelist'' \<and> origin \<in> set (co_whitelist cfg) \<and>
        wr_headers w ''Access-Control-Allow-Origin'' = (if origin = [] then None else Some origin)) \<and>
     (\<forall>v. wr_headers w ''Access-Control-Allow-Origin'' = Some v \<longrightarrow>
        (co_mode cfg = ''allow-all'' \<and> v = ''*'' \<and> wr_headers w ''Access-Control-Allow-Credentials'' = None) \<or>
        (co_mode cfg = ''whitelist'' \<and> v = origin \<and> origin \<in> set (co_whitelist cfg))) \<and>
     (co_enable cfg \<and> co_mode cfg \<noteq> ''allow-all'' \<and> (co_mode cfg = ''whitelist'' \<longrightarrow> co_whitelist cfg = []) \<longrightarrow>
        wr_headers w = Map.empty \<and> (meth = ''OPTIONS'' \<longrightarrow> wr_status w = 403)) \<and>
     (go_on \<longleftrightarrow> \<not> co_enable cfg \<or> meth \<noteq> ''OPTIONS''))"
proof (cases "co_enable cfg")
  case False
  then show ?thesis
    by (simp add: cors_from_config_def new_writer_def)
next
  case True
  show ?thesis
  proof (cases "co_mode cfg = ''allow-all''")
    case True
    then show ?thesis
      using \<open>co_enable cfg\<close>
      by (simp add: cors_from_config_def cors_allow_all_def case_prod_unfold new_writer_def)
  next
    case False
    then show ?thesis
      using \<open>co_enable cfg\<close>
      by (simp add: cors_from_config_def cors_whitelist_def cors_deny_def case_prod_unfold Let_def
          new_writer_def write_status_def end_preflight_def)
  qed
qed


definition demo_cors :: cors_cfg where
  "demo_cors = \<lparr>co_enable = True, co_mode = ''whitelist'', co_whitelist = [''https://app'']\<rparr>"

theorem cors_grants_configured_witness:
  "wr_headers (snd (cors_from_config demo_cors ''GET'' ''https://evil'' new_writer))
      ''Access-Control-Allow-Credentials'' = None \<and>
   wr_headers (snd (cors_from_config demo_cors ''GET'' ''https://app'' new_writer))
      ''Access-Control-Allow-Origin'' = Some ''https://app''"
  using cors_grants_configured [of demo_cors "''GET''" "''https://evil''"]
  by (simp add: demo_cors_def cors_from_config_def cors_whitelist_def Let_def case_prod_unfold new_writer_def)

lemma cors_go_on: "fst (cors_from_config cfg meth origin w) \<longleftrightarrow> \<not> co_enable cfg \<or> meth \<noteq> ''OPTIONS''"
  by (simp add: cors_from_config_def cors_modes Let_def)

lemma cors_unwritten:
  "meth \<noteq> ''OPTIONS'' \<Longrightarrow> wr_written (snd (cors_from_config cfg meth origin w)) = wr_written w"
  by (simp add: cors_from_config_def cors_modes end_preflight_def Let_def)

lemma cors_bodies: "wr_bodies (snd (cors_from_config cfg meth origin w)) = wr_bodies w"
  by (simp add: cors_from_config_def cors_modes end_preflight_def write_status_def Let_def)

text \<open>The convenience constructor gives the two modes of the configuration.\<close>

lemma cors_modes_of_config:
  "cors [] meth origin w = cors_from_config \<lparr>co_enable = True, co_mode = ''allow-all'', co_whitelist = ws\<rparr> meth origin w"
  "allowed \<noteq> [] \<Longrightarrow> cors allowed meth origin w =
    cors_from_config \<lparr>co_enable = True, co_mode = ''whitelist'', co_whitelist = allowed\<rparr> meth origin w"
  by (simp_all add: cors_def cors_from_config_def)

subsection \<open>The chain answers every request\<close>

definition preflight :: "cors_cfg \<Rightarrow> chain_request \<Rightarrow> bool" where
  "preflight cc rq \<longleftrightarrow> co_enable cc \<and> cr_method rq = ''OPTIONS''"

text \<open>Whether the limiter lets the request through, and its memory afterwards.\<close>

definition limit_outcome :: "access_limit_cfg \<Rightarrow> instant \<Rightarrow> string \<Rightarrow> rate_limiter \<Rightarrow> bool \<times> rate_limiter" where
  "limit_outcome ac now ip l =
    (if \<not> al_enable ac then (True, l)
     else (case rate_limit_from_config ac of
         RefusingLimiter \<Rightarrow> (False, l)
       | MemoryLimiter _ \<Rightarrow> (case rate_middleware now ip l of (v, l') \<Rightarrow> (v = RateNext, l'))))"

text \<open>The last part of the chain: the limiter when there is one, and the handler.\<close>

definition inner_chain :: "access_limit_cfg \<Rightarrow> instant \<Rightarrow> chain_request \<Rightarrow> 'd chain_handler \<Rightarrow> 'd chain_handler" where
  "inner_chain ac now rq h =
    (if al_enable ac then limit_entry (rate_limit_from_config ac) now rq h else h)"

lemma serve_chain_Nil: "serve_chain fresh now rq h [] = h"
  by (rule ext) simp

lemma serve_chain_inner:
  "serve_chain fresh now rq h (if al_enable ac then [MidRateLimit (rate_limit_from_config ac)] else []) =
    inner_chain ac now rq h"
  by (rule ext) (simp add: inner_chain_def serve_chain_Nil)

lemma inner_chain_outcome:
  "fst (limit_outcome ac now (cr_ip rq) (xc_limiter x)) \<Longrightarrow>
    inner_chain ac now rq h x = h (x\<lparr>xc_limiter := snd (limit_outcome ac now (cr_ip rq) (xc_limiter x))\<rparr>)"
  "\<not> fst (limit_outcome ac now (cr_ip rq) (xc_limiter x)) \<Longrightarrow>
    \<exists>r. inner_chain ac now rq h x = (None, x\<lparr>xc_limiter := snd (limit_outcome ac now (cr_ip rq) (xc_limiter x)),
      xc_writer := write_reply r (xc_writer x)\<rparr>)"
  by (auto simp: inner_chain_def limit_entry_def limit_outcome_def rate_reply_def
      split: limiter_middleware.splits prod.splits rate_verdict.splits)

lemma serve_default_unfold:
  "serve_default fresh now cc ac rq h ctx l =
    (case trace_middleware ctx (cr_header rq) (cr_span_trace rq) fresh of
       (ctx, t) \<Rightarrow>
         catch_panic (\<lambda>v. recovery_reply) (catch_panic error_handler_reply
           (case (if co_enable cc then cors_entry cc rq (inner_chain ac now rq h) else inner_chain ac now rq h)
               \<lparr>xc_writer = set_header ''X-Trace-Id'' t new_writer, xc_ctx = ctx, xc_log = [], xc_limiter = l\<rparr> of
              (None, x) \<Rightarrow> (None, x\<lparr>xc_log := xc_log x @ [access_line rq x]\<rparr>)
            | (Some v, x) \<Rightarrow> (Some v, x))))"
proof -
  have cors_part: "serve_chain fresh now rq h ((if co_enable cc then [MidCORS cc] else []) @
        (if al_enable ac then [MidRateLimit (rate_limit_from_config ac)] else [])) =
      (if co_enable cc then cors_entry cc rq (inner_chain ac now rq h) else inner_chain ac now rq h)"
    by (rule ext) (cases "co_enable cc", simp_all only: append.simps if_True if_False
      serve_chain.simps serve_chain_inner)
  show ?thesis
    unfolding serve_default_def mid_default_def fst_conv snd_conv append.simps append_assoc
    by (simp add: cors_part split: prod.split)
qed

text \<open>
  The exchange that reaches the handler: nothing written, nothing logged, the trace of the request in
  the response header and in the context, and the limiter's memory with this request counted.
\<close>

definition trace_header :: "'d exchange \<Rightarrow> string" where
  "trace_header x = (case wr_headers (xc_writer x) ''X-Trace-Id'' of None \<Rightarrow> [] | Some t \<Rightarrow> t)"

definition reaches_handler :: "string \<Rightarrow> rate_limiter \<Rightarrow> 'd exchange \<Rightarrow> bool" where
  "reaches_handler t l x \<longleftrightarrow> \<not> wr_written (xc_writer x) \<and> wr_bodies (xc_writer x) = [] \<and>
    trace_header x = t \<and> mx_log_trace (xc_ctx x) = t \<and> xc_log x = [] \<and> xc_limiter x = l"

lemma cors_trace: "wr_headers (snd (cors_from_config cfg meth origin w)) ''X-Trace-Id'' = wr_headers w ''X-Trace-Id''"
  by (simp add: cors_from_config_def cors_modes Let_def)

lemma cors_preflight:
  "co_enable cfg \<Longrightarrow> meth = ''OPTIONS'' \<Longrightarrow> wr_written (snd (cors_from_config cfg meth origin w))"
  by (simp add: cors_from_config_def cors_modes end_preflight_def write_status_def Let_def)

lemma cors_inner_outcome:
  fixes x :: "'d exchange" and cc ac rq now h
  assumes x: "reaches_handler t l x"
  defines "r \<equiv> (if co_enable cc then cors_entry cc rq (inner_chain ac now rq h) else inner_chain ac now rq h) x"
    and "out \<equiv> limit_outcome ac now (cr_ip rq) l"
  shows "preflight cc rq \<Longrightarrow> \<exists>y. r = (None, y) \<and> wr_written (xc_writer y) \<and> trace_header y = t \<and>
      mx_log_trace (xc_ctx y) = t \<and> xc_log y = [] \<and> xc_limiter y = l"
    "\<not> preflight cc rq \<Longrightarrow> \<not> fst out \<Longrightarrow> \<exists>y. r = (None, y) \<and> wr_written (xc_writer y) \<and>
      trace_header y = t \<and> mx_log_trace (xc_ctx y) = t \<and> xc_log y = [] \<and> xc_limiter y = snd out"
    "\<not> preflight cc rq \<Longrightarrow> fst out \<Longrightarrow> \<exists>y. r = h y \<and> reaches_handler t (snd out) y"
proof -
  obtain go_on w where c: "cors_from_config cc (cr_method rq) (cr_header rq ''Origin'') (xc_writer x) = (go_on, w)"
    by fastforce
  have go: "go_on \<longleftrightarrow> \<not> preflight cc rq" if "co_enable cc"
    using that cors_go_on [of cc "cr_method rq" "cr_header rq ''Origin''" "xc_writer x"]
    by (simp add: c preflight_def)
  have w: "wr_headers w ''X-Trace-Id'' = wr_headers (xc_writer x) ''X-Trace-Id''"
      "preflight cc rq \<Longrightarrow> wr_written w" "wr_bodies w = wr_bodies (xc_writer x)"
      "cr_method rq \<noteq> ''OPTIONS'' \<Longrightarrow> wr_written w = wr_written (xc_writer x)"
    using cors_trace [of cc "cr_method rq" "cr_header rq ''Origin''" "xc_writer x"]
      cors_preflight [of cc "cr_method rq" "cr_header rq ''Origin''" "xc_writer x"]
      cors_bodies [of cc "cr_method rq" "cr_header rq ''Origin''" "xc_writer x"]
      cors_unwritten [of "cr_method rq" cc "cr_header rq ''Origin''" "xc_writer x"]
    unfolding c snd_conv by (auto simp: preflight_def)
  show "\<exists>y. r = (None, y) \<and> wr_written (xc_writer y) \<and> trace_header y = t \<and> mx_log_trace (xc_ctx y) = t \<and>
      xc_log y = [] \<and> xc_limiter y = l" if "preflight cc rq"
  proof -
    have "co_enable cc" "\<not> go_on"
      using that go by (simp_all add: preflight_def)
    then have "r = (None, x\<lparr>xc_writer := w\<rparr>)"
      by (simp add: r_def cors_entry_def c)
    then show ?thesis
      using that x w(1,2) by (simp add: trace_header_def reaches_handler_def)
  qed
  define y where "y = (if co_enable cc then x\<lparr>xc_writer := w\<rparr> else x)"
  have y: "r = inner_chain ac now rq h y" "reaches_handler t l y" if "\<not> preflight cc rq"
    using that x w go
    by (auto simp: r_def y_def preflight_def cors_entry_def c trace_header_def reaches_handler_def)
  show "\<exists>y. r = (None, y) \<and> wr_written (xc_writer y) \<and> trace_header y = t \<and> mx_log_trace (xc_ctx y) = t \<and>
      xc_log y = [] \<and> xc_limiter y = snd out" if "\<not> preflight cc rq" "\<not> fst out"
    using y [OF that(1)] inner_chain_outcome(2) [of ac now rq y h] that(2)
    by (auto simp: reaches_handler_def out_def trace_header_def write_reply_def)
  show "\<exists>y. r = h y \<and> reaches_handler t (snd out) y" if "\<not> preflight cc rq" "fst out"
    using y [OF that(1)] inner_chain_outcome(1) [of ac now rq y h] that(2)
    by (intro exI [of _ "y\<lparr>xc_limiter := snd out\<rparr>"]) (simp add: reaches_handler_def out_def trace_header_def)
qed

text \<open>
  C15. The default chain answers every request, and whatever its handler does, no panic leaves it. A
  preflight is answered before the limiter and costs the client none of its budget; every other
  request is counted once, and a limited one is answered without the handler. A request that reaches
  the handler carries its trace in the response header and in the context. When the handler returns,
  its answer stands, and the access log gets exactly one line, with the status sent and the trace of
  the context. When it panics, the error handler's answer is the whole answer if nothing had been
  written; if the handler had already answered, that status and the headers stay, and the error is a
  second document after the first; the access log then gets no line, because the logger writes it
  after the call of the handler without a deferred function.
\<close>

theorem default_chain_answers:
  fixes h :: "'d chain_handler"
  shows "case serve_default fresh now cc ac rq h ctx l of (q, x) \<Rightarrow> q = None \<and>
    (let (let_through, l') = limit_outcome ac now (cr_ip rq) l;
         t = snd (trace_middleware ctx (cr_header rq) (cr_span_trace rq) fresh)
     in if preflight cc rq \<or> \<not> let_through
        then wr_written (xc_writer x) \<and> trace_header x = t \<and>
          xc_limiter x = (if preflight cc rq then l else l') \<and>
          xc_log x = [\<lparr>le_method = cr_method rq, le_path = log_path (cr_path rq) (cr_raw_query rq),
            le_status = wr_status (xc_writer x), le_ip = cr_ip rq, le_trace = t\<rparr>]
        else (\<exists>y0 p y. reaches_handler t l' y0 \<and> h y0 = (p, y) \<and> xc_limiter x = xc_limiter y \<and>
          wr_headers (xc_writer x) = wr_headers (xc_writer y) \<and>
          (case p of
             None \<Rightarrow> xc_writer x = xc_writer y \<and>
               xc_log x = xc_log y @ [\<lparr>le_method = cr_method rq,
                 le_path = log_path (cr_path rq) (cr_raw_query rq), le_status = wr_status (xc_writer x),
                 le_ip = cr_ip rq, le_trace = mx_log_trace (xc_ctx y)\<rparr>]
           | Some v \<Rightarrow> xc_log x = xc_log y \<and>
               wr_status (xc_writer x) = (if wr_written (xc_writer y) then wr_status (xc_writer y)
                 else rep_status (error_handler_reply v :: 'd reply)) \<and>
               wr_bodies (xc_writer x) = wr_bodies (xc_writer y) @ [rep_body (error_handler_reply v)])))"
proof -
  obtain ctx' t where t: "trace_middleware ctx (cr_header rq) (cr_span_trace rq) fresh = (ctx', t)"
    by fastforce
  obtain lt l' where out: "limit_outcome ac now (cr_ip rq) l = (lt, l')"
    by fastforce
  define x0 :: "'d exchange" where
    "x0 = \<lparr>xc_writer = set_header ''X-Trace-Id'' t new_writer, xc_ctx = ctx', xc_log = [], xc_limiter = l\<rparr>"
  obtain v y where r: "(if co_enable cc then cors_entry cc rq (inner_chain ac now rq h)
      else inner_chain ac now rq h) x0 = (v, y)"
    by fastforce
  have "reaches_handler t l x0"
    using t by (auto simp: x0_def new_writer_def reaches_handler_def trace_header_def trace_middleware_def Let_def)
  note reach = cors_inner_outcome [OF this, of cc rq ac now h, unfolded r out fst_conv snd_conv]
  have s: "serve_default fresh now cc ac rq h ctx l =
      catch_panic (\<lambda>v. recovery_reply) (catch_panic error_handler_reply
        (case v of None \<Rightarrow> (None, y\<lparr>xc_log := xc_log y @ [access_line rq y]\<rparr>) | Some v \<Rightarrow> (Some v, y)))"
    using r [unfolded x0_def] by (simp add: serve_default_unfold t)
  show ?thesis
  proof (cases "preflight cc rq \<or> \<not> lt")
    case True
    then have "v = None \<and> wr_written (xc_writer y) \<and> trace_header y = t \<and> mx_log_trace (xc_ctx y) = t \<and>
        xc_log y = [] \<and> xc_limiter y = (if preflight cc rq then l else l')"
      using reach(1,2) by auto
    with True show ?thesis
      by (simp add: s out t catch_panic_def access_line_def trace_header_def)
  next
    case False
    then obtain y0 where y0: "reaches_handler t l' y0" "h y0 = (v, y)"
      using reach(3) by auto
    have "case serve_default fresh now cc ac rq h ctx l of (q, x) \<Rightarrow> q = None \<and> xc_limiter x = xc_limiter y \<and>
        wr_headers (xc_writer x) = wr_headers (xc_writer y) \<and>
        (case v of
           None \<Rightarrow> xc_writer x = xc_writer y \<and> xc_log x = xc_log y @ [access_line rq y]
         | Some v \<Rightarrow> xc_log x = xc_log y \<and>
             wr_status (xc_writer x) = (if wr_written (xc_writer y) then wr_status (xc_writer y)
               else rep_status (error_handler_reply v :: 'd reply)) \<and>
             wr_bodies (xc_writer x) = wr_bodies (xc_writer y) @ [rep_body (error_handler_reply v)])"
      by (cases v) (simp_all add: s catch_panic_def write_reply_def)
    with False y0 show ?thesis
      by (fastforce simp: out t access_line_def split: option.splits)
  qed
qed

definition demo_chain_request :: chain_request where
  "demo_chain_request = \<lparr>cr_method = ''GET'', cr_path = ''/tasks'', cr_raw_query = [], cr_header = (\<lambda>k. []),
    cr_ip = ''10.0.0.1'', cr_span_trace = []\<rparr>"

definition demo_no_limit :: access_limit_cfg where
  "demo_no_limit = \<lparr>al_enable = False, al_total = 0, al_duration = 0, al_backend = [], al_key_prefix = []\<rparr>"

text \<open>A handler that answers and then panics.\<close>

definition demo_late_panic :: "unit chain_handler" where
  "demo_late_panic x = (Some PanicOther, x\<lparr>xc_writer := write_reply refusing_reply (xc_writer x)\<rparr>)"

theorem default_chain_answers_witness:
  "case serve_default ''u1'' 0 demo_cors demo_no_limit demo_chain_request demo_late_panic empty_ctx
      (new_rate_limiter 1 second) of
     (q, x) \<Rightarrow> q = None \<and> xc_log x = [] \<and> wr_status (xc_writer x) = rep_status (refusing_reply :: unit reply) \<and>
       wr_bodies (xc_writer x) = [rep_body refusing_reply, rep_body (error_handler_reply PanicOther)]"
  using default_chain_answers [where fresh = "''u1''" and now = 0 and cc = demo_cors and ac = demo_no_limit
      and rq = demo_chain_request and h = demo_late_panic and ctx = empty_ctx and l = "new_rate_limiter 1 second"]
  by (auto simp: demo_late_panic_def demo_cors_def preflight_def demo_chain_request_def limit_outcome_def
      demo_no_limit_def reaches_handler_def write_reply_def Let_def split: prod.splits)

text \<open>
  A handler that panics after it has answered keeps the status of its answer: the error is only
  appended to the body.
\<close>

lemma late_panic_appends:
  "let (q, x) = catch_panic error_handler_reply (Some v, y\<lparr>xc_writer := write_reply r new_writer\<rparr>)
   in wr_status (xc_writer x) = rep_status r \<and>
      wr_bodies (xc_writer x) = [rep_body r, rep_body (error_handler_reply v)]"
  by (simp add: catch_panic_def write_reply_def new_writer_def)

end
