(* ===== verification/Demo_Tasks.thy ===== *)
theory Demo_Tasks
  imports Jwt_Auth Store_Opts
begin

text \<open>
  The example service of \<open>example/internal/demo\<close>: tasks and their comments, kept per workspace.
  Handlers (\<open>apis/\<close>) check the identity the JWT middleware left and the parameters, services
  (\<open>service/\<close>) decide, stores (\<open>store/\<close>) query two tables. The object-relational mapper and its
  database are a parameter, a record of the statements the stores issue on a database state;
  decoding a request body is one as well, so a request carries the decoded body or the error.
\<close>

subsection \<open>Rows and requests\<close>

record task =
  tk_id :: int
  tk_workspace :: int
  tk_title :: string
  tk_status :: int
  tk_created :: instant
  tk_updated :: instant

record task_comment =
  cm_id :: int
  cm_workspace :: int
  cm_task :: int
  cm_user :: int
  cm_content :: string
  cm_created :: instant
  cm_updated :: instant

record create_task_req =
  ct_title :: string

record update_task_req =
  ut_title :: string
  ut_status :: "int option"

record create_comment_req =
  cq_content :: string

text \<open>The columns of an update: those that are present are set.\<close>

record task_updates =
  up_title :: "string option"
  up_status :: "int option"

subsection \<open>The database\<close>

text \<open>
  The statements on one table: \<open>First\<close>, \<open>Count\<close>, \<open>Order.Offset.Limit.Find\<close> (the flag asks for
  descending identifiers), \<open>Create\<close>, \<open>Updates\<close> and \<open>Delete\<close>, the last two with \<open>RowsAffected\<close>.
\<close>

record ('r, 'u, 'db) table_api =
  ta_first :: "('r \<Rightarrow> bool) \<Rightarrow> 'db \<Rightarrow> goerr + 'r"
  ta_count :: "('r \<Rightarrow> bool) \<Rightarrow> 'db \<Rightarrow> goerr + int"
  ta_find :: "bool \<Rightarrow> int \<Rightarrow> int \<Rightarrow> ('r \<Rightarrow> bool) \<Rightarrow> 'db \<Rightarrow> goerr + 'r list"
  ta_create :: "'r \<Rightarrow> 'db \<Rightarrow> (goerr + 'r) \<times> 'db"
  ta_update :: "('r \<Rightarrow> bool) \<Rightarrow> 'u \<Rightarrow> 'db \<Rightarrow> int \<times> goerr option \<times> 'db"
  ta_delete :: "('r \<Rightarrow> bool) \<Rightarrow> 'db \<Rightarrow> int \<times> goerr option \<times> 'db"

record 'db stores =
  st_task :: "(task, task_updates, 'db) table_api"
  st_comment :: "(task_comment, unit, 'db) table_api"

subsection \<open>Stores\<close>

definition task_get_by_id :: "'db stores \<Rightarrow> int \<Rightarrow> int \<Rightarrow> 'db \<Rightarrow> goerr + task" where
  "task_get_by_id s ws oid db = ta_first (st_task s) (\<lambda>t. tk_workspace t = ws \<and> tk_id t = oid) db"

definition task_store_list :: "'db stores \<Rightarrow> int \<Rightarrow> list_opts \<Rightarrow> 'db \<Rightarrow> goerr + (task list \<times> int)" where
  "task_store_list s ws opts db =
    (case ta_count (st_task s) (\<lambda>t. tk_workspace t = ws) db of
       Inl e \<Rightarrow> Inl e
     | Inr nrows \<Rightarrow>
        (case ta_find (st_task s) True (list_offset opts) (page_size opts) (\<lambda>t. tk_workspace t = ws) db of
           Inl e \<Rightarrow> Inl e
         | Inr xs \<Rightarrow> Inr (xs, nrows)))"

definition task_store_create :: "'db stores \<Rightarrow> task \<Rightarrow> 'db \<Rightarrow> (goerr + task) \<times> 'db" where
  "task_store_create s t db = ta_create (st_task s) t db"

definition task_store_update ::
  "'db stores \<Rightarrow> int \<Rightarrow> int \<Rightarrow> task_updates \<Rightarrow> 'db \<Rightarrow> int \<times> goerr option \<times> 'db" where
  "task_store_update s ws oid u db = ta_update (st_task s) (\<lambda>t. tk_workspace t = ws \<and> tk_id t = oid) u db"

definition task_store_delete :: "'db stores \<Rightarrow> int \<Rightarrow> int \<Rightarrow> 'db \<Rightarrow> int \<times> goerr option \<times> 'db" where
  "task_store_delete s ws oid db = ta_delete (st_task s) (\<lambda>t. tk_workspace t = ws \<and> tk_id t = oid) db"

definition comment_get_by_id :: "'db stores \<Rightarrow> int \<Rightarrow> int \<Rightarrow> int \<Rightarrow> 'db \<Rightarrow> goerr + task_comment" where
  "comment_get_by_id s ws tid oid db =
    ta_first (st_comment s) (\<lambda>c. cm_workspace c = ws \<and> cm_task c = tid \<and> cm_id c = oid) db"

definition comment_list_by_task ::
  "'db stores \<Rightarrow> int \<Rightarrow> int \<Rightarrow> list_opts \<Rightarrow> 'db \<Rightarrow> goerr + (task_comment list \<times> int)" where
  "comment_list_by_task s ws tid opts db =
    (case ta_count (st_comment s) (\<lambda>c. cm_workspace c = ws \<and> cm_task c = tid) db of
       Inl e \<Rightarrow> Inl e
     | Inr nrows \<Rightarrow>
        (case ta_find (st_comment s) False (list_offset opts) (page_size opts)
            (\<lambda>c. cm_workspace c = ws \<and> cm_task c = tid) db of
           Inl e \<Rightarrow> Inl e
         | Inr xs \<Rightarrow> Inr (xs, nrows)))"

definition comment_store_create :: "'db stores \<Rightarrow> task_comment \<Rightarrow> 'db \<Rightarrow> (goerr + task_comment) \<times> 'db" where
  "comment_store_create s c db = ta_create (st_comment s) c db"

definition comment_store_delete ::
  "'db stores \<Rightarrow> int \<Rightarrow> int \<Rightarrow> int \<Rightarrow> int \<Rightarrow> 'db \<Rightarrow> int \<times> goerr option \<times> 'db" where
  "comment_store_delete s ws tid oid uid db =
    ta_delete (st_comment s)
      (\<lambda>c. cm_workspace c = ws \<and> cm_task c = tid \<and> cm_id c = oid \<and> cm_user c = uid) db"

subsection \<open>Services\<close>

abbreviation err_task_not_found :: goerr where
  "err_task_not_found \<equiv> Sentinel ''task not found''"

abbreviation err_comment_not_found :: goerr where
  "err_comment_not_found \<equiv> Sentinel ''task comment not found''"

definition task_create :: "'db stores \<Rightarrow> int \<Rightarrow> create_task_req \<Rightarrow> 'db \<Rightarrow> (goerr + task) \<times> 'db" where
  "task_create s ws req db =
    task_store_create s \<lparr>tk_id = 0, tk_workspace = ws, tk_title = ct_title req, tk_status = 1,
      tk_created = 0, tk_updated = 0\<rparr> db"

text \<open>Services that change rows answer the error; no affected row is an error of its own.\<close>

definition rows_or :: "goerr \<Rightarrow> int \<times> goerr option \<times> 'db \<Rightarrow> goerr option \<times> 'db" where
  "rows_or missing r =
    (case r of (n, err, db) \<Rightarrow>
       (case err of Some e \<Rightarrow> (Some e, db) | None \<Rightarrow> (if n = 0 then Some missing else None, db)))"

definition task_update ::
  "'db stores \<Rightarrow> int \<Rightarrow> int \<Rightarrow> update_task_req \<Rightarrow> 'db \<Rightarrow> goerr option \<times> 'db" where
  "task_update s ws oid req db =
    (let u = \<lparr>up_title = (if ut_title req \<noteq> [] then Some (ut_title req) else None),
              up_status = ut_status req\<rparr>
     in if up_title u = None \<and> up_status u = None then (None, db)
        else rows_or err_task_not_found (task_store_update s ws oid u db))"

definition task_delete :: "'db stores \<Rightarrow> int \<Rightarrow> int \<Rightarrow> 'db \<Rightarrow> goerr option \<times> 'db" where
  "task_delete s ws oid db = rows_or err_task_not_found (task_store_delete s ws oid db)"

definition task_or_missing :: "'db stores \<Rightarrow> int \<Rightarrow> int \<Rightarrow> 'db \<Rightarrow> goerr option" where
  "task_or_missing s ws tid db =
    (case task_get_by_id s ws tid db of
       Inl e \<Rightarrow> Some (if err_is e ''record not found'' then err_task_not_found else e)
     | Inr t \<Rightarrow> None)"

definition comment_list ::
  "'db stores \<Rightarrow> int \<Rightarrow> int \<Rightarrow> list_opts \<Rightarrow> 'db \<Rightarrow> goerr + (task_comment list \<times> int)" where
  "comment_list s ws tid opts db =
    (case task_or_missing s ws tid db of
       Some e \<Rightarrow> Inl e
     | None \<Rightarrow> comment_list_by_task s ws tid opts db)"

definition comment_create ::
  "'db stores \<Rightarrow> int \<Rightarrow> int \<Rightarrow> int \<Rightarrow> create_comment_req \<Rightarrow> 'db \<Rightarrow> (goerr + task_comment) \<times> 'db" where
  "comment_create s ws tid uid req db =
    (case task_or_missing s ws tid db of
       Some e \<Rightarrow> (Inl e, db)
     | None \<Rightarrow>
        comment_store_create s \<lparr>cm_id = 0, cm_workspace = ws, cm_task = tid, cm_user = uid,
          cm_content = cq_content req, cm_created = 0, cm_updated = 0\<rparr> db)"

definition comment_delete ::
  "'db stores \<Rightarrow> int \<Rightarrow> int \<Rightarrow> int \<Rightarrow> int \<Rightarrow> 'db \<Rightarrow> goerr option \<times> 'db" where
  "comment_delete s ws tid oid uid db = rows_or err_comment_not_found (comment_store_delete s ws tid oid uid db)"

subsection \<open>Handlers\<close>

definition msg_db_error :: string where
  "msg_db_error =
    [CHR 0xE6, CHR 0x95, CHR 0xB0, CHR 0xE6, CHR 0x8D, CHR 0xAE, CHR 0xE5, CHR 0xBA,
     CHR 0x93, CHR 0xE9, CHR 0x94, CHR 0x99, CHR 0xE8, CHR 0xAF, CHR 0xAF]"

definition msg_task_missing :: string where
  "msg_task_missing =
    [CHR 0xE4, CHR 0xBB, CHR 0xBB, CHR 0xE5, CHR 0x8A, CHR 0xA1, CHR 0xE4, CHR 0xB8,
     CHR 0x8D, CHR 0xE5, CHR 0xAD, CHR 0x98, CHR 0xE5, CHR 0x9C, CHR 0xA8]"

definition msg_comment_missing :: string where
  "msg_comment_missing =
    [CHR 0xE8, CHR 0xAF, CHR 0x84, CHR 0xE8, CHR 0xAE, CHR 0xBA, CHR 0xE4, CHR 0xB8,
     CHR 0x8D, CHR 0xE5, CHR 0xAD, CHR 0x98, CHR 0xE5, CHR 0x9C, CHR 0xA8]"

definition msg_no_workspace :: string where
  "msg_no_workspace =
    [CHR 0xE7, CHR 0xBC, CHR 0xBA, CHR 0xE5, CHR 0xB0, CHR 0x91, CHR 0xE5, CHR 0xB7,
     CHR 0xA5, CHR 0xE4, CHR 0xBD, CHR 0x9C, CHR 0xE5, CHR 0x8C, CHR 0xBA, CHR 0xE6,
     CHR 0x9D, CHR 0x83, CHR 0xE9, CHR 0x99, CHR 0x90]"

definition msg_page_error :: string where
  "msg_page_error =
    [CHR 0xE5, CHR 0x88, CHR 0x86, CHR 0xE9, CHR 0xA1, CHR 0xB5, CHR 0xE5, CHR 0x8F,
     CHR 0x82, CHR 0xE6, CHR 0x95, CHR 0xB0, CHR 0xE9, CHR 0x94, CHR 0x99, CHR 0xE8,
     CHR 0xAF, CHR 0xAF]"

definition code_db_error :: int where "code_db_error = 50001"

datatype demo_answer =
  Plain "unit reply"
| OneTask "task reply"
| TaskPage "task list page_data reply"
| OneComment "task_comment reply"
| CommentPage "task_comment list page_data reply"

type_synonym 'db demo_handler = "'db \<Rightarrow> demo_answer \<times> 'db"

definition require_workspace :: "identity \<Rightarrow> unit reply + int" where
  "require_workspace i =
    (if get_workspace_id i \<le> 0 then Inl (fail_status 403 code_forbidden msg_no_workspace)
     else Inr (get_workspace_id i))"

definition parse_positive_id :: "string \<Rightarrow> unit reply + int" where
  "parse_positive_id s =
    (case parse_int s of (oid, err) \<Rightarrow>
       if err \<noteq> None \<or> oid \<le> 0 then Inl (fail_status 400 code_invalid_param msg_param_error) else Inr oid)"

text \<open>\<open>DefaultQuery\<close> falls back only when the key is absent (\<open>None\<close>).\<close>

definition parse_pagination :: "string option \<Rightarrow> string option \<Rightarrow> unit reply + (int \<times> int)" where
  "parse_pagination page_text size_text =
    (case (parse_int (case page_text of Some s \<Rightarrow> s | None \<Rightarrow> ''1''),
           parse_int (case size_text of Some s \<Rightarrow> s | None \<Rightarrow> ''20'')) of
       ((page, err_page), (psize, err_size)) \<Rightarrow>
         if err_page \<noteq> None \<or> err_size \<noteq> None \<or> page \<le> 0 \<or> psize \<le> 0
         then Inl (fail_status 400 code_invalid_param msg_page_error)
         else Inr (page, if psize > 500 then 500 else psize))"

text \<open>A check that answers, or gives the rest of the handler its value.\<close>

definition checked :: "unit reply + 'a \<Rightarrow> ('a \<Rightarrow> 'db demo_handler) \<Rightarrow> 'db demo_handler" where
  "checked c k db = (case c of Inl r \<Rightarrow> (Plain r, db) | Inr a \<Rightarrow> k a db)"

definition bound_body :: "goerr + 'a \<Rightarrow> unit reply + 'a" where
  "bound_body b = (case b of Inl e \<Rightarrow> Inl (resp_error e) | Inr a \<Rightarrow> Inr a)"

definition db_failure :: "unit reply" where
  "db_failure = fail_status 500 code_db_error msg_db_error"

definition failure_for :: "string \<Rightarrow> string \<Rightarrow> goerr \<Rightarrow> unit reply" where
  "failure_for target msg e =
    (if err_is e target then fail_status 404 code_not_found msg else db_failure)"

definition task_failure :: "goerr \<Rightarrow> unit reply" where
  "task_failure = failure_for ''task not found'' msg_task_missing"

definition list_opts_of :: "int \<times> int \<Rightarrow> list_opts" where
  "list_opts_of ps = \<lparr>lo_page = fst ps, lo_size = snd ps, lo_order_by = []\<rparr>"

definition task_api_list ::
  "'db stores \<Rightarrow> identity \<Rightarrow> string option \<Rightarrow> string option \<Rightarrow> 'db demo_handler" where
  "task_api_list s i page psize =
    checked (require_workspace i) (\<lambda>ws. checked (parse_pagination page psize) (\<lambda>ps db.
      (case task_store_list s ws (list_opts_of ps) db of
         Inl e \<Rightarrow> (Plain db_failure, db)
       | Inr (xs, nrows) \<Rightarrow> (TaskPage (resp_page xs nrows (fst ps) (snd ps)), db))))"

definition task_api_create :: "'db stores \<Rightarrow> identity \<Rightarrow> goerr + create_task_req \<Rightarrow> 'db demo_handler" where
  "task_api_create s i body =
    checked (require_workspace i) (\<lambda>ws. checked (bound_body body) (\<lambda>req db.
      (case task_create s ws req db of
         (Inl e, db) \<Rightarrow> (Plain db_failure, db)
       | (Inr t, db) \<Rightarrow> (OneTask (resp_ok [t]), db))))"

definition task_api_update ::
  "'db stores \<Rightarrow> identity \<Rightarrow> string \<Rightarrow> goerr + update_task_req \<Rightarrow> 'db demo_handler" where
  "task_api_update s i id_text body =
    checked (require_workspace i) (\<lambda>ws. checked (parse_positive_id id_text) (\<lambda>oid.
      checked (bound_body body) (\<lambda>req db.
        (case task_update s ws oid req db of
           (Some e, db) \<Rightarrow> (Plain (task_failure e), db)
         | (None, db) \<Rightarrow> (Plain (resp_ok []), db)))))"

definition task_api_delete :: "'db stores \<Rightarrow> identity \<Rightarrow> string \<Rightarrow> 'db demo_handler" where
  "task_api_delete s i id_text =
    checked (require_workspace i) (\<lambda>ws. checked (parse_positive_id id_text) (\<lambda>oid db.
      (case task_delete s ws oid db of
         (Some e, db) \<Rightarrow> (Plain (task_failure e), db)
       | (None, db) \<Rightarrow> (Plain (resp_ok []), db))))"

definition comment_api_list ::
  "'db stores \<Rightarrow> identity \<Rightarrow> string \<Rightarrow> string option \<Rightarrow> string option \<Rightarrow> 'db demo_handler" where
  "comment_api_list s i tid_text page psize =
    checked (require_workspace i) (\<lambda>ws. checked (parse_positive_id tid_text) (\<lambda>tid.
      checked (parse_pagination page psize) (\<lambda>ps db.
        (case comment_list s ws tid (list_opts_of ps) db of
           Inl e \<Rightarrow> (Plain (task_failure e), db)
         | Inr (xs, nrows) \<Rightarrow> (CommentPage (resp_page xs nrows (fst ps) (snd ps)), db)))))"

definition comment_api_create ::
  "'db stores \<Rightarrow> identity \<Rightarrow> string \<Rightarrow> goerr + create_comment_req \<Rightarrow> 'db demo_handler" where
  "comment_api_create s i tid_text body =
    checked (require_workspace i) (\<lambda>ws. checked (parse_positive_id tid_text) (\<lambda>tid.
      checked (if get_uid i = 0 then Inl (fail_status 401 code_unauthorized msg_not_logged_in)
               else Inr (get_uid i)) (\<lambda>uid.
        checked (bound_body body) (\<lambda>req db.
          (case comment_create s ws tid uid req db of
             (Inl e, db) \<Rightarrow> (Plain (task_failure e), db)
           | (Inr c, db) \<Rightarrow> (OneComment (resp_ok [c]), db))))))"

definition comment_api_delete :: "'db stores \<Rightarrow> identity \<Rightarrow> string \<Rightarrow> string \<Rightarrow> 'db demo_handler" where
  "comment_api_delete s i tid_text id_text =
    checked (require_workspace i) (\<lambda>ws. checked (parse_positive_id tid_text) (\<lambda>tid.
      checked (parse_positive_id id_text) (\<lambda>oid.
        checked (if get_uid i \<le> 0 then Inl (fail_status 401 code_unauthorized msg_not_logged_in)
                 else Inr (get_uid i)) (\<lambda>uid db.
          (case comment_delete s ws tid oid uid db of
             (Some e, db) \<Rightarrow> (Plain (failure_for ''task comment not found'' msg_comment_missing e), db)
           | (None, db) \<Rightarrow> (Plain (resp_ok []), db))))))"

text \<open>The handlers behind one entry, a request with its path parameters and body.\<close>

datatype demo_request =
  ListTasks "string option" "string option"
| CreateTask "goerr + create_task_req"
| UpdateTask string "goerr + update_task_req"
| DeleteTask string
| ListComments string "string option" "string option"
| CreateComment string "goerr + create_comment_req"
| DeleteComment string string

fun demo_serve :: "'db stores \<Rightarrow> identity \<Rightarrow> demo_request \<Rightarrow> 'db demo_handler" where
  "demo_serve s i (ListTasks page psize) = task_api_list s i page psize"
| "demo_serve s i (CreateTask body) = task_api_create s i body"
| "demo_serve s i (UpdateTask oid body) = task_api_update s i oid body"
| "demo_serve s i (DeleteTask oid) = task_api_delete s i oid"
| "demo_serve s i (ListComments tid page psize) = comment_api_list s i tid page psize"
| "demo_serve s i (CreateComment tid body) = comment_api_create s i tid body"
| "demo_serve s i (DeleteComment tid oid) = comment_api_delete s i tid oid"

subsection \<open>What the database promises\<close>

text \<open>
  The documented behaviour of the statements, over the rows of a table in some state: a read gives
  rows that match, in order of their keys; a statement that reports success changed exactly the
  rows it selects and counts them; one that reports an error changed either nothing or that (the
  connection may be lost after the commit). \<open>upd\<close> and \<open>made\<close> say what an update and an insertion
  make of a row.
\<close>

definition reads_ok :: "('r, 'u, 'db) table_api \<Rightarrow> ('db \<Rightarrow> 'r list) \<Rightarrow> ('r \<Rightarrow> int) \<Rightarrow> bool" where
  "reads_ok t rows key \<longleftrightarrow>
    (\<forall>P db r. ta_first t P db = Inr r \<longrightarrow> r \<in> set (rows db) \<and> P r) \<and>
    (\<forall>P db e. ta_first t P db = Inl e \<longrightarrow> err_is e ''record not found'' \<longrightarrow> filter P (rows db) = []) \<and>
    (\<forall>P db n. ta_count t P db = Inr n \<longrightarrow> n = int (length (filter P (rows db)))) \<and>
    (\<forall>desc off lmt P db xs. ta_find t desc off lmt P db = Inr xs \<longrightarrow>
       xs = take (nat lmt) (drop (nat off)
         (sort_key (\<lambda>r. if desc then - key r else key r) (filter P (rows db)))))"

definition creates_ok ::
  "('r, 'u, 'db) table_api \<Rightarrow> ('db \<Rightarrow> 'r list) \<Rightarrow> ('r \<Rightarrow> int) \<Rightarrow> ('r \<Rightarrow> 'r \<Rightarrow> bool) \<Rightarrow> bool" where
  "creates_ok t rows key made \<longleftrightarrow>
    (\<forall>r db res db'. ta_create t r db = (res, db') \<longrightarrow>
       (rows db' = rows db \<and> (\<exists>e. res = Inl e)) \<or>
       (\<exists>r'. made r r' \<and> key r' \<notin> key ` set (rows db) \<and> rows db' = rows db @ [r'] \<and>
          (res = Inr r' \<or> (\<exists>e. res = Inl e))))"

definition updates_ok ::
  "('r, 'u, 'db) table_api \<Rightarrow> ('db \<Rightarrow> 'r list) \<Rightarrow> ('u \<Rightarrow> 'r \<Rightarrow> 'r \<Rightarrow> bool) \<Rightarrow> bool" where
  "updates_ok t rows upd \<longleftrightarrow>
    (\<forall>P u db n err db'. ta_update t P u db = (n, err, db') \<longrightarrow>
       (rows db' = rows db \<and> err \<noteq> None) \<or>
       (list_all2 (\<lambda>r r'. if P r then upd u r r' else r' = r) (rows db) (rows db') \<and>
        (err = None \<longrightarrow> n = int (length (filter P (rows db))))))"

definition deletes_ok :: "('r, 'u, 'db) table_api \<Rightarrow> ('db \<Rightarrow> 'r list) \<Rightarrow> bool" where
  "deletes_ok t rows \<longleftrightarrow>
    (\<forall>P db n err db'. ta_delete t P db = (n, err, db') \<longrightarrow>
       (rows db' = rows db \<and> err \<noteq> None) \<or>
       (rows db' = filter (\<lambda>r. \<not> P r) (rows db) \<and>
        (err = None \<longrightarrow> n = int (length (filter P (rows db))))))"

text \<open>
  Insertions and updates change one table only. The migrations declare the task of a comment as a
  foreign key with \<open>ON DELETE CASCADE\<close>: the deletion of tasks deletes their comments, in one
  statement with the tasks, and the deletion of comments touches no task.
\<close>

definition table_apart :: "('r, 'u, 'db) table_api \<Rightarrow> ('db \<Rightarrow> 'x list) \<Rightarrow> bool" where
  "table_apart t others \<longleftrightarrow>
    (\<forall>r db. others (snd (ta_create t r db)) = others db) \<and>
    (\<forall>P u db. others (snd (snd (ta_update t P u db))) = others db)"

definition task_of :: "task_comment \<Rightarrow> task \<Rightarrow> bool" where
  "task_of c t \<longleftrightarrow> tk_workspace t = cm_workspace c \<and> tk_id t = cm_task c"

definition cascades_ok ::
  "(task, 'u, 'db) table_api \<Rightarrow> ('db \<Rightarrow> task list) \<Rightarrow> ('db \<Rightarrow> task_comment list) \<Rightarrow> bool" where
  "cascades_ok t tasks comments \<longleftrightarrow>
    (\<forall>P db n err db'. ta_delete t P db = (n, err, db') \<longrightarrow>
       (tasks db' = tasks db \<and> comments db' = comments db \<and> err \<noteq> None) \<or>
       (tasks db' = filter (\<lambda>r. \<not> P r) (tasks db) \<and>
        comments db' = filter (\<lambda>c. \<not> list_ex (\<lambda>r. P r \<and> task_of c r) (tasks db)) (comments db) \<and>
        (err = None \<longrightarrow> n = int (length (filter P (tasks db))))))"

definition delete_apart :: "('r, 'u, 'db) table_api \<Rightarrow> ('db \<Rightarrow> 'x list) \<Rightarrow> bool" where
  "delete_apart t others \<longleftrightarrow> (\<forall>P db. others (snd (snd (ta_delete t P db))) = others db)"

definition task_updated :: "task_updates \<Rightarrow> task \<Rightarrow> task \<Rightarrow> bool" where
  "task_updated u t t' \<longleftrightarrow>
    tk_id t' = tk_id t \<and> tk_workspace t' = tk_workspace t \<and> tk_created t' = tk_created t \<and>
    tk_title t' = (case up_title u of Some s \<Rightarrow> s | None \<Rightarrow> tk_title t) \<and>
    tk_status t' = (case up_status u of Some n \<Rightarrow> n | None \<Rightarrow> tk_status t)"

definition task_made :: "task \<Rightarrow> task \<Rightarrow> bool" where
  "task_made t t' \<longleftrightarrow> tk_workspace t' = tk_workspace t \<and> tk_title t' = tk_title t \<and>
    (tk_status t \<noteq> 0 \<longrightarrow> tk_status t' = tk_status t)"

definition comment_made :: "task_comment \<Rightarrow> task_comment \<Rightarrow> bool" where
  "comment_made c c' \<longleftrightarrow> cm_workspace c' = cm_workspace c \<and> cm_task c' = cm_task c \<and>
    cm_user c' = cm_user c \<and> cm_content c' = cm_content c"

definition demo_db_ok :: "'db stores \<Rightarrow> ('db \<Rightarrow> task list) \<Rightarrow> ('db \<Rightarrow> task_comment list) \<Rightarrow> bool" where
  "demo_db_ok s tasks comments \<longleftrightarrow>
    reads_ok (st_task s) tasks tk_id \<and> creates_ok (st_task s) tasks tk_id task_made \<and>
    updates_ok (st_task s) tasks task_updated \<and> cascades_ok (st_task s) tasks comments \<and>
    table_apart (st_task s) comments \<and>
    reads_ok (st_comment s) comments cm_id \<and> creates_ok (st_comment s) comments cm_id comment_made \<and>
    deletes_ok (st_comment s) comments \<and> table_apart (st_comment s) tasks \<and> delete_apart (st_comment s) tasks"

lemma find_rows:
  assumes "reads_ok t rows key" and "ta_find t desc off lmt P db = Inr xs"
  shows "set xs \<subseteq> {r \<in> set (rows db). P r}"
proof -
  have "xs = take (nat lmt) (drop (nat off)
      (sort_key (\<lambda>r. if desc then - key r else key r) (filter P (rows db))))"
    using assms unfolding reads_ok_def by blast
  then show ?thesis
    by (auto dest!: in_set_takeD in_set_dropD)
qed

lemma create_keeps_others:
  assumes "creates_ok t rows key made" and "ta_create t r db = (res, db')"
    and "\<And>r'. made r r' \<Longrightarrow> \<not> Q r'"
  shows "filter Q (rows db') = filter Q (rows db)" and "\<And>r'. res = Inr r' \<Longrightarrow> made r r'"
proof -
  consider "rows db' = rows db" "\<exists>e. res = Inl e"
    | r' where "made r r'" "rows db' = rows db @ [r']" "res = Inr r' \<or> (\<exists>e. res = Inl e)"
    using assms(1,2) unfolding creates_ok_def by blast
  then have "filter Q (rows db') = filter Q (rows db) \<and> (\<forall>r'. res = Inr r' \<longrightarrow> made r r')"
    by cases (auto simp: assms(3))
  then show "filter Q (rows db') = filter Q (rows db)" and "\<And>r'. res = Inr r' \<Longrightarrow> made r r'"
    by blast+
qed

lemma list_all2_filter_same:
  assumes "list_all2 (\<lambda>r r'. if P r then R r r' else r' = r) xs ys"
    and "\<And>r r'. P r \<Longrightarrow> R r r' \<Longrightarrow> \<not> Q r \<and> \<not> Q r'"
  shows "filter Q ys = filter Q xs"
  using assms(1)
proof (induction xs ys rule: list_all2_induct)
  case (Cons x xs y ys)
  then show ?case using assms(2) by (cases "P x") auto
qed simp

lemma update_keeps_others:
  assumes "updates_ok t rows upd" and "ta_update t P u db = (n, err, db')"
    and "\<And>r r'. P r \<Longrightarrow> upd u r r' \<Longrightarrow> \<not> Q r \<and> \<not> Q r'"
  shows "filter Q (rows db') = filter Q (rows db)"
proof -
  consider "rows db' = rows db"
    | "list_all2 (\<lambda>r r'. if P r then upd u r r' else r' = r) (rows db) (rows db')"
    using assms(1,2) unfolding updates_ok_def by blast
  then show ?thesis
    by cases (simp, erule list_all2_filter_same, rule assms(3))
qed

lemma delete_keeps_others:
  assumes "deletes_ok t rows" and "ta_delete t P db = (n, err, db')" and "\<And>r. P r \<Longrightarrow> \<not> Q r"
  shows "filter Q (rows db') = filter Q (rows db)"
proof -
  consider "rows db' = rows db" | "rows db' = filter (\<lambda>r. \<not> P r) (rows db)"
    using assms(1,2) unfolding deletes_ok_def by blast
  then show ?thesis
    using assms(3) by cases (auto intro!: filter_cong)
qed

lemma table_apartD:
  assumes "table_apart t others"
  shows "ta_create t r db = (res, db') \<Longrightarrow> others db' = others db"
    "ta_update t P u db = (n, err, db') \<Longrightarrow> others db' = others db"
  using assms unfolding table_apart_def by (metis snd_conv)+

subsection \<open>Workspaces are kept apart\<close>

definition shown_tasks :: "demo_answer \<Rightarrow> task list" where
  "shown_tasks a =
    (case a of OneTask r \<Rightarrow> (case env_data (rep_body r) of Some t \<Rightarrow> [t] | None \<Rightarrow> [])
     | TaskPage r \<Rightarrow> (case env_data (rep_body r) of Some p \<Rightarrow> pd_list p | None \<Rightarrow> [])
     | _ \<Rightarrow> [])"

definition shown_comments :: "demo_answer \<Rightarrow> task_comment list" where
  "shown_comments a =
    (case a of OneComment r \<Rightarrow> (case env_data (rep_body r) of Some c \<Rightarrow> [c] | None \<Rightarrow> [])
     | CommentPage r \<Rightarrow> (case env_data (rep_body r) of Some p \<Rightarrow> pd_list p | None \<Rightarrow> [])
     | _ \<Rightarrow> [])"

lemma shown_simps [simp]:
  "shown_tasks (Plain r0) = []" "shown_comments (Plain r0) = []"
  "shown_tasks (OneTask (resp_ok [t])) = [t]" "shown_comments (OneTask r1) = []"
  "shown_tasks (TaskPage (resp_page ts n p z)) = ts" "shown_comments (TaskPage r2) = []"
  "shown_tasks (OneComment r3) = []" "shown_comments (OneComment (resp_ok [c])) = [c]"
  "shown_tasks (CommentPage r4) = []" "shown_comments (CommentPage (resp_page cs n p z)) = cs"
  by (simp_all add: shown_tasks_def shown_comments_def resp_ok_def resp_page_def Let_def)

definition foreign_comment :: "int \<Rightarrow> int \<Rightarrow> task_comment \<Rightarrow> bool" where
  "foreign_comment ws uid c \<longleftrightarrow> cm_workspace c \<noteq> ws \<or> cm_user c \<noteq> uid"

text \<open>A comment whose task was there before and is not there afterwards.\<close>

definition lost_task :: "task list \<Rightarrow> task list \<Rightarrow> task_comment \<Rightarrow> bool" where
  "lost_task ts ts' c \<longleftrightarrow> list_ex (task_of c) ts \<and> \<not> list_ex (task_of c) ts'"

text \<open>
  What a request of workspace \<open>ws\<close> and user \<open>uid\<close> may change: the tasks of the workspace and, in it,
  the comments of the user; a comment of somebody else goes only with its task.
\<close>

definition changes_within ::
  "int \<Rightarrow> int \<Rightarrow> ('db \<Rightarrow> task list) \<Rightarrow> ('db \<Rightarrow> task_comment list) \<Rightarrow> 'db \<Rightarrow> 'db \<Rightarrow> bool" where
  "changes_within ws uid tasks comments db db' \<longleftrightarrow>
    filter (\<lambda>t. tk_workspace t \<noteq> ws) (tasks db') = filter (\<lambda>t. tk_workspace t \<noteq> ws) (tasks db) \<and>
    filter (\<lambda>c. cm_workspace c \<noteq> ws) (comments db') = filter (\<lambda>c. cm_workspace c \<noteq> ws) (comments db) \<and>
    filter (foreign_comment ws uid) (comments db') =
      filter (\<lambda>c. foreign_comment ws uid c \<and> \<not> lost_task (tasks db) (tasks db') c) (comments db)"

definition stays_within ::
  "int \<Rightarrow> int \<Rightarrow> ('db \<Rightarrow> task list) \<Rightarrow> ('db \<Rightarrow> task_comment list) \<Rightarrow> 'db \<Rightarrow> demo_answer \<times> 'db \<Rightarrow> bool" where
  "stays_within ws uid tasks comments db r =
    (case r of (a, db') \<Rightarrow>
       list_all (\<lambda>t. tk_workspace t = ws) (shown_tasks a) \<and>
       list_all (\<lambda>c. cm_workspace c = ws) (shown_comments a) \<and>
       changes_within ws uid tasks comments db db')"

lemma lost_task_same [simp]: "\<not> lost_task ts ts c"
  by (simp add: lost_task_def)

lemma lost_task_ids:
  "list_ex (task_of c) ts = ((cm_workspace c, cm_task c) \<in> set (map (\<lambda>t. (tk_workspace t, tk_id t)) ts))"
  by (induction ts) (auto simp: task_of_def)

lemma filter_narrow:
  assumes "filter P xs = filter P ys" and "\<And>x. Q x \<Longrightarrow> P x"
  shows "filter Q xs = filter Q ys"
proof -
  have "filter Q zs = filter Q (filter P zs)" for zs
    using assms(2) by (auto intro: filter_cong)
  then show ?thesis using assms(1) by metis
qed

lemma changes_tasks_only:
  assumes "filter (\<lambda>t. tk_workspace t \<noteq> ws) (tasks db') = filter (\<lambda>t. tk_workspace t \<noteq> ws) (tasks db)"
    and "comments db' = comments db" and "\<And>c. list_ex (task_of c) (tasks db) \<Longrightarrow> list_ex (task_of c) (tasks db')"
  shows "changes_within ws uid tasks comments db db'"
  using assms by (auto simp: changes_within_def lost_task_def intro: filter_cong)

lemma changes_comments_only:
  assumes "filter (foreign_comment ws uid) (comments db') = filter (foreign_comment ws uid) (comments db)"
    and "tasks db' = tasks db"
  shows "changes_within ws uid tasks comments db db'"
proof -
  have "filter (\<lambda>c. cm_workspace c \<noteq> ws) (comments db') = filter (\<lambda>c. cm_workspace c \<noteq> ws) (comments db)"
    by (rule filter_narrow [OF assms(1)]) (simp add: foreign_comment_def)
  with assms show ?thesis by (simp add: changes_within_def)
qed

lemma changes_nothing [simp]: "changes_within ws uid tasks comments db db"
  by (simp add: changes_within_def)

lemma stays_within_plain [simp]: "stays_within ws uid tasks comments db (Plain r, db)"
  by (simp add: stays_within_def)

lemma stays_within_checked [intro]:
  assumes "\<And>a. c = Inr a \<Longrightarrow> stays_within ws uid tasks comments db (k a db)"
  shows "stays_within ws uid tasks comments db (checked c k db)"
  using assms by (cases c) (simp_all add: checked_def)

lemma demo_db_okD:
  assumes "demo_db_ok s tasks comments"
  shows "reads_ok (st_task s) tasks tk_id" "creates_ok (st_task s) tasks tk_id task_made"
    "updates_ok (st_task s) tasks task_updated" "cascades_ok (st_task s) tasks comments"
    "table_apart (st_task s) comments" "reads_ok (st_comment s) comments cm_id"
    "creates_ok (st_comment s) comments cm_id comment_made" "deletes_ok (st_comment s) comments"
    "table_apart (st_comment s) tasks" "delete_apart (st_comment s) tasks"
  using assms by (simp_all add: demo_db_ok_def)


lemma task_list_within:
  assumes "demo_db_ok s tasks comments" and "task_store_list s ws opts db = Inr (xs, n)"
  shows "list_all (\<lambda>t. tk_workspace t = ws) xs"
  using assms(2) find_rows [OF demo_db_okD(1) [OF assms(1)]]
  by (fastforce simp: task_store_list_def list_all_iff split: sum.splits)

lemma comment_list_within:
  assumes "demo_db_ok s tasks comments" and "comment_list s ws tid opts db = Inr (xs, n)"
  shows "list_all (\<lambda>c. cm_workspace c = ws) xs"
  using assms(2) find_rows [OF demo_db_okD(6) [OF assms(1)]]
  by (fastforce simp: comment_list_def comment_list_by_task_def list_all_iff split: sum.splits option.splits)

lemma task_create_within:
  assumes ok: "demo_db_ok s tasks comments" and r: "task_create s ws req db = (res, db')"
  shows "changes_within ws uid tasks comments db db'" "\<And>t. res = Inr t \<Longrightarrow> tk_workspace t = ws"
proof -
  note r' = r [unfolded task_create_def task_store_create_def]
  have "filter (\<lambda>t. tk_workspace t \<noteq> ws) (tasks db') = filter (\<lambda>t. tk_workspace t \<noteq> ws) (tasks db)"
    by (rule create_keeps_others(1) [OF demo_db_okD(2) [OF ok] r']) (simp add: task_made_def)
  moreover have "set (tasks db) \<subseteq> set (tasks db')"
    using demo_db_okD(2) [OF ok] r' unfolding creates_ok_def by fastforce
  ultimately show "changes_within ws uid tasks comments db db'"
    using table_apartD(1) [OF demo_db_okD(5) [OF ok] r']
    by (intro changes_tasks_only) (auto simp: list_ex_iff)
  show "tk_workspace t = ws" if "res = Inr t" for t
    using create_keeps_others(2) [OF demo_db_okD(2) [OF ok] r', of "\<lambda>t. False"] that
    by (simp add: task_made_def)
qed

lemma comment_create_within:
  assumes ok: "demo_db_ok s tasks comments" and r: "comment_create s ws tid uid req db = (res, db')"
  shows "changes_within ws uid tasks comments db db'"
    "tasks db' = tasks db" "\<And>c. res = Inr c \<Longrightarrow> cm_workspace c = ws"
proof -
  let ?c = "\<lparr>cm_id = 0, cm_workspace = ws, cm_task = tid, cm_user = uid, cm_content = cq_content req,
    cm_created = 0, cm_updated = 0\<rparr>"
  let ?Q = "foreign_comment ws uid"
  consider e where "res = Inl e" "db' = db" | "ta_create (st_comment s) ?c db = (res, db')"
    using r by (auto simp: comment_create_def comment_store_create_def split: option.splits)
  then have "filter ?Q (comments db') = filter ?Q (comments db) \<and> tasks db' = tasks db \<and>
    (\<forall>c. res = Inr c \<longrightarrow> cm_workspace c = ws)"
  proof cases
    case 2
    have "filter ?Q (comments db') = filter ?Q (comments db)"
      by (rule create_keeps_others(1) [OF demo_db_okD(7) [OF ok] 2])
        (simp add: comment_made_def foreign_comment_def)
    moreover have "tasks db' = tasks db"
      by (rule table_apartD(1) [OF demo_db_okD(9) [OF ok] 2])
    moreover have "cm_workspace c = ws" if "res = Inr c" for c
      using create_keeps_others(2) [OF demo_db_okD(7) [OF ok] 2, of "\<lambda>c. False"] that
      by (simp add: comment_made_def)
    ultimately show ?thesis by blast
  qed simp
  then show "changes_within ws uid tasks comments db db'" "tasks db' = tasks db"
    "\<And>c. res = Inr c \<Longrightarrow> cm_workspace c = ws"
    using changes_comments_only [of ws uid comments db' db tasks] by simp_all
qed

lemma rows_orE:
  assumes "rows_or missing r = (err, db')"
  obtains n e where "r = (n, e, db')"
  using assms by (cases r) (auto simp: rows_or_def split: option.splits)

lemma task_update_within:
  assumes ok: "demo_db_ok s tasks comments" and r: "task_update s ws oid req db = (err, db')"
  shows "changes_within ws uid tasks comments db db'"
proof (cases "db' = db")
  case False
  let ?P = "\<lambda>t. tk_workspace t = ws \<and> tk_id t = oid"
  obtain u n e where u: "ta_update (st_task s) ?P u db = (n, e, db')"
    using r False by (auto simp: task_update_def task_store_update_def Let_def split: if_splits elim!: rows_orE)
  have "filter (\<lambda>t. tk_workspace t \<noteq> ws) (tasks db') = filter (\<lambda>t. tk_workspace t \<noteq> ws) (tasks db)"
    by (rule update_keeps_others [OF demo_db_okD(3) [OF ok] u]) (simp add: task_updated_def)
  moreover have "map (\<lambda>t. (tk_workspace t, tk_id t)) (tasks db') = map (\<lambda>t. (tk_workspace t, tk_id t)) (tasks db)"
  proof -
    have ids: "map (\<lambda>t. (tk_workspace t, tk_id t)) ys = map (\<lambda>t. (tk_workspace t, tk_id t)) xs"
      if "list_all2 (\<lambda>t t'. if ?P t then task_updated u t t' else t' = t) xs ys" for xs ys
      using that by (induction rule: list_all2_induct) (auto simp: task_updated_def split: if_splits)
    consider "tasks db' = tasks db"
      | "list_all2 (\<lambda>t t'. if ?P t then task_updated u t t' else t' = t) (tasks db) (tasks db')"
      using demo_db_okD(3) [OF ok] u unfolding updates_ok_def by blast
    then show ?thesis by cases (simp, erule ids)
  qed
  ultimately show ?thesis
    using table_apartD(2) [OF demo_db_okD(5) [OF ok] u]
    by (intro changes_tasks_only) (simp_all add: lost_task_ids)
qed simp

text \<open>The comments that go with a deleted task are those that lose it.\<close>

lemma cascade_lost:
  assumes "ts' = filter (\<lambda>t. \<not> (tk_workspace t = ws \<and> tk_id t = oid)) ts"
  shows "list_ex (\<lambda>t. (tk_workspace t = ws \<and> tk_id t = oid) \<and> task_of c t) ts \<longleftrightarrow> lost_task ts ts' c"
  unfolding assms lost_task_def by (auto simp: list_ex_iff task_of_def)

lemma task_delete_within:
  assumes ok: "demo_db_ok s tasks comments" and r: "task_delete s ws oid db = (err, db')"
  shows "changes_within ws uid tasks comments db db'"
proof -
  let ?P = "\<lambda>t. tk_workspace t = ws \<and> tk_id t = oid"
  obtain n e where "ta_delete (st_task s) ?P db = (n, e, db')"
    using r by (auto simp: task_delete_def task_store_delete_def elim!: rows_orE)
  then consider "tasks db' = tasks db" "comments db' = comments db"
    | "tasks db' = filter (\<lambda>t. \<not> ?P t) (tasks db)"
      "comments db' = filter (\<lambda>c. \<not> list_ex (\<lambda>t. ?P t \<and> task_of c t) (tasks db)) (comments db)"
    using demo_db_okD(4) [OF ok] unfolding cascades_ok_def by blast
  then show ?thesis
  proof cases
    case 2
    have cs: "comments db' = filter (\<lambda>c. \<not> lost_task (tasks db) (tasks db') c) (comments db)"
      unfolding 2(2) cascade_lost [OF 2(1)] ..
    have "\<not> lost_task (tasks db) (tasks db') c" if "cm_workspace c \<noteq> ws" for c
      using that cascade_lost [OF 2(1), of c] by (auto simp: list_ex_iff task_of_def)
    then have "filter (\<lambda>c. cm_workspace c \<noteq> ws) (comments db') = filter (\<lambda>c. cm_workspace c \<noteq> ws) (comments db)"
      unfolding cs filter_filter by (intro filter_cong) auto
    moreover have "filter (\<lambda>t. tk_workspace t \<noteq> ws) (tasks db') = filter (\<lambda>t. tk_workspace t \<noteq> ws) (tasks db)"
      unfolding 2(1) filter_filter by (intro filter_cong) auto
    moreover have "filter (foreign_comment ws uid) (comments db') =
        filter (\<lambda>c. foreign_comment ws uid c \<and> \<not> lost_task (tasks db) (tasks db') c) (comments db)"
      unfolding cs filter_filter by (intro filter_cong) auto
    ultimately show ?thesis unfolding changes_within_def by blast
  qed (rule changes_tasks_only, simp_all)
qed

lemma comment_delete_within:
  assumes ok: "demo_db_ok s tasks comments" and r: "comment_delete s ws tid oid uid db = (err, db')"
  shows "changes_within ws uid tasks comments db db'" "tasks db' = tasks db"
proof -
  obtain n e where d: "ta_delete (st_comment s)
      (\<lambda>c. cm_workspace c = ws \<and> cm_task c = tid \<and> cm_id c = oid \<and> cm_user c = uid) db = (n, e, db')"
    using r by (auto simp: comment_delete_def comment_store_delete_def elim!: rows_orE)
  show same: "tasks db' = tasks db"
    using demo_db_okD(10) [OF ok, unfolded delete_apart_def, THEN spec, THEN spec, of _ db] d
    by (metis (no_types, lifting) snd_conv)
  show "changes_within ws uid tasks comments db db'"
    by (rule changes_comments_only [OF delete_keeps_others [OF demo_db_okD(8) [OF ok] d] same])
      (simp add: foreign_comment_def)
qed

lemma demo_serve_within:
  assumes "demo_db_ok s tasks comments"
  shows "stays_within (get_workspace_id i) (get_uid i) tasks comments db (demo_serve s i rq db)"
proof -
  note within = task_list_within [OF assms] task_create_within [OF assms] task_update_within [OF assms]
    task_delete_within [OF assms] comment_list_within [OF assms] comment_create_within [OF assms]
    comment_delete_within [OF assms]
  show ?thesis
  proof (cases rq)
    case (ListTasks page psize)
    show ?thesis
      unfolding ListTasks demo_serve.simps task_api_list_def
      by (intro stays_within_checked)
        (auto simp: stays_within_def require_workspace_def within(1) split: sum.splits if_splits)
  next
    case (CreateTask body)
    show ?thesis
      unfolding CreateTask demo_serve.simps task_api_create_def
      by (intro stays_within_checked)
        (auto simp: stays_within_def require_workspace_def within(2,3) split: sum.splits if_splits prod.splits)
  next
    case (UpdateTask oid body)
    show ?thesis
      unfolding UpdateTask demo_serve.simps task_api_update_def
      by (intro stays_within_checked)
        (auto simp: stays_within_def require_workspace_def dest!: within(4) split: option.splits if_splits prod.splits)
  next
    case (DeleteTask oid)
    show ?thesis
      unfolding DeleteTask demo_serve.simps task_api_delete_def
      by (intro stays_within_checked)
        (auto simp: stays_within_def require_workspace_def dest!: within(5) split: option.splits if_splits prod.splits)
  next
    case (ListComments tid page psize)
    show ?thesis
      unfolding ListComments demo_serve.simps comment_api_list_def
      by (intro stays_within_checked)
        (auto simp: stays_within_def require_workspace_def within(6) split: sum.splits if_splits)
  next
    case (CreateComment tid body)
    show ?thesis
      unfolding CreateComment demo_serve.simps comment_api_create_def
      by (intro stays_within_checked)
        (auto simp: stays_within_def require_workspace_def within(7,9) split: sum.splits if_splits prod.splits)
  next
    case (DeleteComment tid oid)
    show ?thesis
      unfolding DeleteComment demo_serve.simps comment_api_delete_def
      by (intro stays_within_checked)
        (auto simp: stays_within_def require_workspace_def dest!: within(10) split: option.splits if_splits prod.splits)
  qed
qed

text \<open>A request behind the JWT middleware of the router's group.\<close>

definition demo_entry ::
  "('ip, 'net) net_lib \<Rightarrow> jwt_parse \<Rightarrow> jwt_mid_config \<Rightarrow> 'db stores \<Rightarrow> auth_request \<Rightarrow> demo_request \<Rightarrow>
    'db demo_handler" where
  "demo_entry lib parse cfg s req rq db =
    (case jwt_middleware lib parse cfg req of
       AuthRejected r \<Rightarrow> (Plain r, db)
     | AuthNext i ctx \<Rightarrow> demo_serve s i rq db)"

lemma no_workspace_refused:
  "get_workspace_id i \<le> 0 \<Longrightarrow>
    demo_serve s i rq db = (Plain (fail_status 403 code_forbidden msg_no_workspace), db)"
  by (cases rq) (simp_all add: task_api_list_def task_api_create_def task_api_update_def
    task_api_delete_def comment_api_list_def comment_api_create_def comment_api_delete_def
    require_workspace_def checked_def)

text \<open>
  C6. Workspaces are kept apart: a request that is not authenticated, or whose identity has no
  workspace, is refused with 401 or 403 and changes nothing. Any other request shows only tasks and
  comments of the caller's workspace, leaves the tasks and comments of every other workspace as they
  are, and in its own leaves every comment of another user as it is, unless the task of the comment
  goes, which takes its comments with it; also when a statement of the database fails.
\<close>

theorem demo_workspaces_apart:
  assumes "demo_db_ok s tasks comments" and "demo_entry lib parse cfg s req rq db = (a, db')"
  shows "(\<exists>r. a = Plain r \<and> rep_status r \<in> {401, 403} \<and> db' = db) \<or>
    (\<exists>i ctx. (jwt_middleware lib parse cfg req :: unit auth_result) = AuthNext i ctx \<and>
       0 < get_uid i \<and> 0 < get_workspace_id i \<and>
       stays_within (get_workspace_id i) (get_uid i) tasks comments db (a, db'))"
proof (cases "jwt_middleware lib parse cfg req :: unit auth_result")
  case (AuthRejected r)
  then show ?thesis
    using assms(2) jwt_rejects_401 [OF AuthRejected] by (auto simp: demo_entry_def)
next
  case (AuthNext i ctx)
  then have r: "demo_serve s i rq db = (a, db')"
    using assms(2) by (simp add: demo_entry_def)
  show ?thesis
  proof (cases "get_workspace_id i \<le> 0")
    case True
    then show ?thesis
      using r no_workspace_refused [OF True, of s rq db] by (auto simp: fail_status_def)
  next
    case False
    then show ?thesis
      using AuthNext demo_serve_within [OF assms(1), of i db rq] r jwt_next_uid [OF AuthNext]
      by (auto simp: not_le)
  qed
qed

subsection \<open>The tasks as a map\<close>

text \<open>
  The abstract view: under each workspace and identifier at most one title and status. What a
  request should do to it depends on the request and, for a new task, on the identifier answered.
\<close>

type_synonym task_map = "int \<times> int \<Rightarrow> (string \<times> int) option"

definition task_view :: "task list \<Rightarrow> task_map" where
  "task_view ts k =
    map_option (\<lambda>t. (tk_title t, tk_status t)) (List.find (\<lambda>t. (tk_workspace t, tk_id t) = k) ts)"



definition answer_status :: "demo_answer \<Rightarrow> int" where
  "answer_status a =
    (case a of Plain r \<Rightarrow> rep_status r | OneTask r \<Rightarrow> rep_status r | TaskPage r \<Rightarrow> rep_status r
     | OneComment r \<Rightarrow> rep_status r | CommentPage r \<Rightarrow> rep_status r)"

lemma task_view_Nil [simp]: "task_view [] = Map.empty"
  by (rule ext) (simp add: task_view_def)

lemma task_view_Cons [simp]:
  "task_view (t # ts) = (task_view ts)((tk_workspace t, tk_id t) \<mapsto> (tk_title t, tk_status t))"
  by (rule ext) (simp add: task_view_def)








lemma answer_status_simps [simp]:
  "answer_status (Plain r0) = rep_status r0" "answer_status (OneTask r1) = rep_status r1"
  "answer_status (TaskPage r2) = rep_status r2" "answer_status (OneComment r3) = rep_status r3"
  "answer_status (CommentPage r4) = rep_status r4"
  by (simp_all add: answer_status_def)

lemma refusals_not_ok [simp]:
  "require_workspace i = Inl r \<Longrightarrow> rep_status r \<noteq> 200"
  "parse_positive_id txt = Inl r \<Longrightarrow> rep_status r \<noteq> 200"
  "parse_pagination page psize = Inl r \<Longrightarrow> rep_status r \<noteq> 200"
  "bound_body b = Inl r \<Longrightarrow> rep_status r \<noteq> 200"
  "rep_status (task_failure e) \<noteq> 200" "rep_status (failure_for target msg e) \<noteq> 200"
  "rep_status db_failure \<noteq> 200"
  by (auto simp: require_workspace_def parse_positive_id_def parse_pagination_def bound_body_def
      resp_error_def fail_status_def task_failure_def failure_for_def db_failure_def Let_def
      split: if_splits prod.splits sum.splits)



lemma rows_or_None:
  "rows_or missing r = (None, db') \<Longrightarrow> \<exists>n. r = (n, None, db') \<and> n \<noteq> 0"
  by (cases r) (auto simp: rows_or_def split: option.splits if_splits)









text \<open>An update that names no field succeeds for any identifier, also of a task that does not exist.\<close>

lemma empty_update_succeeds:
  assumes "0 < get_workspace_id i" and "parse_positive_id id_text = Inr oid"
  shows "demo_serve s i (UpdateTask id_text (Inr \<lparr>ut_title = [], ut_status = None\<rparr>)) db = (Plain (resp_ok []), db)"
  using assms by (simp add: task_api_update_def require_workspace_def checked_def bound_body_def task_update_def)

text \<open>Deleting a task deletes its comments, those of other users too, and no others.\<close>

lemma task_delete_takes_comments:
  assumes "demo_db_ok s tasks comments" and "task_delete s ws oid db = (None, db')"
  shows "comments db' = filter (\<lambda>c. \<not> lost_task (tasks db) (tasks db') c) (comments db)"
proof -
  let ?P = "\<lambda>t. tk_workspace t = ws \<and> tk_id t = oid"
  obtain n where "ta_delete (st_task s) ?P db = (n, None, db')"
    using rows_or_None [OF assms(2) [unfolded task_delete_def task_store_delete_def]] by blast
  then have ts: "tasks db' = filter (\<lambda>t. \<not> ?P t) (tasks db)"
    and cs: "comments db' = filter (\<lambda>c. \<not> list_ex (\<lambda>t. ?P t \<and> task_of c t) (tasks db)) (comments db)"
    using demo_db_okD(4) [OF assms(1)] unfolding cascades_ok_def by blast+
  show ?thesis unfolding cs cascade_lost [OF ts] ..
qed

subsection \<open>A database in memory\<close>

text \<open>Two lists of rows that behave as documented: the laws above can hold.\<close>

definition mem_reads :: "('r \<Rightarrow> int) \<Rightarrow> ('db \<Rightarrow> 'r list) \<Rightarrow> ('r list \<Rightarrow> 'db \<Rightarrow> 'db) \<Rightarrow>
    (int \<Rightarrow> 'r \<Rightarrow> 'r) \<Rightarrow> ('u \<Rightarrow> 'r \<Rightarrow> 'r) \<Rightarrow> ('r, 'u, 'db) table_api" where
  "mem_reads key rows put set_key upd =
    \<lparr>ta_first = (\<lambda>P db. case List.find P (rows db) of
        Some r \<Rightarrow> Inr r | None \<Rightarrow> Inl (Sentinel ''record not found'')),
     ta_count = (\<lambda>P db. Inr (int (length (filter P (rows db))))),
     ta_find = (\<lambda>desc off lmt P db. Inr (take (nat lmt) (drop (nat off)
        (sort_key (\<lambda>r. if desc then - key r else key r) (filter P (rows db)))))),
     ta_create = (\<lambda>r db. let r = set_key (1 + foldr (\<lambda>r n. max (key r) n) (rows db) 0) r
        in (Inr r, put (rows db @ [r]) db)),
     ta_update = (\<lambda>P u db. (int (length (filter P (rows db))), None,
        put (map (\<lambda>r. if P r then upd u r else r) (rows db)) db)),
     ta_delete = (\<lambda>P db. (int (length (filter P (rows db))), None,
        put (filter (\<lambda>r. \<not> P r) (rows db)) db))\<rparr>"

lemma mem_fresh: "r \<in> set rs \<Longrightarrow> key r \<le> foldr (\<lambda>r n. max (key r) n) rs (0 :: int)"
  by (induction rs) auto

lemma mem_table_ok:
  assumes "\<And>rs db. rows (put rs db) = rs" and "\<And>n r. key (set_key n r) = n"
  shows "reads_ok (mem_reads key rows put set_key upd) rows key"
    "(\<And>n r. made r (set_key n r)) \<Longrightarrow> creates_ok (mem_reads key rows put set_key upd) rows key made"
    "(\<And>u r. updated u r (upd u r)) \<Longrightarrow> updates_ok (mem_reads key rows put set_key upd) rows updated"
    "deletes_ok (mem_reads key rows put set_key upd) rows"
    "(\<And>rs db. others (put rs db) = others db) \<Longrightarrow> table_apart (mem_reads key rows put set_key upd) others"
    "(\<And>rs db. others (put rs db) = others db) \<Longrightarrow> delete_apart (mem_reads key rows put set_key upd) others"
proof -
  have new: "1 + foldr (\<lambda>r n. max (key r) n) rs 0 \<notin> key ` set rs" for rs
    using mem_fresh [of _ rs key] by fastforce
  have found: "List.find P xs = Some r \<Longrightarrow> r \<in> set xs \<and> P r" for P and xs :: "'a list" and r
    by (auto simp: find_Some_iff)
  show "reads_ok (mem_reads key rows put set_key upd) rows key"
    by (auto simp: reads_ok_def mem_reads_def found find_None_iff filter_empty_conv split: option.splits)
  show "creates_ok (mem_reads key rows put set_key upd) rows key made" if "\<And>n r. made r (set_key n r)"
    using that new by (auto simp: creates_ok_def mem_reads_def assms Let_def)
  show "updates_ok (mem_reads key rows put set_key upd) rows updated" if "\<And>u r. updated u r (upd u r)"
    using that by (auto simp: updates_ok_def mem_reads_def assms list_all2_map2 list_all2_same)
  show "deletes_ok (mem_reads key rows put set_key upd) rows"
    by (auto simp: deletes_ok_def mem_reads_def assms)
  show "table_apart (mem_reads key rows put set_key upd) others" if "\<And>rs db. others (put rs db) = others db"
    using that by (auto simp: table_apart_def mem_reads_def Let_def)
  show "delete_apart (mem_reads key rows put set_key upd) others" if "\<And>rs db. others (put rs db) = others db"
    using that by (auto simp: delete_apart_def mem_reads_def)
qed

definition mem_stores :: "(task list \<times> task_comment list) stores" where
  "mem_stores = \<lparr>
    st_task = mem_reads tk_id fst (\<lambda>ts db. (ts, snd db)) (\<lambda>n t. t\<lparr>tk_id := n\<rparr>)
      (\<lambda>u t. t\<lparr>tk_title := (case up_title u of Some s \<Rightarrow> s | None \<Rightarrow> tk_title t),
               tk_status := (case up_status u of Some n \<Rightarrow> n | None \<Rightarrow> tk_status t)\<rparr>)
      \<lparr>ta_delete := (\<lambda>P db. (int (length (filter P (fst db))), None,
        (filter (\<lambda>t. \<not> P t) (fst db), filter (\<lambda>c. \<not> list_ex (\<lambda>t. P t \<and> task_of c t) (fst db)) (snd db))))\<rparr>,
    st_comment = mem_reads cm_id snd (\<lambda>cs db. (fst db, cs)) (\<lambda>n c. c\<lparr>cm_id := n\<rparr>) (\<lambda>u c. c)\<rparr>"

lemma mem_stores_ok: "demo_db_ok mem_stores fst snd"
  unfolding demo_db_ok_def
proof (intro conjI)
  have delete_only: "reads_ok (t\<lparr>ta_delete := d\<rparr>) rows key = reads_ok t rows key"
    "creates_ok (t\<lparr>ta_delete := d\<rparr>) rows key made = creates_ok t rows key made"
    "updates_ok (t\<lparr>ta_delete := d\<rparr>) rows upd = updates_ok t rows upd"
    "table_apart (t\<lparr>ta_delete := d\<rparr>) others = table_apart t others" for t :: "('r, 'u, 'db) table_api" and d rows key made upd
      and others :: "'db \<Rightarrow> 'x list"
    by (simp_all add: reads_ok_def creates_ok_def updates_ok_def table_apart_def)
  show "reads_ok (st_task mem_stores) fst tk_id" "creates_ok (st_task mem_stores) fst tk_id task_made"
    "updates_ok (st_task mem_stores) fst task_updated" "table_apart (st_task mem_stores) snd"
    by (simp_all add: mem_stores_def delete_only mem_table_ok task_made_def task_updated_def)
  show "cascades_ok (st_task mem_stores) fst snd"
    by (auto simp: cascades_ok_def mem_stores_def)
qed (simp_all add: mem_stores_def mem_table_ok comment_made_def)

definition demo_rows :: "task list \<times> task_comment list" where
  "demo_rows =
    ([\<lparr>tk_id = 1, tk_workspace = 4, tk_title = ''theirs'', tk_status = 1, tk_created = 0, tk_updated = 0\<rparr>,
      \<lparr>tk_id = 2, tk_workspace = 3, tk_title = ''ours'', tk_status = 1, tk_created = 0, tk_updated = 0\<rparr>], [])"

definition demo_claims :: claims where
  "demo_claims k = (if k = ''uid'' then Some (ClaimInt64 7) else if k = ''workspace_id'' then Some (ClaimInt64 3) else None)"

definition demo_bearer :: auth_request where
  "demo_bearer = demo_auth_request (\<lambda>h. if h = ''Authorization'' then ''Bearer t'' else [])"

definition demo_caller :: identity where
  "demo_caller = no_identity\<lparr>id_uid := Some 7, id_workspace := Some 3\<rparr>"

lemma demo_id_parses [simp]: "parse_int ''1'' = (1, None)" "parse_int ''2'' = (2, None)"
  by (simp_all add: parse_int_def parse_uint_def signed_range_def is_digit_def digit_val_def less_eq_char_def)

lemmas demo_run = task_api_delete_def checked_def require_workspace_def parse_positive_id_def
  task_delete_def task_store_delete_def rows_or_def mem_stores_def mem_reads_def demo_rows_def

lemma demo_bearer_admitted:
  "jwt_middleware demo_net (\<lambda>op s t. Some demo_claims) (demo_jwt_config False) demo_bearer =
    AuthNext demo_caller (attach_identity_metadata demo_caller empty_ctx)"
proof -
  have "Go_Strings.fields ''Bearer t'' = [''Bearer'', ''t'']" "equal_fold ''Bearer'' ''Bearer''"
    by code_simp+
  then show ?thesis
    by (simp add: jwt_middleware_def header_identity_def bearer_parts_def demo_bearer_def demo_jwt_config_def
        demo_auth_request_def claims_identity_def demo_claims_def claim_int64_def claim_int64_value_def
        claim_int64_slice_def claim_string_slice_def
        set_optional_claim_context_def demo_caller_def no_identity_def max_int64_def Let_def)
qed

lemma demo_delete_foreign:
  "answer_status (fst (demo_entry demo_net (\<lambda>op s t. Some demo_claims) (demo_jwt_config False) mem_stores demo_bearer
     (DeleteTask ''1'') demo_rows)) = 404"
  by (simp add: demo_entry_def demo_bearer_admitted demo_run get_workspace_id_def demo_caller_def task_failure_def
      failure_for_def fail_status_def)

theorem demo_workspaces_apart_witness:
  "\<exists>i. 0 < get_workspace_id i \<and>
    stays_within (get_workspace_id i) (get_uid i) fst snd demo_rows
      (demo_entry demo_net (\<lambda>op s t. Some demo_claims) (demo_jwt_config False) mem_stores demo_bearer
        (DeleteTask ''1'') demo_rows)"
  using demo_workspaces_apart [OF mem_stores_ok prod.collapse [symmetric],
      of demo_net "\<lambda>op s t. Some demo_claims" "demo_jwt_config False" demo_bearer "DeleteTask ''1''" demo_rows]
    demo_delete_foreign
  by auto


subsection \<open>The routes\<close>

text \<open>
  \<open>router.Init\<close> registers the handlers in this order. The router of gin is a parameter that says
  whether registering one more route panics; as documented, the names of two path parameters in
  the same place have to agree among the routes of a method.
\<close>

definition demo_routes :: "(string \<times> string) list" where
  "demo_routes =
    [(''GET'', ''/v1/demo/tasks''), (''POST'', ''/v1/demo/tasks''), (''PUT'', ''/v1/demo/tasks/:id''),
     (''DELETE'', ''/v1/demo/tasks/:id''), (''GET'', ''/v1/demo/tasks/:task_id/comments''),
     (''POST'', ''/v1/demo/tasks/:task_id/comments''),
     (''DELETE'', ''/v1/demo/tasks/:task_id/comments/:comment_id'')]"

fun register_routes ::
  "((string \<times> string) list \<Rightarrow> string \<times> string \<Rightarrow> bool) \<Rightarrow> (string \<times> string) list \<Rightarrow>
    (string \<times> string) list \<Rightarrow> (string \<times> string) list option" where
  "register_routes panics [] regs = Some regs"
| "register_routes panics (r # rs) regs =
    (if panics regs r then None else register_routes panics rs (regs @ [r]))"

definition is_param :: "string \<Rightarrow> bool" where
  "is_param s \<longleftrightarrow> (case s of [] \<Rightarrow> False | c # _ \<Rightarrow> c = CHR '':'')"

fun segments_clash :: "string list \<Rightarrow> string list \<Rightarrow> bool" where
  "segments_clash (a # as) (b # bs) = (if a = b then segments_clash as bs else is_param a \<and> is_param b)"
| "segments_clash as bs = False"

definition wildcard_clash :: "string \<Rightarrow> string \<Rightarrow> bool" where
  "wildcard_clash p q = segments_clash (split_on (CHR ''/'') p) (split_on (CHR ''/'') q)"

definition gin_router :: "((string \<times> string) list \<Rightarrow> string \<times> string \<Rightarrow> bool) \<Rightarrow> bool" where
  "gin_router panics \<longleftrightarrow>
    (\<forall>regs m p q. (m, p) \<in> set regs \<longrightarrow> wildcard_clash p q \<longrightarrow> panics regs (m, q))"

definition router_init ::
  "((string \<times> string) list \<Rightarrow> string \<times> string \<Rightarrow> bool) \<Rightarrow> (string \<times> string) list \<Rightarrow> (string \<times> string) list option" where
  "router_init panics regs = register_routes panics demo_routes regs"

text \<open>
  The example service cannot start: the deletion of a task names its path parameter \<open>:id\<close> and the
  deletion of a comment names the one in the same place \<open>:task_id\<close>, so registering the routes
  panics, whatever routes there were before.
\<close>

theorem router_init_panics:
  assumes "gin_router panics"
  shows "router_init panics regs = None"
proof -
  have "wildcard_clash ''/v1/demo/tasks/:id'' ''/v1/demo/tasks/:task_id/comments/:comment_id''"
    by code_simp
  moreover have "(''DELETE'', ''/v1/demo/tasks/:id'') \<in> set (regs @ butlast demo_routes)"
    by (simp add: demo_routes_def)
  ultimately have "panics (regs @ butlast demo_routes) (''DELETE'', ''/v1/demo/tasks/:task_id/comments/:comment_id'')"
    using assms unfolding gin_router_def by blast
  then show ?thesis
    by (simp add: router_init_def demo_routes_def)
qed

theorem router_init_panics_witness:
  "router_init (\<lambda>regs (m, q). list_ex (\<lambda>(m', p). m' = m \<and> wildcard_clash p q) regs)
    [(''GET'', ''/health''), (''GET'', ''/ready''), (''GET'', ''/metrics'')] = None"
  by (rule router_init_panics) (auto simp: gin_router_def list_ex_iff)

end
