(* ===== verification/Grpc_Server.thy ===== *)
theory Grpc_Server
  imports Grpc_Policy Metrics Request_Metadata
begin

text \<open>
  The interceptors of a gRPC server and client as functions around a call, and the chains
  \<open>boot.New\<close> (\<open>boot/app.go\<close>) and the dialer (\<open>grpcx/dial.go\<close>) build from them: trace, recovery,
  deadline, limit on calls, access log and metrics (\<open>mid/grpc.go\<close>, \<open>mid/grpc_policy.go\<close>,
  \<open>mid/grpc_client.go\<close>, \<open>metrics/metrics.go\<close>), for unary calls and for streams. The text of a
  status code is a parameter, \<open>code_text\<close>.
\<close>

subsection \<open>Calls\<close>

record grpc_ctx =
  gc_meta :: meta_ctx
  gc_incoming :: "grpc_md option"
  gc_deadline :: "instant option"

record grpc_server_state =
  gs_limiter :: "limiter option"
  gs_log :: "(string \<times> string \<times> string) list"
  gs_metrics :: metrics

type_synonym 'r grpc_call = "grpc_ctx \<Rightarrow> grpc_server_state \<Rightarrow> 'r outcome \<times> grpc_server_state"

text \<open>A server stream; a wrapped one answers \<open>Context()\<close> with another context.\<close>

record 'st server_stream =
  ss_ctx :: grpc_ctx
  ss_inner :: 'st

type_synonym 'st stream_call = "'st server_stream \<Rightarrow> grpc_server_state \<Rightarrow> unit outcome \<times> grpc_server_state"

definition wrapped_stream :: "'st server_stream \<Rightarrow> grpc_ctx \<Rightarrow> 'st server_stream" where
  "wrapped_stream stream ctx = stream\<lparr>ss_ctx := ctx\<rparr>"

subsection \<open>Unary interceptors\<close>

definition trace_unary :: "string \<Rightarrow> 'r grpc_call \<Rightarrow> 'r grpc_call" where
  "trace_unary fresh handler ctx =
    handler (ctx\<lparr>gc_meta := extract_trace_from_md (gc_meta ctx) (gc_incoming ctx) fresh\<rparr>)"

definition recovery_unary :: "'r grpc_call \<Rightarrow> 'r grpc_call" where
  "recovery_unary handler ctx s = (case handler ctx s of (res, s) \<Rightarrow> (grpc_recovery res, s))"

definition timeout_unary :: "duration \<Rightarrow> instant \<Rightarrow> 'r grpc_call \<Rightarrow> 'r grpc_call" where
  "timeout_unary timeout now handler ctx =
    (if timeout \<le> 0 then handler ctx
     else (case gc_deadline ctx of
         Some d \<Rightarrow> handler ctx
       | None \<Rightarrow> handler (ctx\<lparr>gc_deadline := Some (now + timeout)\<rparr>)))"

definition auth_unary ::
  "(grpc_ctx \<Rightarrow> string \<Rightarrow> grpc_ctx \<times> goerr option) option \<Rightarrow> string \<Rightarrow> 'r grpc_call \<Rightarrow> 'r grpc_call" where
  "auth_unary auth full_method handler ctx s =
    (case auth of
       None \<Rightarrow> handler ctx s
     | Some auth \<Rightarrow>
        (case auth ctx full_method of
           (enriched, Some err) \<Rightarrow> (Returned None (Some unauthenticated), s)
         | (enriched, None) \<Rightarrow> handler enriched s))"

text \<open>The slot comes back in a deferred function, also after a panic.\<close>

definition limit_unary :: "'r grpc_call \<Rightarrow> 'r grpc_call" where
  "limit_unary handler ctx s =
    (case limiter_enter (gs_limiter s) of
       (Inl err, l) \<Rightarrow> (Returned None (Some err), s\<lparr>gs_limiter := l\<rparr>)
     | (Inr _, l) \<Rightarrow>
        (case handler ctx (s\<lparr>gs_limiter := l\<rparr>) of
           (res, s) \<Rightarrow> (res, s\<lparr>gs_limiter := limiter_leave (gs_limiter s)\<rparr>)))"

definition access_log_unary :: "(goerr option \<Rightarrow> string) \<Rightarrow> string \<Rightarrow> 'r grpc_call \<Rightarrow> 'r grpc_call" where
  "access_log_unary code_text full_method handler ctx s =
    (case handler ctx s of
       (Panicked, s) \<Rightarrow> (Panicked, s)
     | (Returned r err, s) \<Rightarrow>
         (Returned r err, s\<lparr>gs_log := gs_log s @ [(full_method, code_text err, mx_log_trace (gc_meta ctx))]\<rparr>))"

definition metrics_unary :: "(goerr option \<Rightarrow> string) \<Rightarrow> string \<Rightarrow> duration \<Rightarrow> 'r grpc_call \<Rightarrow> 'r grpc_call" where
  "metrics_unary code_text full_method d handler ctx s =
    (case handler ctx s of
       (Panicked, s) \<Rightarrow> (Panicked, s)
     | (Returned r err, s) \<Rightarrow>
         (Returned r err, s\<lparr>gs_metrics := grpc_observed full_method (code_text err) d (gs_metrics s)\<rparr>))"

subsection \<open>Stream interceptors\<close>

definition trace_stream :: "string \<Rightarrow> 'st stream_call \<Rightarrow> 'st stream_call" where
  "trace_stream fresh handler stream =
    (let ctx = ss_ctx stream
     in handler (wrapped_stream stream
          (ctx\<lparr>gc_meta := extract_trace_from_md (gc_meta ctx) (gc_incoming ctx) fresh\<rparr>)))"

definition recovery_stream :: "'st stream_call \<Rightarrow> 'st stream_call" where
  "recovery_stream handler stream s = (case handler stream s of (res, s) \<Rightarrow> (grpc_recovery res, s))"

definition timeout_stream :: "duration \<Rightarrow> instant \<Rightarrow> 'st stream_call \<Rightarrow> 'st stream_call" where
  "timeout_stream timeout now handler stream =
    (if timeout \<le> 0 then handler stream
     else (case gc_deadline (ss_ctx stream) of
         Some d \<Rightarrow> handler stream
       | None \<Rightarrow> handler (wrapped_stream stream ((ss_ctx stream)\<lparr>gc_deadline := Some (now + timeout)\<rparr>))))"

definition auth_stream ::
  "(grpc_ctx \<Rightarrow> string \<Rightarrow> grpc_ctx \<times> goerr option) option \<Rightarrow> string \<Rightarrow> 'st stream_call \<Rightarrow> 'st stream_call" where
  "auth_stream auth full_method handler stream s =
    (case auth of
       None \<Rightarrow> handler stream s
     | Some auth \<Rightarrow>
        (case auth (ss_ctx stream) full_method of
           (enriched, Some err) \<Rightarrow> (Returned None (Some unauthenticated), s)
         | (enriched, None) \<Rightarrow> handler (wrapped_stream stream enriched) s))"

definition limit_stream :: "'st stream_call \<Rightarrow> 'st stream_call" where
  "limit_stream handler stream s =
    (case limiter_enter (gs_limiter s) of
       (Inl err, l) \<Rightarrow> (Returned None (Some err), s\<lparr>gs_limiter := l\<rparr>)
     | (Inr _, l) \<Rightarrow>
        (case handler stream (s\<lparr>gs_limiter := l\<rparr>) of
           (res, s) \<Rightarrow> (res, s\<lparr>gs_limiter := limiter_leave (gs_limiter s)\<rparr>)))"

definition metrics_stream :: "(goerr option \<Rightarrow> string) \<Rightarrow> string \<Rightarrow> duration \<Rightarrow> 'st stream_call \<Rightarrow> 'st stream_call" where
  "metrics_stream code_text full_method d handler stream s =
    (case handler stream s of
       (Panicked, s) \<Rightarrow> (Panicked, s)
     | (Returned r err, s) \<Rightarrow>
         (Returned r err, s\<lparr>gs_metrics := grpc_observed full_method (code_text err) d (gs_metrics s)\<rparr>))"

subsection \<open>The chains\<close>

text \<open>\<open>ChainUnaryInterceptor\<close> runs the first interceptor outermost.\<close>

definition chain_around :: "('c \<Rightarrow> 'c) list \<Rightarrow> 'c \<Rightarrow> 'c" where
  "chain_around interceptors handler = foldr (\<lambda>f k. f k) interceptors handler"

record call_setting =
  ct_code_text :: "goerr option \<Rightarrow> string"
  ct_full_method :: string
  ct_fresh :: string
  ct_timeout :: duration
  ct_now :: instant
  ct_took :: duration

definition unary_interceptors :: "call_setting \<Rightarrow> ('r grpc_call \<Rightarrow> 'r grpc_call) list" where
  "unary_interceptors c =
    [trace_unary (ct_fresh c), recovery_unary, timeout_unary (ct_timeout c) (ct_now c), limit_unary,
     access_log_unary (ct_code_text c) (ct_full_method c),
     metrics_unary (ct_code_text c) (ct_full_method c) (ct_took c)]"

definition stream_interceptors :: "call_setting \<Rightarrow> ('st stream_call \<Rightarrow> 'st stream_call) list" where
  "stream_interceptors c =
    [trace_stream (ct_fresh c), recovery_stream, timeout_stream (ct_timeout c) (ct_now c), limit_stream,
     metrics_stream (ct_code_text c) (ct_full_method c) (ct_took c)]"

definition serve_unary :: "call_setting \<Rightarrow> 'r grpc_call \<Rightarrow> 'r grpc_call" where
  "serve_unary c = chain_around (unary_interceptors c)"

definition serve_stream :: "call_setting \<Rightarrow> 'st stream_call \<Rightarrow> 'st stream_call" where
  "serve_stream c = chain_around (stream_interceptors c)"

subsection \<open>What the chain does\<close>

definition called_with :: "call_setting \<Rightarrow> grpc_ctx \<Rightarrow> grpc_ctx" where
  "called_with c ctx =
    ctx\<lparr>gc_meta := extract_trace_from_md (gc_meta ctx) (gc_incoming ctx) (ct_fresh c),
        gc_deadline := effective_deadline (ct_timeout c) (ct_now c) (gc_deadline ctx)\<rparr>"

lemma timeout_unary_deadline:
  "timeout_unary timeout now handler ctx =
    handler (ctx\<lparr>gc_deadline := effective_deadline timeout now (gc_deadline ctx)\<rparr>)"
  by (cases ctx) (simp add: timeout_unary_def effective_deadline_def split: option.split)

lemma timeout_stream_deadline:
  "timeout_stream timeout now handler stream =
    handler (wrapped_stream stream ((ss_ctx stream)\<lparr>gc_deadline :=
      effective_deadline timeout now (gc_deadline (ss_ctx stream))\<rparr>))"
  by (cases stream; cases "ss_ctx stream")
    (auto simp: timeout_stream_def effective_deadline_def wrapped_stream_def split: option.split)

text \<open>A handler that leaves the limiter and the records to the interceptors.\<close>

definition plain_handler :: "(grpc_ctx \<Rightarrow> 'r outcome) \<Rightarrow> 'r grpc_call" where
  "plain_handler f ctx s = (f ctx, s)"

text \<open>
  C8. What the server makes of a unary call. A call over the limit is refused with
  \<open>ResourceExhausted\<close> and the handler does not run. Any other call runs once, under the caller's
  deadline or, without one, the configured timeout, and under the trace of its metadata or a fresh
  one; a panic becomes \<open>Internal\<close> and never leaves the chain; the slot is free again either way.
  Only a call that returned is in the access log and the metrics: the recovery is outside both and
  so is the limit, so refused calls and panics are in neither.
\<close>

theorem grpc_server_answers:
  assumes "serve_unary c (plain_handler f) ctx s = (res, s')"
  shows "gs_limiter s' = gs_limiter s \<and>
    (case limiter_enter (gs_limiter s) of
       (Inl err, _) \<Rightarrow> res = Returned None (Some server_busy) \<and> s' = s
     | (Inr _, _) \<Rightarrow>
        (case f (called_with c ctx) of
           Panicked \<Rightarrow> res = Returned None (Some (StatusErr GrpcInternal ''internal server error'')) \<and> s' = s
         | Returned r err \<Rightarrow>
             res = Returned r err \<and>
             s' = s\<lparr>gs_metrics := grpc_observed (ct_full_method c) (ct_code_text c err) (ct_took c) (gs_metrics s),
                    gs_log := gs_log s @ [(ct_full_method c, ct_code_text c err,
                       mx_log_trace (gc_meta (called_with c ctx)))]\<rparr>))"
proof -
  have enter: "l' = l" if "limiter_enter l = (Inl err, l')" for l l' err
    using that by (auto simp: limiter_enter_def split: option.splits if_splits)
  have busy: "err = server_busy" if "limiter_enter l = (Inl err, l')" for l l' err
    using that by (auto simp: limiter_enter_def split: option.splits if_splits)
  have leave: "limiter_leave l' = l" if "limiter_enter l = (Inr u, l')" for l l' u
    using that by (auto simp: limiter_enter_def limiter_leave_def split: option.splits if_splits)
  have ctx: "called_with c ctx = (ctx\<lparr>gc_meta := extract_trace_from_md (gc_meta ctx) (gc_incoming ctx) (ct_fresh c)\<rparr>)
      \<lparr>gc_deadline := effective_deadline (ct_timeout c) (ct_now c) (gc_deadline ctx)\<rparr>"
    by (simp add: called_with_def)
  note run = serve_unary_def chain_around_def unary_interceptors_def trace_unary_def recovery_unary_def
    timeout_unary_deadline limit_unary_def access_log_unary_def metrics_unary_def plain_handler_def
  show ?thesis
  proof (cases "limiter_enter (gs_limiter s)")
    case (Pair a l)
    show ?thesis
    proof (cases a)
      case (Inl err)
      then show ?thesis
        using assms Pair enter busy by (auto simp: run grpc_recovery_def)
    next
      case (Inr u)
      then have free: "limiter_leave l = gs_limiter s"
        using Pair leave by simp
      show ?thesis
      proof (cases "f (called_with c ctx)")
        case (Returned r err)
        show ?thesis
          using assms Pair Inr free by (auto simp: Returned run ctx [symmetric] grpc_recovery_def)
      next
        case Panicked
        show ?thesis
          using assms Pair Inr free by (auto simp: Panicked run ctx [symmetric] grpc_recovery_def)
      qed
    qed
  qed
qed

definition demo_call :: call_setting where
  "demo_call = \<lparr>ct_code_text = (\<lambda>e. if e = None then ''OK'' else ''Unknown''), ct_full_method = ''/s/M'',
    ct_fresh = ''t1'', ct_timeout = second, ct_now = 0, ct_took = 0\<rparr>"

definition demo_grpc_state :: grpc_server_state where
  "demo_grpc_state = \<lparr>gs_limiter = new_limiter 1, gs_log = [], gs_metrics = init_collectors\<rparr>"

definition demo_grpc_ctx :: grpc_ctx where
  "demo_grpc_ctx = \<lparr>gc_meta = empty_ctx, gc_incoming = None, gc_deadline = None\<rparr>"

theorem grpc_server_answers_witness:
  "snd (serve_unary demo_call (plain_handler (\<lambda>ctx. Panicked :: nat outcome)) demo_grpc_ctx demo_grpc_state) = demo_grpc_state \<and>
   length (gs_log (snd (serve_unary demo_call (plain_handler (\<lambda>ctx. Returned (Some (1 :: nat)) None))
     demo_grpc_ctx demo_grpc_state))) = 1"
  using grpc_server_answers [OF prod.collapse [symmetric], of demo_call "\<lambda>ctx. Panicked :: nat outcome" demo_grpc_ctx demo_grpc_state]
    grpc_server_answers [OF prod.collapse [symmetric], of demo_call "\<lambda>ctx. Returned (Some (1 :: nat)) None" demo_grpc_ctx demo_grpc_state]
  by (simp add: demo_grpc_state_def new_limiter_def limiter_enter_def)

text \<open>
  C25. The chain of streams is the chain of unary calls, except that it writes no access log: the same
  answers, the same context for the handler, the same metrics and limit.
\<close>

theorem stream_chain_as_unary:
  fixes h :: "'st server_stream \<Rightarrow> unit outcome"
  shows "serve_stream c (\<lambda>st s. (h st, s)) stream s =
    (case serve_unary c (plain_handler (\<lambda>ctx. h (wrapped_stream stream ctx))) (ss_ctx stream) s of
       (res, s') \<Rightarrow> (res, s'\<lparr>gs_log := gs_log s\<rparr>))"
proof -
  note unary = serve_unary_def unary_interceptors_def trace_unary_def recovery_unary_def
    timeout_unary_deadline limit_unary_def access_log_unary_def metrics_unary_def plain_handler_def
  note streams = serve_stream_def stream_interceptors_def trace_stream_def recovery_stream_def
    timeout_stream_deadline limit_stream_def metrics_stream_def wrapped_stream_def
  define run where "run = h (stream\<lparr>ss_ctx := called_with c (ss_ctx stream)\<rparr>)"
  have ctx: "h (stream\<lparr>ss_ctx := (ss_ctx stream)
      \<lparr>gc_meta := extract_trace_from_md (gc_meta (ss_ctx stream)) (gc_incoming (ss_ctx stream)) (ct_fresh c),
       gc_deadline := effective_deadline (ct_timeout c) (ct_now c) (gc_deadline (ss_ctx stream))\<rparr>\<rparr>) = run"
    by (simp add: run_def called_with_def)
  have log: "t\<lparr>gs_log := gs_log t\<rparr> = t" for t :: grpc_server_state
    by simp
  show ?thesis
  proof (cases "limiter_enter (gs_limiter s)")
    case (Pair u l)
    show ?thesis
    proof (cases u)
      case (Inl err)
      then show ?thesis
        using Pair by (simp add: chain_around_def unary streams grpc_recovery_def Let_def)
    next
      case (Inr _)
      then show ?thesis
        using Pair by (cases run) (simp_all add: chain_around_def unary streams ctx grpc_recovery_def Let_def)
    qed
  qed
qed

subsection \<open>Clients\<close>

text \<open>The context of an outgoing call, its outgoing metadata and its deadline.\<close>

record client_ctx =
  kc_meta :: meta_ctx
  kc_outgoing :: grpc_md
  kc_deadline :: "instant option"

definition set_outgoing_trace :: "client_ctx \<Rightarrow> string \<Rightarrow> client_ctx" where
  "set_outgoing_trace ctx t = ctx\<lparr>kc_outgoing := (kc_outgoing ctx)(''x-trace-id'' := [t])\<rparr>"

definition trace_client :: "(client_ctx \<Rightarrow> 'a) \<Rightarrow> client_ctx \<Rightarrow> 'a" where
  "trace_client invoker ctx =
    (let ctx = ctx\<lparr>kc_outgoing := inject_grpc (kc_meta ctx) (kc_outgoing ctx)\<rparr>;
         t = valid_trace_id (mx_log_trace (kc_meta ctx))
     in invoker (if t \<noteq> [] then set_outgoing_trace ctx t else ctx))"

definition unary_client_timeout :: "duration \<Rightarrow> instant \<Rightarrow> (client_ctx \<Rightarrow> 'a) \<Rightarrow> client_ctx \<Rightarrow> 'a" where
  "unary_client_timeout timeout now invoker ctx =
    (if timeout \<le> 0 then invoker ctx
     else (case kc_deadline ctx of
         Some d \<Rightarrow> invoker ctx
       | None \<Rightarrow> invoker (ctx\<lparr>kc_deadline := Some (now + timeout)\<rparr>)))"

definition unary_client :: "duration \<Rightarrow> instant \<Rightarrow> (client_ctx \<Rightarrow> 'a) \<Rightarrow> client_ctx \<Rightarrow> 'a" where
  "unary_client timeout now = chain_around [trace_client, unary_client_timeout timeout now]"

lemma trace_client_md:
  "trace_client invoker ctx = invoker (ctx\<lparr>kc_outgoing := grpc_client_md (kc_meta ctx) (kc_outgoing ctx)\<rparr>)"
  by (simp add: trace_client_def grpc_client_md_def set_outgoing_trace_def Let_def)

lemma unary_client_sends:
  "unary_client timeout now invoker ctx =
    invoker (ctx\<lparr>kc_outgoing := grpc_client_md (kc_meta ctx) (kc_outgoing ctx),
                 kc_deadline := effective_deadline timeout now (kc_deadline ctx)\<rparr>)"
  by (cases ctx) (simp add: unary_client_def chain_around_def trace_client_md unary_client_timeout_def
    effective_deadline_def split: option.split)

text \<open>
  A call from one service to another: \<open>carry\<close> is gRPC, which hands the metadata and the deadline of
  the client over to the server. The handler runs under the trace of the caller, and under the
  caller's deadline, the client's default timeout or the server's, in this order; so it has a
  deadline whenever any of the three is set, and a default never extends a deadline that is there.
\<close>

theorem grpc_hop_context:
  assumes "\<And>k. gc_incoming (carry k) = Some (kc_outgoing k)" and "\<And>k. gc_deadline (carry k) = kc_deadline k"
    and "mx_log_trace (kc_meta ctx) = t" and "t \<noteq> []" and "trace_ok t"
  shows "unary_client timeout now (\<lambda>k. called_with c (carry k)) ctx = seen \<Longrightarrow>
    mx_log_trace (gc_meta seen) = t \<and> mv_trace (mx_values (gc_meta seen)) = t \<and>
    gc_deadline seen =
      (case kc_deadline ctx of Some d \<Rightarrow> Some d
       | None \<Rightarrow> if 0 < timeout then Some (now + timeout)
                 else if 0 < ct_timeout c then Some (ct_now c + ct_timeout c) else None)"
proof -
  assume seen: "unary_client timeout now (\<lambda>k. called_with c (carry k)) ctx = seen"
  have v: "valid_trace_id t = t" "normalize_trace t = t"
    using assms(5) by (simp_all add: trace_valid.clean_id trace_clean.clean_id)
  then show ?thesis
    using seen assms(1-4)
    by (auto simp: unary_client_sends called_with_def grpc_client_md_def extract_trace_from_md_def
        extract_grpc_def with_meta_def no_values_def effective_deadline_def Let_def split: option.splits if_splits)
qed

theorem grpc_hop_context_witness:
  "mx_log_trace (gc_meta (unary_client second 5
      (\<lambda>k. called_with demo_call \<lparr>gc_meta = empty_ctx, gc_incoming = Some (kc_outgoing k), gc_deadline = kc_deadline k\<rparr>)
      \<lparr>kc_meta = empty_ctx\<lparr>mx_log_trace := ''u1''\<rparr>, kc_outgoing = (\<lambda>k. []), kc_deadline = None\<rparr>)) = ''u1''"
  using grpc_hop_context [of "\<lambda>k. \<lparr>gc_meta = empty_ctx, gc_incoming = Some (kc_outgoing k), gc_deadline = kc_deadline k\<rparr>"
      "\<lparr>kc_meta = empty_ctx\<lparr>mx_log_trace := ''u1''\<rparr>, kc_outgoing = (\<lambda>k. []), kc_deadline = None\<rparr>" "''u1''" second 5 demo_call,
      OF _ _ _ _ _ refl]
  by (simp add: trace_ok_def trace_char_def is_lower_def is_digit_def less_eq_char_def)

subsection \<open>Adapters\<close>

text \<open>A transport-neutral middleware names a handler for each transport it serves.\<close>

record ('h, 'u, 's) middleware_adapter =
  ma_http :: "'h option"
  ma_unary :: "'u option"
  ma_stream :: "'s option"

end
