(* ===== verification/Config_Store.thy ===== *)
theory Config_Store
  imports Go_Prelude
begin

text \<open>
  Copies of the configuration, \<open>cloneConfig\<close> of \<open>boot/config.go\<close>, and the accessors \<open>GetConfig\<close> and
  \<open>swapConfig\<close> of \<open>boot/app.go\<close>. What a copy shares with its original is a matter of pointers, so
  the configuration lives in an explicit store: slices of strings, pointers to booleans and the map
  of databases are addresses of cells, all other fields are values that an assignment copies.
\<close>

subsection \<open>The store\<close>

record db_ref =
  dr_dsn :: string
  dr_max_idle :: int
  dr_max_open :: int
  dr_max_lifetime :: int
  dr_max_idle_time :: int
  dr_slow_threshold :: int
  dr_ping_on_open :: "nat option"
  dr_prepare_stmt :: "nat option"

datatype cell =
  CellStrings "string list"
| CellBool bool
| CellDbs "(string \<times> db_ref) list"

record config_store =
  sr_cells :: "nat \<rightharpoonup> cell"
  sr_next :: nat

text \<open>The struct: the fields with references, and the rest.\<close>

record 'v config_ref =
  cr_trusted_proxies :: "nat option"
  cr_audience :: "nat option"
  cr_whitelist :: "nat option"
  cr_endpoints :: "nat option"
  cr_database :: "nat option"
  cr_plain :: 'v

definition alloc :: "cell \<Rightarrow> config_store \<Rightarrow> nat \<times> config_store" where
  "alloc v h = (sr_next h, h\<lparr>sr_cells := (sr_cells h)(sr_next h \<mapsto> v), sr_next := Suc (sr_next h)\<rparr>)"

definition strings_at :: "config_store \<Rightarrow> nat \<Rightarrow> string list" where
  "strings_at h a = (case sr_cells h a of Some (CellStrings xs) \<Rightarrow> xs | _ \<Rightarrow> [])"

definition bool_at :: "config_store \<Rightarrow> nat \<Rightarrow> bool" where
  "bool_at h a = (case sr_cells h a of Some (CellBool b) \<Rightarrow> b | _ \<Rightarrow> False)"

definition dbs_at :: "config_store \<Rightarrow> nat \<Rightarrow> (string \<times> db_ref) list" where
  "dbs_at h a = (case sr_cells h a of Some (CellDbs ds) \<Rightarrow> ds | _ \<Rightarrow> [])"

subsection \<open>Cloning\<close>

definition clone_strings :: "nat option \<Rightarrow> config_store \<Rightarrow> nat option \<times> config_store" where
  "clone_strings values h =
    (case values of
       None \<Rightarrow> (None, h)
     | Some a \<Rightarrow> (case alloc (CellStrings (strings_at h a)) h of (n, h) \<Rightarrow> (Some n, h)))"

definition clone_bool :: "nat option \<Rightarrow> config_store \<Rightarrow> nat option \<times> config_store" where
  "clone_bool v h =
    (case v of
       None \<Rightarrow> (None, h)
     | Some a \<Rightarrow> (case alloc (CellBool (bool_at h a)) h of (n, h) \<Rightarrow> (Some n, h)))"

text \<open>The loop over the map of databases, in the order of the iteration.\<close>

fun clone_dbs :: "(string \<times> db_ref) list \<Rightarrow> config_store \<Rightarrow> (string \<times> db_ref) list \<times> config_store" where
  "clone_dbs [] h = ([], h)"
| "clone_dbs ((name, db) # ds) h =
    (case clone_bool (dr_ping_on_open db) h of
       (ping, h) \<Rightarrow>
         (case clone_bool (dr_prepare_stmt db) h of
            (prep, h) \<Rightarrow>
              (case clone_dbs ds h of
                 (rest, h) \<Rightarrow> ((name, db\<lparr>dr_ping_on_open := ping, dr_prepare_stmt := prep\<rparr>) # rest, h))))"

definition clone_database :: "nat option \<Rightarrow> config_store \<Rightarrow> nat option \<times> config_store" where
  "clone_database d h =
    (case d of
       None \<Rightarrow> (None, h)
     | Some a \<Rightarrow>
        (case clone_dbs (dbs_at h a) h of
           (ds, h) \<Rightarrow> (case alloc (CellDbs ds) h of (n, h) \<Rightarrow> (Some n, h))))"

definition clone_config :: "'v config_ref option \<Rightarrow> config_store \<Rightarrow> 'v config_ref option \<times> config_store" where
  "clone_config cfg h =
    (case cfg of
       None \<Rightarrow> (None, h)
     | Some c \<Rightarrow>
        (case clone_strings (cr_trusted_proxies c) h of (tp, h) \<Rightarrow>
         case clone_strings (cr_audience c) h of (au, h) \<Rightarrow>
         case clone_strings (cr_whitelist c) h of (wl, h) \<Rightarrow>
         case clone_strings (cr_endpoints c) h of (ep, h) \<Rightarrow>
         case clone_database (cr_database c) h of (db, h) \<Rightarrow>
           (Some (c\<lparr>cr_trusted_proxies := tp, cr_audience := au, cr_whitelist := wl, cr_endpoints := ep,
              cr_database := db\<rparr>), h)))"

text \<open>The application's configuration: a pointer it hands out only as a copy, and replaces whole.\<close>

definition get_config :: "'v config_ref option \<Rightarrow> config_store \<Rightarrow> 'v config_ref option \<times> config_store" where
  "get_config app_config h = clone_config app_config h"

definition swap_config :: "'v config_ref option \<Rightarrow> 'v config_ref option \<Rightarrow> 'v config_ref option" where
  "swap_config cfg app_config = cfg"

subsection \<open>Values and addresses\<close>

text \<open>What a configuration says, free of addresses, and the addresses through which it can be changed.\<close>

definition read_bool :: "config_store \<Rightarrow> nat option \<Rightarrow> bool option" where
  "read_bool h v = map_option (bool_at h) v"

definition read_db :: "config_store \<Rightarrow> db_ref \<Rightarrow> db_ref \<times> bool option \<times> bool option" where
  "read_db h db =
    (db\<lparr>dr_ping_on_open := None, dr_prepare_stmt := None\<rparr>,
     read_bool h (dr_ping_on_open db), read_bool h (dr_prepare_stmt db))"

definition read_dbs :: "config_store \<Rightarrow> (string \<times> db_ref) list \<Rightarrow> (string \<times> db_ref \<times> bool option \<times> bool option) list" where
  "read_dbs h ds = map (\<lambda>(name, db). (name, read_db h db)) ds"

record 'v config_value =
  cv_trusted_proxies :: "string list option"
  cv_audience :: "string list option"
  cv_whitelist :: "string list option"
  cv_endpoints :: "string list option"
  cv_database :: "(string \<times> db_ref \<times> bool option \<times> bool option) list option"
  cv_plain :: 'v

definition read_config :: "config_store \<Rightarrow> 'v config_ref \<Rightarrow> 'v config_value" where
  "read_config h c =
    \<lparr>cv_trusted_proxies = map_option (strings_at h) (cr_trusted_proxies c),
     cv_audience = map_option (strings_at h) (cr_audience c),
     cv_whitelist = map_option (strings_at h) (cr_whitelist c),
     cv_endpoints = map_option (strings_at h) (cr_endpoints c),
     cv_database = map_option (\<lambda>a. read_dbs h (dbs_at h a)) (cr_database c),
     cv_plain = cr_plain c\<rparr>"

definition db_refs :: "(string \<times> db_ref) list \<Rightarrow> nat set" where
  "db_refs ds = (\<Union>(name, db)\<in>set ds. set_option (dr_ping_on_open db) \<union> set_option (dr_prepare_stmt db))"

definition database_refs :: "config_store \<Rightarrow> nat option \<Rightarrow> nat set" where
  "database_refs h d = (case d of None \<Rightarrow> {} | Some a \<Rightarrow> insert a (db_refs (dbs_at h a)))"

definition config_refs :: "config_store \<Rightarrow> 'v config_ref \<Rightarrow> nat set" where
  "config_refs h c =
    set_option (cr_trusted_proxies c) \<union> set_option (cr_audience c) \<union> set_option (cr_whitelist c) \<union>
    set_option (cr_endpoints c) \<union> database_refs h (cr_database c)"

definition agree :: "nat set \<Rightarrow> config_store \<Rightarrow> config_store \<Rightarrow> bool" where
  "agree A h h' \<longleftrightarrow> (\<forall>a\<in>A. sr_cells h' a = sr_cells h a)"

lemma agree_cells:
  assumes "agree A h h'" and "a \<in> A"
  shows "strings_at h' a = strings_at h a" "bool_at h' a = bool_at h a" "dbs_at h' a = dbs_at h a"
  using assms by (simp_all add: agree_def strings_at_def bool_at_def dbs_at_def)

lemma agree_read_strings:
  assumes "agree A h h'" and "set_option v \<subseteq> A"
  shows "map_option (strings_at h') v = map_option (strings_at h) v"
  using assms agree_cells by (cases v) auto

lemma agree_read_dbs:
  assumes "agree A h h'" and "db_refs ds \<subseteq> A"
  shows "read_dbs h' ds = read_dbs h ds"
proof -
  have b: "read_bool h' v = read_bool h v" if "set_option v \<subseteq> A" for v
    using that agree_cells(2) [OF assms(1)] by (cases v) (auto simp: read_bool_def)
  have "read_db h' db = read_db h db" if "(name, db) \<in> set ds" for name db
  proof -
    have "set_option (dr_ping_on_open db) \<union> set_option (dr_prepare_stmt db) \<subseteq> A"
      using that assms(2) unfolding db_refs_def by blast
    then show ?thesis by (simp add: read_db_def b)
  qed
  then show ?thesis
    unfolding read_dbs_def by (intro map_cong) auto
qed

lemma agree_read_database:
  assumes "agree A h h'" and "database_refs h d \<subseteq> A"
  shows "map_option (\<lambda>a. read_dbs h' (dbs_at h' a)) d = map_option (\<lambda>a. read_dbs h (dbs_at h a)) d"
    "database_refs h' d = database_refs h d"
  using assms agree_cells(3) [OF assms(1)] agree_read_dbs [OF assms(1)]
  by (auto simp: database_refs_def split: option.splits)

text \<open>A configuration says the same in every store that agrees on its addresses.\<close>

lemma agree_read_config:
  assumes "agree (config_refs h c) h h'"
  shows "read_config h' c = read_config h c" "config_refs h' c = config_refs h c"
proof -
  have sub: "set_option (cr_trusted_proxies c) \<subseteq> config_refs h c" "set_option (cr_audience c) \<subseteq> config_refs h c"
      "set_option (cr_whitelist c) \<subseteq> config_refs h c" "set_option (cr_endpoints c) \<subseteq> config_refs h c"
      "database_refs h (cr_database c) \<subseteq> config_refs h c"
    by (auto simp: config_refs_def)
  show "read_config h' c = read_config h c" "config_refs h' c = config_refs h c"
    using agree_read_strings [OF assms] agree_read_database [OF assms] sub
    by (simp_all add: read_config_def config_refs_def)
qed

subsection \<open>What a copy shares\<close>

text \<open>Allocation only adds cells.\<close>

definition grows :: "config_store \<Rightarrow> config_store \<Rightarrow> bool" where
  "grows h h' \<longleftrightarrow> sr_next h \<le> sr_next h' \<and> agree {..<sr_next h} h h'"

lemma grows_refl [simp]: "grows h h"
  by (simp add: grows_def agree_def)

lemma grows_trans [trans]: "grows h h' \<Longrightarrow> grows h' h'' \<Longrightarrow> grows h h''"
  by (fastforce simp: grows_def agree_def)

lemma grows_alloc: "alloc v h = (n, h') \<Longrightarrow> grows h h' \<and> n = sr_next h \<and> sr_next h' = Suc n \<and> sr_cells h' n = Some v"
  by (auto simp: alloc_def grows_def agree_def)

lemma alloc_reads:
  "alloc (CellStrings xs) h = (n, h') \<Longrightarrow> strings_at h' n = xs"
  "alloc (CellBool b) h = (n, h') \<Longrightarrow> bool_at h' n = b"
  "alloc (CellDbs ds) h = (n, h') \<Longrightarrow> dbs_at h' n = ds"
  by (auto simp: alloc_def strings_at_def bool_at_def dbs_at_def)

lemma agree_mono: "agree A h h' \<Longrightarrow> B \<subseteq> A \<Longrightarrow> agree B h h'"
  by (auto simp: agree_def)

lemma clone_strings_spec:
  assumes "clone_strings v h = (v', h')"
  shows "grows h h'" "map_option (strings_at h') v' = map_option (strings_at h) v"
    "set_option v' \<subseteq> {sr_next h..<sr_next h'}"
  using assms by (cases v; auto simp: clone_strings_def alloc_reads dest: grows_alloc split: prod.splits)+

lemma clone_bool_spec:
  assumes "clone_bool v h = (v', h')"
  shows "grows h h'" "read_bool h' v' = read_bool h v" "set_option v' \<subseteq> {sr_next h..<sr_next h'}"
  using assms by (cases v; auto simp: clone_bool_def read_bool_def alloc_reads dest: grows_alloc split: prod.splits)+

lemma grows_read_bool: "grows h h' \<Longrightarrow> set_option v \<subseteq> {..<sr_next h} \<Longrightarrow> read_bool h' v = read_bool h v"
  by (cases v) (auto simp: grows_def read_bool_def bool_at_def agree_def)

lemma clone_dbs_spec:
  assumes "clone_dbs ds h = (ds', h')" and "db_refs ds \<subseteq> {..<sr_next h}"
  shows "grows h h' \<and> read_dbs h' ds' = read_dbs h ds \<and> db_refs ds' \<subseteq> {sr_next h..<sr_next h'}"
  using assms
proof (induction ds h arbitrary: ds' h' rule: clone_dbs.induct)
  case (2 name db ds h)
  obtain ping h1 where c1: "clone_bool (dr_ping_on_open db) h = (ping, h1)" by fastforce
  obtain prep h2 where c2: "clone_bool (dr_prepare_stmt db) h1 = (prep, h2)" by fastforce
  obtain rest h3 where c3: "clone_dbs ds h2 = (rest, h3)" by fastforce
  have ds': "ds' = (name, db\<lparr>dr_ping_on_open := ping, dr_prepare_stmt := prep\<rparr>) # rest" "h' = h3"
    using "2.prems"(1) by (simp_all add: c1 c2 c3)
  have refs: "set_option (dr_ping_on_open db) \<subseteq> {..<sr_next h}" "set_option (dr_prepare_stmt db) \<subseteq> {..<sr_next h}"
      "db_refs ds \<subseteq> {..<sr_next h}"
    using "2.prems"(2) by (auto simp: db_refs_def)
  note s1 = clone_bool_spec [OF c1] and s2 = clone_bool_spec [OF c2]
  have n: "sr_next h \<le> sr_next h1" "sr_next h1 \<le> sr_next h2"
    using s1(1) s2(1) by (simp_all add: grows_def)
  have "db_refs ds \<subseteq> {..<sr_next h2}" using refs(3) n by force
  from "2.IH" [OF c1 [symmetric] c2 [symmetric] c3 this]
  have s3: "grows h2 h3" "read_dbs h3 rest = read_dbs h2 ds" "db_refs rest \<subseteq> {sr_next h2..<sr_next h3}"
    by blast+
  have g: "grows h h2" "grows h1 h3" "grows h h3"
    using grows_trans s1(1) s2(1) s3(1) by blast+
  have n3: "sr_next h2 \<le> sr_next h3" using s3(1) by (simp add: grows_def)
  have "read_bool h3 ping = read_bool h (dr_ping_on_open db)"
    using grows_read_bool [OF g(2), of ping] s1(2,3) by force
  moreover have "read_bool h3 prep = read_bool h (dr_prepare_stmt db)"
    using grows_read_bool [OF s3(1), of prep] s2(2,3) grows_read_bool [OF s1(1) refs(2)] by force
  moreover have "read_dbs h2 ds = read_dbs h ds"
    using agree_read_dbs g(1) refs(3) agree_mono unfolding grows_def by blast
  ultimately have "read_dbs h3 ds' = read_dbs h ((name, db) # ds)"
    using s3(2) by (simp add: ds' read_dbs_def read_db_def)
  moreover have "db_refs ds' \<subseteq> {sr_next h..<sr_next h3}"
    using s1(3) s2(3) s3(3) n n3 by (force simp: ds' db_refs_def)
  ultimately show ?case using g(3) by (simp add: ds')
qed (auto simp: read_dbs_def db_refs_def)

lemma clone_database_spec:
  assumes "clone_database d h = (d', h')" and "database_refs h d \<subseteq> {..<sr_next h}"
  shows "grows h h'" "map_option (\<lambda>a. read_dbs h' (dbs_at h' a)) d' = map_option (\<lambda>a. read_dbs h (dbs_at h a)) d"
    "database_refs h' d' \<subseteq> {sr_next h..<sr_next h'}"
proof -
  have "grows h h' \<and> map_option (\<lambda>a. read_dbs h' (dbs_at h' a)) d' = map_option (\<lambda>a. read_dbs h (dbs_at h a)) d \<and>
    database_refs h' d' \<subseteq> {sr_next h..<sr_next h'}"
  proof (cases d)
    case None
    then show ?thesis using assms(1) by (simp add: clone_database_def database_refs_def)
  next
    case (Some a)
    obtain ds h1 where c: "clone_dbs (dbs_at h a) h = (ds, h1)" by fastforce
    obtain n where al: "alloc (CellDbs ds) h1 = (n, h')" "d' = Some n"
      using assms(1) Some c by (auto simp: clone_database_def split: prod.splits)
    have s: "grows h h1" "read_dbs h1 ds = read_dbs h (dbs_at h a)" "db_refs ds \<subseteq> {sr_next h..<sr_next h1}"
      using clone_dbs_spec [OF c] assms(2) Some by (auto simp: database_refs_def)
    note g = grows_alloc [OF al(1)]
    have at: "dbs_at h' (sr_next h1) = ds" using alloc_reads(3) [OF al(1)] g by simp
    have "agree {..<sr_next h1} h1 h'" using g by (simp add: grows_def)
    then have "read_dbs h' ds = read_dbs h1 ds"
      by (rule agree_read_dbs) (use s(3) in auto)
    moreover have "sr_next h \<le> sr_next h1" using s(1) by (simp add: grows_def)
    ultimately show ?thesis
      using g s grows_trans [OF s(1)] by (auto simp: al(2) Some at database_refs_def)
  qed
  then show "grows h h'" "map_option (\<lambda>a. read_dbs h' (dbs_at h' a)) d' = map_option (\<lambda>a. read_dbs h (dbs_at h a)) d"
    "database_refs h' d' \<subseteq> {sr_next h..<sr_next h'}"
    by blast+
qed

lemma grows_read_strings:
  "grows h h' \<Longrightarrow> set_option v \<subseteq> {..<sr_next h} \<Longrightarrow> map_option (strings_at h') v = map_option (strings_at h) v"
  unfolding grows_def using agree_read_strings by blast

lemma grows_read_database:
  assumes "grows h h'" and "database_refs h d \<subseteq> {..<sr_next h}"
  shows "map_option (\<lambda>a. read_dbs h' (dbs_at h' a)) d = map_option (\<lambda>a. read_dbs h (dbs_at h a)) d"
    "database_refs h' d = database_refs h d"
  using assms agree_read_database unfolding grows_def by blast+

lemma clone_config_spec:
  assumes "clone_config (Some c) h = (Some c', h')" and "config_refs h c \<subseteq> {..<sr_next h}"
  shows "grows h h' \<and> read_config h' c' = read_config h c \<and> config_refs h' c' \<subseteq> {sr_next h..<sr_next h'}"
proof -
  obtain tp h1 where c1: "clone_strings (cr_trusted_proxies c) h = (tp, h1)" by fastforce
  obtain au h2 where c2: "clone_strings (cr_audience c) h1 = (au, h2)" by fastforce
  obtain wl h3 where c3: "clone_strings (cr_whitelist c) h2 = (wl, h3)" by fastforce
  obtain ep h4 where c4: "clone_strings (cr_endpoints c) h3 = (ep, h4)" by fastforce
  obtain db h5 where c5: "clone_database (cr_database c) h4 = (db, h5)" by fastforce
  have c': "c' = c\<lparr>cr_trusted_proxies := tp, cr_audience := au, cr_whitelist := wl, cr_endpoints := ep,
      cr_database := db\<rparr>" "h' = h5"
    using assms(1) by (simp_all add: clone_config_def c1 c2 c3 c4 c5)
  note s1 = clone_strings_spec [OF c1] and s2 = clone_strings_spec [OF c2]
    and s3 = clone_strings_spec [OF c3] and s4 = clone_strings_spec [OF c4]
  have g: "grows h h1" "grows h h2" "grows h h3" "grows h h4"
    using grows_trans s1(1) s2(1) s3(1) s4(1) by blast+
  have refs: "set_option (cr_trusted_proxies c) \<subseteq> {..<sr_next h}" "set_option (cr_audience c) \<subseteq> {..<sr_next h}"
      "set_option (cr_whitelist c) \<subseteq> {..<sr_next h}" "set_option (cr_endpoints c) \<subseteq> {..<sr_next h}"
      "database_refs h (cr_database c) \<subseteq> {..<sr_next h}"
    using assms(2) by (auto simp: config_refs_def)
  note d4 = grows_read_database [OF g(4) refs(5)]
  have "database_refs h4 (cr_database c) \<subseteq> {..<sr_next h4}"
    using refs(5) g(4) by (force simp: d4(2) grows_def)
  note s5 = clone_database_spec [OF c5 this]
  have later: "grows h1 h5" "grows h2 h5" "grows h3 h5" "grows h4 h5" "grows h h5"
    using grows_trans g(4) s2(1) s3(1) s4(1) s5(1) by blast+
  have below: "v \<in> {sr_next a..<sr_next b} \<Longrightarrow> v \<in> {..<sr_next b}" for v a b
    by simp
  have same: "map_option (strings_at h5) tp = map_option (strings_at h) (cr_trusted_proxies c)"
      "map_option (strings_at h5) au = map_option (strings_at h) (cr_audience c)"
      "map_option (strings_at h5) wl = map_option (strings_at h) (cr_whitelist c)"
      "map_option (strings_at h5) ep = map_option (strings_at h) (cr_endpoints c)"
    using grows_read_strings [OF later(1), of tp] s1(2,3) grows_read_strings [OF later(2), of au] s2(2,3)
      grows_read_strings [OF later(3), of wl] s3(2,3) grows_read_strings [OF later(4), of ep] s4(2,3)
      grows_read_strings [OF g(1) refs(2)] grows_read_strings [OF g(2) refs(3)] grows_read_strings [OF g(3) refs(4)]
    by (auto dest: below)
  have n: "sr_next h \<le> sr_next h1" "sr_next h1 \<le> sr_next h2" "sr_next h2 \<le> sr_next h3"
      "sr_next h3 \<le> sr_next h4" "sr_next h4 \<le> sr_next h5"
    using s1(1) s2(1) s3(1) s4(1) s5(1) by (simp_all add: grows_def)
  have "config_refs h5 c' \<subseteq> {sr_next h..<sr_next h5}"
    using s1(3) s2(3) s3(3) s4(3) s5(3) n by (force simp: config_refs_def c')
  moreover have "read_config h5 c' = read_config h c"
    using same s5(2) d4(1) by (simp add: read_config_def c')
  ultimately show ?thesis
    using later(5) by (simp add: c')
qed

text \<open>
  C14. A configuration that is handed out is a copy in its own right: \<open>GetConfig\<close> gives a
  configuration that says the same as the application's; whatever its receiver then writes through
  it, into its lists, its map of databases or the booleans these point to, leaves the application's
  configuration as it is; and whatever is written through the application's leaves the copy.
\<close>

theorem config_copy_independent:
  assumes "get_config (Some c) h = (Some c', h')" and "config_refs h c \<subseteq> {..<sr_next h}"
  shows "read_config h' c' = read_config h c \<and> read_config h' c = read_config h c \<and>
    (\<forall>w. agree (- config_refs h' c') h' w \<longrightarrow> read_config w c = read_config h c) \<and>
    (\<forall>w. agree (- config_refs h' c) h' w \<longrightarrow> read_config w c' = read_config h c)"
proof -
  note s = clone_config_spec [OF assms(1) [unfolded get_config_def] assms(2)]
  have own: "agree (config_refs h c) h h'"
    using s assms(2) agree_mono unfolding grows_def by blast
  note app = agree_read_config [OF own]
  have disjoint: "config_refs h' c \<subseteq> - config_refs h' c'" "config_refs h' c' \<subseteq> - config_refs h' c"
    using s assms(2) by (fastforce simp: app(2))+
  have "read_config w c = read_config h c" if "agree (- config_refs h' c') h' w" for w
    using agree_read_config(1) [OF agree_mono [OF that disjoint(1)]] app(1) by simp
  moreover have "read_config w c' = read_config h c" if "agree (- config_refs h' c) h' w" for w
    using agree_read_config(1) [OF agree_mono [OF that disjoint(2)]] s by simp
  ultimately show ?thesis
    using s app(1) by blast
qed

definition demo_config_store :: config_store where
  "demo_config_store = \<lparr>sr_cells = [0 \<mapsto> CellStrings [''https://app'']], sr_next = 1\<rparr>"

definition demo_config_ref :: "unit config_ref" where
  "demo_config_ref = \<lparr>cr_trusted_proxies = None, cr_audience = None, cr_whitelist = Some 0, cr_endpoints = None,
    cr_database = None, cr_plain = ()\<rparr>"

theorem config_copy_independent_witness:
  "\<exists>c' h'. get_config (Some demo_config_ref) demo_config_store = (Some c', h') \<and> cr_whitelist c' = Some 1 \<and>
    read_config (h'\<lparr>sr_cells := (sr_cells h')(1 \<mapsto> CellStrings [''https://evil''])\<rparr>) demo_config_ref =
      read_config demo_config_store demo_config_ref"
proof -
  let ?c = "demo_config_ref\<lparr>cr_whitelist := Some 1\<rparr>"
  let ?h = "\<lparr>sr_cells = [0 \<mapsto> CellStrings [''https://app''], 1 \<mapsto> CellStrings [''https://app'']], sr_next = 2\<rparr>"
  have run: "get_config (Some demo_config_ref) demo_config_store = (Some ?c, ?h)"
    by (simp add: get_config_def clone_config_def clone_strings_def clone_database_def alloc_def
        strings_at_def demo_config_ref_def demo_config_store_def)
  have "config_refs ?h ?c = {1}" "config_refs demo_config_store demo_config_ref = {0}"
    by (simp_all add: config_refs_def database_refs_def demo_config_ref_def)
  moreover have "agree (- {1}) ?h (?h\<lparr>sr_cells := (sr_cells ?h)(1 \<mapsto> CellStrings [''https://evil''])\<rparr>)"
    by (simp add: agree_def)
  moreover have "{0} \<subseteq> {..<sr_next demo_config_store}"
    by (simp add: demo_config_store_def)
  ultimately have "read_config (?h\<lparr>sr_cells := (sr_cells ?h)(1 \<mapsto> CellStrings [''https://evil''])\<rparr>) demo_config_ref =
      read_config demo_config_store demo_config_ref"
    using config_copy_independent [OF run] by metis
  with run show ?thesis by auto
qed

end
