(* ===== verification/Watch_Loops.thy ===== *)
theory Watch_Loops
  imports Etcd_Watch Consul_Registry
begin

text \<open>
  \<open>Watch\<close> of both registries from the call on: the checks, the first read, and the goroutine with
  its reconnects (\<open>contrib/registry/etcd/registry.go\<close>) or its blocking queries
  (\<open>contrib/registry/consul/registry.go\<close>). What a server sends is a parameter. A context that is
  cancelled ends the goroutine wherever it is, so a run over finitely many answers is what has
  happened up to some moment.
\<close>

subsection \<open>etcd\<close>

text \<open>
  A range read with the revision of its header, and what a watch channel delivers: changes, or an
  error, after which its channel is not read any more.
\<close>

record etcd_range =
  er_revision :: nat
  er_kvs :: "etcd_kv list"

datatype etcd_watch_reply = EtcdBatch "etcd_change list" | EtcdBroken goerr

text \<open>The range over a watch channel.\<close>

fun etcd_follow ::
  "json_decoder \<Rightarrow> string \<Rightarrow> string \<Rightarrow> etcd_watch_reply list \<Rightarrow> known_services \<Rightarrow> event list \<times> known_services" where
  "etcd_follow json pfx name [] known = ([], known)"
| "etcd_follow json pfx name (EtcdBroken err # rs) known = ([], known)"
| "etcd_follow json pfx name (EtcdBatch evs # rs) known =
    (case etcd_response json pfx name evs known of
       (es, known) \<Rightarrow>
         (case etcd_follow json pfx name rs known of (es', known) \<Rightarrow> (es @ es', known)))"

text \<open>The loop that repeats the read every second; no answer left means that the context ended.\<close>

fun etcd_reread :: "(goerr + etcd_range) list \<Rightarrow> etcd_range option" where
  "etcd_reread [] = None"
| "etcd_reread (Inl err # gets) = etcd_reread gets"
| "etcd_reread (Inr snap # gets) = Some snap"

text \<open>
  One turn of the goroutine meets a server: what a watch from a given revision delivers until it
  breaks or its channel closes, and the answers to the reads after it.
\<close>

record etcd_turn =
  et_watch :: "nat \<Rightarrow> etcd_watch_reply list"
  et_gets :: "(goerr + etcd_range) list"

fun etcd_watch_loop ::
  "json_decoder \<Rightarrow> string \<Rightarrow> string \<Rightarrow> etcd_range \<Rightarrow> etcd_turn list \<Rightarrow> known_services \<Rightarrow>
    event list \<times> known_services" where
  "etcd_watch_loop json pfx name snap [] known = etcd_snapshot json pfx name (er_kvs snap) known"
| "etcd_watch_loop json pfx name snap (t # ts) known =
    (case etcd_snapshot json pfx name (er_kvs snap) known of
       (es, known) \<Rightarrow>
         (case etcd_follow json pfx name (et_watch t (er_revision snap + 1)) known of
            (es', known) \<Rightarrow>
              (case etcd_reread (et_gets t) of
                 None \<Rightarrow> (es @ es', known)
               | Some snap \<Rightarrow>
                   (case etcd_watch_loop json pfx name snap ts known of
                      (es'', known) \<Rightarrow> (es @ es' @ es'', known)))))"

definition etcd_watch ::
  "json_decoder \<Rightarrow> string \<Rightarrow> (string \<Rightarrow> goerr + etcd_range) \<Rightarrow> etcd_turn list \<Rightarrow> string \<Rightarrow>
    goerr + event list \<times> known_services" where
  "etcd_watch json root get turns name =
    (let name = trim_space name
     in case validate_service_name name of
          Some err \<Rightarrow> Inl err
        | None \<Rightarrow>
            (let pfx = service_prefix_key root name
             in case get pfx of
                  Inl err \<Rightarrow> Inl (Wrapf ''registry: etcd watch snapshot: %w'' err)
                | Inr snap \<Rightarrow> Inr (etcd_watch_loop json pfx name snap turns [])))"

subsection \<open>A server with a history\<close>

text \<open>
  What etcd documents: the server has a history, the changes under the prefix revision by
  revision; a read answers the keys as they were at the revision of its header; a watch from a
  revision delivers the changes from there on, in order and without gaps, up to some later
  revision, where it may break (or at once, when the revision has been compacted).
\<close>

definition keys_at :: "etcd_change list list \<Rightarrow> nat \<Rightarrow> etcd_keys" where
  "keys_at hist r = fold change_keys (concat (take r hist)) Map.empty"

definition range_ok :: "etcd_change list list \<Rightarrow> etcd_range \<Rightarrow> bool" where
  "range_ok hist snap \<longleftrightarrow> er_revision snap \<le> length hist \<and> distinct (map fst (er_kvs snap)) \<and>
    map_of (er_kvs snap) = keys_at hist (er_revision snap)"

fun delivered :: "etcd_watch_reply list \<Rightarrow> etcd_change list list" where
  "delivered (EtcdBatch evs # rs) = evs # delivered rs"
| "delivered rs = []"

definition turn_ok :: "etcd_change list list \<Rightarrow> etcd_turn \<Rightarrow> bool" where
  "turn_ok hist t \<longleftrightarrow>
    (\<forall>r \<le> length hist. \<exists>m. r \<le> m \<and> m \<le> length hist \<and>
       concat (delivered (et_watch t (r + 1))) = concat (drop r (take m hist))) \<and>
    (\<forall>snap. Inr snap \<in> set (et_gets t) \<longrightarrow> range_ok hist snap)"

text \<open>The last read that succeeded.\<close>

fun last_range :: "etcd_range \<Rightarrow> etcd_turn list \<Rightarrow> etcd_range" where
  "last_range snap [] = snap"
| "last_range snap (t # ts) = (case etcd_reread (et_gets t) of None \<Rightarrow> snap | Some snap \<Rightarrow> last_range snap ts)"

lemma etcd_reread_in: "etcd_reread gets = Some snap \<Longrightarrow> Inr snap \<in> set gets"
  by (induction gets rule: etcd_reread.induct) auto

lemma etcd_follow_feed:
  "etcd_follow json pfx name rs known =
    run_feed (etcd_react json pfx name) (map EtcdResponse (delivered rs)) known"
  by (induction rs arbitrary: known rule: delivered.induct) (auto split: prod.split)

lemma keys_at_split:
  assumes "r \<le> m"
  shows "fold change_keys (concat (drop r (take m hist))) (keys_at hist r) = keys_at hist m"
proof -
  have "take m hist = take r hist @ drop r (take m hist)"
    using assms by (metis append_take_drop_id min.absorb1 take_take)
  then have "keys_at hist m = fold change_keys (concat (take r hist @ drop r (take m hist))) Map.empty"
    by (simp add: keys_at_def)
  then show ?thesis
    by (simp add: keys_at_def)
qed

lemma history_part:
  assumes "list_all well_reported (concat hist)"
  shows "list_all well_reported (concat (drop r (take m hist)))"
  using assms by (auto simp: list_all_iff dest!: in_set_dropD in_set_takeD)

text \<open>A follower mirrors the changes of the history from one revision to another.\<close>

definition mirrors_between ::
  "json_decoder \<Rightarrow> string \<Rightarrow> string \<Rightarrow> etcd_change list list \<Rightarrow> nat \<Rightarrow> nat \<Rightarrow> service_map \<Rightarrow> bool" where
  "mirrors_between json pfx name hist r r' m \<longleftrightarrow>
    mirrors json pfx name (keys_at hist r) (concat (drop r (take r' hist))) m"

text \<open>Where no key was overwritten with an invalid value, that is what the keys say.\<close>

lemma mirrors_between_view:
  assumes "mirrors_between json pfx name hist r r' m" and "r \<le> r'"
    and "\<And>svc. \<not> keeps_last json pfx name (keys_at hist r) (concat (drop r (take r' hist))) i svc"
  shows "m i = etcd_view json pfx name (keys_at hist r') i"
  using assms by (simp add: mirrors_between_def mirrors_def keys_at_split)

lemma watch_turn_view:
  assumes hist: "list_all well_reported (concat hist)" and "pfx \<noteq> []"
    and snap: "range_ok hist snap" and "turn_ok hist t" and "known_ok known"
    and one: "etcd_snapshot json pfx name (er_kvs snap) known = (es, known1)"
    and two: "etcd_follow json pfx name (et_watch t (er_revision snap + 1)) known1 = (es', known2)"
  shows "\<exists>m. er_revision snap \<le> m \<and> m \<le> length hist \<and>
    mirrors_between json pfx name hist (er_revision snap) m (map_of known2) \<and>
    apply_events (es @ es') (map_of known) = map_of known2 \<and> known_ok known2"
proof -
  obtain m where m: "er_revision snap \<le> m" "m \<le> length hist"
      "concat (delivered (et_watch t (er_revision snap + 1))) = concat (drop (er_revision snap) (take m hist))"
    using assms(3,4) unfolding turn_ok_def range_ok_def by blast
  have ok1: "known_ok known1"
    using etcd_feed.react_ok [where s = known and i = "EtcdSnapshot (er_kvs snap)"] one \<open>known_ok known\<close> by simp
  note run = two [unfolded etcd_follow_feed]
  have "map_of known1 = etcd_view json pfx name (keys_at hist (er_revision snap))"
    using etcd_snapshot_view [OF assms(2) _ one] snap by (simp add: range_ok_def)
  from responses_mirror [OF run this _ assms(2)] history_part [OF hist] m(3)
  have "mirrors_between json pfx name hist (er_revision snap) m (map_of known2)"
    by (simp add: mirrors_between_def)
  moreover have "apply_events es (map_of known) = map_of known1"
    by (rule etcd_snapshot_follows [OF assms(5) one])
  moreover have "apply_events es' (map_of known1) = map_of known2"
    using etcd_feed.follower_in_sync [OF ok1 _ run] by (simp add: list_all_iff)
  moreover have "known_ok known2"
    using etcd_feed.run_feed_ok [OF ok1 _ run] by (simp add: list_all_iff)
  ultimately show ?thesis
    using m(1,2) by auto
qed

lemma watch_loop_view:
  assumes hist: "list_all well_reported (concat hist)" and "pfx \<noteq> []"
    and "range_ok hist snap" and "list_all (turn_ok hist) ts" and "known_ok known"
    and "etcd_watch_loop json pfx name snap ts known = (es, known')"
  shows "\<exists>r. er_revision (last_range snap ts) \<le> r \<and> r \<le> length hist \<and>
    mirrors_between json pfx name hist (er_revision (last_range snap ts)) r (map_of known') \<and>
    apply_events es (map_of known) = map_of known'"
  using assms(3-6)
proof (induction ts arbitrary: snap known es)
  case Nil
  have loop: "etcd_snapshot json pfx name (er_kvs snap) known = (es, known')"
    using Nil.prems(4) by simp
  have "mirrors_between json pfx name hist (er_revision snap) (er_revision snap) (map_of known')"
    using etcd_snapshot_view [OF assms(2) _ loop] Nil.prems(1) by (simp add: mirrors_between_def range_ok_def)
  then show ?case
    using etcd_snapshot_follows [OF Nil.prems(3) loop] Nil.prems(1) by (auto simp: range_ok_def)
next
  case (Cons t ts)
  obtain es1 known1 where one: "etcd_snapshot json pfx name (er_kvs snap) known = (es1, known1)"
    by fastforce
  obtain es2 known2 where two: "etcd_follow json pfx name (et_watch t (er_revision snap + 1)) known1 = (es2, known2)"
    by fastforce
  from Cons.prems(2) have t: "turn_ok hist t" by simp
  note turn = watch_turn_view [OF hist assms(2) Cons.prems(1) t Cons.prems(3) one two]
  show ?case
  proof (cases "etcd_reread (et_gets t)")
    case None
    then show ?thesis
      using turn Cons.prems(4) one two by auto
  next
    case (Some snap')
    obtain es3 where three: "etcd_watch_loop json pfx name snap' ts known2 = (es3, known')"
      and es: "es = es1 @ es2 @ es3"
      using Cons.prems(4) one two Some by (auto split: prod.splits)
    have "range_ok hist snap'"
      using t etcd_reread_in [OF Some] by (auto simp: turn_ok_def)
    from Cons.IH [OF this _ _ three] Cons.prems(2) turn es Some show ?thesis
      by auto
  qed
qed

text \<open>
  C12. Through any number of reconnects, lost connections, compacted revisions and failing reads,
  whoever follows the channel of \<open>Watch\<close> holds, at some revision no older than the last read that
  succeeded, exactly the valid instances that etcd stores there, except for the keys which since that
  read were overwritten with values that are no valid instance and not deleted: of those it holds the
  last valid instance (\<open>keeps_last\<close>). No change between the read and the watch that follows it is
  missed, and instances that vanished while the connection was down are gone. \<open>Watch\<close> fails
  exactly when the name is invalid or the first read fails.
\<close>

theorem etcd_watch_survives_reconnects:
  assumes "list_all well_reported (concat hist)"
    and "\<And>snap. get (service_prefix_key root (trim_space name)) = Inr snap \<Longrightarrow> range_ok hist snap"
    and "list_all (turn_ok hist) turns"
  shows "case etcd_watch json root get turns name of
      Inl err \<Rightarrow> validate_service_name (trim_space name) = Some err \<or>
        (\<exists>e. get (service_prefix_key root (trim_space name)) = Inl e \<and>
          err = Wrapf ''registry: etcd watch snapshot: %w'' e)
    | Inr (es, known) \<Rightarrow>
        (\<exists>snap r. get (service_prefix_key root (trim_space name)) = Inr snap \<and>
           er_revision (last_range snap turns) \<le> r \<and> r \<le> length hist \<and>
           mirrors_between json (service_prefix_key root (trim_space name)) (trim_space name) hist
             (er_revision (last_range snap turns)) r (apply_events es Map.empty) \<and>
           map_of known = apply_events es Map.empty)"
proof -
  let ?name = "trim_space name" and ?pfx = "service_prefix_key root (trim_space name)"
  have pfx: "?pfx \<noteq> []"
    by (simp add: service_prefix_key_def)
  show ?thesis
  proof (cases "validate_service_name ?name")
    case None
    show ?thesis
    proof (cases "get ?pfx")
      case (Inr snap)
      obtain es known where loop: "etcd_watch_loop json ?pfx ?name snap turns [] = (es, known)"
        by fastforce
      from watch_loop_view [OF assms(1) pfx assms(2) [OF Inr] assms(3) _ loop] show ?thesis
        using None Inr by (auto simp: etcd_watch_def loop)
    qed (simp add: etcd_watch_def None)
  qed (simp add: etcd_watch_def)
qed

subsection \<open>An example history\<close>

definition demo_hist :: "etcd_change list list" where
  "demo_hist =
    [[\<lparr>ec_put = True, ec_kv = Some (''/mf-user/u1'', ''one''), ec_prev = None\<rparr>],
     [\<lparr>ec_put = True, ec_kv = Some (''/mf-user/u2'', ''two''), ec_prev = None\<rparr>,
      \<lparr>ec_put = False, ec_kv = Some (''/mf-user/u1'', []), ec_prev = Some (''/mf-user/u1'', ''one'')\<rparr>]]"

definition demo_range :: "nat \<Rightarrow> etcd_range" where
  "demo_range r = \<lparr>er_revision = r,
    er_kvs = (if r = 1 then [(''/mf-user/u1'', ''one'')] else [(''/mf-user/u2'', ''two'')])\<rparr>"

definition demo_turn :: etcd_turn where
  "demo_turn = \<lparr>et_watch = (\<lambda>n. map EtcdBatch (drop (n - 1) demo_hist) @ [EtcdBroken (Errorf ''lost'')]),
    et_gets = [Inl (Errorf ''refused''), Inr (demo_range 2)]\<rparr>"

lemma delivered_batches: "delivered (map EtcdBatch bs @ [EtcdBroken err]) = bs"
  by (induction bs) simp_all

lemma demo_turn_ok: "turn_ok demo_hist demo_turn"
proof -
  have "keys_at demo_hist 2 = [''/mf-user/u2'' \<mapsto> ''two'']"
    by (auto simp: keys_at_def demo_hist_def change_keys_def fun_eq_iff)
  then have "range_ok demo_hist (demo_range 2)"
    by (simp add: range_ok_def demo_range_def demo_hist_def)
  then show ?thesis
    by (auto simp: turn_ok_def demo_turn_def delivered_batches intro!: exI [of _ "length demo_hist"])
qed

lemma demo_hist_services:
  "etcd_service demo_json ''/mf-user/'' ''mf-user'' (''/mf-user/u2'', ''two'') = Some (demo_service ''mf-user'' ''u2'')"
  "etcd_service demo_json ''/mf-user/'' ''mf-user'' (''/mf-user/u1'', ''one'') = Some (demo_service ''mf-user'' ''u1'')"
proof -
  have trim: "trim_space ''v1'' \<noteq> []" by code_simp
  show "etcd_service demo_json ''/mf-user/'' ''mf-user'' (''/mf-user/u2'', ''two'') = Some (demo_service ''mf-user'' ''u2'')"
    using trim demo_service_u2 instance_from_key_iff [of "''/mf-user/''" "''/mf-user/u2''" "''u2''"]
    by (simp add: etcd_service_def unmarshal_service_def demo_json_def demo_service_def
        contains_any_iff crlf_nul_def)
  have "validate_service (demo_service ''mf-user'' ''u1'') = None"
    by (simp add: demo_service_def validate_service_def validate_service_name_def
        validate_service_addr_def contains_char contains_any_iff crlf_nul_def meta_entries_def
        split_host_port_def parse_int_def signed_range_def parse_uint_def is_digit_def
        less_eq_char_def digit_val_def)
  then show "etcd_service demo_json ''/mf-user/'' ''mf-user'' (''/mf-user/u1'', ''one'') = Some (demo_service ''mf-user'' ''u1'')"
    using trim instance_from_key_iff [of "''/mf-user/''" "''/mf-user/u1''" "''u1''"]
    by (simp add: etcd_service_def unmarshal_service_def demo_json_def demo_service_def
        contains_any_iff crlf_nul_def)
qed

theorem etcd_watch_survives_reconnects_witness:
  "case etcd_watch demo_json ''/'' (\<lambda>_. Inr (demo_range 1)) [demo_turn] ''mf-user'' of
     Inl err \<Rightarrow> False
   | Inr (es, known) \<Rightarrow>
       apply_events es Map.empty = etcd_view demo_json ''/mf-user/'' ''mf-user'' (keys_at demo_hist 2) \<and>
       apply_events es Map.empty ''u2'' = Some (demo_service ''mf-user'' ''u2'')"
proof -
  have name: "trim_space ''mf-user'' = ''mf-user''" "validate_service_name ''mf-user'' = None"
    by code_simp+
  have pfx: "service_prefix_key ''/'' ''mf-user'' = ''/mf-user/''"
    by (simp add: service_prefix_key_def)
  have "list_all well_reported (concat demo_hist)"
    by (simp add: demo_hist_def well_reported_def)
  moreover have "range_ok demo_hist (demo_range 1)"
    by (auto simp: range_ok_def demo_range_def keys_at_def demo_hist_def change_keys_def fun_eq_iff)
  ultimately have "case etcd_watch demo_json ''/'' (\<lambda>_. Inr (demo_range 1)) [demo_turn] ''mf-user'' of
      Inl err \<Rightarrow> False
    | Inr (es, known) \<Rightarrow> (\<exists>r. er_revision (last_range (demo_range 1) [demo_turn]) \<le> r \<and> r \<le> length demo_hist \<and>
        mirrors_between demo_json ''/mf-user/'' ''mf-user'' demo_hist
          (er_revision (last_range (demo_range 1) [demo_turn])) r (apply_events es Map.empty))"
    using etcd_watch_survives_reconnects [where json = demo_json and root = "''/''" and name = "''mf-user''"
        and hist = demo_hist and get = "\<lambda>_. Inr (demo_range 1)" and turns = "[demo_turn]"] demo_turn_ok
    by (auto simp: name pfx split: sum.splits prod.splits)
  moreover have "er_revision (last_range (demo_range 1) [demo_turn]) = 2" "length demo_hist = 2"
    by (simp_all add: demo_turn_def demo_range_def demo_hist_def)
  moreover have "etcd_view demo_json ''/mf-user/'' ''mf-user'' (keys_at demo_hist 2) ''u2'' =
      Some (demo_service ''mf-user'' ''u2'')"
    using demo_hist_services by (simp add: etcd_view_def keys_at_def demo_hist_def change_keys_def)
  ultimately show ?thesis
    by (auto simp: mirrors_between_def demo_hist_def split: sum.splits dest!: le_antisym)
qed

subsection \<open>Consul\<close>

text \<open>An answer to a health query: the entries and the index of its metadata, which may be absent.\<close>

record consul_answer =
  cn_entries :: "consul_entry list"
  cn_index :: "int option"

type_synonym consul_query = "int \<Rightarrow> goerr + consul_answer"

definition next_index :: "consul_answer \<Rightarrow> int \<Rightarrow> int" where
  "next_index a i = (case cn_index a of None \<Rightarrow> i | Some j \<Rightarrow> j)"

text \<open>The loop of blocking queries, each for what is newer than the last index.\<close>

fun consul_watch_loop ::
  "time_format \<Rightarrow> string \<Rightarrow> int \<Rightarrow> consul_query list \<Rightarrow> known_services \<Rightarrow> event list \<times> known_services" where
  "consul_watch_loop tf name idx [] known = ([], known)"
| "consul_watch_loop tf name idx (q # qs) known =
    (case q idx of
       Inl err \<Rightarrow> consul_watch_loop tf name idx qs known
     | Inr a \<Rightarrow>
        (case consul_round tf name (cn_entries a) known of
           (es, known) \<Rightarrow>
             (case consul_watch_loop tf name (next_index a idx) qs known of
                (es', known) \<Rightarrow> (es @ es', known))))"

definition consul_watch ::
  "time_format \<Rightarrow> (string \<Rightarrow> consul_query) \<Rightarrow> consul_query list \<Rightarrow> string \<Rightarrow>
    goerr + event list \<times> known_services" where
  "consul_watch tf health qs name =
    (let name = trim_space name
     in case validate_service_name name of
          Some err \<Rightarrow> Inl err
        | None \<Rightarrow>
            (case health name 0 of
               Inl err \<Rightarrow> Inl (Wrapf ''registry: consul discover: %w'' err)
             | Inr a \<Rightarrow>
                (case consul_watch_start tf name (cn_entries a) of
                   (es, known) \<Rightarrow>
                     (case consul_watch_loop tf name (next_index a 0) qs known of
                        (es', known) \<Rightarrow> Inr (es @ es', known)))))"

text \<open>The answers the loop gets, given the index it starts from.\<close>

fun consul_answers :: "int \<Rightarrow> consul_query list \<Rightarrow> consul_answer list" where
  "consul_answers i [] = []"
| "consul_answers i (q # qs) =
    (case q i of Inl err \<Rightarrow> consul_answers i qs | Inr a \<Rightarrow> a # consul_answers (next_index a i) qs)"

lemma consul_loop_rounds:
  "consul_watch_loop tf name i qs known =
    run_feed (consul_round tf name) (map cn_entries (consul_answers i qs)) known"
  by (induction qs arbitrary: i known) (auto split: sum.split prod.split)

text \<open>
  C16. Through any number of failing queries, what \<open>Watch\<close> on Consul knows is exactly the valid
  instances of the last answer, and whoever follows its channel holds an instance under exactly the
  identifiers of that answer, each one listed by some answer so far: an error neither loses nor
  invents one, and the next query asks for what is newer than the last answer. The follower holds the
  very instance of the last answer under every identifier which no answer after the first lists
  twice. \<open>Watch\<close> fails exactly when the name is invalid or the first query fails.
\<close>

theorem consul_watch_survives_errors:
  shows "case consul_watch tf health qs name of
      Inl err \<Rightarrow> validate_service_name (trim_space name) = Some err \<or>
        (\<exists>e. health (trim_space name) 0 = Inl e \<and> err = Wrapf ''registry: consul discover: %w'' e)
    | Inr (es, known) \<Rightarrow>
        (\<exists>a answers. health (trim_space name) 0 = Inr a \<and> answers = consul_answers (next_index a 0) qs \<and>
           map_of known = map_of (rev (map (\<lambda>s. (svc_instance s, s))
             (consul_services tf (trim_space name) (cn_entries (last (a # answers)))))) \<and>
           dom (apply_events es Map.empty) = dom (map_of known) \<and>
           (\<forall>i svc. apply_events es Map.empty i = Some svc \<longrightarrow> svc_instance svc = i \<and>
             (\<exists>b \<in> set (a # answers). svc \<in> set (consul_services tf (trim_space name) (cn_entries b)))) \<and>
           (\<forall>i. list_all (\<lambda>b. listed_once tf (trim_space name) i (cn_entries b)) answers \<longrightarrow>
             apply_events es Map.empty i = map_of known i))"
proof -
  let ?name = "trim_space name"
  show ?thesis
  proof (cases "validate_service_name ?name")
    case None
    show ?thesis
    proof (cases "health ?name 0")
      case (Inr a)
      let ?answers = "consul_answers (next_index a 0) qs"
      obtain es0 known0 where start: "consul_watch_start tf ?name (cn_entries a) = (es0, known0)"
        by fastforce
      obtain es known where loop: "run_feed (consul_round tf ?name) (map cn_entries ?answers) known0 = (es, known)"
        by fastforce
      let ?first = "set (consul_services tf ?name (cn_entries a))"
      have known0: "es0 = map put_event (consul_services tf ?name (cn_entries a))"
          "known0 = known_from (consul_services tf ?name (cn_entries a))"
        using start by (simp_all add: consul_watch_start_def Let_def)
      then have m0: "apply_events es0 Map.empty = map_of known0" and ok: "known_ok known0"
        by (simp_all add: apply_puts known_from_map)
      have "follows_at (map_of known0) known0 ?first i" for i
        by (auto simp: follows_at_def known0 known_from_map dest!: map_of_SomeD)
      note rounds = consul_rounds_follow [OF loop ok this]
      have follow: "follows_at (apply_events (es0 @ es) Map.empty) known
          (?first \<union> (\<Union>entries \<in> set (map cn_entries ?answers). set (consul_services tf ?name entries))) i"
        and once: "list_all (\<lambda>b. listed_once tf ?name i (cn_entries b)) ?answers \<Longrightarrow>
          apply_events (es0 @ es) Map.empty i = map_of known i" for i
        using rounds [of i] by (simp_all add: m0 list.pred_map comp_def)
      have "dom (apply_events (es0 @ es) Map.empty) = dom (map_of known)"
        using follow by (auto simp: follows_at_def dom_def)
      moreover have "svc_instance svc = i \<and>
          (\<exists>b \<in> set (a # ?answers). svc \<in> set (consul_services tf ?name (cn_entries b)))"
        if "apply_events (es0 @ es) Map.empty i = Some svc" for i svc
        using follow [of i] that by (auto simp: follows_at_def)
      moreover have "map_of known = map_of (rev (map (\<lambda>s. (svc_instance s, s))
          (consul_services tf ?name (cn_entries (last (a # ?answers))))))"
        using consul_rounds_known [OF loop] known0 by (auto simp: last_map known_from_map)
      moreover have "consul_watch tf health qs name = Inr (es0 @ es, known)"
        using None Inr start loop by (simp add: consul_watch_def consul_loop_rounds)
      ultimately show ?thesis
        using once Inr by (simp only: sum.case prod.case) blast
    qed (simp add: consul_watch_def None)
  qed (simp add: consul_watch_def)
qed

theorem consul_watch_survives_errors_witness:
  "case consul_watch demo_time_format (\<lambda>_ _. Inr \<lparr>cn_entries = [demo_entry ''u1''], cn_index = Some 7\<rparr>)
       [\<lambda>_. Inl (Errorf ''refused''), \<lambda>i. Inr \<lparr>cn_entries = [], cn_index = Some (i + 1)\<rparr>] ''mf-user'' of
     Inl err \<Rightarrow> False
   | Inr (es, known) \<Rightarrow> apply_events es Map.empty = Map.empty"
proof -
  have name: "trim_space ''mf-user'' = ''mf-user''" "validate_service_name ''mf-user'' = None"
    by code_simp+
  show ?thesis
    using consul_watch_survives_errors [where tf = demo_time_format and name = "''mf-user''"
        and health = "\<lambda>_ _. Inr \<lparr>cn_entries = [demo_entry ''u1''], cn_index = Some 7\<rparr>"
        and qs = "[\<lambda>_. Inl (Errorf ''refused''), \<lambda>i. Inr \<lparr>cn_entries = [], cn_index = Some (i + 1)\<rparr>]"]
    by (auto simp: name consul_services_def split: sum.splits prod.splits)
qed

end
