(* ===== verification/Self_Registration.thy ===== *)
theory Self_Registration
  imports Lifecycle "HOL-Library.Word"
begin

text \<open>
  The instance a process registers for itself: the address of the host (\<open>localIP\<close> of
  \<open>registry/registry.go\<close> and \<open>localAdvertiseIP\<close> of \<open>boot/app.go\<close>), the identifier
  (\<open>GenerateInstanceID\<close>) and the value \<open>Run\<close> hands to the registry. The interfaces of the host,
  its name and a fresh UUID are parameters.
\<close>

subsection \<open>Addresses of the host\<close>

type_synonym ip_bytes = "8 word list"

text \<open>What \<open>net.InterfaceAddrs\<close> lists: networks, or addresses of another type.\<close>

datatype iface_addr = IfaceNet ip_bytes | IfaceOther

text \<open>\<open>IP.To4\<close>, \<open>IP.IsLoopback\<close> and \<open>IP.String\<close> of an IPv4 address.\<close>

definition to4 :: "ip_bytes \<Rightarrow> ip_bytes option" where
  "to4 ip =
    (if length ip = 4 then Some ip
     else if length ip = 16 \<and> take 12 ip = replicate 10 0 @ [0xff, 0xff] then Some (drop 12 ip)
     else None)"

definition ip_loopback :: "ip_bytes \<Rightarrow> bool" where
  "ip_loopback ip = (case to4 ip of Some v4 \<Rightarrow> hd v4 = 127 | None \<Rightarrow> ip = replicate 15 0 @ [1])"

definition dotted :: "ip_bytes \<Rightarrow> string" where
  "dotted v4 = join ''.'' (map (\<lambda>b. format_int (uint b)) v4)"

fun first_ip :: "iface_addr list \<Rightarrow> string" where
  "first_ip [] = ''127.0.0.1''"
| "first_ip (IfaceOther # as) = first_ip as"
| "first_ip (IfaceNet ip # as) =
    (if \<not> ip_loopback ip \<and> to4 ip \<noteq> None then dotted (the (to4 ip)) else first_ip as)"

definition local_ip :: "goerr + iface_addr list \<Rightarrow> string" where
  "local_ip addrs = (case addrs of Inl err \<Rightarrow> ''127.0.0.1'' | Inr as \<Rightarrow> first_ip as)"

fun first_advertise_ip :: "iface_addr list \<Rightarrow> string" where
  "first_advertise_ip [] = ''127.0.0.1''"
| "first_advertise_ip (IfaceOther # as) = first_advertise_ip as"
| "first_advertise_ip (IfaceNet ip # as) =
    (if ip_loopback ip then first_advertise_ip as
     else (case to4 ip of Some v4 \<Rightarrow> dotted v4 | None \<Rightarrow> first_advertise_ip as))"

definition local_advertise_ip :: "goerr + iface_addr list \<Rightarrow> string" where
  "local_advertise_ip addrs = (case addrs of Inl err \<Rightarrow> ''127.0.0.1'' | Inr as \<Rightarrow> first_advertise_ip as)"

subsection \<open>The instance\<close>

definition generate_instance_id :: "string \<Rightarrow> string \<Rightarrow> string \<Rightarrow> string" where
  "generate_instance_id host uuid name = name @ ''-'' @ host @ ''-'' @ uuid"

record host_env =
  he_getenv :: "string \<Rightarrow> string"
  he_addrs :: "goerr + iface_addr list"
  he_name :: string
  he_uuid :: string

definition own_addr :: "host_env \<Rightarrow> string \<Rightarrow> string \<Rightarrow> string" where
  "own_addr env listen advertise =
    resolve_advertise_addr (he_getenv env) (local_advertise_ip (he_addrs env)) listen advertise"

definition own_service :: "host_env \<Rightarrow> boot_config \<Rightarrow> service" where
  "own_service env cfg =
    (let s = cf_server cfg; g = cf_grpc cfg
     in \<lparr>svc_name = sv_name s, svc_version = sv_version s,
         svc_instance = generate_instance_id (he_name env) (he_uuid env) (sv_name s),
         svc_addr = own_addr env (sv_addr s) (sv_advertise_addr s),
         svc_grpc_addr = (if gc_enable g then own_addr env (gc_addr g) (gc_advertise_addr g) else []),
         svc_meta = None, svc_register_at = 0\<rparr>)"

subsection \<open>The two lookups agree\<close>

lemma first_ips_agree: "first_advertise_ip as = first_ip as"
  by (induction as rule: first_ip.induct) (auto split: option.split)

lemma local_ips_agree: "local_advertise_ip addrs = local_ip addrs"
  by (simp add: local_advertise_ip_def local_ip_def first_ips_agree split: sum.split)

text \<open>Text that may stand for a host in an address.\<close>

definition host_text :: "string \<Rightarrow> bool" where
  "host_text h \<longleftrightarrow> length h \<le> 200 \<and> set h \<inter> set (''[]'' @ crlf_nul) = {}"

lemma nat_digits_length: "n < 10 ^ k \<Longrightarrow> 0 < k \<Longrightarrow> length (nat_digits n) \<le> k"
proof (induction k arbitrary: n)
  case (Suc k)
  show ?case
  proof (cases "n < 10")
    case True
    then show ?thesis by (subst nat_digits.simps) simp
  next
    case False
    have "n div 10 < 10 ^ k"
      using Suc.prems(1) by (simp add: less_mult_imp_div_less mult.commute)
    moreover have "0 < k"
      using False Suc.prems(1) by (cases k) auto
    ultimately show ?thesis
      using Suc.IH [of "n div 10"] False by (subst nat_digits.simps) simp
  qed
qed simp

lemma format_int_digits: "0 \<le> n \<Longrightarrow> c \<in> set (format_int n) \<Longrightarrow> is_digit c"
  by (simp add: format_int_def nat_digits_digits)

lemma not_digits: "\<not> is_digit (CHR ''['')" "\<not> is_digit (CHR '']'')" "\<not> is_digit (CHR '':'')"
    "\<not> is_digit (CHR 0x0D)" "\<not> is_digit (CHR 0x0A)" "\<not> is_digit (CHR 0x00)"
  by (simp_all add: is_digit_def less_eq_char_def)

lemma format_port: "0 \<le> p \<Longrightarrow> p \<le> 65535 \<Longrightarrow> length (format_int p) \<le> 5 \<and>
    set (format_int p) \<inter> set (''[]:'' @ crlf_nul) = {}"
  using nat_digits_length [of "nat p" 5] format_int_digits [of p] not_digits
  by (auto simp: format_int_def crlf_nul_def)

lemma dotted_host_text:
  assumes "length v4 = 4"
  shows "host_text (dotted v4)"
proof -
  have byte: "length (format_int (uint b)) \<le> 3 \<and> set (format_int (uint b)) \<inter> set (''[]'' @ crlf_nul) = {}"
    for b :: "8 word"
  proof -
    have "unat b < 10 ^ 3"
      using unsigned_less [of b, where 'a = nat] by simp
    from nat_digits_length [OF this] show ?thesis
      using format_int_digits [of "uint b"] not_digits by (auto simp: format_int_def crlf_nul_def)
  qed
  obtain a b c d where v4: "v4 = [a, b, c, d]"
    using assms by (auto simp: length_Suc_conv numeral_eq_Suc)
  show ?thesis
    using byte [of a] byte [of b] byte [of c] byte [of d]
    by (auto simp: v4 dotted_def host_text_def crlf_nul_def)
qed

lemma to4_length: "to4 ip = Some v4 \<Longrightarrow> length v4 = 4"
  by (auto simp: to4_def split: if_splits)

lemma first_ip_host_text: "host_text (first_ip as)"
proof (induction as rule: first_ip.induct)
  case (3 ip as)
  then show ?case
    using dotted_host_text to4_length by auto
qed (simp_all add: host_text_def crlf_nul_def)

lemma local_ip_host_text: "host_text (local_ip addrs)"
  by (simp add: local_ip_def first_ip_host_text host_text_def crlf_nul_def split: sum.split)
    (simp add: first_ip_host_text [unfolded host_text_def crlf_nul_def, simplified])

lemma joined_addr:
  assumes "host_text h" and "1 \<le> p" and "p \<le> 65535"
  shows "split_host_port (join_host_port h (format_int p)) = Inr (h, format_int p)"
    and "validate_service_addr (join_host_port h (format_int p)) field = None"
proof -
  have port: "length (format_int p) \<le> 5" "set (format_int p) \<inter> set (''[]:'' @ crlf_nul) = {}"
    using format_port assms by auto
  show split: "split_host_port (join_host_port h (format_int p)) = Inr (h, format_int p)"
    using assms(1) port by (intro split_join_host_port) (auto simp: host_text_def)
  have "parse_int (format_int p) = (p, None)"
    using assms(2,3) by (intro parse_int_format_int) (simp_all add: min_int64_def max_int64_def)
  moreover have "format_int p \<noteq> []"
    using assms(2) by (simp add: format_int_def)
  moreover have "length (join_host_port h (format_int p)) \<le> 256"
    using assms(1) port(1) by (simp add: join_host_port_def host_text_def)
  moreover have "\<not> contains_any (join_host_port h (format_int p)) crlf_nul"
    using assms(1) port(2) by (auto simp: join_host_port_def host_text_def contains_any_iff crlf_nul_def)
  moreover have "join_host_port h (format_int p) \<noteq> []"
    by (simp add: join_host_port_def)
  ultimately show "validate_service_addr (join_host_port h (format_int p)) field = None"
    using assms(2,3) by (simp add: validate_service_addr_def split)
qed

text \<open>A listening address with a decimal port.\<close>

definition listens_on :: "string \<Rightarrow> string \<Rightarrow> int \<Rightarrow> bool" where
  "listens_on listen h p \<longleftrightarrow> listen = join_host_port h (format_int p) \<and> host_text h \<and> 1 \<le> p \<and> p \<le> 65535"

definition own_host :: "host_env \<Rightarrow> string \<Rightarrow> string" where
  "own_host env h =
    (if advertise_ip_from_env (he_getenv env) \<noteq> [] then advertise_ip_from_env (he_getenv env)
     else if h \<in> {[], ''0.0.0.0'', ''::''} then local_ip (he_addrs env) else h)"

lemma own_addr_joined:
  assumes "listens_on listen h p"
  shows "own_addr env listen [] = join_host_port (own_host env h) (format_int p)"
proof -
  have "split_host_port listen = Inr (h, format_int p)"
    using assms joined_addr(1) by (simp add: listens_on_def)
  moreover have "format_int p \<noteq> []"
    using assms by (simp add: format_int_def listens_on_def)
  moreover have "h \<noteq> ''[::]''"
    using assms by (auto simp: listens_on_def host_text_def)
  ultimately show ?thesis
    using assms by (simp add: own_addr_def resolve_advertise_addr_def own_host_def local_ips_agree listens_on_def)
qed

lemma own_host_text:
  "host_text (advertise_ip_from_env (he_getenv env)) \<Longrightarrow> host_text h \<Longrightarrow> host_text (own_host env h)"
  by (simp add: own_host_def local_ip_host_text)

lemma identity_checked:
  assumes "validate_config_identity c = None"
  shows "trim_space (sv_name (cf_server c)) \<noteq> []" "length (sv_name (cf_server c)) \<le> 128"
    "\<not> contains ''/'' (sv_name (cf_server c))" "\<not> contains_any (sv_name (cf_server c)) crlf_nul"
    "length (sv_version (cf_server c)) \<le> 128" "\<not> contains_any (sv_version (cf_server c)) crlf_nul"
  using assms by (simp_all add: validate_config_identity_def Let_def check_guards_None_iff del: check_guards_simps)

text \<open>
  What is published for a listening address: the advertised address as it was configured, or else,
  for a decimal port, that port at the address from the environment or on the host, which is then a
  valid address unless the environment names something that cannot stand for a host.
\<close>

definition published :: "host_env \<Rightarrow> string \<Rightarrow> string \<Rightarrow> string \<Rightarrow> bool" where
  "published env listen advertise addr \<longleftrightarrow>
    (if advertise \<noteq> [] then addr = advertise
     else \<forall>h p. listens_on listen h p \<longrightarrow>
       addr = join_host_port (own_host env h) (format_int p) \<and>
       (host_text (advertise_ip_from_env (he_getenv env)) \<longrightarrow>
         validate_service_addr addr ''addr'' = None \<and> split_host_port addr = Inr (own_host env h, format_int p)))"

lemma own_addr_published: "published env listen advertise (own_addr env listen advertise)"
proof (cases "advertise = []")
  case True
  then show ?thesis
    using own_addr_joined [of listen] joined_addr own_host_text [of env]
    by (auto simp: published_def) (auto simp: listens_on_def)
qed (simp add: published_def own_addr_def resolve_advertise_addr_def)

lemma addr_field: "validate_service_addr addr field = None \<longleftrightarrow> validate_service_addr addr ''addr'' = None"
  by (auto simp: validate_service_addr_def split: sum.splits prod.splits if_splits)

text \<open>
  C27. When the registry takes the instance that \<open>Run\<close> builds: under a configuration that passed
  validation it is refused for its identifier or for an address, and for nothing else. The identifier
  fits exactly when the service name and the host name have at most 218 bytes together and the host
  name has no slash and no line break. The addresses are those of \<open>published\<close>: an advertised
  address goes out as it was configured, which \<open>Validate\<close> does not look at, so a malformed one is
  refused only here; without one, a process that listens on a decimal port is accepted whatever
  interfaces the host has, at the address from the environment or, on a wildcard, of the first
  interface that is not loopback. Both packages look that address up alike.
\<close>

theorem self_registration_accepted:
  assumes config: "validate_config lib (Some c) = None"
    and uuid: "length (he_uuid env) = 36" "set (he_uuid env) \<inter> set (CHR ''/'' # crlf_nul) = {}"
  shows "(validate_service (own_service env c) = None \<longleftrightarrow>
      length (sv_name (cf_server c)) + length (he_name env) \<le> 218 \<and>
      set (he_name env) \<inter> set (CHR ''/'' # crlf_nul) = {} \<and>
      validate_service_addr (svc_addr (own_service env c)) ''addr'' = None \<and>
      (gc_enable (cf_grpc c) \<and> svc_grpc_addr (own_service env c) \<noteq> [] \<longrightarrow>
        validate_service_addr (svc_grpc_addr (own_service env c)) ''addr'' = None)) \<and>
    published env (sv_addr (cf_server c)) (sv_advertise_addr (cf_server c)) (svc_addr (own_service env c)) \<and>
    (if gc_enable (cf_grpc c)
     then published env (gc_addr (cf_grpc c)) (gc_advertise_addr (cf_grpc c)) (svc_grpc_addr (own_service env c))
     else svc_grpc_addr (own_service env c) = []) \<and>
    local_advertise_ip (he_addrs env) = local_ip (he_addrs env)"
proof -
  have name: "validate_service_name (sv_name (cf_server c)) = None"
    and version: "length (sv_version (cf_server c)) \<le> 128" "\<not> contains_any (sv_version (cf_server c)) crlf_nul"
    using identity_checked [of c] config trim_space_Nil
    by (auto simp: validate_config_parts validate_service_name_def)
  let ?id = "generate_instance_id (he_name env) (he_uuid env) (sv_name (cf_server c))"
  have "length ?id \<le> 256 \<longleftrightarrow> length (sv_name (cf_server c)) + length (he_name env) \<le> 218" "?id \<noteq> []"
    using uuid(1) by (auto simp: generate_instance_id_def)
  moreover have "\<not> contains ''/'' ?id \<and> \<not> contains_any ?id crlf_nul \<longleftrightarrow>
      set (he_name env) \<inter> set (CHR ''/'' # crlf_nul) = {}"
    using name uuid(2)
    by (auto simp: generate_instance_id_def validate_service_name_def contains_char contains_any_iff crlf_nul_def
        split: if_splits)
  moreover have "validate_service_addr a ''grpc addr'' = None \<longleftrightarrow> validate_service_addr a ''addr'' = None" for a
    by (rule addr_field)
  ultimately have "validate_service (own_service env c) = None \<longleftrightarrow>
      length (sv_name (cf_server c)) + length (he_name env) \<le> 218 \<and>
      set (he_name env) \<inter> set (CHR ''/'' # crlf_nul) = {} \<and>
      validate_service_addr (svc_addr (own_service env c)) ''addr'' = None \<and>
      (svc_grpc_addr (own_service env c) \<noteq> [] \<longrightarrow>
        validate_service_addr (svc_grpc_addr (own_service env c)) ''addr'' = None)"
    using name version
    by (auto simp: own_service_def validate_service_def Let_def meta_entries_def not_less split: option.splits)
      (metis addr_field not_None_eq)
  then show ?thesis
    using own_addr_published by (auto simp: own_service_def Let_def local_ips_agree)
qed

text \<open>A malformed advertised address passes the validation of the configuration and is refused here.\<close>

lemma advertised_unchecked:
  "validate_config lib (Some (c\<lparr>cf_server := (cf_server c)\<lparr>sv_advertise_addr := a\<rparr>\<rparr>)) = validate_config lib (Some c)"
proof -
  let ?c = "c\<lparr>cf_server := (cf_server c)\<lparr>sv_advertise_addr := a\<rparr>\<rparr>"
  have "validate_config_identity ?c = validate_config_identity c"
    by (simp add: validate_config_identity_def del: check_guards_simps)
  moreover have "validate_config_outbound lib ?c = validate_config_outbound lib c"
    by (simp add: validate_config_outbound_def del: check_guards_simps)
  moreover have "validate_config_limits ?c = validate_config_limits c"
    by (simp add: validate_config_limits_def Let_def del: check_guards_simps)
  moreover have "validate_config_access lib mode ?c = validate_config_access lib mode c" for mode
    by (simp add: validate_config_access_def del: check_guards_simps)
  moreover have "validate_tls_requirements lib ?c = validate_tls_requirements lib c"
    by (simp add: validate_tls_requirements_def registry_used_def registry_transport_def Let_def
        del: check_guards_simps split: option.split)
  ultimately show ?thesis
    by (simp add: validate_config_def)
qed

definition demo_host :: host_env where
  "demo_host = \<lparr>he_getenv = (\<lambda>_. []), he_addrs = Inr [IfaceOther, IfaceNet [127, 0, 0, 1], IfaceNet [10, 0, 0, 7]],
    he_name = ''host-1'', he_uuid = ''6ba7b810-9dad-41d1-80b4-00c04fd430c8''\<rparr>"

theorem self_registration_accepted_witness:
  "validate_service (own_service demo_host (demo_config ''debug'' True (demo_boot_registry [] []) [])) = None \<and>
   split_host_port (svc_addr (own_service demo_host (demo_config ''debug'' True (demo_boot_registry [] []) []))) =
     Inr (''10.0.0.7'', ''8080'')"
proof -
  let ?c = "demo_config ''debug'' True (demo_boot_registry [] []) []"
  have port: "format_int 8080 = ''8080''" and bytes: "format_int 10 = ''10''" "format_int 0 = ''0''" "format_int 7 = ''7''"
    by (simp_all add: format_int_def nat_digits.simps digit_char_def char_of_def bit_iff_odd)
  have own: "own_host demo_host [] = ''10.0.0.7''"
    by (simp add: own_host_def demo_host_def advertise_ip_from_env_def first_nonempty_def local_ip_def
        ip_loopback_def to4_def dotted_def bytes)
  have listens: "listens_on (sv_addr (cf_server ?c)) [] 8080"
    by (simp add: listens_on_def port host_text_def join_host_port_def demo_config_def)
  have fields: "sv_advertise_addr (cf_server ?c) = []" "\<not> gc_enable (cf_grpc ?c)"
      "length (sv_name (cf_server ?c)) + length (he_name demo_host) \<le> 218"
      "set (he_name demo_host) \<inter> set (CHR ''/'' # crlf_nul) = {}"
      "length (he_uuid demo_host) = 36" "set (he_uuid demo_host) \<inter> set (CHR ''/'' # crlf_nul) = {}"
      "host_text (advertise_ip_from_env (he_getenv demo_host))"
    by (simp_all add: demo_config_def demo_host_def crlf_nul_def advertise_ip_from_env_def first_nonempty_def
        host_text_def)
  note accepted = self_registration_accepted [OF demo_config_valid fields(5,6)]
  then have "published demo_host (sv_addr (cf_server ?c)) [] (svc_addr (own_service demo_host ?c))"
    using fields(1) by simp
  then have "validate_service_addr (svc_addr (own_service demo_host ?c)) ''addr'' = None"
      "split_host_port (svc_addr (own_service demo_host ?c)) = Inr (''10.0.0.7'', ''8080'')"
    using listens fields(7) own port unfolding published_def by fastforce+
  then show ?thesis
    using accepted fields by simp
qed

end
