(* ===== verification/Grpc_Resolver.thy ===== *)
theory Grpc_Resolver
  imports Grpc_Dial
begin

text \<open>
  The life of a registry resolver (\<open>grpcx/registry_resolver.go\<close>): \<open>Build\<close> starts a watch and hands
  its snapshots to gRPC until \<open>Close\<close>, and a dial through it (\<open>dialContextWithResolver\<close>) that ends
  with a connection or with none. gRPC's connection and the watch are parameters.
\<close>

subsection \<open>Building\<close>

datatype cc_call = UpdateState "string list" | ReportError goerr

text \<open>\<open>updateResolverState\<close> with its call: \<open>update\<close> is the error \<open>cc.UpdateState\<close> returns.\<close>

definition push_state ::
  "(string list \<Rightarrow> goerr option) \<Rightarrow> (string list \<Rightarrow> goerr option) \<Rightarrow> service list \<Rightarrow> goerr option \<times> cc_call list" where
  "push_state validate update services =
    (case update_resolver_state validate services of
       Inl err \<Rightarrow> (Some err, [])
     | Inr addresses \<Rightarrow> (update addresses, [UpdateState addresses]))"

text \<open>The goroutine: an update that fails is reported.\<close>

fun follow_snapshots ::
  "(string list \<Rightarrow> goerr option) \<Rightarrow> (string list \<Rightarrow> goerr option) \<Rightarrow> upstream_snapshot list \<Rightarrow> cc_call list" where
  "follow_snapshots validate update [] = []"
| "follow_snapshots validate update (sn # sns) =
    (case push_state validate update (us_services sn) of
       (None, calls) \<Rightarrow> calls
     | (Some err, calls) \<Rightarrow> calls @ [ReportError err]) @ follow_snapshots validate update sns"

datatype watch_fate = WatchNotStarted | WatchCancelled | WatchRunning

record build_result =
  bd_error :: "goerr option"
  bd_calls :: "cc_call list"
  bd_watch :: watch_fate

text \<open>
  \<open>Build\<close> for the endpoint of a target. \<open>watch\<close> gives the snapshots the channel delivers until it
  is closed; the channel of a watch that could not start is an error. The builder and its registry
  may be nil (\<open>None\<close>).
\<close>

definition resolver_build ::
  "(string list \<Rightarrow> goerr option) \<Rightarrow> (string list \<Rightarrow> goerr option) \<Rightarrow>
    (string \<Rightarrow> watch_options \<Rightarrow> goerr + upstream_snapshot list) option \<Rightarrow> resolver_builder option \<Rightarrow>
    string \<Rightarrow> build_result" where
  "resolver_build validate update registry builder endpoint =
    (case (registry, builder) of
       (Some watch, Some b) \<Rightarrow>
         (case service_target endpoint of
            Inl err \<Rightarrow> \<lparr>bd_error = Some err, bd_calls = [], bd_watch = WatchNotStarted\<rparr>
          | Inr service \<Rightarrow>
             (case watch service (builder_watch_options b) of
                Inl err \<Rightarrow> \<lparr>bd_error = Some (Wrapf ''grpcx: watch registry service %s: %w'' err),
                            bd_calls = [], bd_watch = WatchCancelled\<rparr>
              | Inr [] \<Rightarrow> \<lparr>bd_error = Some (Errorf ''grpcx: registry service %s returned no initial snapshot''),
                            bd_calls = [], bd_watch = WatchCancelled\<rparr>
              | Inr (sn # sns) \<Rightarrow>
                  (case push_state validate update (us_services sn) of
                     (Some err, calls) \<Rightarrow> \<lparr>bd_error = Some err, bd_calls = calls, bd_watch = WatchCancelled\<rparr>
                   | (None, calls) \<Rightarrow>
                       \<lparr>bd_error = None, bd_calls = calls @ follow_snapshots validate update sns,
                        bd_watch = WatchRunning\<rparr>)))
     | _ \<Rightarrow> \<lparr>bd_error = Some (Errorf ''grpcx: registry resolver requires a registry''),
             bd_calls = [], bd_watch = WatchNotStarted\<rparr>)"

text \<open>
  \<open>Close\<close> cancels the watch and waits for the goroutine, once; a nil resolver is ignored.
\<close>

record registry_resolver =
  rr_watch :: watch_fate
  rr_once :: bool
  rr_waits :: nat

definition resolver_close :: "registry_resolver option \<Rightarrow> registry_resolver option" where
  "resolver_close r =
    map_option (\<lambda>r. if rr_once r then r
                    else r\<lparr>rr_watch := WatchCancelled, rr_once := True, rr_waits := rr_waits r + 1\<rparr>) r"

subsection \<open>Dialing through a resolver\<close>

text \<open>
  The wait of \<open>dialContextWithResolver\<close>, with whether the connection stays open: it is closed on
  both failures.
\<close>

fun await_conn :: "conn_state list \<Rightarrow> goerr option \<times> bool" where
  "await_conn [] = (Some (Wrapf ''grpcx: connect %s: %w'' ctx_deadline), False)"
| "await_conn (st # sts) =
    (if st = ConnReady then (None, True)
     else if st = ConnShutdown then (Some (Errorf ''grpcx: connection shut down before ready''), False)
     else await_conn sts)"

text \<open>The timeout of the options bounds the wait when it is positive.\<close>

definition dial_with_resolver ::
  "(duration \<Rightarrow> string) \<Rightarrow> (client_setup \<Rightarrow> goerr + conn_state list) \<Rightarrow> string \<Rightarrow> dial_option \<Rightarrow>
    resolver_builder option \<Rightarrow> goerr option \<times> bool" where
  "dial_with_resolver seconds new_client addr opt builder =
    (case prepare_client seconds (builder \<noteq> None) addr opt of
       Inl err \<Rightarrow> (Some err, False)
     | Inr client \<Rightarrow>
        (case new_client client of
           Inl err \<Rightarrow> (Some err, False)
         | Inr states \<Rightarrow> await_conn states))"

subsection \<open>Nothing is left behind\<close>

lemma await_conn_ready: "await_conn sts = (err, kept) \<Longrightarrow> await_ready sts = err \<and> (kept \<longleftrightarrow> err = None)"
  by (induction sts rule: await_conn.induct) (auto split: if_splits)

lemma dial_with_resolver_service:
  "service_target service = Inr name \<Longrightarrow>
    dial_service seconds new_client service opts =
      fst (dial_with_resolver seconds new_client (''registry:///'' @ name) (normalize_dial_option opts)
        (Some (service_builder (normalize_dial_option opts))))"
  by (auto simp: dial_service_def dial_with_resolver_def dial_prepared_def await_conn_ready prod_eq_iff
      split: sum.split)

lemma dial_leaves_no_connection:
  "dial_with_resolver seconds new_client addr opt builder = (err, kept) \<Longrightarrow> kept \<longleftrightarrow> err = None"
  by (auto simp: dial_with_resolver_def await_conn_ready split: sum.splits)

lemma resolver_close_idem: "resolver_close (resolver_close r) = resolver_close r"
  by (cases r) (simp_all add: resolver_close_def)

text \<open>The addresses gRPC was given last.\<close>

fun last_update :: "cc_call list \<Rightarrow> string list option" where
  "last_update [] = None"
| "last_update (c # cs) =
    (case last_update cs of Some a \<Rightarrow> Some a | None \<Rightarrow> (case c of UpdateState a \<Rightarrow> Some a | ReportError e \<Rightarrow> None))"

lemma last_update_append: "last_update (xs @ ys) = (case last_update ys of Some a \<Rightarrow> Some a | None \<Rightarrow> last_update xs)"
  by (induction xs) (auto split: option.split)

lemma push_state_last:
  assumes "\<And>addresses. validate addresses \<noteq> None \<longleftrightarrow> addresses = []"
  shows "push_state validate update services =
    (update (resolver_addresses services), [UpdateState (resolver_addresses services)])"
proof (cases "validate (resolver_addresses services)")
  case (Some err)
  then have "resolver_addresses services = []"
    using assms by blast
  with Some show ?thesis
    by (simp add: push_state_def update_resolver_state_def)
qed (simp add: push_state_def update_resolver_state_def)

lemma follow_last:
  assumes "\<And>addresses. validate addresses \<noteq> None \<longleftrightarrow> addresses = []" and "sns \<noteq> []"
  shows "last_update (follow_snapshots validate update sns) = Some (resolver_addresses (us_services (last sns)))"
  using assms(2)
proof (induction sns)
  case (Cons sn sns)
  then show ?case
    by (cases "sns = []") (auto simp: push_state_last [OF assms(1)] last_update_append split: option.split)
qed simp

text \<open>
  What \<open>Build\<close> leaves behind. A build that fails has stopped the watch if it had started one and
  gave gRPC at most the first snapshot; a build that succeeds keeps gRPC on the addresses of the
  latest snapshot, whatever errors gRPC returned for the ones before, and its watch runs until the
  resolver is closed.
\<close>

lemma resolver_build_follows:
  assumes "\<And>addresses. validate addresses \<noteq> None \<longleftrightarrow> addresses = []"
    and "resolver_build validate update registry builder endpoint = r"
  shows "(bd_error r \<noteq> None \<longleftrightarrow> bd_watch r \<noteq> WatchRunning) \<and>
    (bd_error r \<noteq> None \<longrightarrow> length (bd_calls r) \<le> 1) \<and>
    (bd_error r = None \<longrightarrow>
       (\<exists>watch b service sns. registry = Some watch \<and> builder = Some b \<and> service_target endpoint = Inr service \<and>
          watch service (builder_watch_options b) = Inr sns \<and> sns \<noteq> [] \<and>
          last_update (bd_calls r) = Some (resolver_addresses (us_services (last sns)))))"
proof -
  have calls: "last_update (UpdateState (resolver_addresses (us_services sn)) # follow_snapshots validate update sns) =
      Some (resolver_addresses (us_services (last (sn # sns))))" for sn sns
    by (cases "sns = []") (simp_all add: follow_last [OF assms(1)])
  show ?thesis
    using assms(2) calls
    by (auto simp: resolver_build_def push_state_last [OF assms(1)] split: option.splits sum.splits list.splits)
qed

end
