(* ===== verification/Boot_Registry.thy ===== *)
theory Boot_Registry
  imports Config Consul_Registry Operational
begin

text \<open>
  How \<open>boot.New\<close> opens its registry (\<open>boot/app.go\<close>, \<open>boot/config.go\<close>) and what that means for the
  health of the instance: the check Consul makes of it and the route that answers the check.
\<close>

definition boot_check_type :: "boot_registry_config \<Rightarrow> string" where
  "boot_check_type r =
    (if trim_space (rg_check_type r) = [] then ''http'' else to_lower (trim_space (rg_check_type r)))"

text \<open>The settings of the registry: those of boot, but for the check type and its default.\<close>

definition boot_registry_settings :: "boot_registry_config \<Rightarrow> registry_config" where
  "boot_registry_settings r = (registry_config.truncate r)\<lparr>rg_check_type := boot_check_type r\<rparr>"

definition open_boot_registry ::
  "(string \<times> (registry_config \<Rightarrow> goerr + 'r)) list \<Rightarrow> boot_registry_config \<Rightarrow> goerr + 'r option" where
  "open_boot_registry factories r =
    (if rg_enable r \<and> (rg_endpoints r \<noteq> [] \<or> rg_address r \<noteq> [])
     then (case registry_new factories (boot_registry_settings r) of
         Inl err \<Rightarrow> Inl (Wrapf ''registry init: %w'' err)
       | Inr reg \<Rightarrow> Inr (Some reg))
     else Inr None)"

lemma truncated_fields:
  "rg_check_path (registry_config.truncate r) = rg_check_path r"
  "rg_check_tls (registry_config.truncate r) = rg_check_tls r"
  "rg_ttl (registry_config.truncate r) = rg_ttl r"
  by (simp_all add: registry_config.truncate_def)

text \<open>The backend is the one the remote configuration comes from.\<close>

lemma boot_registry_type: "registry_type (boot_registry_settings r) = registry_type (registry_config.truncate r)"
  by (simp add: boot_registry_settings_def registry_type_def)

lemma no_backend_no_registry:
  assumes "map_of factories (registry_type (registry_config.truncate r)) = None" and "rg_enable r" and "rg_address r \<noteq> []"
  shows "\<exists>err. open_boot_registry factories r = Inl err"
  using assms boot_registry_type [of r] by (simp add: open_boot_registry_def registry_new_def)

text \<open>
  C18. Consul sees the readiness of a booted service: when nothing is said about checks, Consul is
  asked to query \<open>/ready\<close> of the service over HTTP, no goroutine reports the instance as alive on its
  own, and what the service answers there is 200 exactly while it is ready, so an instance that is
  starting, has failing dependencies or drains is not among the healthy ones. (On its own the
  registry would fall back to a check that the process refreshes without asking about readiness.)
\<close>

theorem consul_sees_readiness:
  assumes "trim_space (rg_check_type r) = []" and "rg_check_path r = []" and "\<not> rg_check_tls r"
    and "\<not> has_route rs ''GET'' ''/ready''"
  shows "(case consul_service_check url_string (boot_registry_settings r) check_id addr of
       Inl err \<Rightarrow> False
     | Inr (check, keeps) \<Rightarrow>
         \<not> keeps \<and> ck_ttl check = [] \<and> ck_http check = url_string ''http'' addr ''/ready'') \<and>
    (case serve_operational user ready_flag readiness_ok rs ''/ready'' of
       None \<Rightarrow> False
     | Some (status, _) \<Rightarrow> status = (if ready_flag \<and> readiness_ok then 200 else 503)) \<and>
    (case consul_service_check url_string (registry_config.truncate r) check_id addr of
       Inl err \<Rightarrow> False
     | Inr (check, keeps) \<Rightarrow> keeps \<and> ck_http check = [])"
proof -
  have lower: "lower_char CHR ''h'' = CHR ''h''" "lower_char CHR ''t'' = CHR ''t''" "lower_char CHR ''p'' = CHR ''p''"
      "trim_space ''http'' = ''http''"
    by code_simp+
  have own: "consul_check_type (boot_registry_settings r) = Inr ''http''"
    using assms(1) by (simp add: consul_check_type_def boot_registry_settings_def boot_check_type_def lower)
  have plain: "consul_check_type (registry_config.truncate r) = Inr ''ttl''"
    using assms(1) by (simp add: consul_check_type_def registry_config.truncate_def lower)
  have path: "registry_check_path (boot_registry_settings r) = ''/ready''" "\<not> rg_check_tls (boot_registry_settings r)"
    using assms(2,3) by (simp_all add: registry_check_path_def boot_registry_settings_def truncated_fields)
  have ready: "ready_guard ready_flag readiness_ok ''/ready'' =
      (if ready_flag \<and> readiness_ok then None else Some (503, ''not-ready''))"
    by (simp add: ready_guard_def)
  have route: "route_for (ensure_operational_routes rs) ''GET'' ''/ready'' = Some AnswerReady"
    using assms(4) by (simp add: ensure_operational_routes_def route_for_ensure has_route_for split: option.split)
  show ?thesis
    by (simp add: consul_service_check_def own plain path consul_check_url_def Let_def serve_operational_def ready
        route operational_answer_def)
qed

theorem consul_sees_readiness_witness:
  "(case consul_service_check (\<lambda>scheme host path. scheme @ ''://'' @ host @ path)
      (boot_registry_settings (demo_boot_registry [] [])) ''service:u1'' ''10.0.1.5:7801'' of
     Inl err \<Rightarrow> False
   | Inr (check, keeps) \<Rightarrow> ck_http check = ''http://10.0.1.5:7801/ready'')"
proof -
  have "trim_space (rg_check_type (demo_boot_registry [] [])) = []" "rg_check_path (demo_boot_registry [] []) = []"
      "\<not> rg_check_tls (demo_boot_registry [] [])"
    by (simp_all add: demo_boot_registry_def)
  from consul_sees_readiness [OF this, where url_string = "\<lambda>scheme host path. scheme @ ''://'' @ host @ path"
      and rs = "[] :: unit routes" and check_id = "''service:u1''" and addr = "''10.0.1.5:7801''"]
  show ?thesis
    by (auto simp: has_route_def split: sum.splits)
qed

end
