(* ===== verification/Pprof_Routes.thy ===== *)
theory Pprof_Routes
  imports Diagnostics
begin

text \<open>
  The profiles on the two servers of \<open>diagnostics/pprof.go\<close>: the handler of a listener of its own
  (\<open>HandlerWithAccess\<close>, a \<open>http.ServeMux\<close>) and the routes on the application
  (\<open>RegisterPprofWithAccess\<close>, a gin group behind \<open>ginAccessMiddleware\<close>). Paths are clean, as both
  routers redirect the others, and the prefix has no wildcards of either router.
\<close>

datatype pprof_page = PageIndex | PageCmdline | PageProfile | PageSymbol | PageTrace | PageNamed string

definition named_profiles :: "string list" where
  "named_profiles = [''allocs'', ''block'', ''goroutine'', ''heap'', ''mutex'', ''threadcreate'']"

definition mux_patterns :: "string \<Rightarrow> (string \<times> pprof_page) list" where
  "mux_patterns p =
    [(p, PageIndex), (p @ ''/'', PageIndex), (p @ ''/cmdline'', PageCmdline), (p @ ''/profile'', PageProfile),
     (p @ ''/symbol'', PageSymbol), (p @ ''/trace'', PageTrace)] @
    map (\<lambda>name. (p @ ''/'' @ name, PageNamed name)) named_profiles"

text \<open>A pattern matches its path, one that ends in a slash every path below it; the longest wins.\<close>

definition mux_page :: "string \<Rightarrow> string \<Rightarrow> pprof_page option" where
  "mux_page p path =
    (case map_of (mux_patterns p) path of
       Some page \<Rightarrow> Some page
     | None \<Rightarrow> if prefix (p @ ''/'') path then Some PageIndex else None)"

definition gin_routes :: "string \<Rightarrow> ((string \<times> string) \<times> pprof_page) list" where
  "gin_routes p =
    [((''GET'', p), PageIndex), ((''GET'', p @ ''/''), PageIndex), ((''GET'', p @ ''/cmdline''), PageCmdline),
     ((''GET'', p @ ''/profile''), PageProfile), ((''POST'', p @ ''/symbol''), PageSymbol),
     ((''GET'', p @ ''/symbol''), PageSymbol), ((''GET'', p @ ''/trace''), PageTrace),
     ((''GET'', p @ ''/allocs''), PageNamed ''allocs''), ((''GET'', p @ ''/block''), PageNamed ''block''),
     ((''GET'', p @ ''/goroutine''), PageNamed ''goroutine''), ((''GET'', p @ ''/heap''), PageNamed ''heap''),
     ((''GET'', p @ ''/mutex''), PageNamed ''mutex''), ((''GET'', p @ ''/threadcreate''), PageNamed ''threadcreate'')]"

datatype pprof_answer = Served pprof_page | Refused403 | NotFound404

definition listener_answer ::
  "('ip, 'net) net_lib \<Rightarrow> string \<Rightarrow> string \<Rightarrow> string list \<Rightarrow> pprof_request \<Rightarrow> string \<Rightarrow> pprof_answer" where
  "listener_answer lib pfx token allowed req path =
    (if \<not> pprof_served lib token allowed req then Refused403
     else (case mux_page (normalize_prefix pfx) path of Some page \<Rightarrow> Served page | None \<Rightarrow> NotFound404))"

definition gin_access :: "('ip, 'net) net_lib \<Rightarrow> string \<Rightarrow> string list \<Rightarrow> pprof_request \<Rightarrow> bool" where
  "gin_access lib token allowed_cidrs req =
    (case parse_cidrs lib allowed_cidrs of (allowed, invalid) \<Rightarrow>
       \<not> (invalid \<or> (allowed = [] \<and> token = []) \<or> \<not> source_allowed lib req allowed \<or> \<not> token_allowed req token))"

text \<open>The middleware belongs to the group, so only its routes are behind it.\<close>

definition gin_answer ::
  "('ip, 'net) net_lib \<Rightarrow> string \<Rightarrow> string \<Rightarrow> string list \<Rightarrow> pprof_request \<Rightarrow> string \<Rightarrow> string \<Rightarrow> pprof_answer" where
  "gin_answer lib pfx token allowed req meth path =
    (case map_of (gin_routes (normalize_prefix (if pfx = [] then ''/debug/pprof'' else pfx))) (meth, path) of
       None \<Rightarrow> NotFound404
     | Some page \<Rightarrow> if gin_access lib token allowed req then Served page else Refused403)"

lemma gin_access_served: "gin_access lib token allowed req = pprof_served lib token allowed req"
  by (simp add: gin_access_def pprof_served_def split_def Let_def)

lemma normalize_default: "normalize_prefix (if pfx = [] then ''/debug/pprof'' else pfx) = normalize_prefix pfx"
proof -
  have "normalize_prefix ''/debug/pprof'' = normalize_prefix []"
    by code_simp
  then show ?thesis by simp
qed

text \<open>
  The two servers agree: a page the application serves is the one the listener serves for the same
  request, behind the same checks, and for a GET the application serves every page the listener
  has a pattern for. The listener answers other paths below the prefix, and other methods, as well.
\<close>

theorem pprof_servers_agree:
  "(\<forall>page. gin_answer lib pfx token allowed req meth path = Served page \<longrightarrow>
      listener_answer lib pfx token allowed req path = Served page \<and> pprof_served lib token allowed req) \<and>
   (path \<in> set (pprof_routes pfx) \<longrightarrow>
      gin_answer lib pfx token allowed req ''GET'' path = listener_answer lib pfx token allowed req path)"
proof -
  let ?p = "normalize_prefix pfx"
  have one: "map_of (mux_patterns ?p) path = Some page"
    if "map_of (gin_routes ?p) (meth, path) = Some page" for page
    using that by (auto simp: gin_routes_def mux_patterns_def named_profiles_def split: if_splits)
  have two: "map_of (gin_routes ?p) (''GET'', path) = map_of (mux_patterns ?p) path \<and> map_of (mux_patterns ?p) path \<noteq> None"
    if "path \<in> set (pprof_routes pfx)"
    using that by (auto simp: gin_routes_def mux_patterns_def named_profiles_def pprof_routes_def pprof_handlers_def)
  show ?thesis
    using one two
    by (auto simp: gin_answer_def listener_answer_def mux_page_def gin_access_served normalize_default
        split: option.splits if_splits)
qed

end
