(* ===== verification/Limiter_Life.thy ===== *)
theory Limiter_Life
  imports Rate_Limit
begin

text \<open>
  The life of a limiter's cleanup goroutine, \<open>mid/ratelimit.go\<close>: \<open>newRateLimiter\<close> with and without
  it, \<open>cleanupLoop\<close>, and \<open>Close\<close>, which stops the goroutine once and waits for it.
\<close>

record limiter_life =
  ll_limiter :: rate_limiter
  ll_running :: bool
  ll_stop :: bool
  ll_done :: bool
  ll_once :: bool
  ll_waiting :: nat

definition start_limiter :: "bool \<Rightarrow> int \<Rightarrow> duration \<Rightarrow> limiter_life" where
  "start_limiter cleanup mx window =
    \<lparr>ll_limiter = new_rate_limiter mx window, ll_running = cleanup, ll_stop = False, ll_done = \<not> cleanup,
     ll_once = False, ll_waiting = 0\<rparr>"

text \<open>
  A tick and the end of the loop; when both channels are ready, \<open>select\<close> takes either. A call of
  \<open>Close\<close>: the first closes \<open>stop\<close> and waits for \<open>done\<close>, and later ones wait for the first.
\<close>

definition cleanup_tick :: "instant \<Rightarrow> limiter_life \<Rightarrow> limiter_life" where
  "cleanup_tick now s = s\<lparr>ll_limiter := cleanup_expired now (ll_limiter s)\<rparr>"

definition cleanup_end :: "limiter_life \<Rightarrow> limiter_life" where
  "cleanup_end s = s\<lparr>ll_running := False, ll_done := True\<rparr>"

definition close_begin :: "limiter_life \<Rightarrow> limiter_life" where
  "close_begin s =
    (if ll_once s then s\<lparr>ll_waiting := ll_waiting s + 1\<rparr>
     else s\<lparr>ll_once := True, ll_stop := True, ll_waiting := ll_waiting s + 1\<rparr>)"

definition close_return :: "limiter_life \<Rightarrow> limiter_life" where
  "close_return s = s\<lparr>ll_waiting := ll_waiting s - 1\<rparr>"

inductive life_step :: "limiter_life \<Rightarrow> limiter_life \<Rightarrow> bool" where
  life_tick: "ll_running s \<Longrightarrow> life_step s (cleanup_tick now s)"
| life_end: "ll_running s \<Longrightarrow> ll_stop s \<Longrightarrow> life_step s (cleanup_end s)"
| life_close: "life_step s (close_begin s)"
| life_return: "0 < ll_waiting s \<Longrightarrow> ll_done s \<Longrightarrow> life_step s (close_return s)"
| life_request: "life_step s (s\<lparr>ll_limiter := rate_next (RateRequest now ip) (ll_limiter s)\<rparr>)"

inductive_cases life_stepE: "life_step s s'"

definition life_ok :: "limiter_life \<Rightarrow> bool" where
  "life_ok s \<longleftrightarrow> (ll_done s \<longleftrightarrow> \<not> ll_running s) \<and> (ll_stop s \<longleftrightarrow> ll_once s) \<and> (0 < ll_waiting s \<longrightarrow> ll_stop s)"

lemma start_life_ok: "life_ok (start_limiter cleanup mx window)"
  by (simp add: life_ok_def start_limiter_def)

interpretation limiter_life: step_invariant life_step life_ok
proof
  fix s s'
  assume "life_step s s'" and "life_ok s"
  then show "life_ok s'"
    by (cases rule: life_step.cases)
      (auto simp: life_ok_def cleanup_tick_def cleanup_end_def close_begin_def close_return_def)
qed

text \<open>
  Closing always returns and stops the cleanup for good: after a call of \<open>Close\<close>, on a limiter made
  with or without the goroutine, the goroutine has ended or can end at once, so no caller waits for
  ever; once it has ended, every waiting call can return and no step runs the cleanup again.
\<close>

lemma life_done_stays: "life_step s s' \<Longrightarrow> ll_done s \<Longrightarrow> \<not> ll_running s \<Longrightarrow> ll_done s' \<and> \<not> ll_running s'"
  by (cases rule: life_step.cases)
    (auto simp: cleanup_tick_def cleanup_end_def close_begin_def close_return_def split: if_splits)

theorem limiter_close_returns:
  assumes "life_step\<^sup>*\<^sup>* (start_limiter cleanup mx window) s" and "0 < ll_waiting s"
  shows "(ll_done s \<and> life_step s (close_return s)) \<or>
    (\<not> ll_done s \<and> life_step s (cleanup_end s) \<and> life_step (cleanup_end s) (close_return (cleanup_end s)))"
proof -
  have ok: "life_ok s"
    using limiter_life.steps_keep [OF assms(1) start_life_ok] .
  show ?thesis
  proof (cases "ll_done s")
    case True
    then show ?thesis
      using assms(2) life_return by blast
  next
    case False
    then have "ll_running s" "ll_stop s"
      using ok assms(2) by (auto simp: life_ok_def)
    then have "life_step s (cleanup_end s)"
      by (rule life_end)
    moreover have "life_step (cleanup_end s) (close_return (cleanup_end s))"
      using assms(2) by (intro life_return) (simp_all add: cleanup_end_def)
    ultimately show ?thesis
      using False by blast
  qed
qed

end
