(* ===== verification/Stream_Trace.thy ===== *)
theory Stream_Trace
  imports Stream_Group Telemetry
begin

text \<open>
  Tracing across a stream, \<open>contrib/stream/redis/telemetry.go\<close> and the spans of \<open>stream.go\<close>: the
  provider a context carries, the fields a message takes along, and the context a consumer restores
  from them. The propagator and its trace contexts (\<open>'c\<close>) are a parameter.
\<close>

subsection \<open>Contexts\<close>

record 'c propagator =
  pr_inject :: "'c \<Rightarrow> (string \<times> string) list"
  pr_extract :: "'c \<Rightarrow> (string \<rightharpoonup> string) \<Rightarrow> 'c"

record 'c stream_ctx =
  sx_provider :: "'c propagator option"
  sx_trace :: 'c



definition restored_carrier :: "'v fields_map \<Rightarrow> string \<rightharpoonup> string" where
  "restored_carrier vals key =
    (if key \<in> {''traceparent'', ''tracestate''}
     then (case map_of vals key of
         Some (FieldString value) \<Rightarrow> if trim_space value \<noteq> [] then Some value else None
       | _ \<Rightarrow> None)
     else None)"


subsection \<open>Spans\<close>

definition with_span_kind ::
  "bool \<Rightarrow> string \<Rightarrow> string \<Rightarrow> ('x \<Rightarrow> stream_error option) \<Rightarrow> ('r \<Rightarrow> 'x \<times> 'r) \<Rightarrow> 'r \<Rightarrow> 'x \<times> span option \<times> 'r" where
  "with_span_kind has_provider name stream err_of fn r =
    (case in_span has_provider name [(''messaging.system'', ''redis''), (''messaging.destination.name'', stream)]
        (Some (\<lambda>(_, r). case fn r of (x, r) \<Rightarrow>
           (map_option (\<lambda>e. Errorf (stream_error_text e)) (err_of x), Some x, r))) (None, r) of
       (_, s, x, r) \<Rightarrow> (the x, s, r))"


definition ack_traced ::
  "'c stream_ctx \<Rightarrow> ('v, 'r) stream_api option \<Rightarrow> string \<Rightarrow> string \<Rightarrow> string list \<Rightarrow> 'r \<Rightarrow>
    stream_error option \<times> span option \<times> 'r" where
  "ack_traced ctx rdb stream grp ids r =
    (case rdb of
       None \<Rightarrow> (Some client_required, None, r)
     | Some api \<Rightarrow>
        (case validate_stream_name stream of
           Some e \<Rightarrow> (Some e, None, r)
         | None \<Rightarrow>
            if ids = [] then (None, None, r)
            else with_span_kind (sx_provider ctx \<noteq> None) ''redis.stream.ack'' stream (\<lambda>e. e)
                   (sa_ack api stream grp ids) r))"

subsection \<open>Spans only observe\<close>

lemma with_span_kind_result:
  assumes "fn r = (x, r')"
  shows "with_span_kind has_provider name stream err_of fn r =
    (x, if has_provider then Some (end_span (record_error
          (map_option (\<lambda>e. Errorf (stream_error_text e)) (err_of x)) None
          (set_attrs [(''messaging.system'', ''redis''), (''messaging.destination.name'', stream)] (start_span name))))
        else None, r')"
  by (simp add: with_span_kind_def in_span_def assms)


lemma ack_traced_result:
  "\<exists>s. ack_traced ctx rdb stream grp ids r = (fst (ack rdb stream grp ids r), s, snd (ack rdb stream grp ids r))"
proof -
  have "\<exists>s. with_span_kind p n stream f (sa_ack api stream grp ids) r =
      (fst (sa_ack api stream grp ids r), s, snd (sa_ack api stream grp ids r))" for api p n f
    by (subst with_span_kind_result [OF prod.collapse [symmetric]]) simp
  then show ?thesis
    by (auto simp: ack_traced_def ack_def split: option.split)
qed

subsection \<open>A trace crosses a stream\<close>










text \<open>
  Of what else a propagator writes, baggage for one, a message takes everything along and the
  consumer restores nothing.
\<close>

lemma other_keys_not_restored: "k \<notin> {''traceparent'', ''tracestate''} \<Longrightarrow> restored_carrier vals k = None"
  by (simp add: restored_carrier_def)





end
