(* ===== verification/Log_Calls.thy ===== *)
theory Log_Calls
  imports Logging
begin

text \<open>
  The calls of the logger, \<open>log/log.go\<close> and \<open>log/slog.go\<close>: the package functions go to the global
  logger, whose handler drops what is below its level and adds the trace of the context. A custom
  logger is a function; what it does with a call is its own affair.
\<close>

datatype severity = SevDebug | SevInfo | SevWarn | SevError

record log_line =
  ln_writer :: log_writer
  ln_json :: bool
  ln_severity :: severity
  ln_message :: string
  ln_record :: log_record

definition level_enabled :: "log_level \<Rightarrow> severity \<Rightarrow> bool" where
  "level_enabled l sev = (case l of LevelDebug \<Rightarrow> True | LevelInfo \<Rightarrow> sev \<noteq> SevDebug)"

text \<open>\<open>Debug\<close> to \<open>Error\<close> call with the background context (\<open>None\<close>), the others with the caller's.\<close>

definition slog_call ::
  "meta_ctx option \<Rightarrow> instant \<Rightarrow> severity \<Rightarrow> string \<Rightarrow> (string \<times> string) list \<Rightarrow> slog_logger \<Rightarrow> log_line list" where
  "slog_call ctx now sev msg args l =
    (if \<not> level_enabled (sl_level l) sev then []
     else [\<lparr>ln_writer = sl_writer l, ln_json = sl_json l, ln_severity = sev, ln_message = msg,
            ln_record = trace_handle ctx now \<lparr>lr_time = now, lr_attrs = sl_attrs l @ args\<rparr>\<rparr>])"

definition with_logger :: "('c logger \<Rightarrow> log_line list) \<Rightarrow> 'c log_world \<Rightarrow> log_line list" where
  "with_logger fn w = fn (lw_global w)"

definition log_call ::
  "('c \<Rightarrow> severity \<Rightarrow> string \<Rightarrow> log_line list) \<Rightarrow> meta_ctx option \<Rightarrow> instant \<Rightarrow> severity \<Rightarrow> string \<Rightarrow>
    (string \<times> string) list \<Rightarrow> 'c log_world \<Rightarrow> log_line list" where
  "log_call custom ctx now sev msg args =
    with_logger (\<lambda>l. case l of Slog s \<Rightarrow> slog_call ctx now sev msg args s | Custom c \<Rightarrow> custom c sev msg)"

text \<open>
  What a line carries after \<open>Init\<close>: the name of the service, the attributes of the call and the trace
  of its context, in this order; in release mode debug lines are dropped and nothing else is.
\<close>

lemma log_call_after_init:
  "log_call custom ctx now sev msg args (log_init mode service_name output f w) =
    (if (mode = ''release'' \<or> mode = ''production'') \<and> sev = SevDebug then []
     else [\<lparr>ln_writer = sl_writer (new_slog_logger (lw_next w) mode service_name output f),
            ln_json = (mode = ''release'' \<or> mode = ''production''), ln_severity = sev, ln_message = msg,
            ln_record = \<lparr>lr_time = now,
              lr_attrs = (if service_name \<noteq> [] then [(''service'', service_name)] else []) @ args @
                (case ctx of None \<Rightarrow> [] | Some c \<Rightarrow> if mx_log_trace c \<noteq> [] then [(''trace_id'', mx_log_trace c)] else [])\<rparr>\<rparr>])"
  by (auto simp: log_call_def with_logger_def log_init_def close_output_def closer_of_def slog_call_def
      level_enabled_def new_slog_logger_def trace_handle_def Let_def split: option.split)

lemma with_attrs_kept:
  "slog_call ctx now sev msg args (slog_with attrs l) = slog_call ctx now sev msg (attrs @ args) l"
  by (simp add: slog_call_def slog_with_def)

end
