(* ===== verification/Config_Load.thy ===== *)
theory Config_Load
  imports Config
begin

text \<open>
  Loading a configuration file, \<open>LoadConfig\<close> and \<open>LoadBaseConfig\<close> of \<open>boot/config.go\<close>. The value to
  fill is given as reflection sees it: a pointer to a \<open>Config\<close>, a pointer to a struct with its
  fields, or anything else (a typed nil \<open>*Config\<close> is \<open>ArgOther\<close>: no base is found in it). Reading the file and decoding it into a value (viper) are parameters.
\<close>

subsection \<open>Values\<close>

text \<open>
  A field is of type \<open>Config\<close>, of type \<open>*Config\<close>, or of another type; the flag says that the field
  is exported, so that reflection may hand it out.
\<close>

datatype 'x go_field = FieldConfig bool boot_config | FieldConfigPtr bool "boot_config option" | FieldPlain 'x

datatype 'x go_arg = ArgNil | ArgConfig boot_config | ArgStruct "'x go_field list" | ArgOther

fun field_base :: "'x go_field \<Rightarrow> boot_config option" where
  "field_base (FieldConfig exported c) = (if exported then Some c else None)"
| "field_base (FieldConfigPtr exported p) = (if p \<noteq> None \<and> exported then p else None)"
| "field_base (FieldPlain x) = None"

fun first_base :: "'x go_field list \<Rightarrow> boot_config option" where
  "first_base [] = None"
| "first_base (f # fs) = (case field_base f of Some c \<Rightarrow> Some c | None \<Rightarrow> first_base fs)"

definition embedded_base_config :: "'x go_arg \<Rightarrow> boot_config option" where
  "embedded_base_config arg =
    (case arg of ArgConfig c \<Rightarrow> Some c | ArgStruct fs \<Rightarrow> first_base fs | _ \<Rightarrow> None)"

text \<open>What a write through the pointer it returned makes of the value.\<close>

fun put_field :: "boot_config \<Rightarrow> 'x go_field \<Rightarrow> 'x go_field" where
  "put_field c (FieldConfig exported _) = FieldConfig exported c"
| "put_field c (FieldConfigPtr exported _) = FieldConfigPtr exported (Some c)"
| "put_field c (FieldPlain x) = FieldPlain x"

fun put_first :: "boot_config \<Rightarrow> 'x go_field list \<Rightarrow> 'x go_field list" where
  "put_first c [] = []"
| "put_first c (f # fs) = (if field_base f \<noteq> None then put_field c f # fs else f # put_first c fs)"

definition put_base :: "boot_config \<Rightarrow> 'x go_arg \<Rightarrow> 'x go_arg" where
  "put_base c arg =
    (case arg of ArgConfig _ \<Rightarrow> ArgConfig c | ArgStruct fs \<Rightarrow> ArgStruct (put_first c fs) | _ \<Rightarrow> arg)"

subsection \<open>Loading\<close>

text \<open>The extension of the path selects YAML; otherwise viper decides by itself.\<close>

definition file_ext :: "string \<Rightarrow> string" where
  "file_ext path =
    (let rest = rev (takeWhile (\<lambda>c. c \<noteq> CHR ''/'') (rev path))
     in if CHR ''.'' \<in> set rest then CHR ''.'' # rev (takeWhile (\<lambda>c. c \<noteq> CHR ''.'') (rev rest)) else [])"

definition config_type :: "string \<Rightarrow> string option" where
  "config_type path = (if file_ext path \<in> {''.yaml'', ''.yml''} then Some ''yaml'' else None)"

record ('f, 'x) file_lib =
  fl_read :: "string \<Rightarrow> string option \<Rightarrow> goerr + 'f"
  fl_decode :: "'f \<Rightarrow> 'x go_arg \<Rightarrow> goerr + 'x go_arg"
  fl_decode_base :: "'f \<Rightarrow> goerr + boot_config"

definition load_config :: "('f, 'x) file_lib \<Rightarrow> env_lib \<Rightarrow> string \<Rightarrow> 'x go_arg \<Rightarrow> goerr option \<times> 'x go_arg" where
  "load_config lib env path arg =
    (case fl_read lib path (config_type path) of
       Inl err \<Rightarrow> (Some (Wrapf ''read config %s: %w'' err), arg)
     | Inr cfgfile \<Rightarrow>
        (case fl_decode lib cfgfile arg of
           Inl err \<Rightarrow> (Some (Wrapf ''unmarshal config: %w'' err), arg)
         | Inr arg \<Rightarrow>
            (case embedded_base_config arg of
               None \<Rightarrow> (None, arg)
             | Some base \<Rightarrow>
                (case validate_inline_secrets base of
                   Some err \<Rightarrow> (Some err, arg)
                 | None \<Rightarrow> (None, put_base (apply_env_overrides env base) arg)))))"

definition load_base_file :: "('f, 'x) file_lib \<Rightarrow> env_lib \<Rightarrow> string \<Rightarrow> goerr + boot_config" where
  "load_base_file lib env path =
    load_base_config env
      (case fl_read lib path (config_type path) of
         Inl err \<Rightarrow> Inl (Wrapf ''read config %s: %w'' err)
       | Inr cfgfile \<Rightarrow>
          (case fl_decode_base lib cfgfile of
             Inl err \<Rightarrow> Inl (Wrapf ''unmarshal config: %w'' err)
           | Inr c \<Rightarrow> Inr c))"

subsection \<open>The two loaders agree\<close>

lemma field_base_put: "field_base f \<noteq> None \<Longrightarrow> field_base (put_field c f) = Some c"
  by (cases f) (auto split: if_splits)

lemma first_base_put: "first_base fs \<noteq> None \<Longrightarrow> first_base (put_first c fs) = Some c"
  by (induction fs) (auto simp: field_base_put split: option.splits)

lemma embedded_base_put: "embedded_base_config arg \<noteq> None \<Longrightarrow> embedded_base_config (put_base c arg) = Some c"
  by (cases arg) (auto simp: embedded_base_config_def put_base_def first_base_put)

lemma put_first_plain: "filter (\<lambda>f. field_base f = None) (put_first c fs) = filter (\<lambda>f. field_base f = None) fs
    \<or> first_base fs = None"
  by (induction fs) (auto simp: field_base_put split: option.splits)

text \<open>
  A service that keeps the configuration in a struct of its own is checked like one that uses it as
  it is: when the struct holds a \<open>Config\<close> that decodes as the plain one would, \<open>LoadConfig\<close> fails
  exactly when \<open>LoadBaseConfig\<close> does and with the same error, and on success the base in the struct is
  the configuration \<open>LoadBaseConfig\<close> gives, with the overrides of the environment.
\<close>

theorem load_config_as_base:
  assumes "\<And>cfgfile. (case fl_decode lib cfgfile arg of
      Inl err \<Rightarrow> fl_decode_base lib cfgfile = Inl err
    | Inr arg' \<Rightarrow> embedded_base_config arg' \<noteq> None \<and> fl_decode_base lib cfgfile = Inr (the (embedded_base_config arg')))"
  shows "(case load_config lib env path arg of
      (Some err, _) \<Rightarrow> load_base_file lib env path = Inl err
    | (None, arg') \<Rightarrow> \<exists>c. embedded_base_config arg' = Some c \<and> load_base_file lib env path = Inr c)"
proof (cases "fl_read lib path (config_type path)")
  case (Inl err)
  then show ?thesis
    by (simp add: load_config_def load_base_file_def load_base_config_def)
next
  case (Inr cfgfile)
  show ?thesis
  proof (cases "fl_decode lib cfgfile arg")
    case (Inl err)
    then show ?thesis
      using Inr assms [of cfgfile] by (simp add: load_config_def load_base_file_def load_base_config_def)
  next
    case (Inr arg')
    then obtain base where base: "embedded_base_config arg' = Some base" "fl_decode_base lib cfgfile = Inr base"
      using assms [of cfgfile] by auto
    then show ?thesis
      using Inr \<open>fl_read lib path (config_type path) = Inr cfgfile\<close> embedded_base_put [of arg']
      by (cases "validate_inline_secrets base")
        (simp_all add: load_config_def load_base_file_def load_base_config_def)
  qed
qed

text \<open>
  The search is one level deep: a \<open>Config\<close> inside a struct that is itself a field, a nil pointer or an
  unexported field is not found, and such a value is loaded without the check of its secrets.
\<close>

lemma deep_config_unchecked:
  assumes "fl_read lib path (config_type path) = Inr cfgfile" and "fl_decode lib cfgfile arg = Inr (ArgStruct fs)"
    and "list_all (\<lambda>f. field_base f = None) fs"
  shows "load_config lib env path arg = (None, ArgStruct fs)"
proof -
  have "first_base fs = None"
    using assms(3) by (induction fs) simp_all
  then show ?thesis
    using assms(1,2) by (simp add: load_config_def embedded_base_config_def)
qed

end
