(* ===== verification/Spec2Isabelle.thy ===== *)
theory Spec2Isabelle
  imports Retry Registry_Watch Resolver Components Remote_Config Jwt_Auth Rate_Limit Stream_Consumer
    Etcd_Registry Consul_Registry Store_Opts Grpc_Policy Grpc_Dial Diagnostics Readiness Lifecycle
    Http_Client Metrics Tls_Config Notify Scaffold Telemetry Migrations
    Access_Log Key_Watch Logging Operational Migrate_Cli Registry_Open
    Middleware_Chain Demo_Tasks Grpc_Server Config_Store Watch_Loops Self_Registration Grpc_Resolver
    Boot_Registry Pprof_Routes Limiter_Life Stream_Trace Log_Calls Config_Load
begin

text \<open>
  A verification development of dilu-go-kit, a toolkit for Go services: bootstrapping and
  configuration, service discovery, clients with retries and circuit breakers, HTTP and gRPC
  middleware, observability, and a scaffolding command. Paths are relative to \<open>src/\<close>.

  \<^bold>\<open>The program and how its parts interact.\<close>
  \<open>boot.New\<close> loads a configuration (\<open>boot/config.go\<close>), lays remote layers from a key-value store
  over it (\<open>boot/remote.go\<close>), checks it and opens telemetry, databases, Redis and the registry;
  \<open>boot.App.Run\<close> starts listeners, registers the instance, follows the remote configuration,
  starts the background components and reports readiness, and takes everything down again. A
  registry backend (\<open>contrib/registry/etcd\<close>, \<open>contrib/registry/consul\<close>) publishes instances and
  turns the changes of a store into events; \<open>registry/registry.go\<close> turns those into snapshots of
  the upstreams with a grace period, from which \<open>registry/resolver.go\<close> picks instances for a client
  and \<open>grpcx/\<close> feeds addresses to gRPC. Outgoing calls go through \<open>clientx/\<close> (retry, breaker, HTTP
  client); incoming ones through \<open>mid/\<close> and \<open>contrib/mid/\<close> (trace, recovery, error mapping, logging,
  JWT, rate limits, deadlines). Metadata, metrics, traces and logs cut across all of them.

  \<^bold>\<open>Theories.\<close>
  \<^item> Shared: \<open>Go_Prelude\<close> (integers of 64 bits, instants, the interface locales, collections of
    hints), \<open>Go_Strings\<close> (byte strings and \<open>strings\<close>), \<open>Go_Conv\<close> (\<open>strconv\<close>, host and port),
    \<open>Go_Errors\<close> (error trees with \<open>errors.Is\<close> and \<open>errors.As\<close>), \<open>Go_Files\<close> (\<open>path/filepath\<close>, disks),
    \<open>Go_Flags\<close> (\<open>flag\<close>), \<open>Go_Utf8\<close> (\<open>unicode/utf8\<close>), \<open>Byte_Reader\<close> (\<open>io.Reader\<close>), \<open>Backoff\<close>.
  \<^item> Clients: \<open>Breaker\<close> (\<open>clientx/breaker.go\<close>), \<open>Retry\<close> (\<open>clientx/client.go\<close>), \<open>Http_Client\<close>
    (\<open>clientx/http.go\<close>), \<open>Grpc_Dial\<close> and \<open>Grpc_Resolver\<close> (\<open>grpcx/dial.go\<close>,
    \<open>grpcx/registry_resolver.go\<close>), \<open>Notify\<close> (\<open>notify/notify.go\<close>).
  \<^item> Discovery: \<open>Registry_Service\<close>, \<open>Registry_Events\<close> and \<open>Registry_Watch\<close> (\<open>registry/registry.go\<close>),
    \<open>Resolver\<close> (\<open>registry/resolver.go\<close>), \<open>Etcd_Registry\<close> and \<open>Etcd_Watch\<close>
    (\<open>contrib/registry/etcd/registry.go\<close>), \<open>Consul_Registry\<close> (\<open>contrib/registry/consul/registry.go\<close>),
    \<open>Watch_Loops\<close> (\<open>Watch\<close> of both with reconnects and failing queries), \<open>Registry_Open\<close> (opening
    both), \<open>Key_Watch\<close> (watches of configuration keys in both).
  \<^item> Bootstrapping: \<open>Config\<close> (\<open>boot/config.go\<close>, \<open>boot/security.go\<close>), \<open>Config_Load\<close>
    (loading into a value that holds a configuration), \<open>Config_Store\<close> (copies of the configuration, over an explicit store), \<open>Remote_Config\<close> (\<open>boot/remote.go\<close> and
    reloads), \<open>Components\<close> (\<open>boot/components.go\<close>), \<open>Readiness\<close> and \<open>Lifecycle\<close>
    (\<open>boot/app.go\<close>), \<open>Tls_Config\<close> (\<open>boot/tls.go\<close>, \<open>registry/tls.go\<close>, \<open>boot/db.go\<close>, \<open>boot/redis.go\<close>),
    \<open>Diagnostics\<close> and \<open>Pprof_Routes\<close> (\<open>diagnostics/pprof.go\<close>), \<open>Operational\<close> (health routes,
    \<open>buildinfo/\<close>), \<open>Boot_Registry\<close> (the registry \<open>New\<close> opens, with the check Consul makes of the
    service), \<open>Self_Registration\<close> (the instance \<open>Run\<close> registers, from the configuration to the
    validation of the registry).
  \<^item> Servers: \<open>App_Errors\<close> (\<open>apperr/\<close>, \<open>resp/\<close>, \<open>clientx/grpc.go\<close>, \<open>mid/error.go\<close>),
    \<open>Request_Metadata\<close> (\<open>metadata/\<close>, \<open>mid/trace.go\<close>, \<open>mid/grpc.go\<close>), \<open>Jwt_Auth\<close>
    (\<open>contrib/mid/jwt\<close>), \<open>Rate_Limit\<close> and \<open>Limiter_Life\<close> (\<open>mid/ratelimit.go\<close> and its Redis
    variant), \<open>Grpc_Policy\<close> (\<open>mid/grpc_policy.go\<close>, \<open>mid/grpc_client.go\<close>, \<open>mid/bodylimit.go\<close>),
    \<open>Grpc_Server\<close> (every gRPC interceptor around a call, and the chains of servers and clients),
    \<open>Access_Log\<close> (\<open>mid/logger.go\<close>), \<open>Middleware_Chain\<close> (CORS of \<open>mid/recovery.go\<close> and the whole chain
    of \<open>mid/default.go\<close> on one request).
  \<^item> Data: \<open>Store_Opts\<close> (\<open>store/opts.go\<close>), \<open>Stream_Group\<close>, \<open>Stream_Trace\<close> and \<open>Stream_Consumer\<close>
    (\<open>contrib/stream/redis\<close>), \<open>Migrations\<close> and \<open>Migrate_Cli\<close>
    (\<open>contrib/migrate/postgres\<close>).
  \<^item> Observability and tools: \<open>Metrics\<close> (\<open>metrics/metrics.go\<close>), \<open>Telemetry\<close> (\<open>telemetry/\<close>,
    \<open>contrib/telemetry/\<close>), \<open>Logging\<close> and \<open>Log_Calls\<close> (\<open>log/\<close>), \<open>Scaffold\<close> (\<open>cmd/dilu/main.go\<close>).
  \<^item> A service on top: \<open>Demo_Tasks\<close> (\<open>example/internal/demo\<close>: routes, handlers, services and stores
    behind the JWT middleware).

  \<^bold>\<open>How code becomes definitions.\<close>
  A struct is a record whose fields carry a short prefix, an enumeration a datatype, an error a
  value of \<open>goerr\<close>; a function that returns a value and an error gives a sum, one that mutates
  gives the new state beside its result. Go's \<open>int\<close> is \<open>int\<close> with \<open>wrap64\<close> where an overflow
  matters and a word where the code counts modulo \<open>2 ^ 64\<close> (\<open>Resolver\<close>). Strings are bytes. What
  the code calls outside itself is a record of functions (\<open>net_lib\<close>, \<open>env_lib\<close>, \<open>tls_lib\<close>,
  \<open>http_lib\<close>, \<open>os_lib\<close> and others) whose documented behaviour appears as a named hypothesis of the
  theorems that need it: that \<open>encoding/json\<close> gives back a value whose strings are valid UTF-8, but
  for an empty \<open>Meta\<close>; what etcd promises of leases, histories and watches; what Redis promises of
  \<open>XADD\<close>, \<open>XREADGROUP\<close> and \<open>XAUTOCLAIM\<close>; the statements of a database and the cascading foreign key
  of the migrations. What the code cannot see stays visible in the model: whether custom credentials
  verify a peer, whether a release fails. Concurrency is a step relation whose steps are the stretches between the
  points where the code releases its locks or waits: concurrent calls of a breaker, probes and
  late checks, calls under the concurrency limit, requests being measured, and the keep-alive
  loops of etcd against registrations.

  \<^bold>\<open>Interfaces.\<close>
  \<open>step_invariant\<close> and \<open>step_monotone\<close> carry an invariant or a growing measure of a step relation to
  all reachable states (breaker, limiter, watch loop, key watches, reloads, metrics, readiness, rate
  limiter, Consul loops, log files). \<open>sanitizer\<close> is a function that returns only acceptable values and
  keeps them (trimming, trace identifiers, backend names, instance lists, retry configurations).
  \<open>event_feed\<close> is what a registry backend promises the followers of its channel, with etcd and
  Consul as instances. \<open>backoff_policy\<close> and \<open>growing_backoff\<close> are what a loop relies on.
  \<open>byte_reader\<close> is the contract of \<open>io.Reader\<close>, kept by readers in memory and by the bounded response
  body. Each is interpreted on the model of the code, in the theory that provides it.

  \<^bold>\<open>What the lemmas show.\<close>
  Invariants over every interleaving (single probe of a breaker, bounded calls, exact gauge of
  requests in flight, readiness on evidence, bounded memory of the limiter), refinements of an
  abstract directory or map by both registries and their watches, through reconnects, and by the
  example service, isolation of its workspaces and of the copies of the configuration, what the HTTP
  and gRPC chains answer to every request, safety of configuration
  (validated before use, no secrets from remote layers, reloads that change no static field),
  start and stop in order with the release of every resource tried once on every path, so that only a
  release that failed itself leaves one open, bounds on attempts, delays
  and bodies, correctness of the topological sort, that no error of any shape leaks its causes, that
  logs do not leak tokens, and that the scaffolding stays inside its project. Where the code does not do
  what it means to, the theorem states what it does: a panic in a probe that locks a breaker, a
  response body cancelled before it is read, a second document after a late panic, a watch that keeps
  an instance whose key was overwritten, custom credentials that \<open>RequireTLS\<close> takes unverified,
  client certificates checked against the public roots, a registration race on etcd, stale messages that block a consumer group, a program that
  is checked in one place and run in another.

  \<^bold>\<open>Bounds and fuel.\<close>
  The depth of the depth-first sort is the number of components plus one, and more depth changes
  nothing (\<open>Components\<close>). The retry loop recurses on the attempts left, at most five. Collecting
  the results of the checks recurses on the events of a probe (\<open>Readiness\<close>); a stream is read with
  a given list of buffer sizes, and one size more than the stream has bytes is always enough
  (\<open>Byte_Reader\<close>). Every other recursion is structural or has a measure.

  \<^bold>\<open>Not modelled.\<close>
  The two example programs (\<open>example/cmd\<close>, \<open>example/gateway/cmd\<close>), which only wire modelled parts;
  reading and decoding a file by viper; the libraries of etcd, Consul, Prometheus, OpenTelemetry,
  gRPC, gin, gorm, redis and golang-migrate, which are parameters (a service label of the metrics is
  taken to be valid UTF-8 when a request starts); a setup that panics, after which \<open>Run\<close> does not
  return, beyond that nothing is closed then; the text of log
  lines and error messages; type aliases and functions that only forward. Goroutine scheduling inside one step and data races
  are outside the model.
\<close>

end
